(* ===== verification/Prelude.thy ===== *)
theory Prelude
  imports Complex_Main "HOL-Library.Char_ord" "HOL-Library.List_Lexorder" "HOL-Library.AList"
begin

text \<open>
  Shared vocabulary of the development: the exceptions the Python code raises and the
  result type that carries them, Python dictionaries as association lists in insertion
  order, \<open>dict.fromkeys\<close>, stable sorting, and \<open>min\<close>/\<open>max\<close> with a key.
\<close>

section \<open>Exceptions and results\<close>

text \<open>
  One constructor per exception class of the source; the string is the fixed part of the
  message (or the \<open>code\<close> attribute, for the classes that have one).  \<open>IntegrityError\<close> is the
  exception SQLite raises for a violated UNIQUE or PRIMARY KEY constraint.
\<close>

datatype exn =
    ValueError string
  | KeyError string
  | PermissionError string
  | RuntimeError string
  | OverflowError string
  | AssertionError string
  | BudgetExceededError
  | IntegrityError string
  | TypeError string
  | StoreIntegrityError string
  | TemporalValidationError string
  | ExtractionValidationError string
  | AttributeError string
  | ZlibError string
  | SnapshotIntegrityError string string string

type_synonym 'a result = "exn + 'a"

text \<open>Sequencing of calls that may raise: an exception skips the rest.\<close>

definition bindr :: "'a result \<Rightarrow> ('a \<Rightarrow> 'b result) \<Rightarrow> 'b result" where
  "bindr r f = (case r of Inl e \<Rightarrow> Inl e | Inr x \<Rightarrow> f x)"

text \<open>Evaluation inlines the sequencing, so that a continuation is only entered with a value.\<close>

declare bindr_def [code_unfold]

lemma bindr_Inl [simp]: "bindr (Inl e) f = Inl e"
  by (simp add: bindr_def)

lemma bindr_Inr [simp]: "bindr (Inr x) f = f x"
  by (simp add: bindr_def)

lemma bindr_eq_Inr [simp]: "bindr r f = Inr y \<longleftrightarrow> (\<exists>x. r = Inr x \<and> f x = Inr y)"
  by (cases r) auto

lemma bindr_assoc: "bindr (bindr r f) g = bindr r (\<lambda>x. bindr (f x) g)"
  by (cases r) auto

definition guardr :: "bool \<Rightarrow> exn \<Rightarrow> unit result" where
  "guardr b e = (if b then Inr () else Inl e)"

lemma guardr_eq_Inr [simp]: "guardr b e = Inr u \<longleftrightarrow> b"
  by (simp add: guardr_def)

lemma guardr_True [simp]: "guardr True e = Inr ()"
  by (simp add: guardr_def)

lemma guardr_False [simp]: "guardr False e = Inl e"
  by (simp add: guardr_def)

definition is_ok :: "'a result \<Rightarrow> bool" where
  "is_ok r = (case r of Inl _ \<Rightarrow> False | Inr _ \<Rightarrow> True)"

lemma is_ok_simps [simp]: "\<not> is_ok (Inl e)" "is_ok (Inr x)"
  by (simp_all add: is_ok_def)

lemma is_ok_iff: "is_ok r \<longleftrightarrow> (\<exists>x. r = Inr x)"
  by (cases r) auto

text \<open>Mapping a raising function over a list, left to right, stopping at the first error.\<close>

fun mapr :: "('a \<Rightarrow> 'b result) \<Rightarrow> 'a list \<Rightarrow> 'b list result" where
  "mapr f [] = Inr []"
| "mapr f (x # xs) = bindr (f x) (\<lambda>y. bindr (mapr f xs) (\<lambda>ys. Inr (y # ys)))"

lemma mapr_length: "mapr f xs = Inr ys \<Longrightarrow> length ys = length xs"
  by (induction xs arbitrary: ys) auto

lemma mapr_nth: "mapr f xs = Inr ys \<Longrightarrow> i < length xs \<Longrightarrow> f (xs ! i) = Inr (ys ! i)"
proof (induction xs arbitrary: ys i)
  case Nil
  then show ?case by simp
next
  case (Cons x xs)
  then show ?case by (cases i) auto
qed

section \<open>Ordered dictionaries\<close>

text \<open>
  A Python \<open>dict\<close> keeps insertion order; storing to an existing key keeps its place.
  \<open>AList.update\<close> is exactly that, \<open>AList.delete\<close> is \<open>pop\<close>, \<open>map_of\<close> the lookup.
\<close>

type_synonym ('k, 'v) dict = "('k \<times> 'v) list"

abbreviation dget :: "('k, 'v) dict \<Rightarrow> 'k \<Rightarrow> 'v option" where
  "dget d k \<equiv> map_of d k"

abbreviation dset :: "'k \<Rightarrow> 'v \<Rightarrow> ('k, 'v) dict \<Rightarrow> ('k, 'v) dict" where
  "dset k v d \<equiv> AList.update k v d"

abbreviation dpop :: "'k \<Rightarrow> ('k, 'v) dict \<Rightarrow> ('k, 'v) dict" where
  "dpop k d \<equiv> AList.delete k d"

abbreviation dkeys :: "('k, 'v) dict \<Rightarrow> 'k list" where
  "dkeys d \<equiv> map fst d"

definition dwf :: "('k, 'v) dict \<Rightarrow> bool" where
  "dwf d \<longleftrightarrow> distinct (dkeys d)"

lemma dget_dset [simp]: "dget (dset k v d) k' = (if k' = k then Some v else dget d k')"
  by (induction d) auto

lemma dwf_Nil [simp]: "dwf []"
  by (simp add: dwf_def)

lemma set_keys_dset [simp]: "set (dkeys (dset k v d)) = insert k (set (dkeys d))"
  by (induction d) auto

lemma dwf_dset [simp]: "dwf d \<Longrightarrow> dwf (dset k v d)"
  by (simp add: dwf_def distinct_update)

lemma dget_dpop [simp]: "dget (dpop k d) k' = (if k' = k then None else dget d k')"
  by (induction d) auto

definition dget_default :: "('k, 'v) dict \<Rightarrow> 'k \<Rightarrow> 'v \<Rightarrow> 'v" where
  "dget_default d k x = (case dget d k of None \<Rightarrow> x | Some v \<Rightarrow> v)"

text \<open>\<open>dict.setdefault(k, x)\<close>: keep an existing binding.\<close>

definition dsetdefault :: "'k \<Rightarrow> 'v \<Rightarrow> ('k, 'v) dict \<Rightarrow> ('k, 'v) dict" where
  "dsetdefault k x d = (case dget d k of None \<Rightarrow> dset k x d | Some _ \<Rightarrow> d)"

lemma dget_dsetdefault [simp]:
  "dget (dsetdefault k x d) k' =
     (if k' = k then (case dget d k of None \<Rightarrow> Some x | Some v \<Rightarrow> Some v) else dget d k')"
  by (auto simp: dsetdefault_def split: option.splits)

text \<open>\<open>dict.update(other)\<close> and \<open>{**d, **other}\<close>.\<close>

definition dupdate :: "('k, 'v) dict \<Rightarrow> ('k, 'v) dict \<Rightarrow> ('k, 'v) dict" where
  "dupdate d other = foldl (\<lambda>acc (k, v). dset k v acc) d other"

lemma dwf_dupdate [simp]: "dwf d \<Longrightarrow> dwf (dupdate d other)"
  unfolding dupdate_def by (induction other arbitrary: d) auto

section \<open>Lists\<close>

text \<open>\<open>tuple(dict.fromkeys(xs))\<close>: duplicates dropped, the first occurrence kept.\<close>

definition uniq :: "'a list \<Rightarrow> 'a list" where
  "uniq xs = rev (remdups (rev xs))"

lemma set_uniq [simp]: "set (uniq xs) = set xs"
  by (simp add: uniq_def)

lemma distinct_uniq [simp]: "distinct (uniq xs)"
  by (simp add: uniq_def)

lemma uniq_Nil [simp]: "uniq [] = []"
  by (simp add: uniq_def)

lemma uniq_eq_Nil [simp]: "uniq xs = [] \<longleftrightarrow> xs = []"
  by (simp add: uniq_def)

lemma uniq_distinct [simp]: "distinct xs \<Longrightarrow> uniq xs = xs"
  by (simp add: uniq_def distinct_remdups_id)

lemma uniq_snoc: "uniq (xs @ [x]) = (if x \<in> set xs then uniq xs else uniq xs @ [x])"
  by (simp add: uniq_def)

text \<open>\<open>xs[-n:]\<close> for a positive \<open>n\<close>, and \<open>xs[:-n]\<close>.\<close>

definition take_last :: "nat \<Rightarrow> 'a list \<Rightarrow> 'a list" where
  "take_last n xs = drop (length xs - n) xs"

definition drop_last :: "nat \<Rightarrow> 'a list \<Rightarrow> 'a list" where
  "drop_last n xs = take (length xs - n) xs"

lemma drop_take_last [simp]: "drop_last n xs @ take_last n xs = xs"
  by (simp add: drop_last_def take_last_def)

lemma length_take_last [simp]: "length (take_last n xs) = min n (length xs)"
  by (simp add: take_last_def)

lemma set_take_last_subset: "set (take_last n xs) \<subseteq> set xs"
  by (simp add: take_last_def set_drop_subset)

lemma find_Some_iff2: "List.find P xs = Some x \<Longrightarrow> x \<in> set xs \<and> P x"
  by (auto simp: find_Some_iff)

text \<open>
  \<open>sorted(xs, key=f)\<close> is stable; with \<open>reverse=True\<close> it is stable too, in descending
  order.  \<open>max(xs, key=f)\<close> and \<open>min(xs, key=f)\<close> return the first extremal element.
\<close>

definition sorted_rev_key :: "('a \<Rightarrow> 'b::linorder) \<Rightarrow> 'a list \<Rightarrow> 'a list" where
  "sorted_rev_key f xs = rev (sort_key f (rev xs))"

lemma set_sorted_rev_key [simp]: "set (sorted_rev_key f xs) = set xs"
  by (simp add: sorted_rev_key_def)

lemma length_sorted_rev_key [simp]: "length (sorted_rev_key f xs) = length xs"
  by (simp add: sorted_rev_key_def)

lemma distinct_sorted_rev_key [simp]: "distinct (sorted_rev_key f xs) = distinct xs"
  by (simp add: sorted_rev_key_def)

fun min_key :: "('a \<Rightarrow> 'b::linorder) \<Rightarrow> 'a \<Rightarrow> 'a list \<Rightarrow> 'a" where
  "min_key f x [] = x"
| "min_key f x (y # ys) = (if f y < f x then min_key f y ys else min_key f x ys)"

lemma min_key_in: "min_key f x xs \<in> insert x (set xs)"
  by (induction xs arbitrary: x) auto

lemma min_key_le: "y \<in> insert x (set xs) \<Longrightarrow> f (min_key f x xs) \<le> f y"
proof (induction xs arbitrary: x y)
  case Nil
  then show ?case by simp
next
  case (Cons z zs)
  have hd: "f (min_key f w zs) \<le> f w" for w
    using Cons.IH[of w w] by simp
  consider "y = x" | "y = z" | "y \<in> set zs" using Cons.prems by auto
  then show ?case
  proof cases
    case 1
    then show ?thesis using hd[of x] hd[of z] by (auto intro: order_trans)
  next
    case 2
    then show ?thesis using hd[of x] hd[of z] by (auto intro: order_trans)
  next
    case 3
    then show ?thesis using Cons.IH[of y x] Cons.IH[of y z] by simp
  qed
qed

fun max_key :: "('a \<Rightarrow> 'b::linorder) \<Rightarrow> 'a \<Rightarrow> 'a list \<Rightarrow> 'a" where
  "max_key f x [] = x"
| "max_key f x (y # ys) = (if f x < f y then max_key f y ys else max_key f x ys)"

lemma max_key_in: "max_key f x xs \<in> insert x (set xs)"
  by (induction xs arbitrary: x) auto

lemma max_key_ge: "y \<in> insert x (set xs) \<Longrightarrow> f y \<le> f (max_key f x xs)"
proof (induction xs arbitrary: x y)
  case Nil
  then show ?case by simp
next
  case (Cons z zs)
  have hd: "f w \<le> f (max_key f w zs)" for w
    using Cons.IH[of w w] by simp
  consider "y = x" | "y = z" | "y \<in> set zs" using Cons.prems by auto
  then show ?case
  proof cases
    case 1
    then show ?thesis using hd[of x] hd[of z] by (auto intro: order_trans)
  next
    case 2
    then show ?thesis using hd[of x] hd[of z] by (auto intro: order_trans)
  next
    case 3
    then show ?thesis using Cons.IH[of y x] Cons.IH[of y z] by simp
  qed
qed

text \<open>The greatest element of a non-empty list, 0 for an empty one (\<open>max(best, ...)\<close> loops).\<close>

definition max0 :: "nat list \<Rightarrow> nat" where
  "max0 xs = foldr max xs 0"

lemma max0_ge: "x \<in> set xs \<Longrightarrow> x \<le> max0 xs"
  unfolding max0_def by (induction xs) auto

lemma max0_in: "max0 xs = 0 \<or> max0 xs \<in> set xs"
  unfolding max0_def by (induction xs) (auto simp: max_def)

end
