(* ===== verification/PyText.thy ===== *)
theory PyText
  imports Prelude
begin

text \<open>
  Python's \<open>str\<close> operations on the code points U+0000 to U+00FF: a \<open>char\<close> is one code
  point of that range, so \<open>length\<close> is Python's \<open>len\<close>.  Characters above U+00FF (the
  Cyrillic keyword tables of the source, the full-width question mark) have no \<open>char\<close>.
  The functions follow the library: \<open>str.isspace\<close>, \<open>casefold\<close>, \<open>split()\<close>,
  \<open>splitlines\<close>, \<open>join\<close>, \<open>strip\<close>, \<open>removeprefix\<close>, \<open>in\<close>, \<open>replace\<close>, the UTF-8
  length, decimal printing, and \<open>json.dumps\<close> with sorted keys.
\<close>

section \<open>Characters\<close>

definition code :: "char \<Rightarrow> nat" where
  "code c = of_char c"

definition is_space :: "char \<Rightarrow> bool" where
  "is_space c \<longleftrightarrow> (9 \<le> code c \<and> code c \<le> 13) \<or> (28 \<le> code c \<and> code c \<le> 32)
     \<or> code c = 133 \<or> code c = 160"

definition is_linebreak :: "char \<Rightarrow> bool" where
  "is_linebreak c \<longleftrightarrow> (10 \<le> code c \<and> code c \<le> 13) \<or> (28 \<le> code c \<and> code c \<le> 30) \<or> code c = 133"

definition is_digit :: "char \<Rightarrow> bool" where
  "is_digit c \<longleftrightarrow> 48 \<le> code c \<and> code c \<le> 57"

definition is_upper_ascii :: "char \<Rightarrow> bool" where
  "is_upper_ascii c \<longleftrightarrow> 65 \<le> code c \<and> code c \<le> 90"

definition is_lower_ascii :: "char \<Rightarrow> bool" where
  "is_lower_ascii c \<longleftrightarrow> 97 \<le> code c \<and> code c \<le> 122"

definition is_letter_latin :: "char \<Rightarrow> bool" where
  "is_letter_latin c \<longleftrightarrow> is_upper_ascii c \<or> is_lower_ascii c \<or> code c = 170 \<or> code c = 181
     \<or> code c = 186 \<or> (192 \<le> code c \<and> code c \<noteq> 215 \<and> code c \<noteq> 247)"

text \<open>The class \<open>\w\<close> of \<open>re\<close> on this range: alphanumeric or underscore.\<close>

definition is_word :: "char \<Rightarrow> bool" where
  "is_word c \<longleftrightarrow> is_letter_latin c \<or> is_digit c \<or> c = CHR ''_''
     \<or> code c = 178 \<or> code c = 179 \<or> code c = 185 \<or> (188 \<le> code c \<and> code c \<le> 190)"

text \<open>
  \<open>str.casefold\<close>: the capital letters of the range shift by 32, the sharp s becomes two
  letters.  (The micro sign folds to a Greek letter outside the range and is left alone.)
\<close>

definition fold_char :: "char \<Rightarrow> string" where
  "fold_char c =
     (if is_upper_ascii c \<or> (192 \<le> code c \<and> code c \<le> 222 \<and> code c \<noteq> 215)
      then [char_of (code c + 32)]
      else if code c = 223 then ''ss'' else [c])"

definition casefold :: "string \<Rightarrow> string" where
  "casefold s = concat (map fold_char s)"

text \<open>Evaluation decides the classes of a character on its bits.\<close>

definition upper_bits :: "bool \<Rightarrow> bool \<Rightarrow> bool \<Rightarrow> bool \<Rightarrow> bool \<Rightarrow> bool" where
  "upper_bits b0 b1 b2 b3 b4 =
     (if b4 then \<not> b3 \<or> (\<not> b2 \<and> \<not> (b1 \<and> b0)) else b3 \<or> b2 \<or> b1 \<or> b0)"

lemmas char_class_defs = code_def upper_bits_def of_char_def is_space_def is_linebreak_def is_digit_def
  is_upper_ascii_def is_lower_ascii_def is_letter_latin_def

lemma is_space_bits [code]:
  "is_space (Char b0 b1 b2 b3 b4 b5 b6 b7) \<longleftrightarrow> \<not> b6 \<and>
     (if b5 then \<not> b4 \<and> \<not> b3 \<and> \<not> b2 \<and> \<not> b1 \<and> \<not> b0
      else if b7 then \<not> b4 \<and> \<not> b3 \<and> b2 \<and> \<not> b1 \<and> b0
      else b3 \<and> (if b4 then b2 else if b2 then \<not> b1 else b0 \<or> b1))"
  by (cases b0; cases b1; cases b2; cases b3; cases b4; cases b5; cases b6; cases b7)
    (simp_all add: char_class_defs)

lemma is_linebreak_bits [code]:
  "is_linebreak (Char b0 b1 b2 b3 b4 b5 b6 b7) \<longleftrightarrow> \<not> b6 \<and> \<not> b5 \<and>
     (if b7 then \<not> b4 \<and> \<not> b3 \<and> b2 \<and> \<not> b1 \<and> b0
      else b3 \<and> (if b4 then b2 \<and> \<not> (b1 \<and> b0) else if b2 then \<not> b1 else b1))"
  by (cases b0; cases b1; cases b2; cases b3; cases b4; cases b5; cases b6; cases b7)
    (simp_all add: char_class_defs)

lemma is_digit_bits [code]:
  "is_digit (Char b0 b1 b2 b3 b4 b5 b6 b7) \<longleftrightarrow> \<not> b7 \<and> \<not> b6 \<and> b5 \<and> b4 \<and> (\<not> b3 \<or> (\<not> b2 \<and> \<not> b1))"
  by (cases b0; cases b1; cases b2; cases b3; cases b4; cases b5; cases b6; cases b7)
    (simp_all add: char_class_defs)

lemma is_upper_ascii_bits [code]:
  "is_upper_ascii (Char b0 b1 b2 b3 b4 b5 b6 b7) \<longleftrightarrow> \<not> b7 \<and> b6 \<and> \<not> b5 \<and> upper_bits b0 b1 b2 b3 b4"
  by (cases b0; cases b1; cases b2; cases b3; cases b4; cases b5; cases b6; cases b7)
    (simp_all add: char_class_defs)

lemma is_lower_ascii_bits [code]:
  "is_lower_ascii (Char b0 b1 b2 b3 b4 b5 b6 b7) \<longleftrightarrow> \<not> b7 \<and> b6 \<and> b5 \<and> upper_bits b0 b1 b2 b3 b4"
  by (cases b0; cases b1; cases b2; cases b3; cases b4; cases b5; cases b6; cases b7)
    (simp_all add: char_class_defs)

lemma is_letter_bits [code]:
  "is_letter_latin (Char b0 b1 b2 b3 b4 b5 b6 b7) \<longleftrightarrow>
     (if b7 then (let n = code (Char b0 b1 b2 b3 b4 b5 b6 b7) in n = 170 \<or> n = 181 \<or> n = 186 \<or> (192 \<le> n \<and> n \<noteq> 215 \<and> n \<noteq> 247))
      else b6 \<and> upper_bits b0 b1 b2 b3 b4)"
  by (cases b0; cases b1; cases b2; cases b3; cases b4; cases b5; cases b6; cases b7)
    (simp_all add: char_class_defs)

lemma fold_char_bits [code]:
  "fold_char (Char b0 b1 b2 b3 b4 b5 b6 b7) =
     (if b7 then (let n = code (Char b0 b1 b2 b3 b4 b5 b6 b7) in
        if 192 \<le> n \<and> n \<le> 222 \<and> n \<noteq> 215 then [char_of (n + 32)] else if n = 223 then ''ss''
        else [Char b0 b1 b2 b3 b4 b5 b6 b7])
      else [Char b0 b1 b2 b3 b4 (b5 \<or> b6 \<and> upper_bits b0 b1 b2 b3 b4) b6 b7])"
  by (cases b0; cases b1; cases b2; cases b3; cases b4; cases b5; cases b6; cases b7)
    (simp_all add: char_class_defs fold_char_def char_of_def bit_0)

lemma code_below_128: "code (Char b0 b1 b2 b3 b4 b5 b6 b7) < 128 \<longleftrightarrow> \<not> b7"
  by (cases b0; cases b1; cases b2; cases b3; cases b4; cases b5; cases b6; cases b7)
    (simp_all add: code_def of_char_def)

lemma is_word_bits [code]:
  "is_word (Char b0 b1 b2 b3 b4 b5 b6 b7) \<longleftrightarrow>
     (let c = Char b0 b1 b2 b3 b4 b5 b6 b7
      in is_letter_latin c \<or> is_digit c \<or>
         (if b7 then code c = 178 \<or> code c = 179 \<or> code c = 185 \<or> (188 \<le> code c \<and> code c \<le> 190) else c = CHR ''_''))"
  using code_below_128[of b0 b1 b2 b3 b4 b5 b6 b7] by (cases b7) (auto simp: is_word_def Let_def)

lemma casefold_Nil [simp]: "casefold [] = []"
  by (simp add: casefold_def)

lemma casefold_append [simp]: "casefold (s @ t) = casefold s @ casefold t"
  by (simp add: casefold_def)

text \<open>\<open>s.encode("utf-8")\<close>, a byte being a \<open>char\<close> too, and the number of bytes.\<close>

definition utf8_char :: "char \<Rightarrow> char list" where
  "utf8_char c =
     (if code c < 128 then [c] else [char_of (192 + code c div 64), char_of (128 + code c mod 64)])"

lemma utf8_char_bits [code]:
  "utf8_char (Char b0 b1 b2 b3 b4 b5 b6 b7) =
     (let c = Char b0 b1 b2 b3 b4 b5 b6 b7
      in if b7 then [char_of (192 + code c div 64), char_of (128 + code c mod 64)] else [c])"
  by (simp add: utf8_char_def code_below_128 Let_def)

definition utf8_encode :: "string \<Rightarrow> char list" where
  "utf8_encode s = concat (map utf8_char s)"

definition utf8_len :: "string \<Rightarrow> nat" where
  "utf8_len s = length (utf8_encode s)"

lemma code_inject: "code c = code d \<longleftrightarrow> c = d"
  by (simp add: code_def)

lemma code_less: "code c < 256"
  by (simp add: code_def)

lemma code_of: "n < 256 \<Longrightarrow> code (char_of n) = n"
  by (simp add: code_def of_char_of)

lemma utf8_encode_Nil [simp]: "utf8_encode [] = []"
  by (simp add: utf8_encode_def)

lemma utf8_encode_Cons: "utf8_encode (c # s) = utf8_char c @ utf8_encode s"
  by (simp add: utf8_encode_def)

lemma utf8_encode_append [simp]: "utf8_encode (s @ t) = utf8_encode s @ utf8_encode t"
  by (simp add: utf8_encode_def)

lemma utf8_char_ne [simp]: "utf8_char c \<noteq> []"
  by (simp add: utf8_char_def)

lemma utf8_char_prefix_free: "utf8_char c @ x = utf8_char d @ y \<Longrightarrow> c = d \<and> x = y"
proof -
  assume a: "utf8_char c @ x = utf8_char d @ y"
  have b: "192 + code e div 64 < 256" "128 + code e mod 64 < 256" for e
    using code_less[of e] by auto
  have h1: "code (hd (utf8_char e @ z)) = code e" if "code e < 128" for e z
    using that by (simp add: utf8_char_def)
  have h2: "192 \<le> code (hd (utf8_char e @ z))" if "\<not> code e < 128" for e z
    using that b[of e] by (simp add: utf8_char_def code_of)
  have lead: "(code c < 128) = (code d < 128)"
    using h1[of c x] h1[of d y] h2[of c x] h2[of d y] unfolding a by linarith
  show ?thesis
  proof (cases "code c < 128")
    case True
    then show ?thesis using a lead by (simp add: utf8_char_def)
  next
    case False
    then have "\<not> code d < 128" using lead by simp
    then have e1: "char_of (192 + code c div 64) = (char_of (192 + code d div 64) :: char)"
      "char_of (128 + code c mod 64) = (char_of (128 + code d mod 64) :: char)" "x = y"
      using a False by (simp_all only: utf8_char_def if_False append_Cons append_Nil list.inject)
    have "192 + code c div 64 = 192 + code d div 64" using arg_cong[OF e1(1), of code] by (simp only: code_of[OF b(1)])
    moreover have "128 + code c mod 64 = 128 + code d mod 64" using arg_cong[OF e1(2), of code] by (simp only: code_of[OF b(2)])
    ultimately have "code c div 64 * 64 + code c mod 64 = code d div 64 * 64 + code d mod 64"
      by linarith
    then have "code c = code d" by (simp only: div_mult_mod_eq)
    then show ?thesis using e1(3) code_inject by blast
  qed
qed

lemma utf8_encode_inject: "utf8_encode s = utf8_encode t \<longleftrightarrow> s = t"
proof (induction s arbitrary: t)
  case Nil
  then show ?case by (cases t) (simp_all add: utf8_encode_Cons)
next
  case (Cons c s)
  then show ?case
    by (cases t) (auto simp: utf8_encode_Cons dest: utf8_char_prefix_free)
qed

lemma utf8_len_Nil [simp]: "utf8_len [] = 0"
  by (simp add: utf8_len_def)

lemma utf8_len_append [simp]: "utf8_len (s @ t) = utf8_len s + utf8_len t"
  by (simp add: utf8_len_def)

lemma utf8_len_ge_length: "length s \<le> utf8_len s"
  by (induction s) (auto simp: utf8_len_def utf8_encode_Cons utf8_char_def)

section \<open>Stripping and prefixes\<close>

definition lstrip :: "string \<Rightarrow> string" where
  "lstrip s = dropWhile is_space s"

definition rstrip :: "string \<Rightarrow> string" where
  "rstrip s = rev (dropWhile is_space (rev s))"

definition strip :: "string \<Rightarrow> string" where
  "strip s = rstrip (lstrip s)"

text \<open>\<open>s.rstrip(chars)\<close> and \<open>s.strip(chars)\<close> for a set of characters.\<close>

definition rstrip_chars :: "char list \<Rightarrow> string \<Rightarrow> string" where
  "rstrip_chars cs s = rev (dropWhile (\<lambda>c. c \<in> set cs) (rev s))"

definition strip_chars :: "char list \<Rightarrow> string \<Rightarrow> string" where
  "strip_chars cs s = rstrip_chars cs (dropWhile (\<lambda>c. c \<in> set cs) s)"

definition starts_with :: "string \<Rightarrow> string \<Rightarrow> bool" where
  "starts_with p s \<longleftrightarrow> take (length p) s = p"

lemma starts_with_code [code]:
  "starts_with [] s = True"
  "starts_with (c # p) [] = False"
  "starts_with (c # p) (d # s) = (c = d \<and> starts_with p s)"
  by (auto simp: starts_with_def)

definition ends_with :: "string \<Rightarrow> string \<Rightarrow> bool" where
  "ends_with p s \<longleftrightarrow> starts_with (rev p) (rev s)"

definition removeprefix :: "string \<Rightarrow> string \<Rightarrow> string" where
  "removeprefix p s = (if starts_with p s then drop (length p) s else s)"

lemma starts_with_iff: "starts_with p s \<longleftrightarrow> (\<exists>t. s = p @ t)"
  by (metis append_eq_conv_conj starts_with_def append_take_drop_id)

lemma ends_with_iff: "ends_with p s \<longleftrightarrow> (\<exists>t. s = t @ p)"
  unfolding ends_with_def starts_with_iff
  by (metis rev_append rev_rev_ident)

lemma starts_with_Nil [simp]: "starts_with [] s"
  by (simp add: starts_with_def)

lemma set_rstrip_subset: "set (rstrip s) \<subseteq> set s"
  by (auto simp: rstrip_def dest: set_dropWhileD)

section \<open>Substrings\<close>

fun contains :: "string \<Rightarrow> string \<Rightarrow> bool" where
  "contains p [] = (p = [])"
| "contains p (c # s) = (starts_with p (c # s) \<or> contains p s)"

lemma contains_iff: "contains p s \<longleftrightarrow> (\<exists>u v. s = u @ p @ v)"
proof (induction s)
  case Nil
  then show ?case by auto
next
  case (Cons c s)
  show ?case (is "?L \<longleftrightarrow> ?R")
  proof
    assume ?L
    then consider "starts_with p (c # s)" | "contains p s" by auto
    then show ?R
    proof cases
      case 1
      then show ?thesis unfolding starts_with_iff by (metis append_Nil)
    next
      case 2
      then show ?thesis using Cons.IH by (metis append_Cons)
    qed
  next
    assume ?R
    then obtain u v where uv: "c # s = u @ p @ v" by blast
    show ?L
    proof (cases u)
      case Nil
      then have "starts_with p (c # s)" using uv unfolding starts_with_iff by auto
      then show ?thesis by simp
    next
      case (Cons x xs)
      then show ?thesis using uv \<open>contains p s = (\<exists>u v. s = u @ p @ v)\<close> by auto
    qed
  qed
qed

text \<open>\<open>s.find(p, i)\<close> on the rest of the text: the offset of the first occurrence.\<close>

fun find_sub :: "string \<Rightarrow> string \<Rightarrow> nat option" where
  "find_sub p [] = (if p = [] then Some 0 else None)"
| "find_sub p (c # s) = (if starts_with p (c # s) then Some 0 else map_option Suc (find_sub p s))"

text \<open>\<open>s.replace(old, new)\<close> for a non-empty \<open>old\<close>: left to right, not overlapping.\<close>

function replace_all :: "string \<Rightarrow> string \<Rightarrow> string \<Rightarrow> string" where
  "replace_all old new [] = []"
| "replace_all old new (c # s) =
     (if old \<noteq> [] \<and> starts_with old (c # s)
      then new @ replace_all old new (drop (length old) (c # s))
      else c # replace_all old new s)"
  by pat_completeness auto
termination
  by (relation "measure (\<lambda>(old, new, s). length s)") (auto simp: length_greater_0_conv)

section \<open>Splitting and joining\<close>

fun split_acc :: "string \<Rightarrow> string \<Rightarrow> string list" where
  "split_acc cur [] = (if cur = [] then [] else [cur])"
| "split_acc cur (c # s) =
     (if is_space c then (if cur = [] then split_acc [] s else cur # split_acc [] s)
      else split_acc (cur @ [c]) s)"

definition split_ws :: "string \<Rightarrow> string list" where
  "split_ws s = split_acc [] s"

lemma split_acc_ok:
  "\<forall>c \<in> set cur. \<not> is_space c \<Longrightarrow>
   w \<in> set (split_acc cur s) \<Longrightarrow> w \<noteq> [] \<and> (\<forall>c \<in> set w. \<not> is_space c)"
proof (induction cur s rule: split_acc.induct)
  case (1 cur)
  then show ?case by (cases "cur = []") simp_all
next
  case (2 cur c s)
  show ?case
  proof (cases "is_space c")
    case True
    note sp = True
    show ?thesis
    proof (cases "cur = []")
      case True
      then have "w \<in> set (split_acc [] s)" using sp 2(5) by simp
      then show ?thesis using 2(1)[OF sp True] by simp
    next
      case False
      then consider "w = cur" | "w \<in> set (split_acc [] s)" using sp 2(5) by auto
      then show ?thesis using 2(2)[OF sp False] 2(4) False by cases simp_all
    qed
  next
    case False
    then have "w \<in> set (split_acc (cur @ [c]) s)" using 2(5) by simp
    moreover have "\<forall>d \<in> set (cur @ [c]). \<not> is_space d" using 2(4) False by auto
    ultimately show ?thesis using 2(3)[OF False] by blast
  qed
qed

lemma split_ws_words:
  "w \<in> set (split_ws s) \<Longrightarrow> w \<noteq> [] \<and> (\<forall>c \<in> set w. \<not> is_space c)"
  using split_acc_ok[of "[]"] by (simp add: split_ws_def)

fun join :: "string \<Rightarrow> string list \<Rightarrow> string" where
  "join sep [] = []"
| "join sep [x] = x"
| "join sep (x # y # ys) = x @ sep @ join sep (y # ys)"

lemma join_Cons: "join sep (x # xs) = (if xs = [] then x else x @ sep @ join sep xs)"
  by (cases xs) auto

lemma join_snoc: "join sep (xs @ [x]) = (if xs = [] then x else join sep xs @ sep @ x)"
  by (induction xs) (auto simp: join_Cons)

text \<open>The lines of a text with their terminators; \<open>\r\n\<close> is one terminator.\<close>

fun lines_acc :: "string \<Rightarrow> string \<Rightarrow> (string \<times> string) list" where
  "lines_acc cur [] = (if cur = [] then [] else [(cur, [])])"
| "lines_acc cur (c # s) =
     (if c = CHR 0x0D \<and> s \<noteq> [] \<and> hd s = CHR 0x0A
      then (cur, [CHR 0x0D, CHR 0x0A]) # lines_acc [] (tl s)
      else if is_linebreak c then (cur, [c]) # lines_acc [] s
      else lines_acc (cur @ [c]) s)"

definition splitlines :: "string \<Rightarrow> string list" where
  "splitlines s = map fst (lines_acc [] s)"

definition splitlines_keep :: "string \<Rightarrow> string list" where
  "splitlines_keep s = map (\<lambda>(l, e). l @ e) (lines_acc [] s)"

lemma concat_lines_acc: "concat (map (\<lambda>(l, e). l @ e) (lines_acc cur s)) = cur @ s"
proof (induction cur s rule: lines_acc.induct)
  case (1 cur)
  then show ?case by simp
next
  case (2 cur c s)
  then show ?case by (cases s) auto
qed

lemma concat_splitlines_keep [simp]: "concat (splitlines_keep s) = s"
  by (simp add: splitlines_keep_def concat_lines_acc)

lemma is_linebreak_CR [simp]: "is_linebreak (CHR 0x0D)"
  by (simp add: is_linebreak_def code_def)

lemma is_linebreak_LF [simp]: "is_linebreak (CHR 0x0A)"
  by (simp add: is_linebreak_def code_def)

lemma lines_acc_no_break:
  "\<forall>c \<in> set cur. \<not> is_linebreak c \<Longrightarrow> (l, e) \<in> set (lines_acc cur s) \<Longrightarrow>
   \<forall>c \<in> set l. \<not> is_linebreak c"
proof (induction cur s rule: lines_acc.induct)
  case (1 cur)
  then show ?case by (cases "cur = []") simp_all
next
  case (2 cur c s)
  consider "c = CHR 0x0D \<and> s \<noteq> [] \<and> hd s = CHR 0x0A"
    | "\<not> (c = CHR 0x0D \<and> s \<noteq> [] \<and> hd s = CHR 0x0A)" "is_linebreak c"
    | "\<not> is_linebreak c" by blast
  then show ?case
  proof cases
    case b: 1
    then have eq: "lines_acc cur (c # s) = (cur, [CHR 0x0D, CHR 0x0A]) # lines_acc [] (tl s)" by auto
    consider "l = cur" | "(l, e) \<in> set (lines_acc [] (tl s))" using 2(5) unfolding eq by auto
    then show ?thesis using 2(1)[OF b] 2(4) by cases simp_all
  next
    case b: 2
    then have eq: "lines_acc cur (c # s) = (cur, [c]) # lines_acc [] s" by auto
    consider "l = cur" | "(l, e) \<in> set (lines_acc [] s)" using 2(5) unfolding eq by auto
    then show ?thesis using 2(2)[OF b] 2(4) by cases simp_all
  next
    case b: 3
    then have eq: "lines_acc cur (c # s) = lines_acc (cur @ [c]) s" by auto
    have n: "\<not> (c = CHR 0x0D \<and> s \<noteq> [] \<and> hd s = CHR 0x0A)" using b is_linebreak_CR by auto
    have "\<forall>d \<in> set (cur @ [c]). \<not> is_linebreak d" using 2(4) b by auto
    then show ?thesis using 2(3)[OF n b] 2(5) unfolding eq by blast
  qed
qed

lemma splitlines_no_break:
  "l \<in> set (splitlines s) \<Longrightarrow> c \<in> set l \<Longrightarrow> \<not> is_linebreak c"
  using lines_acc_no_break[of "[]"] by (fastforce simp: splitlines_def)

lemma lines_acc_app:
  "\<forall>c \<in> set l. \<not> is_linebreak c \<Longrightarrow> lines_acc cur (l @ s) = lines_acc (cur @ l) s"
proof (induction l arbitrary: cur)
  case Nil
  then show ?case by simp
next
  case (Cons c l)
  then have "c \<noteq> CHR 0x0D" using is_linebreak_CR by auto
  then show ?case using Cons by simp
qed

text \<open>Joining lines with newlines and splitting again gives the lines back.\<close>

lemma splitlines_join:
  assumes "\<forall>l \<in> set ls. \<forall>c \<in> set l. \<not> is_linebreak c" and "ls \<noteq> []" and "last ls \<noteq> []"
  shows "splitlines (join [CHR 0x0A] ls) = ls"
  using assms
proof (induction ls)
  case Nil
  then show ?case by simp
next
  case (Cons l ls)
  have nl: "is_linebreak (CHR 0x0A)" by (simp add: is_linebreak_def code_def)
  have l: "\<forall>c \<in> set l. \<not> is_linebreak c" using Cons.prems by simp
  show ?case
  proof (cases "ls = []")
    case True
    then show ?thesis
      using Cons.prems lines_acc_app[OF l, of "[]" "[]"] by (simp add: splitlines_def)
  next
    case False
    then have "splitlines (join [CHR 0x0A] ls) = ls" using Cons by simp
    then show ?thesis
      using False lines_acc_app[OF l, of "[]"] nl by (simp add: splitlines_def join_Cons)
  qed
qed

section \<open>Numbers in decimal\<close>

fun show_nat :: "nat \<Rightarrow> string" where
  "show_nat n = (if n < 10 then [char_of (48 + n)] else show_nat (n div 10) @ [char_of (48 + n mod 10)])"

declare show_nat.simps [simp del]

definition show_int :: "int \<Rightarrow> string" where
  "show_int i = (if i < 0 then CHR ''-'' # show_nat (nat (- i)) else show_nat (nat i))"

fun read_nat_acc :: "nat \<Rightarrow> string \<Rightarrow> nat option" where
  "read_nat_acc n [] = Some n"
| "read_nat_acc n (c # s) = (if is_digit c then read_nat_acc (10 * n + (code c - 48)) s else None)"

text \<open>\<open>int(s)\<close> on a text of decimal digits.\<close>

definition read_nat :: "string \<Rightarrow> nat option" where
  "read_nat s = (if s = [] then None else read_nat_acc 0 s)"

lemma read_nat_acc_app:
  "read_nat_acc n (s @ t) = (case read_nat_acc n s of None \<Rightarrow> None | Some m \<Rightarrow> read_nat_acc m t)"
  by (induction s arbitrary: n) auto

lemma code_digit: "d < 10 \<Longrightarrow> code (char_of (48 + d)) = 48 + d"
  by (simp add: code_def)

lemma show_nat_ne [simp]: "show_nat n \<noteq> []"
  by (subst show_nat.simps) simp

lemma read_show_acc: "read_nat_acc 0 (show_nat n) = Some n"
proof (induction n rule: show_nat.induct)
  case (1 n)
  have dig: "is_digit (char_of (48 + d))" if "d < 10" for d :: nat
    using that by (simp add: is_digit_def code_digit)
  show ?case
  proof (cases "n < 10")
    case True
    then show ?thesis
      by (subst show_nat.simps) (simp add: dig code_digit)
  next
    case False
    then show ?thesis
      using 1 by (subst show_nat.simps) (simp add: dig code_digit read_nat_acc_app)
  qed
qed

lemma read_nat_show_nat [simp]: "read_nat (show_nat n) = Some n"
  by (simp add: read_nat_def read_show_acc)

lemma show_nat_inj: "show_nat m = show_nat n \<longleftrightarrow> m = n"
  by (metis option.inject read_nat_show_nat)

text \<open>\<open>int(s)\<close> as an integer, and a decimal digit.\<close>

fun read_num_acc :: "int \<Rightarrow> string \<Rightarrow> int option" where
  "read_num_acc n [] = Some n"
| "read_num_acc n (c # s) = (if is_digit c then read_num_acc (10 * n + int (code c - 48)) s else None)"

definition read_num :: "string \<Rightarrow> int option" where
  "read_num s = (if s = [] then None else read_num_acc 0 s)"

definition digit_char :: "int \<Rightarrow> char" where
  "digit_char d = ''0123456789'' ! nat d"

lemma read_num_acc_append:
  "read_num_acc a (s @ t) = (case read_num_acc a s of None \<Rightarrow> None | Some b \<Rightarrow> read_num_acc b t)"
  by (induction s arbitrary: a) auto

lemma read_num_acc_nonneg: "0 \<le> n \<Longrightarrow> read_num_acc n s = Some k \<Longrightarrow> 0 \<le> k"
proof (induction s arbitrary: n)
  case (Cons c s)
  have "0 \<le> 10 * n + int (code c - 48)" using Cons.prems(1) by simp
  moreover have "read_num_acc (10 * n + int (code c - 48)) s = Some k"
    using Cons.prems(2) by (simp split: if_splits)
  ultimately show ?case using Cons.IH by blast
qed simp

lemma read_num_nonneg: "read_num s = Some k \<Longrightarrow> 0 \<le> k"
  by (auto simp: read_num_def split: if_splits intro: read_num_acc_nonneg[of 0])

lemma digit_char_code:
  assumes "0 \<le> d" "d < 10"
  shows "code (digit_char d) = 48 + nat d"
proof -
  have "d = 0 \<or> d = 1 \<or> d = 2 \<or> d = 3 \<or> d = 4" if "d < 5" using assms that by linarith
  moreover have "d = 5 \<or> d = 6 \<or> d = 7 \<or> d = 8 \<or> d = 9" if "\<not> d < 5" using assms that by linarith
  ultimately show ?thesis
    by (cases "d < 5") (auto simp: digit_char_def code_def)
qed

lemma digit_char_digit: "0 \<le> d \<Longrightarrow> d < 10 \<Longrightarrow> is_digit (digit_char d)"
  by (auto simp: is_digit_def digit_char_code)

section \<open>JSON\<close>

text \<open>
  JSON values as \<open>json.loads\<close> returns them; a number with a fraction keeps the text
  \<open>repr\<close> gives it.  Objects are dictionaries in insertion order.
\<close>

datatype json =
    JNull
  | JBool bool
  | JInt int
  | JFloat string
  | JStr string
  | JArr "json list"
  | JObj "(string \<times> json) list"

text \<open>\<open>value.get(key)\<close> on an object; Python's truth value of a JSON value.\<close>

definition jget :: "(string, json) dict \<Rightarrow> string \<Rightarrow> json" where
  "jget d k = (case dget d k of None \<Rightarrow> JNull | Some v \<Rightarrow> v)"

lemma jget_dset [simp]: "jget (dset k v d) k' = (if k' = k then v else jget d k')"
  by (simp add: jget_def)

fun truthy :: "json \<Rightarrow> bool" where
  "truthy JNull = False"
| "truthy (JBool b) = b"
| "truthy (JInt i) = (i \<noteq> 0)"
| "truthy (JFloat s) = (s \<noteq> ''0.0'' \<and> s \<noteq> ''-0.0'')"
| "truthy (JStr s) = (s \<noteq> [])"
| "truthy (JArr xs) = (xs \<noteq> [])"
| "truthy (JObj kvs) = (kvs \<noteq> [])"

definition hex_digit :: "nat \<Rightarrow> char" where
  "hex_digit n = (if n < 10 then char_of (48 + n) else char_of (87 + n))"

text \<open>String escapes of \<open>json.dumps(..., ensure_ascii=False)\<close>.\<close>

definition json_escape :: "char \<Rightarrow> string" where
  "json_escape c =
     (if c = CHR 0x22 then [CHR 0x5C, CHR 0x22]
      else if c = CHR 0x5C then [CHR 0x5C, CHR 0x5C]
      else if c = CHR 0x0A then [CHR 0x5C, CHR ''n'']
      else if c = CHR 0x0D then [CHR 0x5C, CHR ''r'']
      else if c = CHR 0x09 then [CHR 0x5C, CHR ''t'']
      else if c = CHR 0x0C then [CHR 0x5C, CHR ''f'']
      else if c = CHR 0x08 then [CHR 0x5C, CHR ''b'']
      else if code c < 32
      then [CHR 0x5C, CHR ''u'', CHR ''0'', CHR ''0'', hex_digit (code c div 16), hex_digit (code c mod 16)]
      else [c])"

definition json_string :: "string \<Rightarrow> string" where
  "json_string s = [CHR 0x22] @ concat (map json_escape s) @ [CHR 0x22]"

text \<open>\<open>json.dumps(value, ensure_ascii=False, sort_keys=True, separators=(",", ":"))\<close>.\<close>

fun json_text :: "json \<Rightarrow> string" where
  "json_text JNull = ''null''"
| "json_text (JBool b) = (if b then ''true'' else ''false'')"
| "json_text (JInt i) = show_int i"
| "json_text (JFloat s) = s"
| "json_text (JStr s) = json_string s"
| "json_text (JArr xs) = ''['' @ join '','' (map json_text xs) @ '']''"
| "json_text (JObj kvs) =
     ''{'' @ join '','' (map (\<lambda>(k, t). json_string k @ '':'' @ t)
        (sort_key fst (map (\<lambda>(k, v). (k, json_text v)) kvs))) @ ''}''"

text \<open>
  \<open>repr\<close> and \<open>str\<close> of a value: single quotes unless the text has one and no double quote;
  what is not printable becomes an escape.
\<close>

definition repr_char :: "char \<Rightarrow> char \<Rightarrow> string" where
  "repr_char quote c =
     (if c = quote \<or> c = CHR 0x5C then [CHR 0x5C, c]
      else if c = CHR 0x0A then [CHR 0x5C, CHR ''n'']
      else if c = CHR 0x0D then [CHR 0x5C, CHR ''r'']
      else if c = CHR 0x09 then [CHR 0x5C, CHR ''t'']
      else if code c < 32 \<or> (127 \<le> code c \<and> code c \<le> 160) \<or> code c = 173
      then [CHR 0x5C, CHR ''x'', hex_digit (code c div 16), hex_digit (code c mod 16)]
      else [c])"

definition repr_str :: "string \<Rightarrow> string" where
  "repr_str s =
     (let quote = (if CHR 0x27 \<in> set s \<and> CHR 0x22 \<notin> set s then CHR 0x22 else CHR 0x27)
      in [quote] @ concat (map (repr_char quote) s) @ [quote])"

fun py_repr :: "json \<Rightarrow> string" where
  "py_repr JNull = ''None''"
| "py_repr (JBool b) = (if b then ''True'' else ''False'')"
| "py_repr (JInt i) = show_int i"
| "py_repr (JFloat s) = s"
| "py_repr (JStr s) = repr_str s"
| "py_repr (JArr xs) = ''['' @ join '', '' (map py_repr xs) @ '']''"
| "py_repr (JObj kvs) = ''{'' @ join '', '' (map (\<lambda>(k, v). repr_str k @ '': '' @ py_repr v) kvs) @ ''}''"

definition py_str :: "json \<Rightarrow> string" where
  "py_str v = (case v of JStr s \<Rightarrow> s | _ \<Rightarrow> py_repr v)"

end
