(* ===== verification/Authority.thy ===== *)
theory Authority
  imports PyText
begin

text \<open>
  Who may change what.  \<open>models.py\<close>'s canonical event, \<open>provenance.py\<close>'s derivation of an
  evidence type from an event, \<open>policy_contract.py\<close>, and the flow tables and cross-entity
  invariants of \<open>transition_rules.py\<close>.
\<close>

section \<open>Events\<close>

datatype event_kind = MESSAGE | TOOL_CALL | TOOL_OUTPUT | ARTIFACT | STATE | MEMORY_BLOCK

fun kind_value :: "event_kind \<Rightarrow> string" where
  "kind_value MESSAGE = ''message''"
| "kind_value TOOL_CALL = ''tool_call''"
| "kind_value TOOL_OUTPUT = ''tool_output''"
| "kind_value ARTIFACT = ''artifact''"
| "kind_value STATE = ''state''"
| "kind_value MEMORY_BLOCK = ''memory_block''"

record event =
  ev_seq :: int
  ev_id :: string
  ev_branch :: string
  ev_session :: "string option"
  ev_kind :: string
  ev_role :: "string option"
  ev_channel :: string
  ev_adapter :: "string option"
  ev_content :: string
  ev_payload :: "(string, json) dict"
  ev_files :: "string list"
  ev_created :: string
  ev_prev :: "string option"
  ev_chash :: string
  ev_chain :: string

section \<open>Provenance\<close>

definition PUBLIC_API :: string where "PUBLIC_API = ''public_api''"
definition HOST_HOOK :: string where "HOST_HOOK = ''host_hook''"
definition INTERNAL :: string where "INTERNAL = ''internal''"
definition LEGACY_UNTRUSTED :: string where "LEGACY_UNTRUSTED = ''legacy_untrusted''"

lemmas channel_defs = PUBLIC_API_def HOST_HOOK_def INTERNAL_def LEGACY_UNTRUSTED_def

definition SETTLEMENT_REQUEST_OPERATION :: string where
  "SETTLEMENT_REQUEST_OPERATION = ''settlement_requested''"

definition WORKSTREAM_REQUEST_OPERATION :: string where
  "WORKSTREAM_REQUEST_OPERATION = ''workstream_transition_requested''"

datatype origin =
    EXTERNAL_UNTRUSTED | HOST_LOGICAL_USER | HOST_ASSISTANT_FINALIZATION
  | LOCAL_OPERATOR | DELEGATED_AGENT | BOOTSTRAP_TOFU

text \<open>\<open>event.role or ""\<close>, folded; \<open>bool(event.origin_adapter)\<close>.\<close>

definition or_empty :: "string option \<Rightarrow> string" where
  "or_empty r = (case r of None \<Rightarrow> [] | Some s \<Rightarrow> s)"

definition origin_evidence_type :: "event \<Rightarrow> origin" where
  "origin_evidence_type e =
     (if ev_channel e = HOST_HOOK \<and> casefold (or_empty (ev_role e)) = ''user''
      then HOST_LOGICAL_USER
      else if ev_channel e = HOST_HOOK
        \<and> casefold (or_empty (ev_role e)) = ''assistant''
        \<and> jget (ev_payload e) ''hook_event_name'' = JStr ''Stop''
        \<and> or_empty (ev_adapter e) \<noteq> []
        \<and> jget (ev_payload e) ''_joiny_origin_adapter'' = JStr (or_empty (ev_adapter e))
      then HOST_ASSISTANT_FINALIZATION
      else if ev_channel e = INTERNAL
        \<and> jget (ev_payload e) ''operation'' = JStr ''policy_bootstrapped''
      then BOOTSTRAP_TOFU
      else if ev_channel e = INTERNAL
        \<and> (jget (ev_payload e) ''operation'' = JStr SETTLEMENT_REQUEST_OPERATION
           \<or> jget (ev_payload e) ''operation'' = JStr WORKSTREAM_REQUEST_OPERATION)
      then (if jget (ev_payload e) ''requested_by'' = JStr ''operator'' then LOCAL_OPERATOR
            else if jget (ev_payload e) ''requested_by'' = JStr ''agent'' then DELEGATED_AGENT
            else EXTERNAL_UNTRUSTED)
      else EXTERNAL_UNTRUSTED)"

definition is_host_logical_user :: "event \<Rightarrow> bool" where
  "is_host_logical_user e \<longleftrightarrow> origin_evidence_type e = HOST_LOGICAL_USER"

definition policy_activation_allowed :: "origin \<Rightarrow> bool" where
  "policy_activation_allowed origin \<longleftrightarrow> origin = BOOTSTRAP_TOFU \<or> origin = HOST_LOGICAL_USER"

lemma untrusted_channel:
  "ev_channel e \<noteq> HOST_HOOK \<Longrightarrow> ev_channel e \<noteq> INTERNAL \<Longrightarrow> origin_evidence_type e = EXTERNAL_UNTRUSTED"
  by (simp add: origin_evidence_type_def)

lemma origin_of_host_hook:
  "ev_channel e = HOST_HOOK \<Longrightarrow> origin_evidence_type e \<in>
     {HOST_LOGICAL_USER, HOST_ASSISTANT_FINALIZATION, EXTERNAL_UNTRUSTED}"
  by (simp add: origin_evidence_type_def channel_defs)

lemma origin_of_internal:
  "ev_channel e = INTERNAL \<Longrightarrow> origin_evidence_type e \<in>
     {BOOTSTRAP_TOFU, LOCAL_OPERATOR, DELEGATED_AGENT, EXTERNAL_UNTRUSTED}"
  by (simp add: origin_evidence_type_def channel_defs)

section \<open>Flow tables\<close>

type_synonym flow = "(string \<times> string list) list"

definition WORKSTREAM_FLOW :: flow where
  "WORKSTREAM_FLOW =
    [(''active'', [''blocked'', ''completed'', ''cancelled'']),
     (''blocked'', [''active'', ''completed'', ''cancelled'']),
     (''completed'', []),
     (''cancelled'', [])]"

definition CANDIDATE_FLOW :: flow where
  "CANDIDATE_FLOW =
    [(''auto'', [''confirmation_requested'', ''rejection_requested'', ''supersession_requested'']),
     (''quarantined'', [''confirmation_requested'', ''rejection_requested'']),
     (''confirmation_requested'', [''confirmed'', ''rejected'']),
     (''rejection_requested'', [''rejected'']),
     (''supersession_requested'', [''superseded'']),
     (''confirmed'', [''supersession_requested'']),
     (''rejected'', []),
     (''superseded'', [])]"

definition FINDING_FLOW :: flow where
  "FINDING_FLOW =
    [(''active'', [''acknowledgement_requested'']),
     (''acknowledgement_requested'', [''acknowledged'']),
     (''acknowledged'', [])]"

definition SETTLEMENT_FLOW :: flow where
  "SETTLEMENT_FLOW =
    [(''pending'', [''applied'', ''contested'']),
     (''applied'', [''reverted'', ''contested'']),
     (''reverted'', []),
     (''contested'', [])]"

lemmas flow_defs = WORKSTREAM_FLOW_def CANDIDATE_FLOW_def FINDING_FLOW_def SETTLEMENT_FLOW_def

text \<open>\<open>target in rule.flow.get(current, frozenset())\<close>.\<close>

definition flow_allows :: "flow \<Rightarrow> string \<Rightarrow> string \<Rightarrow> bool" where
  "flow_allows f current target = (target \<in> set (dget_default f current []))"

definition USER_OR_OPERATOR :: "origin list" where
  "USER_OR_OPERATOR = [HOST_LOGICAL_USER, LOCAL_OPERATOR]"

definition USER_OPERATOR_OR_DELEGATE :: "origin list" where
  "USER_OPERATOR_OR_DELEGATE = [HOST_LOGICAL_USER, LOCAL_OPERATOR, DELEGATED_AGENT]"

record transition_rule =
  tr_name :: string
  tr_flow :: flow
  tr_trusted_targets :: "string list"
  tr_trusted_origins :: "origin list"
  tr_reopen_origins :: "origin list"

record transition_decision =
  td_changed :: bool
  td_origin :: origin

section \<open>Validating a transition\<close>

definition validate_transition ::
  "transition_rule \<Rightarrow> string \<Rightarrow> string \<Rightarrow> origin \<Rightarrow> bool \<Rightarrow> bool \<Rightarrow> bool \<Rightarrow> string \<Rightarrow> bool
    \<Rightarrow> transition_decision result" where
  "validate_transition rule current target origin source_visible delegated_enabled reopen reason system_actor =
     (if \<not> source_visible
      then Inl (PermissionError ''source event is not visible in the target branch'')
      else if current = target then Inr \<lparr>td_changed = False, td_origin = origin\<rparr>
      else if origin = DELEGATED_AGENT \<and> \<not> delegated_enabled
      then Inl (PermissionError ''delegated transition requires agent_settlement_delegation_enabled=true'')
      else if reopen
      then (if target \<noteq> ''active'' \<or> current \<notin> set [''completed'', ''cancelled'']
            then Inl (ValueError (tr_name rule @ '' reopen is only valid from a terminal state''))
            else if strip reason = [] then Inl (ValueError ''reopen requires a non-empty reason'')
            else if origin \<notin> set (tr_reopen_origins rule)
            then Inl (PermissionError (tr_name rule @ '' reopen requires a trusted origin''))
            else Inr \<lparr>td_changed = True, td_origin = origin\<rparr>)
      else if \<not> flow_allows (tr_flow rule) current target
      then Inl (ValueError (''illegal '' @ tr_name rule @ '' transition: '' @ current @ '' -> '' @ target))
      else if \<not> system_actor \<and> target \<in> set (tr_trusted_targets rule)
              \<and> origin \<notin> set (tr_trusted_origins rule)
      then Inl (PermissionError (tr_name rule @ '' transition to '' @ target @ '' requires a trusted origin''))
      else Inr \<lparr>td_changed = True, td_origin = origin\<rparr>)"

definition WORKSTREAM_RULE :: transition_rule where
  "WORKSTREAM_RULE =
     \<lparr>tr_name = ''workstream'', tr_flow = WORKSTREAM_FLOW,
      tr_trusted_targets = [''completed'', ''cancelled''],
      tr_trusted_origins = USER_OPERATOR_OR_DELEGATE,
      tr_reopen_origins = USER_OPERATOR_OR_DELEGATE\<rparr>"

definition CANDIDATE_RULE :: transition_rule where
  "CANDIDATE_RULE =
     \<lparr>tr_name = ''memory candidate'', tr_flow = CANDIDATE_FLOW,
      tr_trusted_targets = [''confirmed'', ''rejected'', ''superseded''],
      tr_trusted_origins = USER_OPERATOR_OR_DELEGATE,
      tr_reopen_origins = []\<rparr>"

definition FINDING_RULE :: transition_rule where
  "FINDING_RULE =
     \<lparr>tr_name = ''security finding'', tr_flow = FINDING_FLOW,
      tr_trusted_targets = [''acknowledged''],
      tr_trusted_origins = USER_OR_OPERATOR,
      tr_reopen_origins = []\<rparr>"

definition SETTLEMENT_RULE :: transition_rule where
  "SETTLEMENT_RULE =
     \<lparr>tr_name = ''settlement'', tr_flow = SETTLEMENT_FLOW,
      tr_trusted_targets = [''applied'', ''reverted'', ''contested''],
      tr_trusted_origins = [BOOTSTRAP_TOFU, HOST_LOGICAL_USER, LOCAL_OPERATOR, DELEGATED_AGENT],
      tr_reopen_origins = []\<rparr>"

lemmas rule_defs = WORKSTREAM_RULE_def CANDIDATE_RULE_def FINDING_RULE_def SETTLEMENT_RULE_def
  USER_OR_OPERATOR_def USER_OPERATOR_OR_DELEGATE_def

section \<open>What a validated transition guarantees\<close>

lemma flow_target: "flow_allows f c t \<Longrightarrow> t \<in> set (concat (map snd f))"
proof -
  assume a: "flow_allows f c t"
  then obtain ts where "dget f c = Some ts" "t \<in> set ts"
    by (cases "dget f c") (auto simp: flow_allows_def dget_default_def)
  then show ?thesis using map_of_SomeD[of f c ts] by force
qed

lemma validated_change:
  assumes "validate_transition rule current target org visible deleg reopen reason sys = Inr d"
    and "td_changed d"
  shows "visible" "current \<noteq> target" "td_origin d = org" "org = DELEGATED_AGENT \<Longrightarrow> deleg"
    and "reopen \<Longrightarrow> target = ''active'' \<and> org \<in> set (tr_reopen_origins rule)"
    and "\<not> reopen \<Longrightarrow> target \<in> set (concat (map snd (tr_flow rule)))"
    and "\<not> reopen \<Longrightarrow> target \<in> set (tr_trusted_targets rule) \<Longrightarrow>
           sys \<or> org \<in> set (tr_trusted_origins rule)"
  using assms unfolding validate_transition_def
  by (auto split: if_splits dest: flow_target)

text \<open>The states of the four ledgers that settle something.\<close>

definition settled_states :: "string list" where
  "settled_states = [''confirmed'', ''rejected'', ''superseded'', ''acknowledged'', ''applied'',
     ''reverted'', ''contested'', ''completed'', ''cancelled'']"

definition four_rules :: "transition_rule list" where
  "four_rules = [WORKSTREAM_RULE, CANDIDATE_RULE, FINDING_RULE, SETTLEMENT_RULE]"

lemma settled_are_trusted:
  "rule \<in> set four_rules \<Longrightarrow> target \<in> set (concat (map snd (tr_flow rule))) \<Longrightarrow>
     target \<in> set settled_states \<Longrightarrow> target \<in> set (tr_trusted_targets rule)"
  by (auto simp: four_rules_def rule_defs flow_defs settled_states_def)

lemma trusted_origins:
  "rule \<in> set four_rules \<Longrightarrow> org \<in> set (tr_trusted_origins rule) \<union> set (tr_reopen_origins rule) \<Longrightarrow>
     org \<notin> {EXTERNAL_UNTRUSTED, HOST_ASSISTANT_FINALIZATION}"
  by (auto simp: four_rules_def rule_defs)

lemma delegate_not_ack:
  "rule \<in> set four_rules \<Longrightarrow> target \<in> set (concat (map snd (tr_flow rule))) \<Longrightarrow>
     DELEGATED_AGENT \<in> set (tr_trusted_origins rule) \<Longrightarrow> target \<noteq> ''acknowledged''"
  by (auto simp: four_rules_def rule_defs flow_defs)

text \<open>
  C2: untrusted text can request, it can never settle on its own account.  For each of the
  four ledgers and every argument, a validated change of status cites a visible source and
  really changes the status; if the source's origin is untrusted, the change is no reopening,
  and its target settles nothing (no candidate confirmed, rejected or superseded, no finding
  acknowledged, no settlement applied, reverted or contested, no workstream completed or
  cancelled) unless the caller passed the system exemption, which in the code only
  \<open>settle_candidate\<close> does, for the actor ``system''.  Delegation takes effect only when
  it is enabled, and without the exemption a delegate never acknowledges a finding.
\<close>

theorem untrusted_never_settles:
  assumes rule: "rule \<in> set four_rules"
    and ok: "validate_transition rule current target org visible deleg reopen reason sys = Inr d"
    and changed: "td_changed d"
  shows "visible \<and> current \<noteq> target \<and> td_origin d = org
    \<and> (org \<in> {EXTERNAL_UNTRUSTED, HOST_ASSISTANT_FINALIZATION} \<longrightarrow>
         \<not> reopen \<and> (target \<in> set settled_states \<longrightarrow> sys))
    \<and> (org = DELEGATED_AGENT \<longrightarrow> deleg \<and> (target = ''acknowledged'' \<longrightarrow> sys))"
proof (intro conjI impI)
  note c = validated_change[OF ok changed]
  show "visible" "current \<noteq> target" "td_origin d = org" using c by blast+
  show "\<not> reopen" if "org \<in> {EXTERNAL_UNTRUSTED, HOST_ASSISTANT_FINALIZATION}"
    using that c(5) trusted_origins[OF rule, of org] by blast
  show sys if "org \<in> {EXTERNAL_UNTRUSTED, HOST_ASSISTANT_FINALIZATION}" "target \<in> set settled_states"
    using that c(5,6,7) trusted_origins[OF rule, of org] settled_are_trusted[OF rule, of target] by blast
  assume d: "org = DELEGATED_AGENT"
  show deleg using c(4) d by blast
  assume a: "target = ''acknowledged''"
  then have "\<not> reopen" using c(5) by auto
  then show sys
    using a d c(6,7) settled_are_trusted[OF rule, of target] delegate_not_ack[OF rule, of target]
    by (auto simp: settled_states_def)
qed

theorem untrusted_never_settles_witness:
  "\<exists>d. validate_transition CANDIDATE_RULE ''auto'' ''confirmation_requested'' EXTERNAL_UNTRUSTED True
          False False [] False = Inr d \<and> td_changed d \<and> td_origin d = EXTERNAL_UNTRUSTED
     \<and> ''confirmation_requested'' \<noteq> ''confirmed''"
proof -
  let ?v = "validate_transition CANDIDATE_RULE ''auto'' ''confirmation_requested'' EXTERNAL_UNTRUSTED True
          False False [] False"
  have v: "?v = Inr \<lparr>td_changed = True, td_origin = EXTERNAL_UNTRUSTED\<rparr>"
    by (simp add: validate_transition_def rule_defs flow_allows_def flow_defs dget_default_def)
  have "CANDIDATE_RULE \<in> set four_rules" by (simp add: four_rules_def)
  then show ?thesis
    using untrusted_never_settles[OF _ v] v by simp
qed

end
