(* ===== verification/PyRegex.thy ===== *)
theory PyRegex
  imports PyText
begin

text \<open>
  The fragment of Python's \<open>re\<close> the program uses: a backtracking matcher that lists the
  matches of an expression at a position in the engine's order of preference.  \<open>re.match\<close>
  takes the first, \<open>fullmatch\<close> the first that ends the text, \<open>search\<close> the first at the
  leftmost position, \<open>finditer\<close> continues behind each match.  Flags such as
  \<open>re.IGNORECASE\<close> are part of the character predicates.
\<close>

datatype rx =
    REps
  | RChar "char \<Rightarrow> bool"
  | RSeq rx rx
  | RAlt rx rx
  | RStar rx
  | RLazy rx
  | RGroup nat rx
  | RBound
  | RBegin
  | REnd
  | RNotBehind "char \<Rightarrow> bool"
  | RNotAhead "char \<Rightarrow> bool"

text \<open>A position: the character before it, the text after it, the groups matched so far.\<close>

type_synonym pos = "char option \<times> string \<times> (nat \<times> string) list"

definition rest_of :: "pos \<Rightarrow> string" where
  "rest_of p = fst (snd p)"

definition groups_of :: "pos \<Rightarrow> (nat \<times> string) list" where
  "groups_of p = snd (snd p)"

lemma rest_of_simp [simp]: "rest_of (p, s, g) = s"
  by (simp add: rest_of_def)

lemma groups_of_simp [simp]: "groups_of (p, s, g) = g"
  by (simp add: groups_of_def)

definition word_opt :: "char option \<Rightarrow> bool" where
  "word_opt c = (case c of None \<Rightarrow> False | Some x \<Rightarrow> is_word x)"

definition head_opt :: "string \<Rightarrow> char option" where
  "head_opt s = (case s of [] \<Rightarrow> None | c # _ \<Rightarrow> Some c)"

definition shorter :: "pos \<Rightarrow> pos \<Rightarrow> bool" where
  "shorter q p \<longleftrightarrow> length (rest_of q) < length (rest_of p)"

function (sequential) rmatch :: "rx \<Rightarrow> pos \<Rightarrow> pos list" where
  "rmatch REps p = [p]"
| "rmatch (RChar P) (b, s, g) = (case s of [] \<Rightarrow> [] | c # t \<Rightarrow> if P c then [(Some c, t, g)] else [])"
| "rmatch (RSeq r1 r2) p = concat (map (rmatch r2) (rmatch r1 p))"
| "rmatch (RAlt r1 r2) p = rmatch r1 p @ rmatch r2 p"
| "rmatch (RStar r) p =
     concat (map (\<lambda>q. if shorter q p then rmatch (RStar r) q else []) (rmatch r p)) @ [p]"
| "rmatch (RLazy r) p =
     p # concat (map (\<lambda>q. if shorter q p then rmatch (RLazy r) q else []) (rmatch r p))"
| "rmatch (RGroup n r) (b, s, g) =
     map (\<lambda>(b', s', g'). (b', s', (n, take (length s - length s') s) # g')) (rmatch r (b, s, g))"
| "rmatch RBound (b, s, g) = (if word_opt b \<noteq> word_opt (head_opt s) then [(b, s, g)] else [])"
| "rmatch RBegin (b, s, g) = (if b = None then [(b, s, g)] else [])"
| "rmatch REnd (b, s, g) = (if s = [] then [(b, s, g)] else [])"
| "rmatch (RNotBehind P) (b, s, g) = (if (case b of None \<Rightarrow> True | Some c \<Rightarrow> \<not> P c) then [(b, s, g)] else [])"
| "rmatch (RNotAhead P) (b, s, g) =
     (if (case head_opt s of None \<Rightarrow> True | Some c \<Rightarrow> \<not> P c) then [(b, s, g)] else [])"
  by pat_completeness auto
termination
  by (relation "measures [\<lambda>(r, p). size r, \<lambda>(r, p). length (rest_of p)]") (auto simp: shorter_def)

text \<open>The two loops unfold themselves: their equations are used one step at a time.\<close>

declare rmatch.simps(5) [simp del] rmatch.simps(6) [simp del]

lemma rmatch_star_cases:
  "q \<in> set (rmatch (RStar r) p) \<Longrightarrow>
     q = p \<or> (\<exists>m \<in> set (rmatch r p). shorter m p \<and> q \<in> set (rmatch (RStar r) m))"
  by (subst (asm) rmatch.simps(5)) (auto split: if_splits)

lemma rmatch_lazy_cases:
  "q \<in> set (rmatch (RLazy r) p) \<Longrightarrow>
     q = p \<or> (\<exists>m \<in> set (rmatch r p). shorter m p \<and> q \<in> set (rmatch (RLazy r) m))"
  by (subst (asm) rmatch.simps(6)) (auto split: if_splits)

text \<open>A match consumes a prefix of the text.\<close>

lemma rmatch_suffix: "q \<in> set (rmatch r p) \<Longrightarrow> \<exists>u. rest_of p = u @ rest_of q"
proof (induction r p arbitrary: q rule: rmatch.induct)
  case (3 r1 r2 p)
  then obtain m where m: "m \<in> set (rmatch r1 p)" "q \<in> set (rmatch r2 m)" by auto
  show ?case using 3(1)[OF m(1)] 3(2)[OF m] by auto
next
  case (5 r p)
  show ?case
  proof (cases "q = p")
    case False
    then obtain m where m: "m \<in> set (rmatch r p)" "shorter m p" "q \<in> set (rmatch (RStar r) m)"
      using rmatch_star_cases[OF 5(3)] by blast
    show ?thesis using 5(1)[OF m(1)] 5(2)[OF m] by auto
  qed simp
next
  case (6 r p)
  show ?case
  proof (cases "q = p")
    case False
    then obtain m where m: "m \<in> set (rmatch r p)" "shorter m p" "q \<in> set (rmatch (RLazy r) m)"
      using rmatch_lazy_cases[OF 6(3)] by blast
    show ?thesis using 6(1)[OF m(1)] 6(2)[OF m] by auto
  qed simp
next
  case (7 n r b s g)
  then obtain m where "m \<in> set (rmatch r (b, s, g))" "rest_of q = rest_of m"
    by (auto simp: rest_of_def split: prod.splits)
  then show ?case using 7(1) by simp
qed (auto split: list.splits if_splits)

section \<open>Building expressions\<close>

fun rlit :: "string \<Rightarrow> rx" where
  "rlit [] = REps"
| "rlit [c] = RChar (\<lambda>x. x = c)"
| "rlit (c # s) = RSeq (RChar (\<lambda>x. x = c)) (rlit s)"

text \<open>A literal under \<open>re.IGNORECASE\<close>.\<close>

fun rlit_i :: "string \<Rightarrow> rx" where
  "rlit_i [] = REps"
| "rlit_i [c] = RChar (\<lambda>x. fold_char x = fold_char c)"
| "rlit_i (c # s) = RSeq (RChar (\<lambda>x. fold_char x = fold_char c)) (rlit_i s)"

fun ralts :: "rx list \<Rightarrow> rx" where
  "ralts [] = RChar (\<lambda>_. False)"
| "ralts [r] = r"
| "ralts (r # rs) = RAlt r (ralts rs)"

fun rseqs :: "rx list \<Rightarrow> rx" where
  "rseqs [] = REps"
| "rseqs [r] = r"
| "rseqs (r # rs) = RSeq r (rseqs rs)"

definition rplus :: "rx \<Rightarrow> rx" where
  "rplus r = RSeq r (RStar r)"

definition ropt :: "rx \<Rightarrow> rx" where
  "ropt r = RAlt r REps"

fun rtimes :: "nat \<Rightarrow> rx \<Rightarrow> rx" where
  "rtimes 0 r = REps"
| "rtimes (Suc n) r = RSeq r (rtimes n r)"

text \<open>\<open>r{m,n}\<close>: at least \<open>m\<close>, then up to \<open>k = n - m\<close> more, as many as possible.\<close>

fun rupto :: "nat \<Rightarrow> rx \<Rightarrow> rx" where
  "rupto 0 r = REps"
| "rupto (Suc k) r = RAlt (RSeq r (rupto k r)) REps"

definition rrange :: "nat \<Rightarrow> nat \<Rightarrow> rx \<Rightarrow> rx" where
  "rrange m n r = RSeq (rtimes m r) (rupto (n - m) r)"

section \<open>Searching\<close>

definition re_match :: "rx \<Rightarrow> string \<Rightarrow> pos option" where
  "re_match r s = (case rmatch r (None, s, []) of [] \<Rightarrow> None | p # _ \<Rightarrow> Some p)"

definition re_fullmatch :: "rx \<Rightarrow> string \<Rightarrow> pos option" where
  "re_fullmatch r s = List.find (\<lambda>p. rest_of p = []) (rmatch r (None, s, []))"

text \<open>The text before the leftmost match, the matched text, and the position behind it.\<close>

fun re_search_from :: "rx \<Rightarrow> char option \<Rightarrow> string \<Rightarrow> string \<Rightarrow> (string \<times> string \<times> pos) option" where
  "re_search_from r b pre [] =
     (case rmatch r (b, [], []) of [] \<Rightarrow> None | q # _ \<Rightarrow> Some (pre, [], q))"
| "re_search_from r b pre (c # s) =
     (case rmatch r (b, c # s, []) of
        q # _ \<Rightarrow> Some (pre, take (length (c # s) - length (rest_of q)) (c # s), q)
      | [] \<Rightarrow> re_search_from r (Some c) (pre @ [c]) s)"

definition re_search :: "rx \<Rightarrow> string \<Rightarrow> (string \<times> string \<times> pos) option" where
  "re_search r s = re_search_from r None [] s"

definition re_found :: "rx \<Rightarrow> string \<Rightarrow> bool" where
  "re_found r s \<longleftrightarrow> re_search r s \<noteq> None"

lemma re_search_from_split:
  "re_search_from r b pre s = Some (u, m, q) \<Longrightarrow> pre @ s = u @ m @ rest_of q"
proof (induction r b pre s rule: re_search_from.induct)
  case (1 r b pre)
  then show ?case using rmatch_suffix[of _ r "(b, [], [])"] by (fastforce split: list.splits)
next
  case (2 r b pre c s)
  show ?case
  proof (cases "rmatch r (b, c # s, [])")
    case Nil
    then show ?thesis using 2 by simp
  next
    case (Cons p ps)
    then obtain v where v: "c # s = v @ rest_of p"
      using rmatch_suffix[of p r "(b, c # s, [])"] by auto
    have "take (length (c # s) - length (rest_of p)) (c # s) = v" unfolding v by simp
    then have "u = pre \<and> m = v \<and> q = p" using 2(2) Cons by simp
    then show ?thesis using v by simp
  qed
qed

lemma re_search_split: "re_search r s = Some (u, m, q) \<Longrightarrow> s = u @ m @ rest_of q"
  using re_search_from_split[of r None "[]" s] by (simp add: re_search_def)

text \<open>
  \<open>re.findall\<close>/\<open>finditer\<close> for expressions that consume at least one character: the matched
  texts with their groups, left to right, not overlapping.
\<close>

function re_findall_from :: "rx \<Rightarrow> char option \<Rightarrow> string \<Rightarrow> (string \<times> (nat \<times> string) list) list" where
  "re_findall_from r b s =
     (case re_search_from r b [] s of
        None \<Rightarrow> []
      | Some (u, m, q) \<Rightarrow>
          if m = [] then []
          else (m, groups_of q) # re_findall_from r (Some (last m)) (rest_of q))"
  by pat_completeness auto
termination
  by (relation "measure (\<lambda>(r, b, s). length s)") (auto dest: re_search_from_split)

declare re_findall_from.simps [simp del]

definition re_findall :: "rx \<Rightarrow> string \<Rightarrow> (string \<times> (nat \<times> string) list) list" where
  "re_findall r s = re_findall_from r None s"

text \<open>
  \<open>pattern.subn(f, s)\<close>, again for expressions that consume something: the text with every
  match replaced, and the number of replacements.
\<close>

function re_subn_from ::
  "rx \<Rightarrow> (string \<Rightarrow> (nat \<times> string) list \<Rightarrow> string) \<Rightarrow> char option \<Rightarrow> string \<Rightarrow> string \<times> nat" where
  "re_subn_from r f b s =
     (case re_search_from r b [] s of
        None \<Rightarrow> (s, 0)
      | Some (u, m, q) \<Rightarrow>
          if m = [] then (s, 0)
          else (let (t, n) = re_subn_from r f (Some (last m)) (rest_of q)
                in (u @ f m (groups_of q) @ t, Suc n)))"
  by pat_completeness auto
termination
  by (relation "measure (\<lambda>(r, f, b, s). length s)") (auto dest: re_search_from_split)

declare re_subn_from.simps [simp del]

definition re_subn :: "rx \<Rightarrow> (string \<Rightarrow> (nat \<times> string) list \<Rightarrow> string) \<Rightarrow> string \<Rightarrow> string \<times> nat" where
  "re_subn r f s = re_subn_from r f None s"

lemma re_subn_count_0: "snd (re_subn r f s) = 0 \<Longrightarrow> fst (re_subn r f s) = s"
  unfolding re_subn_def
  by (subst re_subn_from.simps, subst (asm) re_subn_from.simps)
     (auto split: option.splits prod.splits if_splits)

definition group :: "nat \<Rightarrow> (nat \<times> string) list \<Rightarrow> string option" where
  "group n g = map_of g n"

section \<open>Small facts used to evaluate the program's patterns\<close>

lemma rmatch_rlit:
  "rmatch (rlit p) (b, s, g) =
     (if starts_with p s then [(if p = [] then b else Some (last p), drop (length p) s, g)] else [])"
proof (induction p arbitrary: b s rule: rlit.induct)
  case 1
  then show ?case by simp
next
  case (2 c)
  then show ?case by (cases s) (auto simp: starts_with_def)
next
  case (3 c d s')
  then show ?case by (cases s) (auto simp: starts_with_def)
qed

lemma re_found_rlit: "re_found (rlit p) s \<longleftrightarrow> contains p s"
proof -
  have "(re_search_from (rlit p) b pre s \<noteq> None) \<longleftrightarrow> contains p s" for b pre
  proof (induction s arbitrary: b pre)
    case Nil
    then show ?case by (simp add: rmatch_rlit starts_with_def)
  next
    case (Cons c s)
    then show ?case by (simp add: rmatch_rlit split: list.splits)
  qed
  then show ?thesis by (simp add: re_found_def re_search_def)
qed

end
