(* ===== verification/Tables.thy ===== *)
theory Tables
  imports Authority Security
begin

text \<open>
  The rows of the SQLite store (\<open>storage.py\<close>'s schema, \<open>models.py\<close>'s records), the store
  that holds them, and the outside world an operation may consult.  A table is the list of
  its rows in insertion order.  An operation takes the store and returns its value and the
  new store; when it raises, the enclosing transaction rolls back, so the caller goes on
  with the store it had (theory Transactions).
\<close>

section \<open>The outside world\<close>

text \<open>
  \<open>uuid.uuid4().hex\<close>, the clock's text (\<open>_now()\<close>) and its seconds (\<open>time.time()\<close>), by the number
  of the call; SHA-256 as a hexadecimal
  digest of a list of bytes; the redaction rules configured next to the default ones.
\<close>

record world =
  w_uuid :: "nat \<Rightarrow> string"
  w_now :: "nat \<Rightarrow> string"
  w_time :: "nat \<Rightarrow> rat"
  w_sha256 :: "string \<Rightarrow> string"
  w_rules :: "(string \<times> rx) list"

text \<open>\<open>_hash\<close> of a text: the digest of its UTF-8 bytes.\<close>

definition hash_text :: "world \<Rightarrow> string \<Rightarrow> string" where
  "hash_text w s = w_sha256 w (utf8_encode s)"

section \<open>Rows\<close>

record branch =
  br_id :: string
  br_parent :: "string option"
  br_fork :: "int option"
  br_created :: string

record session =
  se_id :: string
  se_branch :: string
  se_agent :: string
  se_caps :: "(string, json) dict"
  se_started :: string

record hook_binding =
  hb_agent :: string
  hb_external :: string
  hb_branch :: string
  hb_session :: string
  hb_created :: string

record receipt =
  rc_key :: string
  rc_events :: "string list"
  rc_created :: string

record consolidation_receipt =
  cr_event :: string
  cr_result :: json
  cr_created :: string

record artifact =
  ar_id :: string
  ar_event :: string
  ar_name :: string
  ar_mime :: string
  ar_hash :: string
  ar_data :: string
  ar_created :: string

record tool_view =
  tv_id :: string
  tv_event :: string
  tv_level :: string
  tv_reducer :: string
  tv_version :: string
  tv_content :: string
  tv_source_hash :: string
  tv_content_hash :: string
  tv_raw_bytes :: int
  tv_view_bytes :: int
  tv_raw_tokens :: int
  tv_view_tokens :: int
  tv_latency :: int
  tv_metadata :: "(string, json) dict"
  tv_created :: string

record active_block =
  bl_id :: string
  bl_branch :: string
  bl_name :: string
  bl_content :: string
  bl_version :: int
  bl_sources :: "string list"
  bl_supersedes :: "string option"
  bl_cursor :: int
  bl_created :: string

text \<open>
  A Python float that the program compares and copies: the number it is and the text that
  \<open>repr\<close> gives for it.
\<close>

record pyfloat =
  fl_value :: rat
  fl_repr :: string

record memory_record =
  me_id :: string
  me_branch :: string
  me_type :: string
  me_content :: string
  me_summary :: string
  me_files :: "string list"
  me_risk :: pyfloat
  me_cost :: pyfloat
  me_version :: int
  me_sources :: "string list"
  me_supersedes :: "string option"
  me_cursor :: int
  me_created :: string
  me_metadata :: "(string, json) dict"
  me_from :: "string option"
  me_to :: "string option"
  me_from_precision :: "string option"
  me_to_precision :: "string option"
  me_expression :: "string option"

text \<open>The interpretation ledger: extractor runs, their attempts, candidates and transitions.\<close>

record extractor_config =
  ec_hash :: string
  ec_descriptor :: string
  ec_created :: string

record wakeup =
  wk_config :: string
  wk_generation :: int
  wk_owner :: "string option"
  wk_lease :: "rat option"
  wk_updated :: string

record extraction_run =
  ru_id :: string
  ru_event :: string
  ru_config :: string
  ru_created :: string

record attempt_start =
  as_id :: string
  as_run :: string
  as_no :: int
  as_started :: string

record extraction_attempt =
  at_id :: string
  at_run :: string
  at_no :: int
  at_outcome :: string
  at_started :: string
  at_finished :: string
  at_error :: "string option"
  at_redacted :: "string option"
  at_raw :: "string option"

text \<open>The payload of a raw response is kept as the text that the code compresses.\<close>

record raw_response =
  rr_id :: string
  rr_attempt :: string
  rr_payload :: string
  rr_created :: string

record rejection =
  rj_id :: string
  rj_run :: string
  rj_attempt :: string
  rj_candidate :: string
  rj_code :: string
  rj_error :: string
  rj_created :: string

record candidate =
  ca_id :: string
  ca_run :: string
  ca_attempt :: string
  ca_type :: string
  ca_content :: string
  ca_quote :: string
  ca_start :: int
  ca_end :: int
  ca_zone :: string
  ca_confidence :: pyfloat
  ca_kind :: string
  ca_created :: string

record candidate_move =
  mv_id :: string
  mv_candidate :: string
  mv_from :: "string option"
  mv_to :: string
  mv_event :: string
  mv_actor :: string
  mv_rule :: string
  mv_origin :: origin
  mv_repl_candidate :: "string option"
  mv_repl_memory :: "string option"
  mv_run :: "string option"
  mv_created :: string

record memory_link =
  ln_id :: string
  ln_candidate :: string
  ln_memory :: string
  ln_relation :: string
  ln_event :: string
  ln_created :: string

text \<open>Policies, security findings, workstreams, finalizations.\<close>

record policy_row =
  po_id :: string
  po_version :: int
  po_hash :: string
  po_policy :: "(string, json) dict"
  po_event :: string
  po_previous :: "string option"
  po_operation :: string
  po_origin :: origin
  po_created :: string

record finding =
  fi_id :: string
  fi_key :: string
  fi_type :: string
  fi_details :: "(string, json) dict"
  fi_event :: string
  fi_created :: string

record finding_move =
  fm_id :: string
  fm_finding :: string
  fm_from :: "string option"
  fm_to :: string
  fm_event :: string
  fm_actor :: string
  fm_origin :: origin
  fm_created :: string

record task_version =
  tk_id :: string
  tk_key :: string
  tk_branch :: string
  tk_version :: int
  tk_title :: string
  tk_status :: string
  tk_parent :: "string option"
  tk_sources :: "string list"
  tk_snapshot :: "string option"
  tk_metadata :: "(string, json) dict"
  tk_created :: string

record task_binding =
  tb_session :: string
  tb_key :: string
  tb_created :: string

record finalization_row =
  fz_id :: string
  fz_event :: string
  fz_branch :: string
  fz_type :: string
  fz_status :: string
  fz_content :: string
  fz_memory :: "string option"
  fz_created :: string

record quarantine_row =
  qz_id :: string
  qz_event :: string
  qz_reason :: string
  qz_raw :: string
  qz_created :: string

section \<open>The store\<close>

record store =
  st_branches :: "branch list"
  st_sessions :: "session list"
  st_hooks :: "hook_binding list"
  st_events :: "event list"
  st_receipts :: "receipt list"
  st_consolidation :: "consolidation_receipt list"
  st_artifacts :: "artifact list"
  st_views :: "tool_view list"
  st_blocks :: "active_block list"
  st_memories :: "memory_record list"
  st_configs :: "extractor_config list"
  st_wakeups :: "wakeup list"
  st_runs :: "extraction_run list"
  st_starts :: "attempt_start list"
  st_attempts :: "extraction_attempt list"
  st_raws :: "raw_response list"
  st_rejections :: "rejection list"
  st_candidates :: "candidate list"
  st_moves :: "candidate_move list"
  st_links :: "memory_link list"
  st_policies :: "policy_row list"
  st_findings :: "finding list"
  st_finding_moves :: "finding_move list"
  st_tasks :: "task_version list"
  st_bindings :: "task_binding list"
  st_finalizations :: "finalization_row list"
  st_quarantine :: "quarantine_row list"
  st_uuid :: nat
  st_tick :: nat

definition main_branch :: "string \<Rightarrow> branch" where
  "main_branch now = \<lparr>br_id = ''main'', br_parent = None, br_fork = None, br_created = now\<rparr>"

text \<open>
  What \<open>_initialize\<close> and the migrations leave in an empty database: the branch \<open>main\<close> and
  the configuration that settlement candidates cite.
\<close>

definition SETTLEMENT_CONFIG_HASH :: string where
  "SETTLEMENT_CONFIG_HASH = ''settlement-reconciler-v1''"

definition settlement_config :: "string \<Rightarrow> extractor_config" where
  "settlement_config now =
     \<lparr>ec_hash = SETTLEMENT_CONFIG_HASH,
      ec_descriptor = json_text (JObj [(''extractor'', JStr ''deterministic-settlement''),
        (''version'', JStr SETTLEMENT_CONFIG_HASH)]),
      ec_created = now\<rparr>"

definition initial_store :: "world \<Rightarrow> store" where
  "initial_store w =
     \<lparr>st_branches = [main_branch (w_now w 1)], st_sessions = [], st_hooks = [], st_events = [],
      st_receipts = [], st_consolidation = [], st_artifacts = [], st_views = [], st_blocks = [],
      st_memories = [], st_configs = [settlement_config (w_now w 0)], st_wakeups = [], st_runs = [],
      st_starts = [], st_attempts = [], st_raws = [], st_rejections = [], st_candidates = [],
      st_moves = [], st_links = [], st_policies = [], st_findings = [], st_finding_moves = [],
      st_tasks = [], st_bindings = [], st_finalizations = [], st_quarantine = [],
      st_uuid = 0, st_tick = 2\<rparr>"

text \<open>\<open>uuid.uuid4().hex\<close> and \<open>_now()\<close>: the value, and the store that remembers the call.\<close>

definition fresh_uuid :: "world \<Rightarrow> store \<Rightarrow> string \<times> store" where
  "fresh_uuid w s = (w_uuid w (st_uuid s), s\<lparr>st_uuid := st_uuid s + 1\<rparr>)"

definition read_clock :: "world \<Rightarrow> store \<Rightarrow> string \<times> store" where
  "read_clock w s = (w_now w (st_tick s), s\<lparr>st_tick := st_tick s + 1\<rparr>)"

definition read_time :: "world \<Rightarrow> store \<Rightarrow> rat \<times> store" where
  "read_time w s = (w_time w (st_tick s), s\<lparr>st_tick := st_tick s + 1\<rparr>)"

text \<open>
  \<open>INSERT INTO\<close> a table with a key column: a second row with the key violates the constraint.
  A reference to a row that is not there violates a foreign key (\<open>PRAGMA foreign_keys = ON\<close>).
\<close>

definition insert_keyed :: "('r \<Rightarrow> 'k) \<Rightarrow> string \<Rightarrow> 'r \<Rightarrow> 'r list \<Rightarrow> 'r list result" where
  "insert_keyed key what r rows =
     (if key r \<in> key ` set rows then Inl (IntegrityError (''UNIQUE constraint failed: '' @ what))
      else Inr (rows @ [r]))"

lemma insert_keyed_Inr [simp]:
  "insert_keyed key what r rows = Inr rows' \<longleftrightarrow> key r \<notin> key ` set rows \<and> rows' = rows @ [r]"
  by (auto simp: insert_keyed_def)

definition foreign_key :: "bool \<Rightarrow> unit result" where
  "foreign_key present = guardr present (IntegrityError ''FOREIGN KEY constraint failed'')"

lemma foreign_key_Inr [simp]: "foreign_key b = Inr u \<longleftrightarrow> b"
  by (simp add: foreign_key_def)

text \<open>The last row of a table that satisfies a condition (\<open>ORDER BY rowid DESC LIMIT 1\<close>).\<close>

definition find_last :: "('a \<Rightarrow> bool) \<Rightarrow> 'a list \<Rightarrow> 'a option" where
  "find_last P xs = List.find P (rev xs)"

lemma find_last_Some: "find_last P xs = Some x \<Longrightarrow> x \<in> set xs \<and> P x"
  unfolding find_last_def using find_Some_iff2 by fastforce

lemma find_last_Nil [simp]: "find_last P [] = None"
  by (simp add: find_last_def)

lemma find_last_snoc [simp]: "find_last P (xs @ [x]) = (if P x then Some x else find_last P xs)"
  by (simp add: find_last_def)

lemma find_last_None: "find_last P xs = None \<longleftrightarrow> (\<forall>x \<in> set xs. \<not> P x)"
  by (auto simp: find_last_def find_None_iff)

definition find_branch :: "branch list \<Rightarrow> string \<Rightarrow> branch option" where
  "find_branch bs b = List.find (\<lambda>x. br_id x = b) bs"

definition find_session :: "store \<Rightarrow> string \<Rightarrow> session option" where
  "find_session s i = List.find (\<lambda>x. se_id x = i) (st_sessions s)"

definition find_event :: "store \<Rightarrow> string \<Rightarrow> event option" where
  "find_event s i = List.find (\<lambda>x. ev_id x = i) (st_events s)"

definition unknown_branch :: "string \<Rightarrow> exn" where
  "unknown_branch b = KeyError (''unknown branch: '' @ b)"

lemma find_branch_Some: "find_branch bs b = Some x \<Longrightarrow> x \<in> set bs \<and> br_id x = b"
  unfolding find_branch_def by (rule find_Some_iff2)

lemma find_branch_None: "find_branch bs b = None \<longleftrightarrow> b \<notin> br_id ` set bs"
  by (auto simp: find_branch_def find_None_iff)

lemma find_event_Some: "find_event s i = Some x \<Longrightarrow> x \<in> set (st_events s) \<and> ev_id x = i"
  unfolding find_event_def by (rule find_Some_iff2)

lemma find_event_None: "find_event s i = None \<longleftrightarrow> i \<notin> ev_id ` set (st_events s)"
  by (auto simp: find_event_def find_None_iff)

lemma find_unique:
  "distinct (map f xs) \<Longrightarrow> x \<in> set xs \<Longrightarrow> List.find (\<lambda>y. f y = f x) xs = Some x"
  by (induction xs) auto

end
