(* ===== verification/Store.thy ===== *)
theory Store
  imports Tables
begin

text \<open>
  The canonical event log of \<open>storage.py\<close>: branches and their lineage, sessions, appending
  with redaction and hash chaining, idempotent ingestion, reading a branch's history, and
  the integrity check.
\<close>

section \<open>Branch lineage\<close>

definition min_cutoff :: "int option \<Rightarrow> int option \<Rightarrow> int option" where
  "min_cutoff cutoff parent_cutoff =
     (case parent_cutoff of None \<Rightarrow> cutoff
      | Some p \<Rightarrow> (case cutoff of None \<Rightarrow> Some p | Some c \<Rightarrow> Some (min c p)))"

text \<open>The loop of \<open>_lineage_locked\<close>; \<open>acc\<close> is the lineage found so far, already reversed.\<close>

function lineage_loop ::
  "branch list \<Rightarrow> string \<Rightarrow> string option \<Rightarrow> int option \<Rightarrow> string list
    \<Rightarrow> (string \<times> int option) list \<Rightarrow> (string \<times> int option) list result" where
  "lineage_loop bs name current cutoff visited acc =
     (case current of
        None \<Rightarrow> Inr acc
      | Some c \<Rightarrow>
          if c \<in> set visited then Inl (RuntimeError ''branch lineage cycle detected'')
          else (case find_branch bs c of
                  None \<Rightarrow> Inl (unknown_branch name)
                | Some b \<Rightarrow>
                    lineage_loop bs name (br_parent b) (min_cutoff cutoff (br_fork b))
                      (c # visited) ((c, cutoff) # acc)))"
  by pat_completeness auto
termination
proof (relation "measure (\<lambda>(bs, n, c, k, visited, a). length (filter (\<lambda>b. br_id b \<notin> set visited) bs))",
       goal_cases)
  case (2 bs name current cutoff visited acc c b)
  then have b: "b \<in> set (filter (\<lambda>b. br_id b \<notin> set visited) bs)" "br_id b = c"
    using find_branch_Some by fastforce+
  have "filter (\<lambda>b. br_id b \<notin> set (c # visited)) bs
        = filter (\<lambda>b. br_id b \<noteq> c) (filter (\<lambda>b. br_id b \<notin> set visited) bs)"
    by (simp add: conj_commute)
  then show ?case using b length_filter_less[OF b(1), of "\<lambda>b. br_id b \<noteq> c"] by simp
qed simp

declare lineage_loop.simps [simp del]

definition lineage :: "store \<Rightarrow> string \<Rightarrow> (string \<times> int option) list result" where
  "lineage s branch_id = lineage_loop (st_branches s) branch_id (Some branch_id) None [] []"

section \<open>Reading a branch\<close>

record event_query =
  q_after :: int
  q_through :: "int option"
  q_kinds :: "string list"
  q_since :: "string option"
  q_until :: "string option"
  q_text :: "string option"
  q_file :: "string option"
  q_limit :: "int option"

definition all_events :: event_query where
  "all_events = \<lparr>q_after = 0, q_through = None, q_kinds = [], q_since = None, q_until = None,
     q_text = None, q_file = None, q_limit = None\<rparr>"

definition below :: "int option \<Rightarrow> int \<Rightarrow> bool" where
  "below cutoff n = (case cutoff of None \<Rightarrow> True | Some k \<Rightarrow> n \<le> k)"

text \<open>\<open>if text:\<close> on an optional string.\<close>

definition given :: "string option \<Rightarrow> bool" where
  "given x = (case x of None \<Rightarrow> False | Some t \<Rightarrow> t \<noteq> [])"

text \<open>The WHERE clause of \<open>query_events\<close> for one branch of the lineage.\<close>

definition row_matches :: "event_query \<Rightarrow> string \<Rightarrow> int option \<Rightarrow> event \<Rightarrow> bool" where
  "row_matches q visible_branch cutoff e \<longleftrightarrow>
     ev_branch e = visible_branch \<and> ev_seq e > q_after q
     \<and> below (min_cutoff cutoff (q_through q)) (ev_seq e)
     \<and> (q_kinds q = [] \<or> ev_kind e \<in> set (q_kinds q))
     \<and> (\<not> given (q_since q) \<or> the (q_since q) \<le> ev_created e)
     \<and> (\<not> given (q_until q) \<or> ev_created e \<le> the (q_until q))"

text \<open>\<open>xs[-limit:]\<close> for any integer, zero and negative limits included.\<close>

definition slice_last :: "int \<Rightarrow> 'a list \<Rightarrow> 'a list" where
  "slice_last limit xs = (if limit > 0 then take_last (nat limit) xs else drop (nat (- limit)) xs)"

definition matches_text :: "string \<Rightarrow> event \<Rightarrow> bool" where
  "matches_text text e =
     (let needle = casefold text
      in contains needle (casefold (ev_content e))
         \<or> contains needle (casefold (json_text (JObj (ev_payload e)))))"

definition query_events :: "store \<Rightarrow> string \<Rightarrow> event_query \<Rightarrow> event list result" where
  "query_events s branch_id q =
     bindr (lineage s branch_id) (\<lambda>lin.
       let rows = concat (map (\<lambda>(b, cutoff). filter (row_matches q b cutoff) (st_events s)) lin);
           events = sort_key ev_seq rows;
           texted = (if given (q_text q) then filter (matches_text (the (q_text q))) events else events);
           filed = (if given (q_file q) then filter (\<lambda>e. the (q_file q) \<in> set (ev_files e)) texted else texted)
       in Inr (case q_limit q of None \<Rightarrow> filed | Some n \<Rightarrow> slice_last n filed))"

definition get_event :: "store \<Rightarrow> string \<Rightarrow> event result" where
  "get_event s event_id =
     (case find_event s event_id of
        None \<Rightarrow> Inl (KeyError (''unknown event: '' @ event_id))
      | Some e \<Rightarrow> Inr e)"

definition completion_evidence_events :: "store \<Rightarrow> string \<Rightarrow> int \<Rightarrow> event list result" where
  "completion_evidence_events s branch_id after_seq =
     bindr (lineage s branch_id) (\<lambda>lin.
       Inr (sort_key ev_seq (concat (map (\<lambda>(b, cutoff).
         filter (\<lambda>e. ev_branch e = b \<and> ev_seq e > after_seq \<and> ev_kind e = ''tool_output''
                     \<and> ev_channel e = HOST_HOOK \<and> below cutoff (ev_seq e)) (st_events s)) lin))))"

definition events_by_operation :: "store \<Rightarrow> string \<Rightarrow> string \<Rightarrow> event list result" where
  "events_by_operation s operation branch_id =
     bindr (lineage s branch_id) (\<lambda>lin.
       Inr (sort_key ev_seq (concat (map (\<lambda>(b, cutoff).
         filter (\<lambda>e. ev_branch e = b \<and> ev_kind e = ''state''
                     \<and> jget (ev_payload e) ''operation'' = JStr operation
                     \<and> below cutoff (ev_seq e)) (st_events s)) lin))))"

section \<open>Branches and sessions\<close>

definition create_branch ::
  "world \<Rightarrow> string \<Rightarrow> string \<Rightarrow> int option \<Rightarrow> store \<Rightarrow> (string \<times> store) result" where
  "create_branch w branch_id parent_id fork_event_seq s =
     (if branch_id = [] \<or> branch_id = ''main''
      then Inl (ValueError ''branch_id must be non-empty and cannot recreate main'')
      else if find_branch (st_branches s) parent_id = None
      then Inl (KeyError (''unknown parent branch: '' @ parent_id))
      else bindr (query_events s parent_id all_events) (\<lambda>parent_events.
        let parent_tip = (if parent_events = [] then 0 else ev_seq (last parent_events));
            fork = (case fork_event_seq of None \<Rightarrow> parent_tip | Some n \<Rightarrow> n)
        in if fork < 0 \<or> fork > parent_tip
           then Inl (ValueError ''fork_event_seq must be within the visible parent history'')
           else if find_branch (st_branches s) branch_id \<noteq> None
           then Inl (IntegrityError ''UNIQUE constraint failed: branches.id'')
           else (let (now, s1) = read_clock w s
                 in Inr (branch_id,
                      s1\<lparr>st_branches := st_branches s1 @
                        [\<lparr>br_id = branch_id, br_parent = Some parent_id, br_fork = Some fork,
                          br_created = now\<rparr>]\<rparr>))))"

definition insert_session ::
  "world \<Rightarrow> string \<Rightarrow> string \<Rightarrow> string \<Rightarrow> (string, json) dict \<Rightarrow> store \<Rightarrow> store result" where
  "insert_session w session_id agent branch_id caps s =
     (if find_session s session_id \<noteq> None
      then Inl (IntegrityError ''UNIQUE constraint failed: sessions.id'')
      else (let (now, s1) = read_clock w s
            in Inr (s1\<lparr>st_sessions := st_sessions s1 @
                 [\<lparr>se_id = session_id, se_branch = branch_id, se_agent = agent, se_caps = caps,
                   se_started = now\<rparr>]\<rparr>)))"

definition start_session ::
  "world \<Rightarrow> string \<Rightarrow> string \<Rightarrow> (string, json) dict \<Rightarrow> store \<Rightarrow> (string \<times> store) result" where
  "start_session w agent branch_id capabilities s =
     (let (hex, s1) = fresh_uuid w s;
          session_id = ''ses_'' @ hex
      in if find_branch (st_branches s1) branch_id = None then Inl (unknown_branch branch_id)
         else bindr (insert_session w session_id agent branch_id capabilities s1)
                (\<lambda>s2. Inr (session_id, s2)))"

definition hook_session ::
  "world \<Rightarrow> string \<Rightarrow> string \<Rightarrow> string \<Rightarrow> (string, json) dict \<Rightarrow> store \<Rightarrow> (string \<times> store) result" where
  "hook_session w agent external_session_id branch_id capabilities s =
     (if agent = [] \<or> external_session_id = []
      then Inl (ValueError ''agent and external_session_id must be non-empty'')
      else (case List.find (\<lambda>h. hb_agent h = agent \<and> hb_external h = external_session_id) (st_hooks s) of
              Some existing \<Rightarrow>
                if hb_branch existing \<noteq> branch_id
                then Inl (ValueError ''native session is already bound to another branch'')
                else Inr (hb_session existing, s)
            | None \<Rightarrow>
                if find_branch (st_branches s) branch_id = None then Inl (unknown_branch branch_id)
                else (let (hex, s1) = fresh_uuid w s;
                          session_id = ''ses_'' @ hex
                      in bindr (insert_session w session_id agent branch_id capabilities s1) (\<lambda>s2.
                           let (now, s3) = read_clock w s2
                           in Inr (session_id,
                                s3\<lparr>st_hooks := st_hooks s3 @
                                  [\<lparr>hb_agent = agent, hb_external = external_session_id,
                                    hb_branch = branch_id, hb_session = session_id,
                                    hb_created = now\<rparr>]\<rparr>)))))"

section \<open>Appending\<close>

text \<open>The redacted list of file names: \<open>redact_value\<close> on a list of texts.\<close>

definition redact_files :: "(string \<times> rx) list \<Rightarrow> string list \<Rightarrow> string list \<times> redaction list" where
  "redact_files custom files =
     (let rs = map (redact_text custom True) files in (map fst rs, concat (map snd rs)))"

lemma redact_files_value:
  "redact_value custom (JArr (map JStr files)) =
     (JArr (map JStr (fst (redact_files custom files))), snd (redact_files custom files))"
  by (simp add: redact_files_def Let_def comp_def split_beta)

definition redact_object ::
  "(string \<times> rx) list \<Rightarrow> (string, json) dict \<Rightarrow> (string, json) dict \<times> redaction list" where
  "redact_object custom kvs =
     (case redact_value custom (JObj kvs) of (JObj kvs', found) \<Rightarrow> (kvs', found) | (_, found) \<Rightarrow> ([], found))"

text \<open>The document whose digest is the content hash; \<open>with_origin\<close> is off for legacy rows.\<close>

definition opt_str :: "string option \<Rightarrow> json" where
  "opt_str x = (case x of None \<Rightarrow> JNull | Some s \<Rightarrow> JStr s)"

definition canonical_document :: "bool \<Rightarrow> event \<Rightarrow> string" where
  "canonical_document with_origin e =
     json_text (JObj (
       [(''id'', JStr (ev_id e)), (''branch_id'', JStr (ev_branch e)),
        (''session_id'', opt_str (ev_session e)), (''kind'', JStr (ev_kind e)),
        (''role'', opt_str (ev_role e)), (''content'', JStr (ev_content e)),
        (''payload'', JObj (ev_payload e)), (''files'', JArr (map JStr (ev_files e))),
        (''created_at'', JStr (ev_created e))]
       @ (if with_origin
          then [(''origin_channel'', JStr (ev_channel e)), (''origin_adapter'', opt_str (ev_adapter e))]
          else [])))"

definition check_session :: "store \<Rightarrow> string \<Rightarrow> string option \<Rightarrow> unit result" where
  "check_session s branch_id session_id =
     (case session_id of
        None \<Rightarrow> Inr ()
      | Some i \<Rightarrow>
          (case find_session s i of
             None \<Rightarrow> Inl (KeyError (''unknown session: '' @ i))
           | Some se \<Rightarrow>
               if se_branch se \<noteq> branch_id
               then Inl (ValueError ''session and event must belong to the same branch'')
               else Inr ()))"

text \<open>The adapter a host hook stamps into the payload, over any claim it carried.\<close>

definition stamp_adapter ::
  "string \<Rightarrow> string option \<Rightarrow> (string, json) dict \<Rightarrow> (string, json) dict result" where
  "stamp_adapter channel adapter payload =
     (if channel = HOST_HOOK
      then (if or_empty adapter = [] then Inl (ValueError ''host-hook event requires its accepting adapter'')
            else Inr (dset ''_joiny_origin_adapter'' (JStr (or_empty adapter)) payload))
      else Inr payload)"

record event_draft =
  dr_branch :: string
  dr_session :: "string option"
  dr_kind :: string
  dr_role :: "string option"
  dr_content :: string
  dr_channel :: string
  dr_adapter :: "string option"
  dr_payload :: "(string, json) dict"
  dr_files :: "string list"

definition last_event :: "store \<Rightarrow> event option" where
  "last_event s = (if st_events s = [] then None else Some (last (st_events s)))"

definition next_seq :: "store \<Rightarrow> int" where
  "next_seq s = (case last_event s of None \<Rightarrow> 1 | Some e \<Rightarrow> ev_seq e + 1)"

text \<open>The row that is inserted: redacted draft, fresh identity, links of the hash chain.\<close>

definition make_event :: "world \<Rightarrow> event_draft \<Rightarrow> (string, json) dict \<Rightarrow> string \<Rightarrow> string \<Rightarrow> store \<Rightarrow> event" where
  "make_event w d payload hex now s =
     (let (safe_content, content_redactions) = redact_text (w_rules w) True (dr_content d);
          (safe_payload, payload_redactions) = redact_object (w_rules w) payload;
          (safe_files, file_redactions) = redact_files (w_rules w) (dr_files d);
          redactions = content_redactions @ payload_redactions @ file_redactions;
          final_payload =
            (if redactions \<noteq> []
             then dset ''_security_redactions''
                    (JObj (map (\<lambda>(k, n). (k, JInt n)) (redaction_counts redactions))) safe_payload
             else safe_payload);
          e0 = \<lparr>ev_seq = next_seq s, ev_id = ''evt_'' @ hex, ev_branch = dr_branch d,
                ev_session = dr_session d, ev_kind = dr_kind d, ev_role = dr_role d,
                ev_channel = dr_channel d, ev_adapter = dr_adapter d, ev_content = safe_content,
                ev_payload = final_payload, ev_files = safe_files, ev_created = now,
                ev_prev = map_option ev_chain (last_event s), ev_chash = [], ev_chain = []\<rparr>;
          content_hash = hash_text w (canonical_document True e0)
      in e0\<lparr>ev_chash := content_hash,
             ev_chain := hash_text w (or_empty (map_option ev_chain (last_event s)) @ content_hash)\<rparr>)"

definition insert_event :: "event \<Rightarrow> store \<Rightarrow> (event \<times> store) result" where
  "insert_event e s =
     (if ev_id e \<in> ev_id ` set (st_events s)
      then Inl (IntegrityError ''UNIQUE constraint failed: events.id'')
      else if ev_chain e \<in> ev_chain ` set (st_events s)
      then Inl (IntegrityError ''UNIQUE constraint failed: events.chain_hash'')
      else Inr (e, s\<lparr>st_events := st_events s @ [e]\<rparr>))"

definition append_event_in_tx :: "world \<Rightarrow> event_draft \<Rightarrow> store \<Rightarrow> (event \<times> store) result" where
  "append_event_in_tx w d s =
     (if find_branch (st_branches s) (dr_branch d) = None then Inl (unknown_branch (dr_branch d))
      else bindr (check_session s (dr_branch d) (dr_session d)) (\<lambda>_.
        bindr (stamp_adapter (dr_channel d) (dr_adapter d) (dr_payload d)) (\<lambda>payload.
          let (hex, s1) = fresh_uuid w s;
              (now, s2) = read_clock w s1
          in insert_event (make_event w d payload hex now s2) s2)))"

definition append_event ::
  "world \<Rightarrow> string \<Rightarrow> string \<Rightarrow> string \<Rightarrow> string option \<Rightarrow> string option \<Rightarrow> (string, json) dict
    \<Rightarrow> string list \<Rightarrow> store \<Rightarrow> (event \<times> store) result" where
  "append_event w kind content branch_id session_id role payload files s =
     append_event_in_tx w
       \<lparr>dr_branch = branch_id, dr_session = session_id, dr_kind = kind, dr_role = role,
        dr_content = content, dr_channel = PUBLIC_API, dr_adapter = None, dr_payload = payload,
        dr_files = files\<rparr> s"

definition append_host_event ::
  "world \<Rightarrow> string \<Rightarrow> string \<Rightarrow> string \<Rightarrow> string \<Rightarrow> string option \<Rightarrow> string option \<Rightarrow> (string, json) dict
    \<Rightarrow> string list \<Rightarrow> store \<Rightarrow> (event \<times> store) result" where
  "append_host_event w adapter kind content branch_id session_id role payload files s =
     (if adapter = [] then Inl (ValueError ''adapter must be non-empty'')
      else append_event_in_tx w
        \<lparr>dr_branch = branch_id, dr_session = session_id, dr_kind = kind, dr_role = role,
         dr_content = content, dr_channel = HOST_HOOK, dr_adapter = Some adapter,
         dr_payload = payload, dr_files = files\<rparr> s)"

section \<open>Idempotent ingestion\<close>

text \<open>One item of the batch, with the defaults of \<open>item.get\<close>.\<close>

record batch_item =
  bi_kind :: string
  bi_role :: "string option"
  bi_content :: string
  bi_payload :: "(string, json) dict"
  bi_files :: "string list"

fun append_batch ::
  "world \<Rightarrow> string \<Rightarrow> string option \<Rightarrow> string \<Rightarrow> string option \<Rightarrow> batch_item list \<Rightarrow> store
    \<Rightarrow> (event list \<times> store) result" where
  "append_batch w branch_id session_id channel adapter [] s = Inr ([], s)"
| "append_batch w branch_id session_id channel adapter (item # items) s =
     bindr (append_event_in_tx w
         \<lparr>dr_branch = branch_id, dr_session = session_id, dr_kind = bi_kind item,
          dr_role = bi_role item, dr_content = bi_content item, dr_channel = channel,
          dr_adapter = adapter, dr_payload = bi_payload item, dr_files = bi_files item\<rparr> s)
       (\<lambda>(e, s1).
         bindr (append_batch w branch_id session_id channel adapter items s1)
           (\<lambda>(es, s2). Inr (e # es, s2)))"

definition append_events_once_from ::
  "world \<Rightarrow> string \<Rightarrow> batch_item list \<Rightarrow> string \<Rightarrow> string option \<Rightarrow> string \<Rightarrow> string option \<Rightarrow> store
    \<Rightarrow> ((event list \<times> bool) \<times> store) result" where
  "append_events_once_from w receipt_key events branch_id session_id channel adapter s =
     (if receipt_key = [] then Inl (ValueError ''receipt_key must be non-empty'')
      else if events = [] then Inl (ValueError ''at least one event is required'')
      else (case List.find (\<lambda>r. rc_key r = receipt_key) (st_receipts s) of
              Some r \<Rightarrow>
                (let rows = map (find_event s) (rc_events r)
                 in if None \<in> set rows
                    then Inl (RuntimeError ''ingest receipt references a missing canonical event'')
                    else Inr ((map the rows, False), s))
            | None \<Rightarrow>
                bindr (append_batch w branch_id session_id channel adapter events s) (\<lambda>(es, s1).
                  let (now, s2) = read_clock w s1
                  in Inr ((es, True),
                       s2\<lparr>st_receipts := st_receipts s2 @
                         [\<lparr>rc_key = receipt_key, rc_events = map ev_id es, rc_created = now\<rparr>]\<rparr>))))"

definition append_events_once ::
  "world \<Rightarrow> string \<Rightarrow> batch_item list \<Rightarrow> string \<Rightarrow> string option \<Rightarrow> store
    \<Rightarrow> ((event list \<times> bool) \<times> store) result" where
  "append_events_once w receipt_key events branch_id session_id s =
     append_events_once_from w receipt_key events branch_id session_id PUBLIC_API None s"

definition append_internal_events_once ::
  "world \<Rightarrow> string \<Rightarrow> batch_item list \<Rightarrow> string \<Rightarrow> string option \<Rightarrow> store
    \<Rightarrow> ((event list \<times> bool) \<times> store) result" where
  "append_internal_events_once w receipt_key events branch_id session_id s =
     append_events_once_from w receipt_key events branch_id session_id INTERNAL None s"

definition append_host_events_once ::
  "world \<Rightarrow> string \<Rightarrow> batch_item list \<Rightarrow> string \<Rightarrow> string \<Rightarrow> string option \<Rightarrow> store
    \<Rightarrow> ((event list \<times> bool) \<times> store) result" where
  "append_host_events_once w receipt_key events adapter branch_id session_id s =
     (if adapter = [] then Inl (ValueError ''adapter must be non-empty'')
      else append_events_once_from w receipt_key events branch_id session_id HOST_HOOK (Some adapter) s)"

definition consolidation_result :: "store \<Rightarrow> string \<Rightarrow> json option" where
  "consolidation_result s event_id =
     map_option cr_result (List.find (\<lambda>r. cr_event r = event_id) (st_consolidation s))"

text \<open>\<open>INSERT OR IGNORE\<close>: the first result stays.\<close>

definition mark_consolidated :: "world \<Rightarrow> string \<Rightarrow> json \<Rightarrow> store \<Rightarrow> (unit \<times> store) result" where
  "mark_consolidated w event_id result s =
     (if find_event s event_id = None then Inl (KeyError (''unknown event: '' @ event_id))
      else (let (now, s1) = read_clock w s
            in if List.find (\<lambda>r. cr_event r = event_id) (st_consolidation s) \<noteq> None then Inr ((), s1)
               else Inr ((), s1\<lparr>st_consolidation := st_consolidation s1 @
                      [\<lparr>cr_event = event_id, cr_result = result, cr_created = now\<rparr>]\<rparr>)))"

section \<open>The integrity check\<close>

fun verify_events :: "world \<Rightarrow> string option \<Rightarrow> event list \<Rightarrow> string option" where
  "verify_events w previous [] = None"
| "verify_events w previous (e # es) =
     (let content_hash = hash_text w (canonical_document (ev_channel e \<noteq> LEGACY_UNTRUSTED) e);
          chain_hash = hash_text w (or_empty previous @ content_hash)
      in if ev_prev e \<noteq> previous then Some (''event '' @ ev_id e @ '' has an invalid previous hash'')
         else if ev_chash e \<noteq> content_hash \<or> ev_chain e \<noteq> chain_hash
         then Some (''event '' @ ev_id e @ '' failed integrity verification'')
         else verify_events w (Some chain_hash) es)"

fun verify_artifacts :: "world \<Rightarrow> artifact list \<Rightarrow> string option" where
  "verify_artifacts w [] = None"
| "verify_artifacts w (a # as) =
     (if w_sha256 w (ar_data a) \<noteq> ar_hash a
      then Some (''artifact '' @ ar_id a @ '' failed integrity verification'')
      else verify_artifacts w as)"

text \<open>Views are joined with their event; a view without one is not in the result.\<close>

fun verify_views :: "world \<Rightarrow> store \<Rightarrow> tool_view list \<Rightarrow> string option" where
  "verify_views w s [] = None"
| "verify_views w s (v # vs) =
     (case find_event s (tv_event v) of
        None \<Rightarrow> verify_views w s vs
      | Some e \<Rightarrow>
          if hash_text w (tv_content v) \<noteq> tv_content_hash v
          then Some (''tool output view '' @ tv_id v @ '' failed integrity verification'')
          else if tv_source_hash v \<noteq> ev_chash e
          then Some (''tool output view '' @ tv_id v @ '' has an invalid source hash'')
          else verify_views w s vs)"

text \<open>\<open>(True, None)\<close> of the source is \<open>None\<close>, \<open>(False, error)\<close> is \<open>Some error\<close>.\<close>

definition verify_chain :: "world \<Rightarrow> store \<Rightarrow> string option" where
  "verify_chain w s =
     (case verify_events w None (st_events s) of
        Some err \<Rightarrow> Some err
      | None \<Rightarrow>
          (case verify_artifacts w (st_artifacts s) of
             Some err \<Rightarrow> Some err
           | None \<Rightarrow> verify_views w s (st_views s)))"

definition assert_integrity :: "world \<Rightarrow> store \<Rightarrow> unit result" where
  "assert_integrity w s =
     (case verify_chain w s of None \<Rightarrow> Inr () | Some err \<Rightarrow> Inl (StoreIntegrityError err))"

text \<open>The head of the chain and a historical chain hash: what a witness compares.\<close>

definition chain_checkpoint :: "store \<Rightarrow> int \<times> string" where
  "chain_checkpoint s =
     (case last_event s of None \<Rightarrow> (0, []) | Some e \<Rightarrow> (ev_seq e, ev_chain e))"

definition chain_hash_at :: "store \<Rightarrow> int \<Rightarrow> string option" where
  "chain_hash_at s seq =
     map_option ev_chain (List.find (\<lambda>e. ev_seq e = seq) (st_events s))"

end
