(* ===== verification/LogFacts.thy ===== *)
theory LogFacts
  imports Store "HOL-Library.Multiset"
begin

text \<open>
  What the event log of theory Store promises: the invariant \<open>log_ok\<close> (well-founded
  branches, gapless sequence numbers, unique identifiers, a valid hash chain), its
  preservation by every operation that writes the log, the reference meaning of a branch's
  history, and the laws a writer of the log keeps, as a locale.
\<close>

section \<open>Cutoffs\<close>

lemma min_cutoff_None [simp]: "min_cutoff None k = k" "min_cutoff k None = k"
  by (simp_all add: min_cutoff_def split: option.splits)

lemma min_cutoff_Some [simp]: "min_cutoff (Some a) (Some b) = Some (min a b)"
  by (simp add: min_cutoff_def)

lemma min_cutoff_assoc: "min_cutoff (min_cutoff a b) c = min_cutoff a (min_cutoff b c)"
  by (cases a; cases b; cases c) (simp_all add: min.assoc)

lemma below_None [simp]: "below None n"
  by (simp add: below_def)

lemma below_Some [simp]: "below (Some k) n \<longleftrightarrow> n \<le> k"
  by (simp add: below_def)

lemma below_min_cutoff [simp]: "below (min_cutoff a b) n \<longleftrightarrow> below a n \<and> below b n"
  by (cases a; cases b) auto

section \<open>Branches\<close>

text \<open>How a table of branches comes about: the root, then forks of branches already there.\<close>

inductive branches_ok :: "branch list \<Rightarrow> bool" where
  root: "br_id b = ''main'' \<Longrightarrow> br_parent b = None \<Longrightarrow> br_fork b = None \<Longrightarrow> branches_ok [b]"
| fork: "branches_ok bs \<Longrightarrow> br_id b \<notin> br_id ` set bs \<Longrightarrow> br_parent b = Some p \<Longrightarrow>
     p \<in> br_id ` set bs \<Longrightarrow> br_fork b = Some f \<Longrightarrow> branches_ok (bs @ [b])"

inductive_cases branches_ok_snocE: "branches_ok (bs @ [b])"

lemma branches_ok_distinct: "branches_ok bs \<Longrightarrow> distinct (map br_id bs)"
  by (induction rule: branches_ok.induct) auto

definition branch_ids :: "store \<Rightarrow> string set" where
  "branch_ids s = br_id ` set (st_branches s)"

lemma find_branch_prefix:
  "distinct (map br_id (P @ R)) \<Longrightarrow> b \<in> set P \<Longrightarrow> find_branch (P @ R) (br_id b) = Some b"
  unfolding find_branch_def using find_unique[of br_id "P @ R" b] by simp

text \<open>
  The lineage of a branch: its ancestors with a cutoff each, then the branch itself without
  one.  It does not depend on what the loop had visited, and forks later in the table do not
  change it.
\<close>

definition lineage_of :: "branch list \<Rightarrow> string \<Rightarrow> (string \<times> int option) list \<Rightarrow> bool" where
  "lineage_of P c L \<longleftrightarrow>
     (\<exists>L0. L = L0 @ [(c, None)] \<and> fst ` set L0 \<subseteq> br_id ` set P - {c} \<and> distinct (map fst L0)
        \<and> (\<forall>(x, m) \<in> set L0. \<exists>f. m = Some f \<and> (\<exists>b \<in> set P. \<exists>g. br_fork b = Some g \<and> f \<le> g)))"

definition cut :: "int option \<Rightarrow> (string \<times> int option) list \<Rightarrow> (string \<times> int option) list" where
  "cut k L = map (\<lambda>(x, m). (x, min_cutoff k m)) L"

lemma cut_None [simp]: "cut None L = L"
  by (simp add: cut_def case_prod_beta)

lemma cut_cut: "cut k (cut j L) = cut (min_cutoff k j) L"
  by (simp add: cut_def case_prod_beta min_cutoff_assoc comp_def)

lemma cut_append [simp]: "cut k (L @ M) = cut k L @ cut k M"
  by (simp add: cut_def)

lemma cut_single [simp]: "cut k [(c, m)] = [(c, min_cutoff k m)]"
  by (simp add: cut_def)

lemma map_fst_cut [simp]: "map fst (cut k L) = map fst L"
  by (simp add: cut_def case_prod_beta comp_def)

lemma lineage_of_mono: "lineage_of P c L \<Longrightarrow> set P \<subseteq> set Q \<Longrightarrow> lineage_of Q c L"
proof -
  assume a: "lineage_of P c L" "set P \<subseteq> set Q"
  obtain L0 where L0: "L = L0 @ [(c, None)]" "fst ` set L0 \<subseteq> br_id ` set P - {c}" "distinct (map fst L0)"
      "\<forall>(x, m) \<in> set L0. \<exists>f. m = Some f \<and> (\<exists>b \<in> set P. \<exists>g. br_fork b = Some g \<and> f \<le> g)"
    using a(1) unfolding lineage_of_def by blast
  have "fst ` set L0 \<subseteq> br_id ` set Q - {c}" using L0(2) a(2) by blast
  moreover have "\<forall>(x, m) \<in> set L0. \<exists>f. m = Some f \<and> (\<exists>b \<in> set Q. \<exists>g. br_fork b = Some g \<and> f \<le> g)"
    using L0(4) a(2) by blast
  ultimately show ?thesis unfolding lineage_of_def using L0(1,3) by blast
qed

definition lineage_answers :: "branch list \<Rightarrow> string \<Rightarrow> (string \<times> int option) list \<Rightarrow> bool" where
  "lineage_answers P c L \<longleftrightarrow>
     (\<forall>R n k visited acc. distinct (map br_id (P @ R)) \<longrightarrow> set visited \<inter> br_id ` set P = {} \<longrightarrow>
          lineage_loop (P @ R) n (Some c) k visited acc = Inr (cut k L @ acc))"

lemma lineage_answersD:
  "lineage_answers P c L \<Longrightarrow> distinct (map br_id (P @ R)) \<Longrightarrow> set visited \<inter> br_id ` set P = {} \<Longrightarrow>
     lineage_loop (P @ R) n (Some c) k visited acc = Inr (cut k L @ acc)"
  unfolding lineage_answers_def by blast

lemma lineage_answers_snoc: "lineage_answers bs c L \<Longrightarrow> lineage_answers (bs @ [b]) c L"
  unfolding lineage_answers_def by (metis (no_types, lifting) append.assoc inf_sup_absorb
      set_append image_Un inf_sup_distrib1 sup_eq_bot_iff)

text \<open>A fork inherits its parent's lineage, cut at the fork.\<close>

lemma lineage_fork:
  assumes L: "lineage_of bs p L" "lineage_answers bs p L" and p: "p \<in> br_id ` set bs"
    and new: "br_id b \<notin> br_id ` set bs" and b: "br_parent b = Some p" "br_fork b = Some f"
  shows "lineage_of (bs @ [b]) (br_id b) (cut (Some f) L @ [(br_id b, None)])"
    and "lineage_answers (bs @ [b]) (br_id b) (cut (Some f) L @ [(br_id b, None)])"
proof -
  obtain L0 where L0: "L = L0 @ [(p, None)]" "fst ` set L0 \<subseteq> br_id ` set bs - {p}" "distinct (map fst L0)"
    using L(1) unfolding lineage_of_def by blast
  have names: "fst ` set (cut (Some f) L) = fst ` set L"
    by (metis list.set_map map_fst_cut)
  have "fst ` set L \<subseteq> br_id ` set bs" using L0(1,2) p by auto
  then have sub: "fst ` set (cut (Some f) L) \<subseteq> br_id ` set (bs @ [b]) - {br_id b}"
    using names new by auto
  have dist: "distinct (map fst (cut (Some f) L))" using L0 by auto
  have cuts: "\<forall>(x, m) \<in> set (cut (Some f) L).
      \<exists>h. m = Some h \<and> (\<exists>b' \<in> set (bs @ [b]). \<exists>g. br_fork b' = Some g \<and> h \<le> g)"
  proof clarify
    fix x m assume "(x, m) \<in> set (cut (Some f) L)"
    then obtain m0 where "(x, m0) \<in> set L" "m = min_cutoff (Some f) m0" by (auto simp: cut_def)
    then obtain h where "m = Some h" "h \<le> f" by (cases m0) auto
    then show "\<exists>h. m = Some h \<and> (\<exists>b' \<in> set (bs @ [b]). \<exists>g. br_fork b' = Some g \<and> h \<le> g)"
      using b(2) by auto
  qed
  show "lineage_of (bs @ [b]) (br_id b) (cut (Some f) L @ [(br_id b, None)])"
    unfolding lineage_of_def using sub dist cuts by blast
  show "lineage_answers (bs @ [b]) (br_id b) (cut (Some f) L @ [(br_id b, None)])"
    unfolding lineage_answers_def
  proof (intro allI impI)
    fix R n k visited acc
    assume d: "distinct (map br_id ((bs @ [b]) @ R))" and v: "set visited \<inter> br_id ` set (bs @ [b]) = {}"
    have "find_branch ((bs @ [b]) @ R) (br_id b) = Some b" using find_branch_prefix[OF d] by simp
    moreover have "br_id b \<notin> set visited" using v by auto
    moreover have "lineage_loop (bs @ ([b] @ R)) n (Some p) (min_cutoff k (Some f)) (br_id b # visited)
        ((br_id b, k) # acc) = Inr (cut (min_cutoff k (Some f)) L @ (br_id b, k) # acc)"
      by (rule lineage_answersD[OF L(2)]) (use d v new in auto)
    ultimately show "lineage_loop ((bs @ [b]) @ R) n (Some (br_id b)) k visited acc
        = Inr (cut k (cut (Some f) L @ [(br_id b, None)]) @ acc)"
      using b by (subst lineage_loop.simps) (simp add: cut_cut)
  qed
qed

lemma lineage_exists:
  "branches_ok P \<Longrightarrow> c \<in> br_id ` set P \<Longrightarrow> \<exists>L. lineage_of P c L \<and> lineage_answers P c L"
proof (induction P arbitrary: c rule: branches_ok.induct)
  case (root b)
  have "lineage_of [b] c [(c, None)]" using root by (simp add: lineage_of_def)
  moreover have "lineage_answers [b] c [(c, None)]"
    unfolding lineage_answers_def
  proof (intro allI impI)
    fix R n k visited acc
    assume d: "distinct (map br_id ([b] @ R))" and v: "set visited \<inter> br_id ` set [b] = {}"
    have "find_branch ([b] @ R) c = Some b" using find_branch_prefix[OF d] root by simp
    then show "lineage_loop ([b] @ R) n (Some c) k visited acc = Inr (cut k [(c, None)] @ acc)"
      using v root by (subst lineage_loop.simps) (simp add: lineage_loop.simps)
  qed
  ultimately show ?case by blast
next
  case (fork bs b p f)
  show ?case
  proof (cases "c \<in> br_id ` set bs")
    case True
    then obtain L where "lineage_of bs c L" "lineage_answers bs c L" using fork.IH by blast
    then have "lineage_of (bs @ [b]) c L" "lineage_answers (bs @ [b]) c L"
      using lineage_of_mono[of bs c L "bs @ [b]"] lineage_answers_snoc by (simp_all add: subset_insertI)
    then show ?thesis by blast
  next
    case False
    then have "c = br_id b" using fork.prems by auto
    then show ?thesis using lineage_fork[OF _ _ fork.hyps(4,2,3,5)] fork.IH[OF fork.hyps(4)] by blast
  qed
qed

lemma lineage_answer:
  "lineage_answers (st_branches s) b L \<Longrightarrow> st_branches s' = st_branches s @ R \<Longrightarrow>
     distinct (map br_id (st_branches s')) \<Longrightarrow> lineage s' b = Inr L"
  unfolding lineage_def using lineage_answersD[of "st_branches s" b L R "[]"] by simp

lemma lineage_total:
  assumes "branches_ok (st_branches s)" "b \<in> branch_ids s"
  obtains L where "lineage s b = Inr L" "lineage_of (st_branches s) b L" "lineage_answers (st_branches s) b L"
proof -
  obtain L where "lineage_of (st_branches s) b L" "lineage_answers (st_branches s) b L"
    using lineage_exists assms unfolding branch_ids_def by blast
  then show thesis
    using that lineage_answer[of s b L s "[]"] branches_ok_distinct[OF assms(1)] by simp
qed

text \<open>Appending branches to the table changes no lineage.\<close>

lemma lineage_stable:
  assumes "branches_ok (st_branches s)" "b \<in> branch_ids s"
    and "st_branches s' = st_branches s @ R" "distinct (map br_id (st_branches s'))"
  shows "lineage s' b = lineage s b"
  using lineage_total[OF assms(1,2)] lineage_answer[OF _ assms(3,4)] by metis

section \<open>The invariant of the log\<close>

definition forks_below :: "branch list \<Rightarrow> int \<Rightarrow> bool" where
  "forks_below bs n \<longleftrightarrow> (\<forall>b \<in> set bs. \<forall>f. br_fork b = Some f \<longrightarrow> f \<le> n)"

definition log_ok :: "world \<Rightarrow> store \<Rightarrow> bool" where
  "log_ok w s \<longleftrightarrow>
     branches_ok (st_branches s)
     \<and> forks_below (st_branches s) (int (length (st_events s)))
     \<and> map ev_seq (st_events s) = map int [1..<Suc (length (st_events s))]
     \<and> distinct (map ev_id (st_events s)) \<and> distinct (map ev_chain (st_events s))
     \<and> ev_branch ` set (st_events s) \<subseteq> branch_ids s
     \<and> ev_channel ` set (st_events s) \<subseteq> {PUBLIC_API, HOST_HOOK, INTERNAL}
     \<and> verify_events w None (st_events s) = None
     \<and> (\<forall>r \<in> set (st_receipts s). set (rc_events r) \<subseteq> ev_id ` set (st_events s))
     \<and> distinct (map rc_key (st_receipts s))"

lemma log_okD:
  assumes "log_ok w s"
  shows "branches_ok (st_branches s)" "forks_below (st_branches s) (int (length (st_events s)))"
    "map ev_seq (st_events s) = map int [1..<Suc (length (st_events s))]"
    "distinct (map ev_id (st_events s))" "distinct (map ev_chain (st_events s))"
    "ev_branch ` set (st_events s) \<subseteq> branch_ids s"
    "ev_channel ` set (st_events s) \<subseteq> {PUBLIC_API, HOST_HOOK, INTERNAL}"
    "verify_events w None (st_events s) = None"
    "\<And>r. r \<in> set (st_receipts s) \<Longrightarrow> set (rc_events r) \<subseteq> ev_id ` set (st_events s)"
    "distinct (map rc_key (st_receipts s))"
  using assms by (simp_all add: log_ok_def)

lemma initial_log_ok: "log_ok w (initial_store w)"
  by (auto simp: log_ok_def initial_store_def main_branch_def forks_below_def branches_ok.root)

lemma log_seq_nth: "log_ok w s \<Longrightarrow> i < length (st_events s) \<Longrightarrow> ev_seq (st_events s ! i) = int i + 1"
proof -
  assume a: "log_ok w s" "i < length (st_events s)"
  then have "map ev_seq (st_events s) ! i = map int [1..<Suc (length (st_events s))] ! i"
    using log_okD(3) by metis
  then show ?thesis using a(2) by (simp del: upt_Suc)
qed

lemma log_seq_range: "log_ok w s \<Longrightarrow> e \<in> set (st_events s) \<Longrightarrow> 1 \<le> ev_seq e \<and> ev_seq e \<le> int (length (st_events s))"
  using log_seq_nth by (force simp: in_set_conv_nth)

lemma next_seq_length: "log_ok w s \<Longrightarrow> next_seq s = int (length (st_events s)) + 1"
  using log_seq_nth[of w s "length (st_events s) - 1"]
  by (auto simp: next_seq_def last_event_def last_conv_nth of_nat_diff)

lemma last_event_counters [simp]: "last_event (s\<lparr>st_uuid := u, st_tick := t\<rparr>) = last_event s"
  by (simp add: last_event_def)

lemma next_seq_counters [simp]: "next_seq (s\<lparr>st_uuid := u, st_tick := t\<rparr>) = next_seq s"
  by (simp add: next_seq_def)

lemma log_sorted: "log_ok w s \<Longrightarrow> sorted (map ev_seq (st_events s)) \<and> distinct (map ev_seq (st_events s))"
  by (simp add: log_okD(3) distinct_map del: upt_Suc) (simp add: sorted_map del: upt_Suc)

text \<open>The chain hash that the check has reached behind a prefix of the log.\<close>

lemma verify_events_append:
  "verify_events w p es = None \<Longrightarrow>
     verify_events w p (es @ [e]) = verify_events w (if es = [] then p else Some (ev_chain (last es))) [e]"
  by (induction es arbitrary: p) (auto simp: Let_def split: if_splits)

lemma make_event_fields:
  fixes w d payload hex now s
  defines "e \<equiv> make_event w d payload hex now s"
  shows "ev_seq e = next_seq s" "ev_id e = ''evt_'' @ hex" "ev_branch e = dr_branch d"
    "ev_session e = dr_session d" "ev_kind e = dr_kind d" "ev_role e = dr_role d"
    "ev_channel e = dr_channel d" "ev_adapter e = dr_adapter d"
    "ev_content e = fst (redact_text (w_rules w) True (dr_content d))"
    "ev_files e = fst (redact_files (w_rules w) (dr_files d))"
    "ev_created e = now" "ev_prev e = map_option ev_chain (last_event s)"
  unfolding e_def by (simp_all add: make_event_def Let_def split_beta)

lemma canonical_document_cong:
  "ev_id e = ev_id e' \<Longrightarrow> ev_branch e = ev_branch e' \<Longrightarrow> ev_session e = ev_session e' \<Longrightarrow>
   ev_kind e = ev_kind e' \<Longrightarrow> ev_role e = ev_role e' \<Longrightarrow> ev_content e = ev_content e' \<Longrightarrow>
   ev_payload e = ev_payload e' \<Longrightarrow> ev_files e = ev_files e' \<Longrightarrow> ev_created e = ev_created e' \<Longrightarrow>
   ev_channel e = ev_channel e' \<Longrightarrow> ev_adapter e = ev_adapter e' \<Longrightarrow>
   canonical_document b e = canonical_document b e'"
  by (simp add: canonical_document_def)

lemma make_event_hashes:
  fixes w d payload hex now s
  defines "e \<equiv> make_event w d payload hex now s"
  shows "ev_chash e = hash_text w (canonical_document True e)"
    "ev_chain e = hash_text w (or_empty (map_option ev_chain (last_event s)) @ ev_chash e)"
  unfolding e_def by (simp_all add: make_event_def Let_def split_beta canonical_document_def)

lemma make_event_verifies:
  assumes "dr_channel d \<noteq> LEGACY_UNTRUSTED" "verify_events w None (st_events s) = None"
  shows "verify_events w None (st_events s @ [make_event w d payload hex now s]) = None"
  using assms make_event_hashes[of w d payload hex now s] make_event_fields(7,12)[of w d payload hex now s]
  by (subst verify_events_append) (auto simp: last_event_def Let_def)

section \<open>Appending one event\<close>

text \<open>What a successful append has done, and nothing else.\<close>

definition appends :: "event list \<Rightarrow> store \<Rightarrow> store \<Rightarrow> bool" where
  "appends es s s' \<longleftrightarrow>
     s' = s\<lparr>st_uuid := st_uuid s', st_tick := st_tick s', st_events := st_events s @ es\<rparr>"

lemma appends_refl [simp]: "appends [] s s"
  by (simp add: appends_def)

lemma appends_trans: "appends es s t \<Longrightarrow> appends fs t u \<Longrightarrow> appends (es @ fs) s u"
  by (cases s; cases t; cases u) (simp add: appends_def)

lemma appends_fields:
  assumes "appends es s s'"
  shows "st_events s' = st_events s @ es" "st_branches s' = st_branches s" "st_sessions s' = st_sessions s"
    "st_hooks s' = st_hooks s" "st_receipts s' = st_receipts s" "st_consolidation s' = st_consolidation s"
    "st_artifacts s' = st_artifacts s" "st_views s' = st_views s" "st_blocks s' = st_blocks s"
    "st_memories s' = st_memories s"
  using assms by (cases s; cases s'; simp add: appends_def)+

lemma append_event_in_tx_cases:
  assumes "append_event_in_tx w d s = Inr (e, s')"
  obtains payload s2 where
    "dr_branch d \<in> branch_ids s" "check_session s (dr_branch d) (dr_session d) = Inr ()"
    "stamp_adapter (dr_channel d) (dr_adapter d) (dr_payload d) = Inr payload"
    "s2 = s\<lparr>st_uuid := st_uuid s + 1, st_tick := st_tick s + 1\<rparr>"
    "e = make_event w d payload (w_uuid w (st_uuid s)) (w_now w (st_tick s)) s2"
    "ev_id e \<notin> ev_id ` set (st_events s)" "ev_chain e \<notin> ev_chain ` set (st_events s)"
    "s' = s2\<lparr>st_events := st_events s @ [e]\<rparr>"
proof -
  let ?s2 = "s\<lparr>st_uuid := st_uuid s + 1, st_tick := st_tick s + 1\<rparr>"
  obtain payload where p: "stamp_adapter (dr_channel d) (dr_adapter d) (dr_payload d) = Inr payload"
      "find_branch (st_branches s) (dr_branch d) \<noteq> None"
      "check_session s (dr_branch d) (dr_session d) = Inr ()"
      "insert_event (make_event w d payload (w_uuid w (st_uuid s)) (w_now w (st_tick s)) ?s2) ?s2 = Inr (e, s')"
    using assms by (auto simp: append_event_in_tx_def fresh_uuid_def read_clock_def split: if_splits)
  then have "e = make_event w d payload (w_uuid w (st_uuid s)) (w_now w (st_tick s)) ?s2"
      "ev_id e \<notin> ev_id ` set (st_events s)" "ev_chain e \<notin> ev_chain ` set (st_events s)"
      "s' = ?s2\<lparr>st_events := st_events s @ [e]\<rparr>"
    by (auto simp: insert_event_def split: if_splits)
  moreover have "dr_branch d \<in> branch_ids s"
    using p(2) find_branch_None[of "st_branches s" "dr_branch d"] by (auto simp: branch_ids_def)
  ultimately show thesis using that p by blast
qed

lemma append_event_in_tx_appended:
  "append_event_in_tx w d s = Inr (e, s') \<Longrightarrow> appends [e] s s'"
  by (erule append_event_in_tx_cases) (simp add: appends_def)

lemma append_event_in_tx_fields:
  assumes "append_event_in_tx w d s = Inr (e, s')"
  shows "ev_branch e = dr_branch d" "ev_session e = dr_session d" "ev_kind e = dr_kind d"
    "ev_role e = dr_role d" "ev_channel e = dr_channel d" "ev_adapter e = dr_adapter d"
    "ev_content e = fst (redact_text (w_rules w) True (dr_content d))"
    "ev_seq e = next_seq s"
  by (rule append_event_in_tx_cases[OF assms]; simp add: make_event_fields)+

lemma append_event_in_tx_log_ok:
  assumes ok: "log_ok w s" and run: "append_event_in_tx w d s = Inr (e, s')"
    and ch: "dr_channel d \<in> {PUBLIC_API, HOST_HOOK, INTERNAL}"
  shows "log_ok w s'"
proof -
  obtain payload s2 where c:
    "dr_branch d \<in> branch_ids s"
    "s2 = s\<lparr>st_uuid := st_uuid s + 1, st_tick := st_tick s + 1\<rparr>"
    "e = make_event w d payload (w_uuid w (st_uuid s)) (w_now w (st_tick s)) s2"
    "ev_id e \<notin> ev_id ` set (st_events s)" "ev_chain e \<notin> ev_chain ` set (st_events s)"
    "s' = s2\<lparr>st_events := st_events s @ [e]\<rparr>"
    using append_event_in_tx_cases[OF run] by metis
  note f = make_event_fields[of w d payload "w_uuid w (st_uuid s)" "w_now w (st_tick s)" s2, folded c(3)]
  have seq: "ev_seq e = int (length (st_events s)) + 1"
    using f(1) next_seq_length[OF ok] c(2) by simp
  have "dr_channel d \<noteq> LEGACY_UNTRUSTED" using ch by (auto simp: channel_defs)
  then have "verify_events w None (st_events s @ [e]) = None"
    using make_event_verifies[of d w s2] log_okD(8)[OF ok] c(2,3) by simp
  moreover have "forks_below (st_branches s) (1 + int (length (st_events s)))"
    using log_okD(2)[OF ok] by (force simp: forks_below_def)
  moreover have "set (rc_events r) \<subseteq> insert (ev_id e) (ev_id ` set (st_events s))"
    if "r \<in> set (st_receipts s)" for r
    using log_okD(9)[OF ok that] by blast
  moreover have "map ev_seq (st_events s @ [e]) = map int [1..<Suc (length (st_events s @ [e]))]"
    using log_okD(3)[OF ok] seq by (simp del: upt_Suc) (simp add: upt_Suc)
  moreover have "ev_branch e \<in> branch_ids s" "ev_channel e \<in> {PUBLIC_API, HOST_HOOK, INTERNAL}"
    using f(3,7) c(1) ch by auto
  ultimately show ?thesis
    using log_okD(1,4-7,10)[OF ok] c(4,5) unfolding c(6) c(2) log_ok_def branch_ids_def
    by (simp del: upt_Suc)
qed

section \<open>What a branch sees\<close>

definition sees :: "(string \<times> int option) list \<Rightarrow> event \<Rightarrow> bool" where
  "sees lin e \<longleftrightarrow> (\<exists>(b, k) \<in> set lin. ev_branch e = b \<and> below k (ev_seq e))"

lemma sees_cut: "sees (cut k L) e \<longleftrightarrow> sees L e \<and> below k (ev_seq e)"
  unfolding sees_def cut_def set_map bex_simps(7) by (auto simp: case_prod_beta)

lemma sees_append: "sees (L @ M) e \<longleftrightarrow> sees L e \<or> sees M e"
  unfolding sees_def set_append by blast

text \<open>
  Collecting the rows branch by branch and sorting them by a unique key is filtering the
  table: the shape of every lineage query of the store.
\<close>

lemma distinct_lineage_rows:
  assumes "distinct rows" and "\<And>b k e. P b k e \<Longrightarrow> g e = b"
  shows "distinct (map fst lin) \<Longrightarrow> distinct (concat (map (\<lambda>(b, k). filter (P b k) rows) lin))"
proof (induction lin)
  case Nil
  then show ?case by simp
next
  case (Cons a lin)
  obtain b k where a: "a = (b, k)" by fastforce
  have "set (filter (P b k) rows) \<inter> set (concat (map (\<lambda>(b, k). filter (P b k) rows) lin)) = {}"
  proof (rule ccontr)
    assume "\<not> ?thesis"
    then obtain e b' k' where e: "P b k e" "(b', k') \<in> set lin" "P b' k' e" by auto
    then have "b' = b" using assms(2) by metis
    then show False using e(2) Cons.prems unfolding a by (auto simp: rev_image_eqI)
  qed
  then show ?case using Cons assms(1) a by auto
qed

lemma lineage_rows:
  assumes sorted: "sorted (map f rows)" and dist: "distinct (map f rows)"
    and branch: "\<And>b k e. P b k e \<Longrightarrow> g e = b" and lin: "distinct (map fst lin)"
  shows "sort_key f (concat (map (\<lambda>(b, k). filter (P b k) rows) lin))
       = filter (\<lambda>e. \<exists>(b, k) \<in> set lin. P b k e) rows" (is "sort_key f ?xs = ?ys")
proof (rule sort_key_inj_key_eq)
  have d: "distinct rows" using dist distinct_map by blast
  have "distinct ?xs" by (rule distinct_lineage_rows[OF d branch lin])
  moreover have "set ?xs = set ?ys" by auto
  ultimately show "mset ?xs = mset ?ys" using d set_eq_iff_mset_eq_distinct distinct_filter by blast
  show "inj_on f (set ?xs)" using dist by (auto simp: distinct_map intro: inj_on_subset)
  show "sorted (map f ?ys)" using sorted by (induction rows) (auto split: if_splits)
qed

text \<open>The reference meaning of \<open>query_events\<close>.\<close>

definition query_spec :: "event_query \<Rightarrow> (string \<times> int option) list \<Rightarrow> event \<Rightarrow> bool" where
  "query_spec q lin e \<longleftrightarrow>
     sees lin e \<and> ev_seq e > q_after q \<and> below (q_through q) (ev_seq e)
     \<and> (q_kinds q = [] \<or> ev_kind e \<in> set (q_kinds q))
     \<and> (given (q_since q) \<longrightarrow> the (q_since q) \<le> ev_created e)
     \<and> (given (q_until q) \<longrightarrow> ev_created e \<le> the (q_until q))
     \<and> (given (q_text q) \<longrightarrow> matches_text (the (q_text q)) e)
     \<and> (given (q_file q) \<longrightarrow> the (q_file q) \<in> set (ev_files e))"

lemma query_spec_row:
  "(\<exists>(b, k) \<in> set lin. row_matches q b k e)
   \<and> (given (q_text q) \<longrightarrow> matches_text (the (q_text q)) e)
   \<and> (given (q_file q) \<longrightarrow> the (q_file q) \<in> set (ev_files e)) \<longleftrightarrow> query_spec q lin e"
  by (auto simp: query_spec_def sees_def row_matches_def)

lemma lineage_of_distinct: "lineage_of P c L \<Longrightarrow> distinct (map fst L)"
  by (auto simp: lineage_of_def)

lemma query_events_spec:
  assumes ok: "log_ok w s" and lin: "lineage s b = Inr L" and d: "distinct (map fst L)"
  shows "query_events s b q = Inr
    (let found = filter (query_spec q L) (st_events s)
     in case q_limit q of None \<Rightarrow> found | Some n \<Rightarrow> slice_last n found)"
proof -
  have "sort_key ev_seq (concat (map (\<lambda>(b, k). filter (row_matches q b k) (st_events s)) L))
      = filter (\<lambda>e. \<exists>(b, k) \<in> set L. row_matches q b k e) (st_events s)"
    by (rule lineage_rows[where g = ev_branch]) (use log_sorted[OF ok] d in \<open>auto simp: row_matches_def\<close>)
  moreover have "filter (query_spec q L) (st_events s) =
      filter (\<lambda>e. (\<exists>(b, k) \<in> set L. row_matches q b k e)
        \<and> (given (q_text q) \<longrightarrow> matches_text (the (q_text q)) e)
        \<and> (given (q_file q) \<longrightarrow> the (q_file q) \<in> set (ev_files e))) (st_events s)"
    unfolding query_spec_row ..
  ultimately show ?thesis
    using lin unfolding query_events_def
    by (simp add: Let_def filter_filter conj_commute conj_left_commute cong: filter_cong split: option.splits)
qed

definition history :: "store \<Rightarrow> string \<Rightarrow> event list result" where
  "history s b = query_events s b all_events"

lemma history_spec:
  assumes ok: "log_ok w s" and b: "b \<in> branch_ids s"
  obtains L where "lineage s b = Inr L" "lineage_of (st_branches s) b L"
    "lineage_answers (st_branches s) b L"
    "history s b = Inr (filter (sees L) (st_events s))"
proof -
  obtain L where L: "lineage s b = Inr L" "lineage_of (st_branches s) b L" "lineage_answers (st_branches s) b L"
    using lineage_total[OF log_okD(1)[OF ok] b] by blast
  have "query_spec all_events L e \<longleftrightarrow> sees L e" if "e \<in> set (st_events s)" for e
    using log_seq_range[OF ok that] by (auto simp: query_spec_def all_events_def given_def)
  then have "filter (query_spec all_events L) (st_events s) = filter (sees L) (st_events s)"
    by (simp cong: filter_cong)
  then have "history s b = Inr (filter (sees L) (st_events s))"
    using query_events_spec[OF ok L(1) lineage_of_distinct[OF L(2)]]
    by (simp add: history_def all_events_def)
  then show thesis using that L by blast
qed

text \<open>A new event, with a number above every fork, is seen by its own branch only.\<close>

lemma sees_new:
  assumes L: "lineage_of bs b L" and forks: "forks_below bs n" and new: "ev_seq e > n"
  shows "sees L e \<longleftrightarrow> ev_branch e = b"
proof -
  obtain L0 where L0: "L = L0 @ [(b, None)]" "fst ` set L0 \<subseteq> br_id ` set bs - {b}"
      "\<forall>(x, m) \<in> set L0. \<exists>f. m = Some f \<and> (\<exists>b \<in> set bs. \<exists>g. br_fork b = Some g \<and> f \<le> g)"
    using L unfolding lineage_of_def by blast
  have "\<not> below k (ev_seq e)" if "(x, k) \<in> set L0" for x k
    using L0(3) that forks new unfolding forks_below_def by fastforce
  then show ?thesis unfolding sees_def L0(1) by auto
qed

section \<open>Writers of the log\<close>

text \<open>
  A call that raises leaves the store as it was (the transaction rolls back); a sequence of
  calls goes on from there.
\<close>

definition attempt :: "('a \<Rightarrow> store \<Rightarrow> ('r \<times> store) result) \<Rightarrow> 'a \<Rightarrow> store \<Rightarrow> store" where
  "attempt run a s = (case run a s of Inl e \<Rightarrow> s | Inr (r, s') \<Rightarrow> s')"

definition attempts :: "('a \<Rightarrow> store \<Rightarrow> ('r \<times> store) result) \<Rightarrow> 'a list \<Rightarrow> store \<Rightarrow> store" where
  "attempts run as s = fold (attempt run) as s"

lemma attempts_simps [simp]:
  "attempts run [] s = s" "attempts run (a # as) s = attempts run as (attempt run a s)"
  by (simp_all add: attempts_def)

text \<open>Both tables only grow at the end.\<close>

definition grows :: "store \<Rightarrow> store \<Rightarrow> bool" where
  "grows s s' \<longleftrightarrow> (\<exists>es bs. st_events s' = st_events s @ es \<and> st_branches s' = st_branches s @ bs)"

lemma grows_refl [simp]: "grows s s"
  by (simp add: grows_def)

lemma grows_trans: "grows s t \<Longrightarrow> grows t u \<Longrightarrow> grows s u"
  unfolding grows_def by (metis append.assoc)

lemma grows_same: "st_events s' = st_events s \<Longrightarrow> st_branches s' = st_branches s \<Longrightarrow> grows s s'"
  by (simp add: grows_def)

lemma appends_grows: "appends es s s' \<Longrightarrow> grows s s'"
  using appends_fields(1,2) by (force simp: grows_def)

locale log_writer =
  fixes w :: world
    and valid :: "'a \<Rightarrow> bool"
    and run :: "'a \<Rightarrow> store \<Rightarrow> ('r \<times> store) result"
  assumes keeps_log: "valid a \<Longrightarrow> log_ok w s \<Longrightarrow> run a s = Inr (r, s') \<Longrightarrow> log_ok w s'"
    and only_grows: "valid a \<Longrightarrow> run a s = Inr (r, s') \<Longrightarrow> grows s s'"
begin

lemma attempt_keeps: "valid a \<Longrightarrow> log_ok w s \<Longrightarrow> log_ok w (attempt run a s)"
  by (auto simp: attempt_def split: sum.splits intro: keeps_log)

lemma attempt_grows: "valid a \<Longrightarrow> grows s (attempt run a s)"
  by (auto simp: attempt_def split: sum.splits intro: only_grows)

lemma attempts_keep: "list_all valid as \<Longrightarrow> log_ok w s \<Longrightarrow> log_ok w (attempts run as s)"
  by (induction as arbitrary: s) (auto intro: attempt_keeps)

lemma attempts_grow: "list_all valid as \<Longrightarrow> grows s (attempts run as s)"
  by (induction as arbitrary: s) (auto intro: attempt_grows grows_trans)

lemma history_prefix:
  assumes "list_all valid as" "log_ok w s" "b \<in> branch_ids s"
  shows "\<exists>old new. history s b = Inr old \<and> history (attempts run as s) b = Inr (old @ new)"
proof -
  let ?t = "attempts run as s"
  have t: "log_ok w ?t" "grows s ?t" using attempts_keep attempts_grow assms by blast+
  obtain es bs where g: "st_events ?t = st_events s @ es" "st_branches ?t = st_branches s @ bs"
    using t(2) by (auto simp: grows_def)
  obtain L where L: "lineage_of (st_branches s) b L" "lineage_answers (st_branches s) b L"
      "history s b = Inr (filter (sees L) (st_events s))"
    using history_spec[OF assms(2,3)] by metis
  have "lineage ?t b = Inr L"
    using lineage_answer[OF L(2) g(2)] branches_ok_distinct[OF log_okD(1)[OF t(1)]] by blast
  moreover have "b \<in> branch_ids ?t" using assms(3) g(2) by (auto simp: branch_ids_def)
  ultimately have "history ?t b = Inr (filter (sees L) (st_events ?t))"
    using history_spec[OF t(1), of b] by (metis sum.inject(2))
  then show ?thesis using L(3) g(1) by simp
qed

lemma chain_hash_kept:
  assumes "list_all valid as" "log_ok w s" "chain_hash_at s n = Some h"
  shows "chain_hash_at (attempts run as s) n = Some h"
proof -
  obtain es where "st_events (attempts run as s) = st_events s @ es"
    using attempts_grow[OF assms(1), of s] by (auto simp: grows_def)
  moreover have "List.find P (xs @ ys) = Some x" if "List.find P xs = Some x" for P :: "event \<Rightarrow> bool" and xs ys x
    using that by (induction xs) (auto split: if_splits)
  ultimately show ?thesis using assms(3) by (auto simp: chain_hash_at_def)
qed

end

section \<open>The operations are writers of the log\<close>

lemma append_batch_spec:
  "channel \<in> {PUBLIC_API, HOST_HOOK, INTERNAL} \<Longrightarrow> log_ok w s \<Longrightarrow>
     append_batch w b ses channel adapter items s = Inr (es, s') \<Longrightarrow>
     log_ok w s' \<and> appends es s s'
     \<and> length es = length items \<and> (\<forall>e \<in> set es. ev_branch e = b \<and> ev_channel e = channel \<and> ev_adapter e = adapter)"
proof (induction items arbitrary: s es)
  case Nil
  then show ?case by simp
next
  case (Cons item items)
  obtain e s1 es2 where st: "append_event_in_tx w
       \<lparr>dr_branch = b, dr_session = ses, dr_kind = bi_kind item, dr_role = bi_role item,
        dr_content = bi_content item, dr_channel = channel, dr_adapter = adapter,
        dr_payload = bi_payload item, dr_files = bi_files item\<rparr> s = Inr (e, s1)"
      "append_batch w b ses channel adapter items s1 = Inr (es2, s')" "es = e # es2"
    using Cons.prems(3) by auto
  have "log_ok w s1" using append_event_in_tx_log_ok[OF Cons.prems(2) st(1)] Cons.prems(1) by simp
  note ih = Cons.IH[OF Cons.prems(1) this st(2)]
  have "ev_branch e = b \<and> ev_channel e = channel \<and> ev_adapter e = adapter"
    using append_event_in_tx_cases[OF st(1)] make_event_fields(3,7,8) by (metis event_draft.select_convs(1,6,7))
  then show ?case
    using ih appends_trans[OF append_event_in_tx_appended[OF st(1)]] st(3) by auto
qed

lemma once_fresh_cases:
  assumes "append_events_once_from w key items b ses channel adapter s = Inr ((es, fresh), s')"
  shows "key \<noteq> []" "items \<noteq> []"
    and "\<not> fresh \<Longrightarrow> s' = s \<and> (\<exists>r \<in> set (st_receipts s). rc_key r = key \<and> map (find_event s) (rc_events r) = map Some es)"
    and "fresh \<Longrightarrow> key \<notin> rc_key ` set (st_receipts s) \<and>
      (\<exists>s1 now t. append_batch w b ses channel adapter items s = Inr (es, s1) \<and>
         s' = s1\<lparr>st_tick := t, st_receipts := st_receipts s1 @
                  [\<lparr>rc_key = key, rc_events = map ev_id es, rc_created = now\<rparr>]\<rparr>)"
proof -
  have opt: "None \<notin> set ys \<Longrightarrow> map Some (map the ys) = ys" for ys :: "event option list"
    by (induction ys) auto
  show "key \<noteq> []" "items \<noteq> []"
    using assms by (auto simp: append_events_once_from_def split: if_splits)
  show "s' = s \<and> (\<exists>r \<in> set (st_receipts s). rc_key r = key \<and> map (find_event s) (rc_events r) = map Some es)"
    if "\<not> fresh"
  proof (cases "List.find (\<lambda>r. rc_key r = key) (st_receipts s)")
    case None
    then show ?thesis using assms that
      by (auto simp: append_events_once_from_def read_clock_def split: if_splits)
  next
    case (Some r)
    then have "None \<notin> set (map (find_event s) (rc_events r))" "es = map the (map (find_event s) (rc_events r))" "s' = s"
      using assms by (auto simp: append_events_once_from_def Let_def split: if_splits)
    then show ?thesis using opt find_Some_iff2[OF Some] by metis
  qed
  show "key \<notin> rc_key ` set (st_receipts s) \<and>
      (\<exists>s1 now t. append_batch w b ses channel adapter items s = Inr (es, s1) \<and>
         s' = s1\<lparr>st_tick := t, st_receipts := st_receipts s1 @
                  [\<lparr>rc_key = key, rc_events = map ev_id es, rc_created = now\<rparr>]\<rparr>)" if "fresh"
  proof (cases "List.find (\<lambda>r. rc_key r = key) (st_receipts s)")
    case None
    then have "key \<notin> rc_key ` set (st_receipts s)" by (auto simp: find_None_iff)
    then show ?thesis using assms None
      by (auto simp: append_events_once_from_def read_clock_def split: if_splits)
  next
    case (Some r)
    then show ?thesis using assms that
      by (auto simp: append_events_once_from_def Let_def split: if_splits)
  qed
qed

lemma log_ok_cong:
  "st_events s' = st_events s \<Longrightarrow> st_branches s' = st_branches s \<Longrightarrow> st_receipts s' = st_receipts s \<Longrightarrow>
     log_ok w s' = log_ok w s"
  by (simp add: log_ok_def branch_ids_def del: upt_Suc)

lemma log_ok_counters:
  "log_ok w s \<Longrightarrow> log_ok w (s\<lparr>st_tick := t\<rparr>)" "log_ok w s \<Longrightarrow> log_ok w (s\<lparr>st_uuid := u\<rparr>)"
  by (simp_all add: log_ok_def branch_ids_def del: upt_Suc)

lemma once_log_ok:
  assumes ok: "log_ok w s" and ch: "channel \<in> {PUBLIC_API, HOST_HOOK, INTERNAL}"
    and run: "append_events_once_from w key items b ses channel adapter s = Inr ((es, fresh), s')"
  shows "log_ok w s' \<and> grows s s'"
proof (cases fresh)
  case False
  then show ?thesis using once_fresh_cases(3)[OF run] ok by simp
next
  case True
  then obtain s1 now t where c: "key \<notin> rc_key ` set (st_receipts s)"
      "append_batch w b ses channel adapter items s = Inr (es, s1)"
      "s' = s1\<lparr>st_tick := t, st_receipts := st_receipts s1 @
                  [\<lparr>rc_key = key, rc_events = map ev_id es, rc_created = now\<rparr>]\<rparr>"
    using once_fresh_cases(4)[OF run] by metis
  have s1: "log_ok w s1" "appends es s s1"
    using append_batch_spec[OF ch ok c(2)] by blast+
  then show ?thesis
    using c(1) log_okD(9,10)[OF s1(1)] appends_fields[OF s1(2)] unfolding c(3)
    by (auto simp: log_ok_def branch_ids_def grows_def simp del: upt_Suc)
qed

lemma history_tip:
  assumes "log_ok w s" "history s p = Inr es"
  shows "(if es = [] then 0 else ev_seq (last es)) \<le> int (length (st_events s))"
proof (cases "es = []")
  case False
  obtain L where L: "lineage s p = Inr L"
    using assms(2) by (cases "lineage s p") (auto simp: history_def query_events_def)
  have "set es \<subseteq> set (st_events s)"
    using assms(2) L by (auto simp: history_def query_events_def all_events_def given_def)
  then have "last es \<in> set (st_events s)" using False by (meson last_in_set subsetD)
  then show ?thesis using log_seq_range[OF assms(1)] False by simp
qed simp

lemma create_branch_cases:
  assumes "create_branch w b p fork s = Inr (r, s')"
  obtains es f now where "history s p = Inr es" "p \<in> branch_ids s" "b \<notin> branch_ids s" "b \<noteq> ''main''" "b \<noteq> []"
    "f = (case fork of None \<Rightarrow> (if es = [] then 0 else ev_seq (last es)) | Some n \<Rightarrow> n)"
    "0 \<le> f" "f \<le> (if es = [] then 0 else ev_seq (last es))" "r = b"
    "s' = s\<lparr>st_tick := st_tick s + 1, st_branches := st_branches s @
       [\<lparr>br_id = b, br_parent = Some p, br_fork = Some f, br_created = now\<rparr>]\<rparr>"
proof -
  have "find_branch (st_branches s) p \<noteq> None" "find_branch (st_branches s) b = None" "b \<noteq> ''main''" "b \<noteq> []"
    using assms by (auto simp: create_branch_def Let_def split: if_splits)
  then have ids: "p \<in> branch_ids s" "b \<notin> branch_ids s" "b \<noteq> ''main''" "b \<noteq> []"
    using find_branch_None by (auto simp: branch_ids_def)
  obtain es where "history s p = Inr es"
    using assms by (auto simp: create_branch_def history_def split: if_splits)
  moreover have "history s p = query_events s p all_events" by (simp add: history_def)
  ultimately show thesis
    using that[OF _ ids] assms unfolding create_branch_def
    by (auto simp: Let_def read_clock_def split: if_splits)
qed

lemma create_branch_grows: "create_branch w b p fork s = Inr (r, s') \<Longrightarrow> grows s s'"
  by (erule create_branch_cases) (simp add: grows_def)

lemma create_branch_log_ok:
  assumes ok: "log_ok w s" and run: "create_branch w b p fork s = Inr (r, s')"
  shows "log_ok w s' \<and> grows s s'"
proof (rule create_branch_cases[OF run], goal_cases)
  case (1 es f now)
  let ?b = "\<lparr>br_id = b, br_parent = Some p, br_fork = Some f, br_created = now\<rparr>"
  have "branches_ok (st_branches s @ [?b])"
    by (rule branches_ok.fork[OF log_okD(1)[OF ok]]) (use 1 in \<open>auto simp: branch_ids_def\<close>)
  moreover have "forks_below (st_branches s @ [?b]) (int (length (st_events s)))"
    using log_okD(2)[OF ok] history_tip[OF ok 1(1)] 1(8) by (simp add: forks_below_def)
  ultimately show ?case
    using ok unfolding 1(10) log_ok_def branch_ids_def grows_def
    by (auto simp del: upt_Suc)
qed

lemma insert_session_same:
  "insert_session w i a b caps s = Inr s' \<Longrightarrow> \<exists>t ss. s' = s\<lparr>st_tick := t, st_sessions := ss\<rparr>"
  by (auto simp: insert_session_def read_clock_def split: if_splits)

lemma log_ok_sessions: "log_ok w s \<Longrightarrow> log_ok w (s\<lparr>st_sessions := ss\<rparr>)" "log_ok w s \<Longrightarrow> log_ok w (s\<lparr>st_hooks := hs\<rparr>)"
  by (simp_all add: log_ok_def branch_ids_def del: upt_Suc)

lemma start_session_log_ok:
  "log_ok w s \<Longrightarrow> start_session w a b caps s = Inr (r, s') \<Longrightarrow> log_ok w s' \<and> grows s s'"
  by (auto simp: start_session_def fresh_uuid_def grows_def Let_def split: if_splits dest!: insert_session_same
      intro!: log_ok_counters log_ok_sessions)

lemma hook_session_log_ok:
  "log_ok w s \<Longrightarrow> hook_session w a x b caps s = Inr (r, s') \<Longrightarrow> log_ok w s' \<and> grows s s'"
  by (auto simp: hook_session_def fresh_uuid_def read_clock_def grows_def Let_def
      split: if_splits option.splits dest!: insert_session_same intro!: log_ok_counters log_ok_sessions)

end
