(* ===== verification/LogProps.thy ===== *)
theory LogProps
  imports LogFacts
begin

text \<open>
  The public calls that write the canonical log, their interpretation as writers of the log
  (theory LogFacts), and the properties of the log that hold after any sequence of calls,
  failed ones included: integrity, append-only history, isolation of branches, idempotent
  ingestion, tamper evidence, and that untrusted ingress never yields trusted provenance.
\<close>

section \<open>Calls\<close>

datatype log_call =
    CallAppend string string string "string option" "string option" "(string \<times> json) list" "string list"
  | CallAppendHost string string string string "string option" "string option" "(string \<times> json) list" "string list"
  | CallOnce string "batch_item list" string "string option"
  | CallInternalOnce string "batch_item list" string "string option"
  | CallHostOnce string "batch_item list" string string "string option"
  | CallCreateBranch string string "int option"
  | CallStartSession string string "(string \<times> json) list"
  | CallHookSession string string string "(string \<times> json) list"
  | CallMarkConsolidated string json

definition drop_value :: "('r \<times> store) result \<Rightarrow> (unit \<times> store) result" where
  "drop_value r = bindr r (\<lambda>(_, s). Inr ((), s))"

lemma drop_value_Inr [simp]: "drop_value r = Inr (u, s) \<longleftrightarrow> (\<exists>x. r = Inr (x, s))"
  by (auto simp: drop_value_def)

fun run_call :: "world \<Rightarrow> log_call \<Rightarrow> store \<Rightarrow> (unit \<times> store) result" where
  "run_call w (CallAppend kind content b ses role payload files) s =
     drop_value (append_event w kind content b ses role payload files s)"
| "run_call w (CallAppendHost adapter kind content b ses role payload files) s =
     drop_value (append_host_event w adapter kind content b ses role payload files s)"
| "run_call w (CallOnce key items b ses) s = drop_value (append_events_once w key items b ses s)"
| "run_call w (CallInternalOnce key items b ses) s =
     drop_value (append_internal_events_once w key items b ses s)"
| "run_call w (CallHostOnce key items adapter b ses) s =
     drop_value (append_host_events_once w key items adapter b ses s)"
| "run_call w (CallCreateBranch b p fork) s = drop_value (create_branch w b p fork s)"
| "run_call w (CallStartSession agent b caps) s = drop_value (start_session w agent b caps s)"
| "run_call w (CallHookSession agent ext b caps) s = drop_value (hook_session w agent ext b caps s)"
| "run_call w (CallMarkConsolidated e r) s = drop_value (mark_consolidated w e r s)"

definition call_store :: "world \<Rightarrow> log_call list \<Rightarrow> store" where
  "call_store w calls = attempts (run_call w) calls (initial_store w)"

lemma append_event_log:
  "append_event w kind content b ses role payload files s = Inr (e, s') \<Longrightarrow>
     appends [e] s s' \<and> (log_ok w s \<longrightarrow> log_ok w s') \<and> ev_branch e = b \<and> ev_channel e = PUBLIC_API"
  unfolding append_event_def
  by (frule append_event_in_tx_appended, frule append_event_in_tx_fields(1),
      frule append_event_in_tx_fields(5)) (simp add: append_event_in_tx_log_ok)

lemma append_host_event_log:
  "append_host_event w adapter kind content b ses role payload files s = Inr (e, s') \<Longrightarrow>
     appends [e] s s' \<and> (log_ok w s \<longrightarrow> log_ok w s') \<and> ev_branch e = b \<and> ev_channel e = HOST_HOOK
     \<and> ev_adapter e = Some adapter"
  unfolding append_host_event_def
  apply (simp split: if_splits)
  apply (frule append_event_in_tx_appended, frule append_event_in_tx_fields(1),
      frule append_event_in_tx_fields(5), frule append_event_in_tx_fields(6))
  apply (simp add: append_event_in_tx_log_ok)
  done

lemma mark_consolidated_log:
  assumes "mark_consolidated w e r s = Inr (u, s')"
  shows "st_events s' = st_events s" "st_branches s' = st_branches s" "st_receipts s' = st_receipts s"
  using assms by (auto simp: mark_consolidated_def read_clock_def split: if_splits)

lemmas once_defs = append_events_once_def append_internal_events_once_def append_host_events_once_def

lemma batch_grows: "append_batch w b ses channel adapter items s = Inr (es, s') \<Longrightarrow> appends es s s'"
proof (induction items arbitrary: s es)
  case (Cons item items)
  then obtain e s1 es2 where "append_event_in_tx w
       \<lparr>dr_branch = b, dr_session = ses, dr_kind = bi_kind item, dr_role = bi_role item,
        dr_content = bi_content item, dr_channel = channel, dr_adapter = adapter,
        dr_payload = bi_payload item, dr_files = bi_files item\<rparr> s = Inr (e, s1)"
      "append_batch w b ses channel adapter items s1 = Inr (es2, s')" "es = e # es2"
    by auto
  then show ?case using Cons.IH appends_trans[OF append_event_in_tx_appended] by fastforce
qed simp

lemma once_grows:
  assumes "append_events_once_from w key items b ses channel adapter s = Inr ((es, fresh), s')"
  shows "grows s s'"
proof (cases fresh)
  case False
  then show ?thesis using once_fresh_cases(3)[OF assms] by simp
next
  case True
  then obtain s1 t now where "append_batch w b ses channel adapter items s = Inr (es, s1)"
      "s' = s1\<lparr>st_tick := t, st_receipts := st_receipts s1 @
                  [\<lparr>rc_key = key, rc_events = map ev_id es, rc_created = now\<rparr>]\<rparr>"
    using once_fresh_cases(4)[OF assms] by metis
  then show ?thesis using appends_fields(1,2)[OF batch_grows] by (force simp: grows_def)
qed

interpretation log_append: log_writer w "\<lambda>_. True"
  "\<lambda>(kind, content, b, ses, role, payload, files). append_event w kind content b ses role payload files" for w
  by unfold_locales (auto dest!: append_event_log intro: appends_grows)

interpretation log_host: log_writer w "\<lambda>_. True"
  "\<lambda>(adapter, kind, content, b, ses, role, payload, files).
     append_host_event w adapter kind content b ses role payload files" for w
  by unfold_locales (auto dest!: append_host_event_log intro: appends_grows)

interpretation log_once: log_writer w "\<lambda>(key, items, b, ses, channel, adapter). channel \<in> {PUBLIC_API, HOST_HOOK, INTERNAL}"
  "\<lambda>(key, items, b, ses, channel, adapter). append_events_once_from w key items b ses channel adapter" for w
  by unfold_locales (auto simp del: insert_iff dest: once_log_ok once_grows)

interpretation log_branch: log_writer w "\<lambda>_. True" "\<lambda>(b, p, fork). create_branch w b p fork" for w
  by unfold_locales (auto dest: create_branch_log_ok create_branch_grows)

lemma run_call_log:
  assumes "run_call w c s = Inr (u, s')"
  shows "grows s s' \<and> (log_ok w s \<longrightarrow> log_ok w s')"
proof (cases c)
  case (CallAppend kind content b ses role payload files)
  then show ?thesis using assms append_event_log appends_grows by fastforce
next
  case (CallAppendHost adapter kind content b ses role payload files)
  then show ?thesis using assms append_host_event_log appends_grows by fastforce
next
  case (CallOnce key items b ses)
  then show ?thesis using assms once_log_ok[of w s PUBLIC_API] once_grows by (fastforce simp: once_defs)
next
  case (CallInternalOnce key items b ses)
  then show ?thesis using assms once_log_ok[of w s INTERNAL] once_grows by (fastforce simp: once_defs)
next
  case (CallHostOnce key items adapter b ses)
  then show ?thesis using assms once_log_ok[of w s HOST_HOOK] once_grows
    by (fastforce simp: once_defs split: if_splits)
next
  case (CallCreateBranch b p fork)
  then show ?thesis using assms create_branch_log_ok create_branch_grows by fastforce
next
  case (CallStartSession agent b caps)
  then obtain r where r: "start_session w agent b caps s = Inr (r, s')" using assms by auto
  then have "st_events s' = st_events s \<and> st_branches s' = st_branches s"
    by (auto simp: start_session_def fresh_uuid_def Let_def split: if_splits dest!: insert_session_same)
  then show ?thesis using start_session_log_ok[OF _ r] grows_same by blast
next
  case (CallHookSession agent ext b caps)
  then obtain r where r: "hook_session w agent ext b caps s = Inr (r, s')" using assms by auto
  then have "st_events s' = st_events s \<and> st_branches s' = st_branches s"
    by (auto simp: hook_session_def fresh_uuid_def read_clock_def Let_def
        split: if_splits option.splits dest!: insert_session_same)
  then show ?thesis using hook_session_log_ok[OF _ r] grows_same by blast
next
  case (CallMarkConsolidated e r)
  then have m: "mark_consolidated w e r s = Inr ((), s')" using assms by auto
  show ?thesis using mark_consolidated_log[OF m] log_ok_cong grows_same by metis
qed

interpretation log_call: log_writer w "\<lambda>_. True" "run_call w" for w
  by unfold_locales (auto dest: run_call_log)

lemma call_store_ok: "log_ok w (call_store w calls)"
  unfolding call_store_def by (rule log_call.attempts_keep[OF _ initial_log_ok]) (simp add: list_all_iff)

section \<open>Properties\<close>

text \<open>
  C1: the log after any calls.  Whatever sequence of calls was made on a new store,
  failing ones included, the events carry the numbers 1, 2, 3, ... without a gap, their
  identifiers and chain hashes are pairwise different, each belongs to a branch that
  exists, the hash chain verifies, and every branch has a lineage that ends in itself.
\<close>

theorem log_integrity:
  "verify_events w None (st_events (call_store w calls)) = None
   \<and> map ev_seq (st_events (call_store w calls)) = map int [1..<Suc (length (st_events (call_store w calls)))]
   \<and> distinct (map ev_id (st_events (call_store w calls)))
   \<and> distinct (map ev_chain (st_events (call_store w calls)))
   \<and> ev_branch ` set (st_events (call_store w calls)) \<subseteq> branch_ids (call_store w calls)
   \<and> branch_ids (call_store w calls) \<subseteq>
       {b. \<exists>L0. lineage (call_store w calls) b = Inr (L0 @ [(b, None)])}"
proof -
  let ?s = "call_store w calls"
  have ok: "log_ok w ?s" by (rule call_store_ok)
  have "\<exists>L0. lineage ?s b = Inr (L0 @ [(b, None)])" if "b \<in> branch_ids ?s" for b
    by (rule lineage_total[OF log_okD(1)[OF ok] that]) (auto simp: lineage_of_def)
  then show ?thesis using log_okD(3,4,5,6,8)[OF ok] by blast
qed

text \<open>
  C4: history is append-only.  The events a branch shows are, after any further calls, the
  same events in the same order followed by new ones; and the chain hash at a number that
  was reached stays what it was, which is what an external witness checks.
\<close>

theorem history_append_only:
  assumes "b \<in> branch_ids (call_store w calls)"
  shows "\<exists>old new. history (call_store w calls) b = Inr old
      \<and> history (call_store w (calls @ further)) b = Inr (old @ new)
      \<and> (\<forall>n h. chain_hash_at (call_store w calls) n = Some h \<longrightarrow>
           chain_hash_at (call_store w (calls @ further)) n = Some h)"
proof -
  have eq: "call_store w (calls @ further) = attempts (run_call w) further (call_store w calls)"
    by (simp add: call_store_def attempts_def)
  have v: "list_all (\<lambda>_. True) further" by (simp add: list_all_iff)
  show ?thesis
    using log_call.history_prefix[OF v call_store_ok assms] log_call.chain_hash_kept[OF v call_store_ok]
    unfolding eq by blast
qed

theorem history_append_only_witness:
  "\<exists>old new. history (call_store \<lparr>w_uuid = \<lambda>_. [], w_now = \<lambda>_. [], w_time = \<lambda>_. 0, w_sha256 = \<lambda>x. x, w_rules = []\<rparr> []) ''main'' = Inr old
      \<and> history (call_store \<lparr>w_uuid = \<lambda>_. [], w_now = \<lambda>_. [], w_time = \<lambda>_. 0, w_sha256 = \<lambda>x. x, w_rules = []\<rparr>
           ([] @ [CallCreateBranch ''topic'' ''main'' None])) ''main'' = Inr (old @ new)"
  using history_append_only[of "''main''" "\<lparr>w_uuid = \<lambda>_. [], w_now = \<lambda>_. [], w_time = \<lambda>_. 0, w_sha256 = \<lambda>x. x, w_rules = []\<rparr>"
      "[]" "[CallCreateBranch ''topic'' ''main'' None]"]
  by (auto simp: branch_ids_def call_store_def initial_store_def main_branch_def)

text \<open>
  C3: branches are isolated.  Appending an event to one branch leaves the history of every
  other branch unchanged, its ancestors and its forks included; the branch itself shows the
  new event last.
\<close>

theorem branch_isolation:
  assumes ok: "log_ok w s" and run: "append_event w kind content c ses role payload files s = Inr (e, s')"
    and b: "b \<in> branch_ids s"
  shows "\<exists>es. history s b = Inr es \<and> history s' b = Inr (if b = c then es @ [e] else es)"
proof -
  have a: "appends [e] s s'" "log_ok w s'" "ev_branch e = c"
    using append_event_log[OF run] ok by blast+
  obtain L where L: "lineage_of (st_branches s) b L" "lineage_answers (st_branches s) b L"
      "history s b = Inr (filter (sees L) (st_events s))"
    using history_spec[OF ok b] by metis
  have br: "st_branches s' = st_branches s" "st_events s' = st_events s @ [e]"
    using appends_fields[OF a(1)] by simp_all
  then have "lineage s' b = Inr L"
    using lineage_answer[OF L(2), of s' "[]"] branches_ok_distinct[OF log_okD(1)[OF ok]] by simp
  moreover have "b \<in> branch_ids s'" using b br by (simp add: branch_ids_def)
  ultimately have "history s' b = Inr (filter (sees L) (st_events s'))"
    using history_spec[OF a(2), of b] by (metis sum.inject(2))
  moreover have "ev_seq e = int (length (st_events s)) + 1"
    using log_seq_nth[OF a(2), of "length (st_events s)"] br(2) by simp
  then have "sees L e \<longleftrightarrow> c = b"
    using sees_new[OF L(1) log_okD(2)[OF ok], of e] a(3) by simp
  ultimately show ?thesis using L(3) br(2) by simp
qed

definition demo_world :: world where
  "demo_world = \<lparr>w_uuid = show_nat, w_now = (\<lambda>n. ''2026-01-01T00:00:'' @ show_nat n), w_time = rat_of_nat, w_sha256 = (\<lambda>x. x), w_rules = []\<rparr>"

definition demo_store :: store where
  "demo_store = call_store demo_world [CallCreateBranch ''topic'' ''main'' None]"

lemma demo_store_ok: "log_ok demo_world demo_store"
  unfolding demo_store_def by (rule call_store_ok)

lemma demo_facts:
  "is_ok (append_event demo_world ''message'' ''hi'' ''main'' None None [] [] demo_store)
   \<and> ''main'' \<in> branch_ids demo_store \<and> ''topic'' \<in> branch_ids demo_store"
  by code_simp

lemmas demo_append = demo_facts[THEN conjunct1]
lemmas demo_branches = demo_facts[THEN conjunct2, THEN conjunct1] demo_facts[THEN conjunct2, THEN conjunct2]

theorem branch_isolation_witness:
  "\<exists>e s' es. append_event demo_world ''message'' ''hi'' ''main'' None None [] [] demo_store = Inr (e, s')
      \<and> history demo_store ''topic'' = Inr es \<and> history s' ''topic'' = Inr es"
proof -
  obtain e s' where r: "append_event demo_world ''message'' ''hi'' ''main'' None None [] [] demo_store = Inr (e, s')"
    using demo_append by (auto simp: is_ok_iff)
  show ?thesis using branch_isolation[OF demo_store_ok r demo_branches(2)] r by auto
qed

text \<open>
  What a fork sees.  Right after a branch is created, its history is its parent's up
  to the fork point, which lies within that history; no other branch's history changes.
\<close>

theorem fork_inherits_history:
  assumes ok: "log_ok w s" and run: "create_branch w c p fork s = Inr (r, s')"
  shows "\<exists>es f. history s p = Inr es \<and> 0 \<le> f \<and> f \<le> (if es = [] then 0 else ev_seq (last es))
      \<and> (fork = Some f \<or> fork = None \<and> f = (if es = [] then 0 else ev_seq (last es)))
      \<and> history s' c = Inr (filter (\<lambda>e. ev_seq e \<le> f) es)
      \<and> (\<forall>b \<in> branch_ids s. history s' b = history s b)"
proof (rule create_branch_cases[OF run], goal_cases)
  case (1 es f now)
  let ?b = "\<lparr>br_id = c, br_parent = Some p, br_fork = Some f, br_created = now\<rparr>"
  have ok': "log_ok w s'" using create_branch_log_ok[OF ok run] by blast
  have st: "st_events s' = st_events s" "st_branches s' = st_branches s @ [?b]" using 1(10) by simp_all
  have dist: "distinct (map br_id (st_branches s'))" by (rule branches_ok_distinct[OF log_okD(1)[OF ok']])
  have same: "history s' b = history s b" if b: "b \<in> branch_ids s" for b
    using lineage_stable[OF log_okD(1)[OF ok] b st(2) dist]
    by (simp add: history_def query_events_def st(1))
  obtain L where L: "lineage_of (st_branches s) p L" "lineage_answers (st_branches s) p L"
      "history s p = Inr (filter (sees L) (st_events s))"
    using history_spec[OF ok 1(2)] by metis
  have p: "p \<in> br_id ` set (st_branches s)" "c \<notin> br_id ` set (st_branches s)"
    using 1(2,3) by (simp_all add: branch_ids_def)
  let ?L = "cut (Some f) L @ [(c, None)]"
  have "lineage_answers (st_branches s @ [?b]) c ?L"
    using lineage_fork(2)[OF L(1,2), of ?b f] p by simp
  then have "lineage s' c = Inr ?L" using lineage_answer[of s' c ?L s' "[]"] st(2) dist by simp
  moreover have "c \<in> branch_ids s'" using st(2) by (simp add: branch_ids_def)
  ultimately have h: "history s' c = Inr (filter (sees ?L) (st_events s))"
    using history_spec[OF ok', of c] st(1) by (metis sum.inject(2))
  have "sees ?L e \<longleftrightarrow> sees L e \<and> ev_seq e \<le> f" if "e \<in> set (st_events s)" for e
  proof -
    have "ev_branch e \<noteq> c" using log_okD(6)[OF ok] that 1(3) by blast
    then have "\<not> sees [(c, None)] e" by (simp add: sees_def)
    then show ?thesis by (simp add: sees_append sees_cut)
  qed
  then have "filter (sees ?L) (st_events s) = filter (\<lambda>e. ev_seq e \<le> f) es"
    using L(3) 1(1) by (auto simp: filter_filter conj_commute intro: filter_cong)
  then show ?case using 1(1,6,7,8) h same by (intro exI[of _ es] exI[of _ f]) (auto split: option.splits)
qed

lemma demo_fork: "is_ok (create_branch demo_world ''topic2'' ''topic'' (Some 0) demo_store)"
  by code_simp

theorem fork_inherits_history_witness:
  "\<exists>r s'. create_branch demo_world ''topic2'' ''topic'' (Some 0) demo_store = Inr (r, s')
      \<and> history s' ''main'' = history demo_store ''main''"
proof -
  obtain r s' where r: "create_branch demo_world ''topic2'' ''topic'' (Some 0) demo_store = Inr (r, s')"
    using demo_fork by (auto simp: is_ok_iff)
  show ?thesis using fork_inherits_history[OF demo_store_ok r] r demo_branches(1) by blast
qed

lemma find_event_kept:
  assumes "log_ok w s" "grows s s'" "log_ok w s'" "find_event s i = Some e"
  shows "find_event s' i = Some e"
proof -
  have "e \<in> set (st_events s')" "ev_id e = i"
    using assms(2) find_event_Some[OF assms(4)] by (auto simp: grows_def)
  then show ?thesis
    using find_unique[OF log_okD(4)[OF assms(3)], of e] by (simp add: find_event_def)
qed

lemma receipts_grow:
  assumes "run_call w c s = Inr (u, s')"
  shows "\<exists>rs. st_receipts s' = st_receipts s @ rs"
proof -
  have once: "\<exists>rs. st_receipts s' = st_receipts s @ rs"
    if run: "append_events_once_from w key items b ses ch ad s = Inr (x, s')" for key items b ses ch ad x
  proof -
    obtain es fresh where x: "x = (es, fresh)" by fastforce
    show ?thesis
    proof (cases fresh)
      case False
      then show ?thesis using once_fresh_cases(3)[OF run[unfolded x]] by simp
    next
      case True
      then obtain s1 t now where "append_batch w b ses ch ad items s = Inr (es, s1)"
          "s' = s1\<lparr>st_tick := t, st_receipts := st_receipts s1 @
                  [\<lparr>rc_key = key, rc_events = map ev_id es, rc_created = now\<rparr>]\<rparr>"
        using once_fresh_cases(4)[OF run[unfolded x]] by metis
      then show ?thesis using appends_fields(5)[OF batch_grows] by simp
    qed
  qed
  show ?thesis
  proof (cases c)
    case (CallAppend kind content b ses role payload files)
    then show ?thesis using assms appends_fields(5) append_event_log by fastforce
  next
    case (CallAppendHost adapter kind content b ses role payload files)
    then show ?thesis using assms appends_fields(5) append_host_event_log by fastforce
  next
    case (CallCreateBranch b p fork)
    then show ?thesis using assms by (auto elim!: create_branch_cases)
  next
    case (CallStartSession agent b caps)
    then show ?thesis using assms
      by (auto simp: start_session_def fresh_uuid_def Let_def split: if_splits dest!: insert_session_same)
  next
    case (CallHookSession agent ext b caps)
    then show ?thesis using assms
      by (auto simp: hook_session_def fresh_uuid_def read_clock_def Let_def
          split: if_splits option.splits dest!: insert_session_same)
  next
    case (CallMarkConsolidated e r)
    then show ?thesis using assms mark_consolidated_log(3) by fastforce
  qed (use assms once in \<open>auto simp: once_defs split: if_splits\<close>)
qed

lemma receipts_kept: "\<exists>rs. st_receipts (attempts (run_call w) calls s) = st_receipts s @ rs"
proof (induction calls arbitrary: s)
  case (Cons c calls)
  have "\<exists>rs. st_receipts (attempt (run_call w) c s) = st_receipts s @ rs"
    using receipts_grow[of w c s] by (auto simp: attempt_def split: sum.splits)
  then show ?case using Cons[of "attempt (run_call w) c s"] by (metis append.assoc attempts_simps(2))
qed simp

text \<open>
  C5: ingestion is idempotent.  Once a batch went through under a receipt key, the same key
  returns the events of that first delivery, marked as not fresh, and leaves the store
  untouched: whatever calls were made in between, whatever the retry carries, and even if it
  names another branch or channel.
\<close>

theorem ingestion_idempotent:
  assumes ok: "log_ok w s"
    and ch: "channel \<in> {PUBLIC_API, HOST_HOOK, INTERNAL}"
    and run: "append_events_once_from w key items b ses channel adapter s = Inr ((es, fresh), s1)"
    and retry: "items' \<noteq> []"
  shows "append_events_once_from w key items' b' ses' channel' adapter' (attempts (run_call w) calls s1)
       = Inr ((es, False), attempts (run_call w) calls s1)"
proof -
  let ?s2 = "attempts (run_call w) calls s1"
  have ok1: "log_ok w s1" using once_log_ok[OF ok ch run] by blast
  have v: "list_all (\<lambda>_. True) calls" by (simp add: list_all_iff)
  have ok2: "log_ok w ?s2" "grows s1 ?s2"
    using log_call.attempts_keep[OF v ok1] log_call.attempts_grow[OF v] by blast+
  obtain r where r: "r \<in> set (st_receipts s1)" "rc_key r = key" "map (find_event s1) (rc_events r) = map Some es"
  proof (cases fresh)
    case False
    then show thesis using once_fresh_cases(3)[OF run] that by metis
  next
    case True
    then obtain s0 now t where c: "append_batch w b ses channel adapter items s = Inr (es, s0)"
      "s1 = s0\<lparr>st_tick := t, st_receipts := st_receipts s0 @
                  [\<lparr>rc_key = key, rc_events = map ev_id es, rc_created = now\<rparr>]\<rparr>"
      using once_fresh_cases(4)[OF run] by metis
    have "set es \<subseteq> set (st_events s1)" using appends_fields(1)[OF batch_grows[OF c(1)]] c(2) by simp
    then have "find_event s1 (ev_id e) = Some e" if "e \<in> set es" for e
      using find_unique[OF log_okD(4)[OF ok1], of e] that by (auto simp: find_event_def)
    then have "map (find_event s1) (map ev_id es) = map Some es" by simp
    then show thesis using that[of "\<lparr>rc_key = key, rc_events = map ev_id es, rc_created = now\<rparr>"] c(2) by simp
  qed
  obtain rs where rs: "st_receipts ?s2 = st_receipts s1 @ rs" using receipts_kept by blast
  then have "r \<in> set (st_receipts ?s2)" using r(1) by simp
  then have f: "List.find (\<lambda>x. rc_key x = key) (st_receipts ?s2) = Some r"
    using find_unique[OF log_okD(10)[OF ok2(1)], of r] r(2) by simp
  have "map (find_event ?s2) (rc_events r) = map Some es"
    using r(3) find_event_kept[OF ok1 ok2(2,1)] by (auto simp: list_eq_iff_nth_eq)
  moreover have "map the (map Some es) = es" "None \<notin> set (map Some es)" by (auto simp: comp_def)
  ultimately show ?thesis
    using f once_fresh_cases(1)[OF run] retry
    by (auto simp: append_events_once_from_def Let_def simp del: map_map)
qed

definition demo_item :: batch_item where
  "demo_item = \<lparr>bi_kind = ''message'', bi_role = Some ''user'', bi_content = ''hi'', bi_payload = [], bi_files = []\<rparr>"

lemma demo_once:
  "is_ok (append_events_once_from demo_world ''key'' [demo_item] ''main'' None PUBLIC_API None demo_store)"
  by code_simp

theorem ingestion_idempotent_witness:
  "\<exists>es fresh s1. append_events_once_from demo_world ''key'' [demo_item] ''main'' None PUBLIC_API None demo_store
        = Inr ((es, fresh), s1)
     \<and> append_events_once_from demo_world ''key'' [demo_item] ''topic'' None PUBLIC_API None s1 = Inr ((es, False), s1)"
proof -
  obtain es fresh s1 where r: "append_events_once_from demo_world ''key'' [demo_item] ''main'' None PUBLIC_API
      None demo_store = Inr ((es, fresh), s1)"
    using demo_once by (auto simp: is_ok_iff)
  show ?thesis
    using ingestion_idempotent[OF demo_store_ok _ r, of "[demo_item]" "''topic''" None PUBLIC_API None "[]"] r by simp
qed

section \<open>Tampering\<close>

definition event_document :: "event \<Rightarrow> string" where
  "event_document e = canonical_document (ev_channel e \<noteq> LEGACY_UNTRUSTED) e"

text \<open>The texts that the hashes of a log are taken of, event by event.\<close>

fun hash_inputs :: "string option \<Rightarrow> event list \<Rightarrow> string list" where
  "hash_inputs p [] = []"
| "hash_inputs p (e # es) =
     event_document e # (or_empty p @ ev_chash e) # hash_inputs (Some (ev_chain e)) es"

lemma hash_inputs_snoc:
  "hash_inputs p (es @ [e]) = hash_inputs p es
     @ [event_document e, or_empty (if es = [] then p else Some (ev_chain (last es))) @ ev_chash e]"
  by (induction es arbitrary: p) auto

lemma verified_last:
  assumes "verify_events w None (es @ [e]) = None"
  shows "verify_events w None es = None" "ev_chash e = hash_text w (event_document e)"
    "ev_chain e = hash_text w (or_empty (if es = [] then None else Some (ev_chain (last es))) @ ev_chash e)"
proof -
  have pre: "verify_events w p (es @ [e]) = None \<Longrightarrow> verify_events w p es = None" for p
    by (induction es arbitrary: p) (auto simp: Let_def split: if_splits)
  show v: "verify_events w None es = None" using pre assms by blast
  have "verify_events w (if es = [] then None else Some (ev_chain (last es))) [e] = None"
    using assms verify_events_append[OF v] by simp
  then show "ev_chash e = hash_text w (event_document e)"
      "ev_chain e = hash_text w (or_empty (if es = [] then None else Some (ev_chain (last es))) @ ev_chash e)"
    by (auto simp: Let_def event_document_def split: if_splits)
qed

text \<open>
  C6: tampering shows.  Two logs of the same length that both pass the integrity check and
  have the same head hash record the same canonical documents event by event, or the two
  logs themselves exhibit two different texts with the same SHA-256 digest, among the
  documents and the chain texts (previous hash and document hash) that the check hashes.
  (A digest has 64 characters.)  So whoever holds the head hash detects any later change of
  an event by anyone who cannot produce such a pair.
\<close>

theorem chain_tamper_evident:
  assumes dig: "\<And>x. length (w_sha256 w x) = 64"
    and "verify_events w None es = None" "verify_events w None es' = None"
    and "length es = length es'" "es \<noteq> []" "ev_chain (last es) = ev_chain (last es')"
  shows "map event_document es = map event_document es'
    \<or> (\<exists>x \<in> set (hash_inputs None es). \<exists>y \<in> set (hash_inputs None es').
         x \<noteq> y \<and> hash_text w x = hash_text w y)"
  using assms(2-)
proof (induction es arbitrary: es' rule: rev_induct)
  case Nil
  then show ?case by simp
next
  case (snoc e xs)
  obtain xs' e' where es': "es' = xs' @ [e']" using snoc.prems(3) by (cases es' rule: rev_cases) auto
  note a = verified_last[OF snoc.prems(1)] and b = verified_last[OF snoc.prems(2)[unfolded es']]
  let ?p = "or_empty (if xs = [] then None else Some (ev_chain (last xs)))"
  let ?p' = "or_empty (if xs' = [] then None else Some (ev_chain (last xs')))"
  let ?c = "\<lambda>us vs. \<exists>x \<in> set (hash_inputs None us). \<exists>y \<in> set (hash_inputs None vs). x \<noteq> y \<and> hash_text w x = hash_text w y"
  show ?case
  proof (cases "?c (xs @ [e]) es'")
    case False
    have uniq: "x = y" if "x \<in> set (hash_inputs None (xs @ [e]))" "y \<in> set (hash_inputs None (xs' @ [e']))"
        "hash_text w x = hash_text w y" for x y
      using False that es' by blast
    have "?p @ ev_chash e = ?p' @ ev_chash e'"
      by (rule uniq) (use a(3) b(3) snoc.prems(5) es' in \<open>simp_all add: hash_inputs_snoc\<close>)
    moreover have "length (ev_chash e) = length (ev_chash e')"
      using a(2) b(2) dig by (simp add: hash_text_def)
    ultimately have eq: "?p = ?p'" "ev_chash e = ev_chash e'" by simp_all
    have doc: "event_document e = event_document e'"
      by (rule uniq) (use a(2) b(2) eq(2) in \<open>simp_all add: hash_inputs_snoc\<close>)
    have len: "length xs = length xs'" using snoc.prems(3) es' by simp
    show ?thesis
    proof (cases "xs = []")
      case True
      then show ?thesis using doc len es' by simp
    next
      case ne: False
      then have "xs' \<noteq> []" using len by auto
      then have "ev_chain (last xs) = ev_chain (last xs')" using eq(1) ne by (simp add: or_empty_def)
      then have "map event_document xs = map event_document xs' \<or> ?c xs xs'"
        by (rule snoc.IH[OF a(1) b(1) len ne])
      moreover have "\<not> ?c xs xs'" using uniq by (fastforce simp: hash_inputs_snoc)
      ultimately have "map event_document xs = map event_document xs'" by (elim disjE) simp_all
      then show ?thesis using doc es' by simp
    qed
  qed simp
qed

definition zero_world :: world where
  "zero_world = \<lparr>w_uuid = show_nat, w_now = show_nat, w_time = rat_of_nat, w_sha256 = (\<lambda>_. replicate 64 (CHR ''0'')), w_rules = []\<rparr>"

definition one_message :: "string \<Rightarrow> (event \<times> store) result" where
  "one_message content =
     append_event zero_world ''message'' content ''main'' None None [] [] (initial_store zero_world)"

lemma zero_append: "is_ok (one_message ''hi'') \<and> is_ok (one_message ''ho'')"
  by code_simp

theorem chain_tamper_evident_witness:
  "\<exists>e s e' s'. one_message ''hi'' = Inr (e, s) \<and> one_message ''ho'' = Inr (e', s')
     \<and> (map event_document (st_events s) = map event_document (st_events s')
        \<or> (\<exists>x \<in> set (hash_inputs None (st_events s)). \<exists>y \<in> set (hash_inputs None (st_events s')).
             x \<noteq> y \<and> hash_text zero_world x = hash_text zero_world y))"
proof -
  obtain e s e' s' where r: "one_message ''hi'' = Inr (e, s)" "one_message ''ho'' = Inr (e', s')"
    using zero_append by (auto simp: is_ok_iff)
  note a = append_event_log[OF r(1)[unfolded one_message_def]]
    and b = append_event_log[OF r(2)[unfolded one_message_def]]
  have ok: "verify_events zero_world None (st_events s) = None"
      "verify_events zero_world None (st_events s') = None"
    using a b initial_log_ok log_okD(8) by blast+
  have ev: "st_events s = st_events (initial_store zero_world) @ [e]"
      "st_events s' = st_events (initial_store zero_world) @ [e']"
    using appends_fields(1) a b by blast+
  have "ev_chain e = ev_chain e'"
    using verified_last(3)[OF ok(1)[unfolded ev(1)]] verified_last(3)[OF ok(2)[unfolded ev(2)]]
    by (simp add: hash_text_def zero_world_def)
  then have "map event_document (st_events s) = map event_document (st_events s')
        \<or> (\<exists>x \<in> set (hash_inputs None (st_events s)). \<exists>y \<in> set (hash_inputs None (st_events s')).
             x \<noteq> y \<and> hash_text zero_world x = hash_text zero_world y)"
    by (intro chain_tamper_evident[OF _ ok]) (simp_all add: ev zero_world_def)
  then show ?thesis using r by blast
qed

section \<open>Trust\<close>

fun untrusted_call :: "log_call \<Rightarrow> bool" where
  "untrusted_call (CallAppendHost _ _ _ _ _ _ _ _) = False"
| "untrusted_call (CallInternalOnce _ _ _ _) = False"
| "untrusted_call (CallHostOnce _ _ _ _ _) = False"
| "untrusted_call _ = True"

lemma untrusted_call_events:
  assumes "run_call w c s = Inr (u, s')" "untrusted_call c" "log_ok w s"
  shows "ev_channel ` set (st_events s') \<subseteq> insert PUBLIC_API (ev_channel ` set (st_events s))"
proof (cases c)
  case (CallAppend kind content b ses role payload files)
  then obtain e where "append_event w kind content b ses role payload files s = Inr (e, s')" using assms by auto
  then have "appends [e] s s'" "ev_channel e = PUBLIC_API" using append_event_log by blast+
  then show ?thesis using appends_fields(1) by fastforce
next
  case (CallOnce key items b ses)
  then obtain es fresh where r: "append_events_once_from w key items b ses PUBLIC_API None s = Inr ((es, fresh), s')"
    using assms by (auto simp: once_defs)
  show ?thesis
  proof (cases fresh)
    case False
    then show ?thesis using once_fresh_cases(3)[OF r] by auto
  next
    case True
    then obtain s1 now t where c: "append_batch w b ses PUBLIC_API None items s = Inr (es, s1)"
      "s' = s1\<lparr>st_tick := t, st_receipts := st_receipts s1 @
                  [\<lparr>rc_key = key, rc_events = map ev_id es, rc_created = now\<rparr>]\<rparr>"
      using once_fresh_cases(4)[OF r] by metis
    then have "st_events s' = st_events s @ es" using appends_fields(1)[OF batch_grows[OF c(1)]] by simp
    then show ?thesis using append_batch_spec[OF _ assms(3) c(1)] by auto
  qed
next
  case (CallCreateBranch b p fork)
  then show ?thesis using assms by (auto elim!: create_branch_cases)
next
  case (CallStartSession agent b caps)
  then show ?thesis using assms
    by (auto simp: start_session_def fresh_uuid_def Let_def split: if_splits dest!: insert_session_same)
next
  case (CallHookSession agent ext b caps)
  then show ?thesis using assms
    by (auto simp: hook_session_def fresh_uuid_def read_clock_def Let_def
        split: if_splits option.splits dest!: insert_session_same)
next
  case (CallMarkConsolidated e r)
  then show ?thesis using assms mark_consolidated_log(1) by fastforce
qed (use assms in simp_all)

lemma untrusted_channels:
  "list_all untrusted_call calls \<Longrightarrow> ev_channel ` set (st_events (call_store w calls)) \<subseteq> {PUBLIC_API}"
proof (induction calls rule: rev_induct)
  case Nil
  then show ?case by (simp add: call_store_def initial_store_def)
next
  case (snoc c calls)
  have eq: "call_store w (calls @ [c]) = attempt (run_call w) c (call_store w calls)"
    by (simp add: call_store_def attempts_def)
  show ?case
  proof (cases "run_call w c (call_store w calls)")
    case (Inl x)
    then show ?thesis using snoc by (simp add: eq attempt_def)
  next
    case (Inr x)
    then obtain u s' where "run_call w c (call_store w calls) = Inr (u, s')" by (cases x) auto
    note run = this
    have "ev_channel ` set (st_events s') \<subseteq> insert PUBLIC_API (ev_channel ` set (st_events (call_store w calls)))"
      by (rule untrusted_call_events[OF run _ call_store_ok]) (use snoc.prems in simp)
    also have "\<dots> \<subseteq> {PUBLIC_API}" using snoc by simp
    finally show ?thesis using run by (simp add: eq attempt_def)
  qed
qed

text \<open>
  C7: untrusted ingress cannot forge trust.  When only public calls were made, whatever
  roles, payloads and adapters they claim, every event of the log counts as external and
  untrusted: none is a logical user of the host, an operator's or delegate's request, or a
  policy bootstrap.
\<close>

theorem public_calls_stay_untrusted:
  assumes "list_all untrusted_call calls" "e \<in> set (st_events (call_store w calls))"
  shows "origin_evidence_type e = EXTERNAL_UNTRUSTED \<and> \<not> is_host_logical_user e
    \<and> \<not> policy_activation_allowed (origin_evidence_type e)"
proof -
  have "ev_channel e = PUBLIC_API" using untrusted_channels[OF assms(1), of w] assms(2) by auto
  then have "origin_evidence_type e = EXTERNAL_UNTRUSTED"
    using untrusted_channel by (simp add: channel_defs)
  then show ?thesis by (simp add: is_host_logical_user_def policy_activation_allowed_def)
qed

definition forged_call :: log_call where
  "forged_call = CallAppend ''state'' ''hi'' ''main'' None (Some ''user'') [] []"

lemma forged_stored: "st_events (call_store demo_world [forged_call]) \<noteq> []"
  by code_simp

theorem public_calls_stay_untrusted_witness:
  "\<exists>e \<in> set (st_events (call_store demo_world [forged_call])). origin_evidence_type e = EXTERNAL_UNTRUSTED"
proof -
  have "hd (st_events (call_store demo_world [forged_call])) \<in> set (st_events (call_store demo_world [forged_call]))"
    using forged_stored by simp
  moreover have "list_all untrusted_call [forged_call]" by (simp add: forged_call_def)
  ultimately show ?thesis using public_calls_stay_untrusted by blast
qed

end
