(* ===== verification/Temporal.thy ===== *)
theory Temporal
  imports PyText
begin

text \<open>
  The temporal logic core of \<open>temporal.py\<close>: Kleene's three truth values, envelopes (the
  set of instants a bound may denote), the three-valued comparisons, half-open validity
  intervals, and the two decisions the rest of the product takes with them: the validity
  status of a record and the effective end of a superseded one.  An instant is the number
  of microseconds since 0001-01-01T00:00 UTC, which is what comparing two timezone-aware
  datetimes compares.
\<close>

section \<open>Three truth values\<close>

datatype truth = TruthTRUE | TruthFALSE | TruthUNKNOWN

definition and3 :: "truth list \<Rightarrow> truth" where
  "and3 values =
     (if TruthFALSE \<in> set values then TruthFALSE
      else if TruthUNKNOWN \<in> set values then TruthUNKNOWN else TruthTRUE)"

definition or3 :: "truth list \<Rightarrow> truth" where
  "or3 values =
     (if TruthTRUE \<in> set values then TruthTRUE
      else if TruthUNKNOWN \<in> set values then TruthUNKNOWN else TruthFALSE)"

fun not3 :: "truth \<Rightarrow> truth" where
  "not3 TruthTRUE = TruthFALSE"
| "not3 TruthFALSE = TruthTRUE"
| "not3 TruthUNKNOWN = TruthUNKNOWN"

lemma and3_TRUE [simp]: "and3 vs = TruthTRUE \<longleftrightarrow> (\<forall>v \<in> set vs. v = TruthTRUE)"
  by (auto simp: and3_def) (metis truth.exhaust)

lemma and3_FALSE [simp]: "and3 vs = TruthFALSE \<longleftrightarrow> TruthFALSE \<in> set vs"
  by (auto simp: and3_def)

lemma not3_iff [simp]:
  "not3 v = TruthTRUE \<longleftrightarrow> v = TruthFALSE"
  "not3 v = TruthFALSE \<longleftrightarrow> v = TruthTRUE"
  "not3 v = TruthUNKNOWN \<longleftrightarrow> v = TruthUNKNOWN"
  by (cases v; simp)+

lemma not3_not3 [simp]: "not3 (not3 v) = v"
  by (cases v) simp_all

lemma mem_map_not3: "v \<in> set (map not3 vs) \<longleftrightarrow> not3 v \<in> set vs"
  unfolding set_map image_iff by (metis not3_not3)

lemma or3_de_morgan: "or3 vs = not3 (and3 (map not3 vs))"
  unfolding or3_def and3_def mem_map_not3 by simp

section \<open>Envelopes\<close>

type_synonym instant = int

record envelope =
  env_lo :: "instant option"
  env_hi :: "instant option"
  env_singleton :: bool

definition Envelope :: "instant option \<Rightarrow> instant option \<Rightarrow> bool \<Rightarrow> envelope" where
  "Envelope l h s = \<lparr>env_lo = l, env_hi = h, env_singleton = s\<rparr>"

lemma Envelope_sel [simp]:
  "env_lo (Envelope l h s) = l" "env_hi (Envelope l h s) = h" "env_singleton (Envelope l h s) = s"
  by (simp_all add: Envelope_def)

definition env_known :: "envelope \<Rightarrow> bool" where
  "env_known e \<longleftrightarrow> env_singleton e \<or> env_lo e \<noteq> None \<or> env_hi e \<noteq> None"

definition UNKNOWN_ENVELOPE :: envelope where
  "UNKNOWN_ENVELOPE = Envelope None None False"

definition point :: "instant \<Rightarrow> envelope" where
  "point t = Envelope (Some t) (Some t) True"

text \<open>\<open>_lt\<close>: a missing side stands for minus or plus infinity, as its flag says.\<close>

fun lt_inf :: "instant option \<Rightarrow> instant option \<Rightarrow> int \<Rightarrow> int \<Rightarrow> bool" where
  "lt_inf None None a_infinite b_infinite = (a_infinite < b_infinite)"
| "lt_inf None (Some b) a_infinite b_infinite = (a_infinite < 0)"
| "lt_inf (Some a) None a_infinite b_infinite = (b_infinite > 0)"
| "lt_inf (Some a) (Some b) a_infinite b_infinite = (a < b)"

definition le_inf :: "instant option \<Rightarrow> instant option \<Rightarrow> int \<Rightarrow> int \<Rightarrow> bool" where
  "le_inf a b a_infinite b_infinite = (\<not> lt_inf b a b_infinite a_infinite)"

definition lt3_definite :: "envelope \<Rightarrow> envelope \<Rightarrow> bool" where
  "lt3_definite a b =
     (if env_singleton a \<and> env_singleton b then lt_inf (env_lo a) (env_lo b) (-1) 1
      else if env_singleton a then lt_inf (env_lo a) (env_lo b) (-1) (-1)
      else if env_singleton b then le_inf (env_hi a) (env_lo b) 1 (-1)
      else le_inf (env_hi a) (env_lo b) 1 (-1))"

definition lt3_possible :: "envelope \<Rightarrow> envelope \<Rightarrow> bool" where
  "lt3_possible a b =
     (if env_singleton a \<and> env_singleton b then lt_inf (env_lo a) (env_lo b) (-1) 1
      else if env_singleton a then lt_inf (env_lo a) (env_hi b) (-1) 1
      else if env_singleton b then lt_inf (env_lo a) (env_lo b) (-1) 1
      else lt_inf (env_lo a) (env_hi b) (-1) 1)"

definition lt3 :: "envelope \<Rightarrow> envelope \<Rightarrow> truth" where
  "lt3 a b =
     (if lt3_definite a b then TruthTRUE
      else if lt3_possible a b then TruthUNKNOWN else TruthFALSE)"

definition le3 :: "envelope \<Rightarrow> envelope \<Rightarrow> truth" where
  "le3 a b = not3 (lt3 b a)"

definition eq3 :: "envelope \<Rightarrow> envelope \<Rightarrow> truth" where
  "eq3 a b =
     (if env_singleton a \<and> env_singleton b
      then (if env_lo a = env_lo b then TruthTRUE else TruthFALSE)
      else if lt3 a b = TruthTRUE \<or> lt3 b a = TruthTRUE then TruthFALSE
      else TruthUNKNOWN)"

section \<open>Intervals\<close>

record interval =
  int_start :: envelope
  int_end :: envelope

definition Interval :: "envelope \<Rightarrow> envelope \<Rightarrow> interval" where
  "Interval s e = \<lparr>int_start = s, int_end = e\<rparr>"

lemma Interval_sel [simp]: "int_start (Interval s e) = s" "int_end (Interval s e) = e"
  by (simp_all add: Interval_def)

definition contains3 :: "interval \<Rightarrow> envelope \<Rightarrow> truth" where
  "contains3 i p = and3 [le3 (int_start i) p, lt3 p (int_end i)]"

definition overlaps3 :: "interval \<Rightarrow> interval \<Rightarrow> truth" where
  "overlaps3 a b = and3 [lt3 (int_start a) (int_end b), lt3 (int_start b) (int_end a)]"

definition equals3 :: "interval \<Rightarrow> interval \<Rightarrow> truth" where
  "equals3 a b = and3 [eq3 (int_start a) (int_start b), eq3 (int_end a) (int_end b)]"

definition precedes3 :: "interval \<Rightarrow> interval \<Rightarrow> truth" where
  "precedes3 a b = le3 (int_end a) (int_start b)"

definition succeeds3 :: "interval \<Rightarrow> interval \<Rightarrow> truth" where
  "succeeds3 a b = precedes3 b a"

definition meets3 :: "interval \<Rightarrow> interval \<Rightarrow> truth" where
  "meets3 a b = eq3 (int_end a) (int_start b)"

datatype validity = Current | CurrentOpen | Expired | NotYetValid | ValidityUnknown

definition validity_status :: "interval \<Rightarrow> envelope \<Rightarrow> validity" where
  "validity_status i now =
     (if contains3 i now = TruthTRUE then Current
      else if lt3 now (int_start i) = TruthTRUE then NotYetValid
      else if env_known (int_end i) \<and> le3 (int_end i) now = TruthTRUE then Expired
      else if \<not> env_known (int_end i) \<and> le3 (int_start i) now = TruthTRUE then CurrentOpen
      else ValidityUnknown)"

definition effective_end :: "interval \<Rightarrow> envelope option \<Rightarrow> envelope" where
  "effective_end i successor_start =
     (case successor_start of
        None \<Rightarrow> int_end i
      | Some s \<Rightarrow>
          if \<not> env_known s then int_end i
          else if env_known (int_end i) then int_end i
          else s)"

definition possible_conflict :: "interval \<Rightarrow> interval \<Rightarrow> truth" where
  "possible_conflict a b = overlaps3 a b"

section \<open>What an envelope denotes\<close>

definition denotes :: "envelope \<Rightarrow> instant set" where
  "denotes e =
     (if env_singleton e then {x. env_lo e = Some x}
      else {x. (\<forall>l. env_lo e = Some l \<longrightarrow> l \<le> x) \<and> (\<forall>h. env_hi e = Some h \<longrightarrow> x < h)})"

text \<open>
  A well-formed envelope denotes at least one instant: a singleton has its instant, a
  two-sided range is not empty.
\<close>

definition env_wf :: "envelope \<Rightarrow> bool" where
  "env_wf e \<longleftrightarrow>
     (if env_singleton e then env_lo e \<noteq> None
      else (case (env_lo e, env_hi e) of (Some l, Some h) \<Rightarrow> l < h | _ \<Rightarrow> True))"

lemma env_wf_point [simp]: "env_wf (point t)"
  by (simp add: env_wf_def point_def)

lemma denotes_point [simp]: "denotes (point t) = {t}"
  by (auto simp: denotes_def point_def)

lemma env_wf_UNKNOWN [simp]: "env_wf UNKNOWN_ENVELOPE"
  by (simp add: env_wf_def UNKNOWN_ENVELOPE_def)

lemma env_wf_range [simp]: "env_wf (Envelope (Some l) (Some h) False) \<longleftrightarrow> l < h"
  by (simp add: env_wf_def)

lemma denotes_ne: "env_wf e \<Longrightarrow> denotes e \<noteq> {}"
proof -
  assume wf: "env_wf e"
  consider "env_singleton e"
    | l where "\<not> env_singleton e" "env_lo e = Some l"
    | h where "\<not> env_singleton e" "env_lo e = None" "env_hi e = Some h"
    | "\<not> env_singleton e" "env_lo e = None" "env_hi e = None"
    by (cases "env_lo e"; cases "env_hi e") auto
  then show ?thesis
  proof cases
    case 1
    then show ?thesis using wf by (auto simp: env_wf_def denotes_def)
  next
    case 2
    then have "l \<in> denotes e" using wf by (auto simp: env_wf_def denotes_def split: option.splits)
    then show ?thesis by blast
  next
    case 3
    then have "h - 1 \<in> denotes e" by (auto simp: denotes_def)
    then show ?thesis by blast
  next
    case 4
    then have "0 \<in> denotes e" by (auto simp: denotes_def)
    then show ?thesis by blast
  qed
qed

text \<open>Instants arbitrarily far on an open side.\<close>

lemma denotes_above:
  "env_wf e \<Longrightarrow> \<not> env_singleton e \<Longrightarrow> env_hi e = None \<Longrightarrow> \<exists>x \<in> denotes e. t \<le> x"
proof -
  assume "env_wf e" "\<not> env_singleton e" "env_hi e = None"
  then have "(case env_lo e of None \<Rightarrow> t | Some l \<Rightarrow> max l t) \<in> denotes e"
    by (auto simp: denotes_def split: option.splits)
  moreover have "t \<le> (case env_lo e of None \<Rightarrow> t | Some l \<Rightarrow> max l t)"
    by (auto split: option.splits)
  ultimately show ?thesis by blast
qed

lemma denotes_below:
  "env_wf e \<Longrightarrow> \<not> env_singleton e \<Longrightarrow> env_lo e = None \<Longrightarrow> \<exists>x \<in> denotes e. x \<le> t"
proof -
  assume "env_wf e" "\<not> env_singleton e" "env_lo e = None"
  then have "(case env_hi e of None \<Rightarrow> t | Some h \<Rightarrow> min (h - 1) t) \<in> denotes e"
    by (auto simp: denotes_def split: option.splits)
  moreover have "(case env_hi e of None \<Rightarrow> t | Some h \<Rightarrow> min (h - 1) t) \<le> t"
    by (auto split: option.splits)
  ultimately show ?thesis by blast
qed

lemma denotes_lo: "env_wf e \<Longrightarrow> env_lo e = Some l \<Longrightarrow> l \<in> denotes e"
  by (auto simp: denotes_def env_wf_def split: option.splits if_splits)

lemma denotes_last:
  "env_wf e \<Longrightarrow> \<not> env_singleton e \<Longrightarrow> env_hi e = Some h \<Longrightarrow> h - 1 \<in> denotes e"
  by (auto simp: denotes_def env_wf_def split: option.splits)

section \<open>Soundness and completeness of the comparison\<close>

lemma lt3_definite_sound:
  "lt3_definite a b \<Longrightarrow> x \<in> denotes a \<Longrightarrow> y \<in> denotes b \<Longrightarrow> x < y"
  by (cases "env_lo a"; cases "env_lo b"; cases "env_hi a"; cases "env_hi b")
    (auto simp: lt3_definite_def le_inf_def denotes_def split: if_splits)

lemma lt3_possible_sound:
  "\<not> lt3_possible a b \<Longrightarrow> x \<in> denotes a \<Longrightarrow> y \<in> denotes b \<Longrightarrow> \<not> x < y"
  by (cases "env_lo a"; cases "env_lo b"; cases "env_hi a"; cases "env_hi b")
    (auto simp: lt3_possible_def denotes_def split: if_splits)

text \<open>Extremal instants that refute a comparison which is not definite.\<close>

lemma not_definite_witness:
  assumes "env_wf a" "env_wf b" "\<not> lt3_definite a b"
  shows "\<exists>x \<in> denotes a. \<exists>y \<in> denotes b. \<not> x < y"
proof (cases "env_singleton a")
  case True
  then obtain la where la: "env_lo a = Some la" "denotes a = {la}"
    using assms(1) by (auto simp: env_wf_def denotes_def)
  show ?thesis
  proof (cases "env_lo b")
    case None
    then have "\<not> env_singleton b" using assms(2) by (auto simp: env_wf_def)
    then show ?thesis using denotes_below[OF assms(2) _ None, of la] la
      by (metis linorder_not_less singletonI)
  next
    case (Some lb)
    then have "lb \<in> denotes b" "\<not> la < lb"
      using denotes_lo[OF assms(2) Some] assms(3) la True
      by (auto simp: lt3_definite_def split: if_splits)
    then show ?thesis using la by auto
  qed
next
  case a: False
  show ?thesis
  proof (cases "env_hi a")
    case None
    obtain y where y: "y \<in> denotes b" using denotes_ne[OF assms(2)] by blast
    show ?thesis using denotes_above[OF assms(1) a None, of y] y by (meson linorder_not_less)
  next
    case (Some ha)
    note ha = denotes_last[OF assms(1) a Some]
    show ?thesis
    proof (cases "env_lo b")
      case None
      then have "\<not> env_singleton b" using assms(2) by (auto simp: env_wf_def)
      then show ?thesis
        using denotes_below[OF assms(2) _ None, of "ha - 1"] ha by (meson linorder_not_less)
    next
      case lb: (Some lb)
      then have "lb < ha"
        using assms(3) a Some by (auto simp: lt3_definite_def le_inf_def split: if_splits)
      then show ?thesis using ha denotes_lo[OF assms(2) lb] by (intro bexI[of _ "ha - 1"] bexI[of _ lb]) auto
    qed
  qed
qed

lemma lt3_TRUE_iff:
  assumes "env_wf a" "env_wf b"
  shows "lt3 a b = TruthTRUE \<longleftrightarrow> (\<forall>x \<in> denotes a. \<forall>y \<in> denotes b. x < y)"
proof
  assume "lt3 a b = TruthTRUE"
  then have "lt3_definite a b" by (auto simp: lt3_def split: if_splits)
  then show "\<forall>x \<in> denotes a. \<forall>y \<in> denotes b. x < y" using lt3_definite_sound by blast
next
  assume "\<forall>x \<in> denotes a. \<forall>y \<in> denotes b. x < y"
  then have "lt3_definite a b" using not_definite_witness[OF assms] by blast
  then show "lt3 a b = TruthTRUE" by (simp add: lt3_def)
qed

lemma lt3_FALSE_sound:
  "lt3 a b = TruthFALSE \<Longrightarrow> x \<in> denotes a \<Longrightarrow> y \<in> denotes b \<Longrightarrow> \<not> x < y"
  using lt3_possible_sound[of a b x y] by (auto simp: lt3_def split: if_splits)


lemmas temporal_defs =
  le3_def eq3_def contains3_def overlaps3_def precedes3_def validity_status_def effective_end_def

lemma le3_TRUE_sound:
  "le3 a b = TruthTRUE \<Longrightarrow> x \<in> denotes a \<Longrightarrow> y \<in> denotes b \<Longrightarrow> x \<le> y"
  using lt3_FALSE_sound[of b a y x] by (simp add: le3_def)

lemma le3_FALSE_sound:
  "env_wf a \<Longrightarrow> env_wf b \<Longrightarrow> le3 a b = TruthFALSE \<Longrightarrow> x \<in> denotes a \<Longrightarrow> y \<in> denotes b \<Longrightarrow> y < x"
  using lt3_TRUE_iff[of b a] by (simp add: le3_def)

section \<open>Properties\<close>



text \<open>
  C11: the validity status of a record is justified by every reading of its bounds: a
  record reported current contains the instant whatever its bounds denote, an expired one
  ended, a future one has not started, and an open one has started and has no known end.
\<close>

theorem validity_status_justified:
  assumes "env_wf (int_start i)" and "env_wf (int_end i)"
  shows "case validity_status i (point n) of
      Current \<Rightarrow> (\<forall>s \<in> denotes (int_start i). s \<le> n) \<and> (\<forall>e \<in> denotes (int_end i). n < e)
    | NotYetValid \<Rightarrow> \<forall>s \<in> denotes (int_start i). n < s
    | Expired \<Rightarrow> env_known (int_end i) \<and> (\<forall>e \<in> denotes (int_end i). e \<le> n)
    | CurrentOpen \<Rightarrow> \<not> env_known (int_end i) \<and> (\<forall>s \<in> denotes (int_start i). s \<le> n)
    | ValidityUnknown \<Rightarrow> \<not> (contains3 i (point n) = TruthTRUE)"
  using assms lt3_TRUE_iff[of "point n"] le3_TRUE_sound[of _ "point n" _ n]
  by (auto simp: validity_status_def contains3_def split: validity.splits)

theorem validity_status_justified_witness:
  "denotes (Envelope (Some 4) (Some 6) False) \<subseteq> {..8}"
proof -
  let ?i = "Interval (point 1) (Envelope (Some 4) (Some 6) False)"
  have "validity_status ?i (point 8) = Expired"
    by (simp add: validity_status_def contains3_def and3_def le3_def lt3_def lt3_definite_def
        lt3_possible_def point_def le_inf_def env_known_def)
  then show ?thesis using validity_status_justified[of ?i 8] by auto
qed

lemma contains3_iff:
  "contains3 (Interval a b) p = TruthTRUE \<longleftrightarrow> lt3 p a = TruthFALSE \<and> lt3 p b = TruthTRUE"
  "contains3 (Interval a b) p = TruthFALSE \<longleftrightarrow> lt3 p a = TruthTRUE \<or> lt3 p b = TruthFALSE"
proof -
  have t: "contains3 (Interval a b) p = and3 [not3 (lt3 p a), lt3 p b]" by (simp add: contains3_def le3_def)
  show "contains3 (Interval a b) p = TruthTRUE \<longleftrightarrow> lt3 p a = TruthFALSE \<and> lt3 p b = TruthTRUE"
    unfolding t by (cases "lt3 p a"; cases "lt3 p b") (simp_all add: and3_def)
  show "contains3 (Interval a b) p = TruthFALSE \<longleftrightarrow> lt3 p a = TruthTRUE \<or> lt3 p b = TruthFALSE"
    unfolding t by (cases "lt3 p a"; cases "lt3 p b") (simp_all add: and3_def)
qed

text \<open>
  A version and its successor.  Project an interval whose end is not known onto the known
  start of its successor.  If it then definitely contains an instant, that instant is not
  before any reading of its own start and before every reading of the successor's start, and
  the successor definitely does not contain it; if the successor definitely contains an
  instant, the predecessor definitely does not (its open end was really closed).  A known end
  of the predecessor, and an end whose successor has no known start, stay as they are.
\<close>

theorem effective_end_exclusive:
  assumes wf: "env_wf (int_start old)" "env_wf (int_start new)"
    and known: "env_known (int_start new)"
  shows "(let closed_old = Interval (int_start old) (effective_end old (Some (int_start new)))
    in if env_known (int_end old) then effective_end old (Some (int_start new)) = int_end old
       else (contains3 closed_old (point n) = TruthTRUE \<longrightarrow>
               (\<forall>s \<in> denotes (int_start old). s \<le> n) \<and> (\<forall>t \<in> denotes (int_start new). n < t)
               \<and> contains3 new (point n) = TruthFALSE)
          \<and> (contains3 new (point n) = TruthTRUE \<longrightarrow> contains3 closed_old (point n) = TruthFALSE))
    \<and> effective_end old None = int_end old \<and> effective_end old (Some UNKNOWN_ENVELOPE) = int_end old"
proof -
  have p: "env_wf (point n)" "denotes (point n) = {n}" by simp_all
  have kept: "effective_end old None = int_end old" "effective_end old (Some UNKNOWN_ENVELOPE) = int_end old"
    by (simp_all add: effective_end_def env_known_def UNKNOWN_ENVELOPE_def)
  show ?thesis
  proof (cases "env_known (int_end old)")
    case True
    then show ?thesis using kept by (simp add: effective_end_def)
  next
    case False
    then have e: "effective_end old (Some (int_start new)) = int_start new"
      using known by (simp add: effective_end_def)
    have old: "s \<le> n" if "lt3 (point n) (int_start old) = TruthFALSE" "s \<in> denotes (int_start old)" for s
      using lt3_FALSE_sound[OF that(1), of n s] that(2) by (simp add: not_less)
    have new: "n < t" if "lt3 (point n) (int_start new) = TruthTRUE" "t \<in> denotes (int_start new)" for t
      using that lt3_TRUE_iff[OF p(1) wf(2)] by simp
    have n: "contains3 new = contains3 (Interval (int_start new) (int_end new))" by (cases new) (simp add: Interval_def)
    show ?thesis unfolding Let_def e n using False kept old new by (auto simp: contains3_iff)
  qed
qed

theorem effective_end_exclusive_witness:
  "contains3 (Interval (point 10) UNKNOWN_ENVELOPE) (point 5) = TruthFALSE
   \<and> contains3 (Interval (point 1) (effective_end (Interval (point 1) UNKNOWN_ENVELOPE) (Some (point 10)))) (point 12) = TruthFALSE"
proof -
  let ?old = "Interval (point 1) UNKNOWN_ENVELOPE" and ?new = "Interval (point 10) UNKNOWN_ENVELOPE"
  let ?open = "Interval (point 10) (Envelope (Some 20) (Some 20) False)"
  note calc = contains3_def and3_def le3_def lt3_def lt3_definite_def lt3_possible_def point_def
    effective_end_def env_known_def UNKNOWN_ENVELOPE_def
  have k: "env_known (int_start ?new)" "env_known (int_start ?open)" "\<not> env_known (int_end ?old)"
    by (simp_all add: env_known_def point_def UNKNOWN_ENVELOPE_def)
  have wf: "env_wf (int_start ?old)" "env_wf (int_start ?new)" "env_wf (int_start ?open)" by simp_all
  have "contains3 (Interval (int_start ?old) (effective_end ?old (Some (int_start ?new)))) (point 5) = TruthTRUE"
    "contains3 ?open (point 12) = TruthTRUE"
    by (simp_all add: calc)
  then show ?thesis
    using effective_end_exclusive[OF wf(1,2) k(1), of 5] effective_end_exclusive[OF wf(1,3) k(2), of 12] k(3)
    by (simp add: Let_def)
qed

end
