(* ===== verification/Calendar.thy ===== *)
theory Calendar
  imports PyText
begin

text \<open>
  What the program uses of Python's \<open>datetime\<close>: dates of the proleptic Gregorian calendar
  from year 1 to 9999, a time of day in microseconds, and a fixed UTC offset (or none, for
  a naive value).  Adding days steps from date to date and overflows at the ends; a datetime
  denotes the number of microseconds since 0001-01-01T00:00 UTC.  \<open>isoformat\<close> prints one.
\<close>

section \<open>Dates\<close>

type_synonym date = "int \<times> int \<times> int"

definition leap :: "int \<Rightarrow> bool" where
  "leap y \<longleftrightarrow> y mod 4 = 0 \<and> (y mod 100 \<noteq> 0 \<or> y mod 400 = 0)"

definition days_in_month :: "int \<Rightarrow> int \<Rightarrow> int" where
  "days_in_month y m =
     (if m = 2 then (if leap y then 29 else 28)
      else if m = 4 \<or> m = 6 \<or> m = 9 \<or> m = 11 then 30 else 31)"

definition valid_date :: "date \<Rightarrow> bool" where
  "valid_date d = (case d of (y, m, n) \<Rightarrow>
     1 \<le> y \<and> y \<le> 9999 \<and> 1 \<le> m \<and> m \<le> 12 \<and> 1 \<le> n \<and> n \<le> days_in_month y m)"

definition days_before_year :: "int \<Rightarrow> int" where
  "days_before_year y = (y - 1) * 365 + (y - 1) div 4 - (y - 1) div 100 + (y - 1) div 400"

definition days_before_month :: "int \<Rightarrow> int \<Rightarrow> int" where
  "days_before_month y m =
     (if m \<le> 1 then 0 else if m = 2 then 31 else
       (if leap y then 1 else 0) +
       (if m = 3 then 59 else if m = 4 then 90 else if m = 5 then 120 else if m = 6 then 151
        else if m = 7 then 181 else if m = 8 then 212 else if m = 9 then 243 else if m = 10 then 273
        else if m = 11 then 304 else if m = 12 then 334 else 365))"

definition ordinal :: "date \<Rightarrow> int" where
  "ordinal d = (case d of (y, m, n) \<Rightarrow> days_before_year y + days_before_month y m + n)"

definition next_date :: "date \<Rightarrow> date" where
  "next_date d = (case d of (y, m, n) \<Rightarrow>
     if n < days_in_month y m then (y, m, n + 1) else if m < 12 then (y, m + 1, 1) else (y + 1, 1, 1))"

definition prev_date :: "date \<Rightarrow> date" where
  "prev_date d = (case d of (y, m, n) \<Rightarrow>
     if 1 < n then (y, m, n - 1)
     else if 1 < m then (y, m - 1, days_in_month y (m - 1)) else (y - 1, 12, 31))"

lemma leap_days: "days_before_year (y + 1) - days_before_year y = (if leap y then 366 else 365)"
proof -
  have d: "y div k - (y - 1) div k = (if y mod k = 0 then 1 else 0)" if k: "0 < k" for k :: int
  proof -
    define q r where "q = (y - 1) div k" and "r = (y - 1) mod k"
    have e: "y = k * q + (r + 1)" "0 \<le> r" "r < k"
      using k mult_div_mod_eq[of k "y - 1"] by (simp_all add: q_def r_def)
    show ?thesis
    proof (cases "r + 1 = k")
      case True
      then have "y = k * (q + 1) + 0" using e(1) by (simp add: algebra_simps)
      then have "y div k = q + 1" "y mod k = 0" using k int_div_pos_eq int_mod_pos_eq by blast+
      then show ?thesis by (simp add: q_def)
    next
      case False
      then have "y div k = q" "y mod k = r + 1"
        using e int_div_pos_eq[of y k q "r + 1"] int_mod_pos_eq[of y k q "r + 1"] by simp_all
      then show ?thesis using e(2) by (simp add: q_def)
    qed
  qed
  have "400 dvd y \<Longrightarrow> 100 dvd y" "100 dvd y \<Longrightarrow> 4 dvd y"
    by (rule dvd_trans[of _ 400], simp, assumption) (rule dvd_trans[of _ 100], simp, assumption)
  then have m: "y mod 400 = 0 \<Longrightarrow> y mod 100 = 0" "y mod 100 = 0 \<Longrightarrow> y mod 4 = 0"
    by (simp_all add: dvd_eq_mod_eq_0)
  have e: "days_before_year (y + 1) - days_before_year y
      = 365 + (y div 4 - (y - 1) div 4) - (y div 100 - (y - 1) div 100) + (y div 400 - (y - 1) div 400)"
    by (simp add: days_before_year_def)
  have key: "365 + (if A then 1 else 0) - (if B then 1 else 0) + (if C then 1 else 0)
      = (if A \<and> (\<not> B \<or> C) then 366 else (365::int))" if "C \<longrightarrow> B" "B \<longrightarrow> A" for A B C
    using that by (cases A; cases B; cases C; simp)
  have d': "y div 4 - (y - 1) div 4 = (if y mod 4 = 0 then 1 else 0)"
    "y div 100 - (y - 1) div 100 = (if y mod 100 = 0 then 1 else 0)"
    "y div 400 - (y - 1) div 400 = (if y mod 400 = 0 then 1 else 0)"
    by (rule d, simp)+
  show ?thesis unfolding e d' leap_def by (rule key) (use m in blast)+
qed

lemma month_days:
  "1 \<le> m \<Longrightarrow> m \<le> 12 \<Longrightarrow> days_before_month y (m + 1) = days_before_month y m + days_in_month y m"
proof -
  assume a: "1 \<le> m" "m \<le> 12"
  have "m = 1 \<or> m = 2 \<or> m = 3 \<or> m = 4 \<or> m = 5 \<or> m = 6" if "m \<le> 6" using a that by linarith
  moreover have "m = 7 \<or> m = 8 \<or> m = 9 \<or> m = 10 \<or> m = 11 \<or> m = 12" if "\<not> m \<le> 6"
    using a that by linarith
  ultimately show ?thesis
    by (cases "m \<le> 6") (auto simp: days_before_month_def days_in_month_def)
qed

lemma year_days: "days_before_month y 13 = (if leap y then 366 else 365)"
  by (simp add: days_before_month_def)

lemma ordinal_next: "valid_date d \<Longrightarrow> ordinal (next_date d) = ordinal d + 1"
proof -
  assume v: "valid_date d"
  obtain y m n where d: "d = (y, m, n)" by (cases d)
  have b: "1 \<le> m" "m \<le> 12" "n \<le> days_in_month y m" using v d by (auto simp: valid_date_def)
  show ?thesis
  proof (cases "n < days_in_month y m")
    case True
    then show ?thesis by (simp add: d next_date_def ordinal_def)
  next
    case False
    then have n: "n = days_in_month y m" using b by simp
    show ?thesis
    proof (cases "m < 12")
      case True
      then show ?thesis using month_days[OF b(1,2), of y] n by (simp add: d next_date_def ordinal_def)
    next
      case False
      then have "m = 12" using b by simp
      then show ?thesis using month_days[of 12 y] n year_days[of y] leap_days[of y]
        by (simp add: d next_date_def ordinal_def) (simp add: days_before_month_def)
    qed
  qed
qed

lemma next_valid: "valid_date d \<Longrightarrow> fst (next_date d) \<le> 9999 \<Longrightarrow> valid_date (next_date d)"
  by (auto simp: valid_date_def next_date_def days_in_month_def split: if_splits)

lemma next_prev: "valid_date d \<Longrightarrow> next_date (prev_date d) = d"
  by (auto simp: valid_date_def next_date_def prev_date_def days_in_month_def split: prod.splits)

lemma prev_valid: "valid_date d \<Longrightarrow> 1 \<le> fst (prev_date d) \<Longrightarrow> valid_date (prev_date d)"
  by (auto simp: valid_date_def prev_date_def days_in_month_def split: if_splits)

text \<open>The ordinal grows with the date.\<close>

lemma days_before_year_mono: "a \<le> b \<Longrightarrow> days_before_year a \<le> days_before_year b"
proof (induction b rule: int_ge_induct)
  case (step i)
  then show ?case using leap_days[of i] by (simp split: if_splits)
qed simp

lemma days_before_month_mono:
  "a \<le> b \<Longrightarrow> 1 \<le> a \<Longrightarrow> b \<le> 13 \<Longrightarrow> days_before_month y a \<le> days_before_month y b"
proof (induction b rule: int_ge_induct)
  case (step i)
  have "0 \<le> days_in_month y i" by (simp add: days_in_month_def)
  then show ?case using step month_days[of i y] by simp
qed simp

lemma ordinal_year_bounds:
  assumes "valid_date (y, m, n)"
  shows "days_before_year y < ordinal (y, m, n)" "ordinal (y, m, n) \<le> days_before_year (y + 1)"
proof -
  have b: "1 \<le> m" "m \<le> 12" "1 \<le> n" "n \<le> days_in_month y m" using assms by (auto simp: valid_date_def)
  have "0 \<le> days_before_month y m" using days_before_month_mono[of 1 m y] b by (simp add: days_before_month_def)
  then show "days_before_year y < ordinal (y, m, n)" using b by (simp add: ordinal_def)
  have "days_before_month y m + n \<le> days_before_month y 13"
    using days_before_month_mono[of "m + 1" 13 y] month_days[of m y] b by simp
  then show "ordinal (y, m, n) \<le> days_before_year (y + 1)"
    using leap_days[of y] year_days[of y] by (simp add: ordinal_def)
qed

lemma ordinal_less_month:
  assumes v: "valid_date (y, m, n)" "valid_date (y', m', n')" and lt: "y < y' \<or> y = y' \<and> m < m'"
  shows "ordinal (y, m, n) < ordinal (y', m', n')"
proof (cases "y < y'")
  case True
  then show ?thesis
    using ordinal_year_bounds[OF v(1)] ordinal_year_bounds[OF v(2)] days_before_year_mono[of "y + 1" y'] by simp
next
  case False
  then have e: "y = y'" "m < m'" using lt by auto
  have b: "1 \<le> m" "m' \<le> 12" "n \<le> days_in_month y m" "1 \<le> n'" using v by (auto simp: valid_date_def)
  have "days_before_month y m + n \<le> days_before_month y m'"
    using days_before_month_mono[of "m + 1" m' y] month_days[of m y] b e by simp
  then show ?thesis using e b by (simp add: ordinal_def)
qed

section \<open>Datetimes\<close>

text \<open>\<open>dt_off\<close> is the UTC offset of the zone in microseconds, \<open>None\<close> for a naive value.\<close>

record datetime =
  dt_date :: date
  dt_tod :: int
  dt_off :: "int option"

definition day_us :: int where
  "day_us = 86400000000"

definition valid_datetime :: "datetime \<Rightarrow> bool" where
  "valid_datetime d \<longleftrightarrow> valid_date (dt_date d) \<and> 0 \<le> dt_tod d \<and> dt_tod d < day_us
     \<and> (case dt_off d of None \<Rightarrow> True | Some z \<Rightarrow> - day_us < z \<and> z < day_us)"

definition instant_of :: "datetime \<Rightarrow> int" where
  "instant_of d = (ordinal (dt_date d) - 1) * day_us + dt_tod d
     - (case dt_off d of None \<Rightarrow> 0 | Some z \<Rightarrow> z)"

text \<open>\<open>datetime(y, m, d, tzinfo=zone)\<close>.\<close>

definition mk_datetime :: "int \<Rightarrow> int \<Rightarrow> int \<Rightarrow> int option \<Rightarrow> datetime result" where
  "mk_datetime y m d zone =
     (if valid_date (y, m, d) then Inr \<lparr>dt_date = (y, m, d), dt_tod = 0, dt_off = zone\<rparr>
      else Inl (ValueError ''year, month or day is out of range''))"

fun later :: "nat \<Rightarrow> date \<Rightarrow> date option" where
  "later 0 d = Some d"
| "later (Suc n) d = (if fst (next_date d) > 9999 then None else later n (next_date d))"

fun earlier :: "nat \<Rightarrow> date \<Rightarrow> date option" where
  "earlier 0 d = Some d"
| "earlier (Suc n) d = (if fst (prev_date d) < 1 then None else earlier n (prev_date d))"

text \<open>\<open>value + timedelta(days=n)\<close>.\<close>

definition plus_days :: "datetime \<Rightarrow> int \<Rightarrow> datetime result" where
  "plus_days dt n =
     (case (if 0 \<le> n then later (nat n) (dt_date dt) else earlier (nat (- n)) (dt_date dt)) of
        None \<Rightarrow> Inl (OverflowError ''date value out of range'')
      | Some d \<Rightarrow> Inr (dt\<lparr>dt_date := d\<rparr>))"

definition at_midnight :: "datetime \<Rightarrow> datetime" where
  "at_midnight d = d\<lparr>dt_tod := 0\<rparr>"

definition weekday :: "datetime \<Rightarrow> int" where
  "weekday d = (ordinal (dt_date d) + 6) mod 7"

lemma later_ordinal: "valid_date d \<Longrightarrow> later n d = Some e \<Longrightarrow> valid_date e \<and> ordinal e = ordinal d + int n"
proof (induction n arbitrary: d)
  case (Suc n)
  then have "fst (next_date d) \<le> 9999" "later n (next_date d) = Some e" by (auto split: if_splits)
  then show ?case using Suc.IH[of "next_date d"] next_valid ordinal_next Suc.prems(1) by simp
qed simp

lemma earlier_ordinal: "valid_date d \<Longrightarrow> earlier n d = Some e \<Longrightarrow> valid_date e \<and> ordinal e = ordinal d - int n"
proof (induction n arbitrary: d)
  case (Suc n)
  then have p: "1 \<le> fst (prev_date d)" "earlier n (prev_date d) = Some e" by (auto split: if_splits)
  have v: "valid_date (prev_date d)" using prev_valid Suc.prems(1) p(1) by blast
  have "ordinal d = ordinal (prev_date d) + 1" using ordinal_next[OF v] next_prev Suc.prems(1) by simp
  then show ?case using Suc.IH[OF v p(2)] by simp
qed simp

lemma plus_days_spec:
  assumes "valid_datetime d" "plus_days d n = Inr e"
  shows "valid_datetime e" "instant_of e = instant_of d + n * day_us"
    "dt_tod e = dt_tod d" "dt_off e = dt_off d"
proof -
  have v: "valid_date (dt_date d)" using assms(1) by (simp add: valid_datetime_def)
  obtain x where x: "e = d\<lparr>dt_date := x\<rparr>" "valid_date x \<and> ordinal x = ordinal (dt_date d) + n"
  proof (cases "0 \<le> n")
    case True
    then show thesis using assms(2) later_ordinal[OF v] that
      by (auto simp: plus_days_def split: option.splits)
  next
    case False
    then show thesis using assms(2) earlier_ordinal[OF v] that
      by (auto simp: plus_days_def split: option.splits)
  qed
  then show "valid_datetime e" "instant_of e = instant_of d + n * day_us"
      "dt_tod e = dt_tod d" "dt_off e = dt_off d"
    using assms(1) by (simp_all add: valid_datetime_def instant_of_def algebra_simps)
qed

lemma mk_datetime_spec:
  "mk_datetime y m n zone = Inr d \<Longrightarrow>
     d = \<lparr>dt_date = (y, m, n), dt_tod = 0, dt_off = zone\<rparr> \<and> valid_date (y, m, n)"
  by (auto simp: mk_datetime_def split: if_splits)

lemma at_midnight_valid: "valid_datetime d \<Longrightarrow> valid_datetime (at_midnight d)"
  by (simp add: valid_datetime_def at_midnight_def day_us_def)

end
