(* ===== verification/IsoFormat.thy ===== *)
theory IsoFormat
  imports Calendar
begin

text \<open>
  \<open>datetime.isoformat()\<close>, and the interface to \<open>datetime.fromisoformat\<close>: a parser of ISO 8601
  texts that reads back what \<open>isoformat\<close> prints.  The library's parser accepts more formats
  than any caller of this program writes; the definitions that use it take it as an
  argument, and \<open>parse_iso\<close> (the extended format) is a parser that keeps the contract.
\<close>

section \<open>Printing\<close>

fun pad :: "nat \<Rightarrow> int \<Rightarrow> string" where
  "pad 0 n = []"
| "pad (Suc k) n = pad k (n div 10) @ [digit_char (n mod 10)]"

text \<open>A number of microseconds below a day as \<open>HH:MM:SS.ffffff\<close>; zero parts may be left out.\<close>

definition show_clock :: "bool \<Rightarrow> int \<Rightarrow> string" where
  "show_clock short us =
     (let sec = us div 1000000; frac = us mod 1000000
      in pad 2 (sec div 3600) @ '':'' @ pad 2 (sec div 60 mod 60) @
         (if short \<and> sec mod 60 = 0 \<and> frac = 0 then []
          else '':'' @ pad 2 (sec mod 60) @ (if frac = 0 then [] else ''.'' @ pad 6 frac)))"

definition show_offset :: "int option \<Rightarrow> string" where
  "show_offset off =
     (case off of None \<Rightarrow> []
      | Some z \<Rightarrow> (if z < 0 then ''-'' else ''+'') @ show_clock True \<bar>z\<bar>)"

definition show_date :: "date \<Rightarrow> string" where
  "show_date d = (case d of (y, m, n) \<Rightarrow> pad 4 y @ ''-'' @ pad 2 m @ ''-'' @ pad 2 n)"

definition isoformat :: "datetime \<Rightarrow> string" where
  "isoformat d = show_date (dt_date d) @ ''T'' @ show_clock False (dt_tod d) @ show_offset (dt_off d)"

section \<open>The contract of a parser\<close>

locale iso_parser =
  fixes fromiso :: "string \<Rightarrow> datetime option"
  assumes iso_isoformat: "valid_datetime d \<Longrightarrow> fromiso (isoformat d) = Some d"
    and iso_valid: "fromiso s = Some d \<Longrightarrow> valid_datetime d"
begin

lemma isoformat_inj: "valid_datetime d \<Longrightarrow> valid_datetime e \<Longrightarrow> isoformat d = isoformat e \<Longrightarrow> d = e"
  by (metis iso_isoformat option.inject)

end

section \<open>A parser of the extended format\<close>

definition parse_date :: "string \<Rightarrow> date option" where
  "parse_date s =
     (if length s = 10 \<and> s ! 4 = CHR ''-'' \<and> s ! 7 = CHR ''-''
      then (case (read_num (take 4 s), read_num (take 2 (drop 5 s)), read_num (drop 8 s)) of
              (Some y, Some m, Some d) \<Rightarrow>
                if valid_date (y, m, d) then Some (y, m, d) else None
            | _ \<Rightarrow> None)
      else None)"

definition parse_clock :: "string \<Rightarrow> int option" where
  "parse_clock s =
     (if length s \<in> {5, 8, 15} \<and> s ! 2 = CHR '':'' \<and> (length s = 5 \<or> s ! 5 = CHR '':'')
         \<and> (length s \<noteq> 15 \<or> s ! 8 = CHR ''.'')
      then (case (read_num (take 2 s), read_num (take 2 (drop 3 s)),
                  (if length s = 5 then Some 0 else read_num (take 2 (drop 6 s))),
                  (if length s = 15 then read_num (drop 9 s) else Some 0)) of
              (Some h, Some m, Some sec, Some f) \<Rightarrow>
                if h < 24 \<and> m < 60 \<and> sec < 60 \<and> f < 1000000
                then Some (((h * 60 + m) * 60 + sec) * 1000000 + f) else None
            | _ \<Rightarrow> None)
      else None)"

definition parse_offset :: "string \<Rightarrow> int option option" where
  "parse_offset s =
     (case s of [] \<Rightarrow> Some None
      | c # r \<Rightarrow>
          if c = CHR ''Z'' \<and> r = [] then Some (Some 0)
          else if c = CHR ''+'' then map_option Some (parse_clock r)
          else if c = CHR ''-'' then map_option (\<lambda>n. Some (- n)) (parse_clock r)
          else None)"

definition zone_char :: "char \<Rightarrow> bool" where
  "zone_char c \<longleftrightarrow> c = CHR ''+'' \<or> c = CHR ''-'' \<or> c = CHR ''Z''"

definition parse_iso :: "string \<Rightarrow> datetime option" where
  "parse_iso s =
     (case parse_date (take 10 s) of
        None \<Rightarrow> None
      | Some d \<Rightarrow>
          if length s = 10 then Some \<lparr>dt_date = d, dt_tod = 0, dt_off = None\<rparr>
          else (let rest = drop 11 s;
                    clock = takeWhile (\<lambda>c. \<not> zone_char c) rest;
                    zone = dropWhile (\<lambda>c. \<not> zone_char c) rest
                in (case (parse_clock clock, parse_offset zone) of
                      (Some t, Some z) \<Rightarrow> Some \<lparr>dt_date = d, dt_tod = t, dt_off = z\<rparr>
                    | _ \<Rightarrow> None)))"

section \<open>Reading back what was printed\<close>

lemma length_pad [simp]: "length (pad k n) = k"
  by (induction k arbitrary: n) auto

lemma pad_digit: "c \<in> set (pad k n) \<Longrightarrow> is_digit c"
  by (induction k arbitrary: n) (auto simp: digit_char_digit)

lemma read_pad_acc: "0 \<le> n \<Longrightarrow> n < 10 ^ k \<Longrightarrow> read_num_acc a (pad k n) = Some (a * 10 ^ k + n)"
proof (induction k arbitrary: n)
  case (Suc k)
  have "0 \<le> n div 10" "n div 10 < 10 ^ k" using Suc.prems by auto
  moreover have "int (code (digit_char (n mod 10)) - 48) = n mod 10" by (simp add: digit_char_code)
  ultimately show ?case using Suc.IH[of "n div 10"]
    by (simp add: read_num_acc_append digit_char_digit algebra_simps)
qed simp

lemma read_pad: "0 \<le> n \<Longrightarrow> n < 10 ^ k \<Longrightarrow> 0 < k \<Longrightarrow> read_num (pad k n) = Some n"
  using read_pad_acc[of n k 0] by (cases k) (auto simp: read_num_def)

lemma parse_show_date: "valid_date d \<Longrightarrow> parse_date (show_date d) = Some d"
proof -
  assume v: "valid_date d"
  obtain y m n where d: "d = (y, m, n)" by (cases d)
  have b: "1 \<le> y" "y \<le> 9999" "1 \<le> m" "m \<le> 12" "1 \<le> n" "n \<le> 31"
    using v d by (auto simp: valid_date_def days_in_month_def split: if_splits)
  have r: "read_num (pad 4 y) = Some y" "read_num (pad 2 m) = Some m"
      "read_num (pad 2 n) = Some n"
    using b by (auto intro!: read_pad)
  let ?s = "pad 4 y @ ''-'' @ pad 2 m @ ''-'' @ pad 2 n"
  have parts: "take 4 ?s = pad 4 y" "take 2 (drop 5 ?s) = pad 2 m" "drop 8 ?s = pad 2 n"
      "?s ! 4 = CHR ''-''" "?s ! 7 = CHR ''-''"
    by (simp_all add: nth_append)
  show ?thesis using parts r v b unfolding parse_date_def show_date_def d by simp
qed

lemma parse_show_clock: "0 \<le> t \<Longrightarrow> t < 86400000000 \<Longrightarrow> parse_clock (show_clock b t) = Some t"
proof -
  assume t: "0 \<le> t" "t < 86400000000"
  define sec f where "sec = t div 1000000" and "f = t mod 1000000"
  have sec: "0 \<le> sec" "sec < 86400" using t unfolding sec_def by simp_all
  have f: "0 \<le> f" "f < 1000000" by (simp_all add: f_def)
  have r: "read_num (pad 2 (sec div 3600)) = Some (sec div 3600)"
      "read_num (pad 2 (sec div 60 mod 60)) = Some (sec div 60 mod 60)"
      "read_num (pad 2 (sec mod 60)) = Some (sec mod 60)" "read_num (pad 6 f) = Some f"
    using sec f by (auto intro!: read_pad simp: pos_imp_zdiv_nonneg_iff)
  have whole: "((sec div 3600 * 60 + sec div 60 mod 60) * 60 + sec mod 60) * 1000000 + f = t"
  proof -
    have "sec div 3600 * 60 + sec div 60 mod 60 = sec div 60"
      using div_mult_mod_eq[of "sec div 60" 60] by (simp add: zdiv_zmult2_eq[symmetric])
    then show ?thesis using div_mult_mod_eq[of sec 60] div_mult_mod_eq[of t 1000000]
      by (simp add: sec_def f_def)
  qed
  have h: "sec div 3600 < 24" using sec by simp
  let ?p = "pad 2 (sec div 3600) @ '':'' @ pad 2 (sec div 60 mod 60)"
  consider (short) "b \<and> sec mod 60 = 0 \<and> f = 0" | (mid) "\<not> (b \<and> sec mod 60 = 0 \<and> f = 0)" "f = 0"
    | (long) "f \<noteq> 0" by blast
  then show ?thesis
  proof cases
    case short
    then have "show_clock b t = ?p" by (simp add: show_clock_def Let_def sec_def f_def)
    moreover have "take 2 ?p = pad 2 (sec div 3600)" "take 2 (drop 3 ?p) = pad 2 (sec div 60 mod 60)"
        "?p ! 2 = CHR '':''" by (simp_all add: nth_append)
    ultimately show ?thesis using r h whole short unfolding parse_clock_def by simp
  next
    case mid
    let ?s = "?p @ '':'' @ pad 2 (sec mod 60)"
    have "show_clock b t = ?s" using mid by (auto simp: show_clock_def Let_def sec_def f_def)
    moreover have "take 2 ?s = pad 2 (sec div 3600)" "take 2 (drop 3 ?s) = pad 2 (sec div 60 mod 60)"
        "take 2 (drop 6 ?s) = pad 2 (sec mod 60)" "?s ! 2 = CHR '':''" "?s ! 5 = CHR '':''"
      by (simp_all add: nth_append)
    ultimately show ?thesis using r h whole mid unfolding parse_clock_def by simp
  next
    case long
    let ?s = "?p @ '':'' @ pad 2 (sec mod 60) @ ''.'' @ pad 6 f"
    have "show_clock b t = ?s" using long by (auto simp: show_clock_def Let_def sec_def f_def)
    moreover have "take 2 ?s = pad 2 (sec div 3600)" "take 2 (drop 3 ?s) = pad 2 (sec div 60 mod 60)"
        "take 2 (drop 6 ?s) = pad 2 (sec mod 60)" "?s ! 2 = CHR '':''" "?s ! 5 = CHR '':''"
        "?s ! 8 = CHR ''.''" "drop 9 ?s = pad 6 f"
      by (simp_all add: nth_append)
    ultimately show ?thesis using r h whole f unfolding parse_clock_def by simp
  qed
qed

lemma show_clock_no_zone: "c \<in> set (show_clock b t) \<Longrightarrow> \<not> zone_char c"
  using pad_digit by (fastforce simp: show_clock_def Let_def zone_char_def is_digit_def code_def split: if_splits)

lemma parse_show_offset:
  "(case off of None \<Rightarrow> True | Some z \<Rightarrow> - day_us < z \<and> z < day_us) \<Longrightarrow> parse_offset (show_offset off) = Some off"
  using parse_show_clock[of "\<bar>the off\<bar>" True]
  by (auto simp: parse_offset_def show_offset_def day_us_def split: option.splits)

lemma zone_split:
  "takeWhile (\<lambda>c. \<not> zone_char c) (show_clock b t @ show_offset off) = show_clock b t"
  "dropWhile (\<lambda>c. \<not> zone_char c) (show_clock b t @ show_offset off) = show_offset off"
proof -
  have "takeWhile (\<lambda>c. \<not> zone_char c) (show_offset off) = []"
    "dropWhile (\<lambda>c. \<not> zone_char c) (show_offset off) = show_offset off"
    by (auto simp: show_offset_def zone_char_def split: option.splits)
  then show "takeWhile (\<lambda>c. \<not> zone_char c) (show_clock b t @ show_offset off) = show_clock b t"
      "dropWhile (\<lambda>c. \<not> zone_char c) (show_clock b t @ show_offset off) = show_offset off"
    using show_clock_no_zone[of _ b t] by (simp_all add: takeWhile_append2 dropWhile_append2)
qed

lemma parse_isoformat: "valid_datetime d \<Longrightarrow> parse_iso (isoformat d) = Some d"
proof -
  assume v: "valid_datetime d"
  then have c: "valid_date (dt_date d)" "0 \<le> dt_tod d" "dt_tod d < 86400000000"
      "case dt_off d of None \<Rightarrow> True | Some z \<Rightarrow> - day_us < z \<and> z < day_us"
    by (auto simp: valid_datetime_def day_us_def)
  have len: "length (show_date (dt_date d)) = 10" by (simp add: show_date_def split: prod.splits)
  then have "take 10 (isoformat d) = show_date (dt_date d)"
      "drop 11 (isoformat d) = show_clock False (dt_tod d) @ show_offset (dt_off d)"
      "length (isoformat d) \<noteq> 10"
    by (simp_all add: isoformat_def)
  then show ?thesis
    using parse_show_date[OF c(1)] parse_show_clock[of "dt_tod d" False] parse_show_offset[OF c(4)]
      zone_split[of False "dt_tod d" "dt_off d"] c(2,3)
    by (simp add: parse_iso_def Let_def)
qed

lemma parse_clock_range: "parse_clock s = Some t \<Longrightarrow> 0 \<le> t \<and> t < 86400000000"
  by (auto simp: parse_clock_def split: if_splits option.splits dest!: read_num_nonneg)

lemma parse_iso_valid: "parse_iso s = Some d \<Longrightarrow> valid_datetime d"
  by (auto simp: parse_iso_def Let_def valid_datetime_def parse_date_def parse_offset_def day_us_def
      split: option.splits if_splits list.splits dest!: parse_clock_range)

interpretation iso_ext: iso_parser parse_iso
  by unfold_locales (auto intro: parse_isoformat parse_iso_valid)

end
