(* ===== verification/Normalize.thy ===== *)
theory Normalize
  imports Temporal IsoFormat PyRegex
begin

text \<open>
  The second half of \<open>temporal.py\<close>: normalising an explicit or relative expression to a bound
  with an envelope, rebuilding the envelope of a stored bound, validating an interval, and
  finding the temporal window of a retrieval query.  \<open>fromiso\<close> stands for
  \<open>datetime.fromisoformat\<close> (theory IsoFormat).  Expressions written in Cyrillic have no
  representation here; the tables list the English ones.
\<close>

section \<open>Bounds\<close>

definition PRECISIONS :: "string list" where
  "PRECISIONS = [''instant'', ''day'', ''month'', ''year'', ''unknown'']"

record bound =
  nb_value :: "string option"
  nb_precision :: string
  nb_env :: envelope

definition UNKNOWN_BOUND :: bound where
  "UNKNOWN_BOUND = \<lparr>nb_value = None, nb_precision = ''unknown'', nb_env = UNKNOWN_ENVELOPE\<rparr>"

definition require_aware :: "datetime \<Rightarrow> string \<Rightarrow> datetime result" where
  "require_aware d err = (if dt_off d = None then Inl (TemporalValidationError err) else Inr d)"

text \<open>\<open>value.replace(year=..., month=...)\<close> raises when the date does not exist.\<close>

definition month_add :: "datetime \<Rightarrow> int \<Rightarrow> datetime result" where
  "month_add d months =
     (case dt_date d of (y, m, n) \<Rightarrow>
        let month_index = y * 12 + (m - 1) + months;
            new = (month_index div 12, month_index mod 12 + 1, n)
        in if valid_date new then Inr (d\<lparr>dt_date := new\<rparr>)
           else Inl (ValueError ''year, month or day is out of range''))"

definition range_envelope :: "datetime \<Rightarrow> datetime \<Rightarrow> envelope" where
  "range_envelope lo hi = Envelope (Some (instant_of lo)) (Some (instant_of hi)) False"

definition day_envelope :: "datetime \<Rightarrow> envelope result" where
  "day_envelope d = bindr (plus_days d 1) (\<lambda>e. Inr (range_envelope d e))"

definition resolution_tz :: "datetime option \<Rightarrow> int option" where
  "resolution_tz anchor =
     (case anchor of None \<Rightarrow> Some 0 | Some a \<Rightarrow> (case dt_off a of None \<Rightarrow> Some 0 | Some z \<Rightarrow> Some z))"

text \<open>\<open>except ValueError as exc: raise TemporalValidationError(code, ...)\<close>.\<close>

definition reraise :: "string \<Rightarrow> 'a result \<Rightarrow> 'a result" where
  "reraise err r =
     (case r of
        Inl (ValueError m) \<Rightarrow> Inl (TemporalValidationError err)
      | _ \<Rightarrow> r)"

definition RELATIVE_DAYS :: "(string \<times> int) list" where
  "RELATIVE_DAYS = [(''today'', 0), (''yesterday'', -1), (''tomorrow'', 1)]"

text \<open>The three anchored patterns \<open>YYYY\<close>, \<open>YYYY-MM\<close> and \<open>YYYY-MM-DD\<close>.\<close>

definition rdigits :: "nat \<Rightarrow> rx" where
  "rdigits n = rtimes n (RChar is_digit)"

definition YEAR :: rx where "YEAR = rseqs [RGroup 1 (rdigits 4), REnd]"
definition MONTH :: rx where "MONTH = rseqs [RGroup 1 (rdigits 4), rlit ''-'', RGroup 2 (rdigits 2), REnd]"
definition DAY :: rx where
  "DAY = rseqs [RGroup 1 (rdigits 4), rlit ''-'', RGroup 2 (rdigits 2), rlit ''-'', RGroup 3 (rdigits 2), REnd]"

text \<open>\<open>int(match.group(n))\<close> of a group of digits.\<close>

definition group_int :: "nat \<Rightarrow> (nat \<times> string) list \<Rightarrow> int" where
  "group_int n g = (case group n g of None \<Rightarrow> 0
     | Some s \<Rightarrow> (case read_num s of None \<Rightarrow> 0 | Some k \<Rightarrow> k))"

text \<open>The calendar expressions; \<open>None\<close> when no pattern matches.\<close>

definition calendar_bound :: "string \<Rightarrow> int option \<Rightarrow> bound result option" where
  "calendar_bound text zone =
     (case re_match YEAR text of
        Some p \<Rightarrow> Some (
          bindr (mk_datetime (group_int 1 (groups_of p)) 1 1 zone) (\<lambda>start.
          bindr (month_add start 12) (\<lambda>end.
            Inr \<lparr>nb_value = Some (isoformat start), nb_precision = ''year'',
                 nb_env = range_envelope start end\<rparr>)))
      | None \<Rightarrow>
     (case re_match MONTH text of
        Some p \<Rightarrow> Some (
          bindr (mk_datetime (group_int 1 (groups_of p)) (group_int 2 (groups_of p)) 1 zone) (\<lambda>start.
          bindr (month_add start 1) (\<lambda>end.
            Inr \<lparr>nb_value = Some (isoformat start), nb_precision = ''month'',
                 nb_env = range_envelope start end\<rparr>)))
      | None \<Rightarrow>
     (case re_match DAY text of
        Some p \<Rightarrow> Some (
          bindr (mk_datetime (group_int 1 (groups_of p)) (group_int 2 (groups_of p))
                   (group_int 3 (groups_of p)) zone) (\<lambda>start.
          bindr (day_envelope start) (\<lambda>env.
            Inr \<lparr>nb_value = Some (isoformat start), nb_precision = ''day'', nb_env = env\<rparr>)))
      | None \<Rightarrow> None)))"

definition relative_bound :: "int \<Rightarrow> datetime option \<Rightarrow> bound result" where
  "relative_bound offset anchor =
     (case anchor of
        None \<Rightarrow> Inl (TemporalValidationError ''relative_without_anchor'')
      | Some a \<Rightarrow>
          bindr (require_aware a ''naive_anchor'') (\<lambda>a.
          bindr (plus_days (at_midnight a) offset) (\<lambda>day_start.
          bindr (day_envelope day_start) (\<lambda>env.
            Inr \<lparr>nb_value = Some (isoformat day_start), nb_precision = ''day'', nb_env = env\<rparr>))))"

definition normalize_bound :: "(string \<Rightarrow> datetime option) \<Rightarrow> string option \<Rightarrow> datetime option \<Rightarrow> bound result" where
  "normalize_bound fromiso raw anchor =
     (case raw of
        None \<Rightarrow> Inr UNKNOWN_BOUND
      | Some r \<Rightarrow>
          let text = strip r in
          if text = [] then Inr UNKNOWN_BOUND
          else (case dget RELATIVE_DAYS (casefold text) of
                  Some offset \<Rightarrow> relative_bound offset anchor
                | None \<Rightarrow>
                    (case calendar_bound text (resolution_tz anchor) of
                       Some b \<Rightarrow> reraise ''invalid_calendar_value'' b
                     | None \<Rightarrow>
                         (case fromiso text of
                            None \<Rightarrow> Inl (TemporalValidationError ''unparseable_temporal'')
                          | Some d \<Rightarrow>
                              bindr (require_aware d ''naive_timestamp'') (\<lambda>instant.
                                Inr \<lparr>nb_value = Some (isoformat instant), nb_precision = ''instant'',
                                     nb_env = point (instant_of instant)\<rparr>)))))"

definition envelope_from_fields ::
  "(string \<Rightarrow> datetime option) \<Rightarrow> string option \<Rightarrow> string option \<Rightarrow> envelope result" where
  "envelope_from_fields fromiso value precision =
     (case value of
        None \<Rightarrow> Inr UNKNOWN_ENVELOPE
      | Some v \<Rightarrow>
          let kind = casefold (case precision of None \<Rightarrow> ''instant'' | Some [] \<Rightarrow> ''instant'' | Some p \<Rightarrow> p) in
          if kind \<notin> set PRECISIONS then Inl (TemporalValidationError ''invalid_precision'')
          else reraise ''invalid_stored_bound''
            (case fromiso v of
               None \<Rightarrow> Inl (ValueError ''Invalid isoformat string'')
             | Some d \<Rightarrow>
                 bindr (require_aware d ''naive_stored_bound'') (\<lambda>start.
                   if kind = ''instant'' then Inr (point (instant_of start))
                   else if kind = ''day'' then day_envelope start
                   else if kind = ''month'' then bindr (month_add start 1) (\<lambda>e. Inr (range_envelope start e))
                   else if kind = ''year'' then bindr (month_add start 12) (\<lambda>e. Inr (range_envelope start e))
                   else Inr UNKNOWN_ENVELOPE)))"

definition interval_from_fields ::
  "(string \<Rightarrow> datetime option) \<Rightarrow> string option \<Rightarrow> string option \<Rightarrow> string option \<Rightarrow> string option \<Rightarrow> interval result" where
  "interval_from_fields fromiso valid_from from_precision valid_to to_precision =
     bindr (envelope_from_fields fromiso valid_from from_precision) (\<lambda>s.
     bindr (envelope_from_fields fromiso valid_to to_precision) (\<lambda>e. Inr (Interval s e)))"

definition normalize_interval ::
  "(string \<Rightarrow> datetime option) \<Rightarrow> string option \<Rightarrow> string option \<Rightarrow> datetime option \<Rightarrow> (bound \<times> bound) result" where
  "normalize_interval fromiso valid_from valid_to anchor =
     bindr (normalize_bound fromiso valid_from anchor) (\<lambda>start.
     bindr (normalize_bound fromiso valid_to anchor) (\<lambda>end.
       if env_known (nb_env start) \<and> env_known (nb_env end)
       then (if lt3 (nb_env end) (nb_env start) = TruthTRUE
             then Inl (TemporalValidationError ''inverted_interval'')
             else if env_singleton (nb_env start) \<and> env_singleton (nb_env end)
                     \<and> env_lo (nb_env start) = env_lo (nb_env end)
             then Inl (TemporalValidationError ''empty_interval'')
             else Inr (start, end))
       else Inr (start, end)))"

definition now_envelope :: "datetime \<Rightarrow> envelope result" where
  "now_envelope now = bindr (require_aware now ''naive_now'') (\<lambda>n. Inr (point (instant_of n)))"

section \<open>What a normalised bound guarantees\<close>

lemma valid_datetime_date: "valid_datetime d \<Longrightarrow> valid_date (dt_date d)"
  by (simp add: valid_datetime_def)

lemma month_index_split:
  assumes "1 \<le> m" "m \<le> 12"
  shows "(y * 12 + (m - 1)) div 12 = y" "(y * 12 + (m - 1)) mod 12 = (m::int) - 1"
  using assms int_div_pos_eq[of "y * 12 + (m - 1)" 12 y "m - 1"] int_mod_pos_eq[of "y * 12 + (m - 1)" 12 y "m - 1"]
  by simp_all

lemma month_index_less:
  fixes i j :: int
  assumes "i < j"
  shows "i div 12 < j div 12 \<or> i div 12 = j div 12 \<and> i mod 12 < j mod 12"
proof -
  have "i div 12 \<le> j div 12" using assms by (simp add: zdiv_mono1)
  moreover have "i mod 12 < j mod 12" if "i div 12 = j div 12"
    using assms that mult_div_mod_eq[of 12 i] mult_div_mod_eq[of 12 j] by linarith
  ultimately show ?thesis by linarith
qed

lemma month_add_later:
  assumes v: "valid_datetime d" and run: "month_add d k = Inr e" and k: "0 < k"
  shows "valid_datetime e \<and> instant_of d < instant_of e"
proof -
  obtain y m n where d: "dt_date d = (y, m, n)" by (cases "dt_date d")
  define i where "i = y * 12 + (m - 1) + k"
  have e: "e = d\<lparr>dt_date := (i div 12, i mod 12 + 1, n)\<rparr>" "valid_date (i div 12, i mod 12 + 1, n)"
    using run by (auto simp: month_add_def d i_def Let_def split: if_splits)
  have m: "1 \<le> m" "m \<le> 12" using valid_datetime_date[OF v] d by (auto simp: valid_date_def)
  have "y < i div 12 \<or> y = i div 12 \<and> m < i mod 12 + 1"
    using month_index_less[of "y * 12 + (m - 1)" i] m k i_def by (auto simp: month_index_split)
  then have "ordinal (y, m, n) < ordinal (i div 12, i mod 12 + 1, n)"
    using ordinal_less_month valid_datetime_date[OF v] d e(2) by metis
  then have "(ordinal (y, m, n) - 1) * day_us < (ordinal (i div 12, i mod 12 + 1, n) - 1) * day_us"
    by (simp add: day_us_def)
  then show ?thesis using v e d by (simp add: valid_datetime_def instant_of_def)
qed

lemma month_add_earlier:
  assumes v: "valid_datetime d" and run: "month_add d k = Inr e" and k: "k < 0"
  shows "valid_datetime e \<and> instant_of e < instant_of d"
proof -
  obtain y m n where d: "dt_date d = (y, m, n)" by (cases "dt_date d")
  define i where "i = y * 12 + (m - 1) + k"
  have e: "e = d\<lparr>dt_date := (i div 12, i mod 12 + 1, n)\<rparr>" "valid_date (i div 12, i mod 12 + 1, n)"
    using run by (auto simp: month_add_def d i_def Let_def split: if_splits)
  have m: "1 \<le> m" "m \<le> 12" using valid_datetime_date[OF v] d by (auto simp: valid_date_def)
  have "i div 12 < y \<or> i div 12 = y \<and> i mod 12 + 1 < m"
    using month_index_less[of i "y * 12 + (m - 1)"] m k i_def by (auto simp: month_index_split)
  then have "ordinal (i div 12, i mod 12 + 1, n) < ordinal (y, m, n)"
    using ordinal_less_month valid_datetime_date[OF v] d e(2) by metis
  then have "(ordinal (i div 12, i mod 12 + 1, n) - 1) * day_us < (ordinal (y, m, n) - 1) * day_us"
    by (simp add: day_us_def)
  then show ?thesis using v e d by (simp add: valid_datetime_def instant_of_def)
qed

lemma day_envelope_spec:
  "valid_datetime d \<Longrightarrow> day_envelope d = Inr env \<Longrightarrow>
     env = Envelope (Some (instant_of d)) (Some (instant_of d + day_us)) False"
  by (auto simp: day_envelope_def range_envelope_def plus_days_spec)

text \<open>Every bound the normaliser returns, by precision.\<close>

definition bound_ok :: "bound \<Rightarrow> bool" where
  "bound_ok b \<longleftrightarrow>
     nb_precision b \<in> set PRECISIONS \<and> env_wf (nb_env b)
     \<and> (nb_value b = None \<longleftrightarrow> nb_env b = UNKNOWN_ENVELOPE)
     \<and> (\<forall>v. nb_value b = Some v \<longrightarrow>
          (\<exists>d. valid_datetime d \<and> dt_off d \<noteq> None \<and> v = isoformat d \<and> env_lo (nb_env b) = Some (instant_of d)
            \<and> (nb_precision b = ''instant'' \<and> nb_env b = point (instant_of d)
               \<or> nb_precision b = ''day'' \<and> day_envelope d = Inr (nb_env b)
               \<or> nb_precision b = ''month'' \<and> bindr (month_add d 1) (\<lambda>e. Inr (range_envelope d e)) = Inr (nb_env b)
               \<or> nb_precision b = ''year'' \<and> bindr (month_add d 12) (\<lambda>e. Inr (range_envelope d e)) = Inr (nb_env b))))"

lemma UNKNOWN_BOUND_ok: "bound_ok UNKNOWN_BOUND"
  by (simp add: bound_ok_def UNKNOWN_BOUND_def PRECISIONS_def)

lemma mk_valid: "mk_datetime y m n (Some z) = Inr d \<Longrightarrow> - day_us < z \<and> z < day_us \<Longrightarrow>
    valid_datetime d \<and> dt_off d = Some z"
  by (auto dest!: mk_datetime_spec simp: valid_datetime_def day_us_def)

lemma range_bound_ok:
  assumes "valid_datetime d" "dt_off d \<noteq> None" "instant_of d < instant_of e"
    and "prec = ''month'' \<and> month_add d 1 = Inr e \<or> prec = ''year'' \<and> month_add d 12 = Inr e"
  shows "bound_ok \<lparr>nb_value = Some (isoformat d), nb_precision = prec, nb_env = range_envelope d e\<rparr>"
proof -
  have "prec \<in> set PRECISIONS" using assms(4) by (auto simp: PRECISIONS_def)
  then show ?thesis
    using assms by (auto simp: bound_ok_def range_envelope_def UNKNOWN_ENVELOPE_def Envelope_def env_wf_def)
qed

lemma day_bound_ok:
  assumes "valid_datetime d" "dt_off d \<noteq> None" "day_envelope d = Inr env"
  shows "bound_ok \<lparr>nb_value = Some (isoformat d), nb_precision = ''day'', nb_env = env\<rparr>"
proof -
  have "env = Envelope (Some (instant_of d)) (Some (instant_of d + day_us)) False"
    using day_envelope_spec assms by blast
  then show ?thesis
    using assms by (auto simp: bound_ok_def UNKNOWN_ENVELOPE_def PRECISIONS_def Envelope_def env_wf_def day_us_def)
qed

lemma reraise_Inr [simp]: "reraise err r = Inr x \<longleftrightarrow> r = Inr x"
  by (auto simp: reraise_def split: sum.splits exn.splits)

lemma calendar_bound_ok:
  assumes run: "calendar_bound text (Some z) = Some (Inr b)" and z: "- day_us < z \<and> z < day_us"
  shows "bound_ok b"
proof -
  have year: "bound_ok b" if "bindr (mk_datetime y 1 1 (Some z)) (\<lambda>start. bindr (month_add start 12) (\<lambda>end.
      Inr \<lparr>nb_value = Some (isoformat start), nb_precision = ''year'', nb_env = range_envelope start end\<rparr>)) = Inr b" for y
    using that mk_valid[OF _ z] month_add_later by (fastforce intro!: range_bound_ok)
  have month: "bound_ok b" if "bindr (mk_datetime y m 1 (Some z)) (\<lambda>start. bindr (month_add start 1) (\<lambda>end.
      Inr \<lparr>nb_value = Some (isoformat start), nb_precision = ''month'', nb_env = range_envelope start end\<rparr>)) = Inr b" for y m
    using that mk_valid[OF _ z] month_add_later by (fastforce intro!: range_bound_ok)
  have day: "bound_ok b" if "bindr (mk_datetime y m n (Some z)) (\<lambda>start. bindr (day_envelope start) (\<lambda>env.
      Inr \<lparr>nb_value = Some (isoformat start), nb_precision = ''day'', nb_env = env\<rparr>)) = Inr b" for y m n
    using that mk_valid[OF _ z] by (fastforce intro!: day_bound_ok)
  show ?thesis using run year month day unfolding calendar_bound_def by (auto split: option.splits simp del: bindr_eq_Inr)
qed

lemma relative_bound_ok:
  assumes run: "relative_bound n anchor = Inr b" and a: "case anchor of None \<Rightarrow> True | Some a \<Rightarrow> valid_datetime a"
  shows "bound_ok b"
proof -
  obtain a d env where s: "anchor = Some a" "dt_off a \<noteq> None" "plus_days (at_midnight a) n = Inr d"
      "day_envelope d = Inr env" "b = \<lparr>nb_value = Some (isoformat d), nb_precision = ''day'', nb_env = env\<rparr>"
    using run by (auto simp: relative_bound_def require_aware_def split: option.splits if_splits)
  have "valid_datetime (at_midnight a)" using a s(1) at_midnight_valid by simp
  then have "valid_datetime d" "dt_off d = dt_off a"
    using plus_days_spec[OF _ s(3)] by (simp_all add: at_midnight_def)
  then show ?thesis using day_bound_ok s by simp
qed

lemma normalize_bound_ok:
  assumes parser: "\<And>s d. fromiso s = Some d \<Longrightarrow> valid_datetime d"
    and run: "normalize_bound fromiso raw anchor = Inr b"
    and a: "case anchor of None \<Rightarrow> True | Some a \<Rightarrow> valid_datetime a"
  shows "bound_ok b"
proof -
  obtain z where z: "resolution_tz anchor = Some z" "- day_us < z \<and> z < day_us"
    using a by (cases anchor) (auto simp: resolution_tz_def valid_datetime_def day_us_def split: option.splits)
  have inst: "bound_ok \<lparr>nb_value = Some (isoformat d), nb_precision = ''instant'', nb_env = point (instant_of d)\<rparr>"
    if "valid_datetime d" "dt_off d \<noteq> None" for d
    using that by (auto simp: bound_ok_def PRECISIONS_def UNKNOWN_ENVELOPE_def point_def Envelope_def env_wf_def)
  show ?thesis
    using run UNKNOWN_BOUND_ok relative_bound_ok[OF _ a] calendar_bound_ok[OF _ z(2)] inst parser z(1)
    by (auto simp: normalize_bound_def Let_def require_aware_def split: option.splits if_splits)
qed

text \<open>
  C9: a normalised bound is what its text says.  When \<open>normalize_bound\<close> accepts an
  expression, its precision is one of the five, its envelope denotes at least one instant,
  and rebuilding the envelope from the stored text and precision gives exactly the envelope
  that was validated: nothing is lost by storing the bound as two strings.
\<close>

theorem stored_bound_roundtrip:
  assumes read: "\<And>d. valid_datetime d \<Longrightarrow> fromiso (isoformat d) = Some d"
    and valid: "\<And>s d. fromiso s = Some d \<Longrightarrow> valid_datetime d"
    and anchor: "case anchor of None \<Rightarrow> True | Some a \<Rightarrow> valid_datetime a"
    and run: "normalize_bound fromiso raw anchor = Inr b"
  shows "nb_precision b \<in> set PRECISIONS \<and> env_wf (nb_env b)
    \<and> envelope_from_fields fromiso (nb_value b) (Some (nb_precision b)) = Inr (nb_env b)"
proof -
  have ok: "bound_ok b" by (rule normalize_bound_ok[OF valid run anchor])
  have fold: "casefold ''instant'' = ''instant''" "casefold ''day'' = ''day''" "casefold ''month'' = ''month''"
    "casefold ''year'' = ''year''"
    by code_simp+
  have "envelope_from_fields fromiso (nb_value b) (Some (nb_precision b)) = Inr (nb_env b)"
  proof (cases "nb_value b")
    case None
    then show ?thesis using ok by (simp add: envelope_from_fields_def bound_ok_def)
  next
    case (Some v)
    then obtain d where d: "valid_datetime d" "dt_off d \<noteq> None" "v = isoformat d"
        "nb_precision b = ''instant'' \<and> nb_env b = point (instant_of d)
         \<or> nb_precision b = ''day'' \<and> day_envelope d = Inr (nb_env b)
         \<or> nb_precision b = ''month'' \<and> bindr (month_add d 1) (\<lambda>e. Inr (range_envelope d e)) = Inr (nb_env b)
         \<or> nb_precision b = ''year'' \<and> bindr (month_add d 12) (\<lambda>e. Inr (range_envelope d e)) = Inr (nb_env b)"
      using ok unfolding bound_ok_def by blast
    then show ?thesis
      using Some read[OF d(1)]
      by (elim disjE conjE) (simp_all add: envelope_from_fields_def fold PRECISIONS_def require_aware_def)
  qed
  then show ?thesis using ok by (simp add: bound_ok_def)
qed

lemma demo_month_bound: "is_ok (normalize_bound parse_iso (Some '' 2026-02 '') None)"
  by code_simp

theorem stored_bound_roundtrip_witness:
  "\<exists>b. normalize_bound parse_iso (Some '' 2026-02 '') None = Inr b
      \<and> envelope_from_fields parse_iso (nb_value b) (Some (nb_precision b)) = Inr (nb_env b)"
proof -
  obtain b where b: "normalize_bound parse_iso (Some '' 2026-02 '') None = Inr b"
    using demo_month_bound by (auto simp: is_ok_iff)
  have "nb_precision b \<in> set PRECISIONS \<and> env_wf (nb_env b)
    \<and> envelope_from_fields parse_iso (nb_value b) (Some (nb_precision b)) = Inr (nb_env b)"
    by (rule stored_bound_roundtrip[OF _ _ _ b]) (auto intro: parse_isoformat parse_iso_valid)
  then show ?thesis using b by blast
qed

text \<open>
  An accepted interval is not empty.  Whatever \<open>normalize_interval\<close> accepts has a
  reading: an instant the start may denote and one the end may denote with the start not
  after the end, and strictly before it when both are exact; each bound it returns is the
  normalisation of its text.
\<close>

theorem interval_has_a_reading:
  assumes valid: "\<And>s d. fromiso s = Some d \<Longrightarrow> valid_datetime d"
    and anchor: "case anchor of None \<Rightarrow> True | Some a \<Rightarrow> valid_datetime a"
    and run: "normalize_interval fromiso valid_from valid_to anchor = Inr (s, e)"
  shows "normalize_bound fromiso valid_from anchor = Inr s \<and> normalize_bound fromiso valid_to anchor = Inr e
    \<and> (\<exists>x \<in> denotes (nb_env s). \<exists>y \<in> denotes (nb_env e). x \<le> y
         \<and> (env_singleton (nb_env s) \<and> env_singleton (nb_env e) \<longrightarrow> x < y))"
proof -
  have n: "normalize_bound fromiso valid_from anchor = Inr s" "normalize_bound fromiso valid_to anchor = Inr e"
    using run by (auto simp: normalize_interval_def split: if_splits)
  have "bound_ok s" "bound_ok e"
    by (rule normalize_bound_ok[OF valid n(1) anchor], assumption)
       (rule normalize_bound_ok[OF valid n(2) anchor], assumption)
  then have wf: "env_wf (nb_env s)" "env_wf (nb_env e)" by (simp_all add: bound_ok_def)
  have "\<exists>x \<in> denotes (nb_env s). \<exists>y \<in> denotes (nb_env e). x \<le> y
         \<and> (env_singleton (nb_env s) \<and> env_singleton (nb_env e) \<longrightarrow> x < y)"
  proof (cases "env_known (nb_env s) \<and> env_known (nb_env e)")
    case True
    then have lt: "lt3 (nb_env e) (nb_env s) \<noteq> TruthTRUE"
      and ne: "\<not> (env_singleton (nb_env s) \<and> env_singleton (nb_env e) \<and> env_lo (nb_env s) = env_lo (nb_env e))"
      using run n by (auto simp: normalize_interval_def split: if_splits)
    obtain x y where xy: "x \<in> denotes (nb_env s)" "y \<in> denotes (nb_env e)" "x \<le> y"
      using lt3_TRUE_iff[OF wf(2,1)] lt by (meson linorder_not_less)
    have "x < y" if "env_singleton (nb_env s)" "env_singleton (nb_env e)"
    proof -
      have "env_lo (nb_env s) = Some x" "env_lo (nb_env e) = Some y"
        using xy(1,2) that by (auto simp: denotes_def)
      then show ?thesis using ne that xy(3) by auto
    qed
    then show ?thesis using xy by blast
  next
    case False
    obtain x y where x: "x \<in> denotes (nb_env s)" and y: "y \<in> denotes (nb_env e)"
      using denotes_ne wf by blast
    have u: "\<not> env_singleton u \<and> denotes u = UNIV" if "\<not> env_known u" for u
      using that by (auto simp: env_known_def denotes_def)
    show ?thesis
    proof (cases "env_known (nb_env s)")
      case True
      then have "x + 1 \<in> denotes (nb_env e)" using u[of "nb_env e"] False by simp
      moreover have "\<not> env_singleton (nb_env e)" using u[of "nb_env e"] False True by simp
      ultimately show ?thesis using x by (intro bexI[of _ x] bexI[of _ "x + 1"]) auto
    next
      case s: False
      then have "y - 1 \<in> denotes (nb_env s)" using u[of "nb_env s"] by simp
      moreover have "\<not> env_singleton (nb_env s)" using u[of "nb_env s"] s by simp
      ultimately show ?thesis using y by (intro bexI[of _ "y - 1"] bexI[of _ y]) auto
    qed
  qed
  then show ?thesis using n by blast
qed

lemma demo_interval: "is_ok (normalize_interval parse_iso (Some ''2025'') (Some ''2026-01-02'') None)"
  by code_simp

theorem interval_has_a_reading_witness:
  "\<exists>s e. normalize_interval parse_iso (Some ''2025'') (Some ''2026-01-02'') None = Inr (s, e)
     \<and> (\<exists>x \<in> denotes (nb_env s). \<exists>y \<in> denotes (nb_env e). x \<le> y)"
proof -
  obtain p where "normalize_interval parse_iso (Some ''2025'') (Some ''2026-01-02'') None = Inr p"
    using demo_interval by (auto simp: is_ok_iff)
  then obtain s e where r: "normalize_interval parse_iso (Some ''2025'') (Some ''2026-01-02'') None = Inr (s, e)"
    by (cases p) auto
  have "normalize_bound parse_iso (Some ''2025'') None = Inr s \<and> normalize_bound parse_iso (Some ''2026-01-02'') None = Inr e
    \<and> (\<exists>x \<in> denotes (nb_env s). \<exists>y \<in> denotes (nb_env e). x \<le> y
         \<and> (env_singleton (nb_env s) \<and> env_singleton (nb_env e) \<longrightarrow> x < y))"
    by (rule interval_has_a_reading[OF _ _ r]) (auto intro: parse_iso_valid)
  then show ?thesis using r by blast
qed

section \<open>The window of a query\<close>

record query_window =
  qw_start :: datetime
  qw_end :: datetime
  qw_expression :: string

definition qw_interval :: "query_window \<Rightarrow> interval" where
  "qw_interval q = Interval (point (instant_of (qw_start q))) (point (instant_of (qw_end q)))"

definition MONTH_NAMES :: "(string \<times> int) list" where
  "MONTH_NAMES =
    [(''january'', 1), (''february'', 2), (''march'', 3), (''april'', 4), (''may'', 5), (''june'', 6),
     (''july'', 7), (''august'', 8), (''september'', 9), (''october'', 10), (''november'', 11),
     (''december'', 12)]"

definition MONTH_HOMOGRAPHS :: "string list" where
  "MONTH_HOMOGRAPHS = [''may'', ''march'', ''august'']"

definition rword :: "rx \<Rightarrow> rx" where
  "rword r = rseqs [RBound, RGroup 1 r, RBound]"

definition FUZZY_WINDOWS :: "(rx \<times> int \<times> int) list" where
  "FUZZY_WINDOWS =
    [(rword (rlit_i ''a couple of days ago''), 3, 1),
     (rword (rlit_i ''a few days ago''), 5, 2),
     (rword (rlit_i ''a couple of weeks ago''), 21, 7),
     (rword (rlit_i ''a few weeks ago''), 35, 14),
     (rword (rlit_i ''a few months ago''), 150, 60)]"

definition SIMPLE_DAYS :: "(string \<times> int) list" where
  "SIMPLE_DAYS = [(''today'', 0), (''yesterday'', -1), (''tomorrow'', 1)]"

definition LAST_PERIOD :: rx where
  "LAST_PERIOD = rword (ralts [rlit_i ''last week'', rlit_i ''last month'', rlit_i ''last year''])"

definition MONTH_TOKEN :: rx where
  "MONTH_TOKEN = rseqs [RBound, RGroup 1 (rrange 3 9 (RChar (\<lambda>c. is_upper_ascii c \<or> is_lower_ascii c))),
     ropt (rlit ''.''), ropt (rseqs [rplus (RChar is_space), RGroup 2 (rdigits 4)]), RBound]"

definition EXPLICIT_DAY :: rx where
  "EXPLICIT_DAY = rseqs [RBound, RGroup 1 (rdigits 4), rlit ''-'', RGroup 2 (rdigits 2), rlit ''-'',
     RGroup 3 (rdigits 2), RBound]"

definition day_window :: "datetime \<Rightarrow> int \<Rightarrow> (datetime \<times> datetime) result" where
  "day_window day days =
     (let start = at_midnight day in bindr (plus_days start days) (\<lambda>end. Inr (start, end)))"

definition window_of :: "string \<Rightarrow> (datetime \<times> datetime) result \<Rightarrow> query_window option result" where
  "window_of expression r =
     bindr r (\<lambda>(start, end). Inr (Some \<lparr>qw_start = start, qw_end = end, qw_expression = expression\<rparr>))"

text \<open>The first fuzzy phrase found, and the first simple day word found.\<close>

fun fuzzy_window :: "(rx \<times> int \<times> int) list \<Rightarrow> string \<Rightarrow> datetime \<Rightarrow> query_window option result" where
  "fuzzy_window [] text now = Inr None"
| "fuzzy_window ((pattern, back_start, back_end) # rest) text now =
     (case re_search pattern text of
        None \<Rightarrow> fuzzy_window rest text now
      | Some (_, found, _) \<Rightarrow>
          window_of found (bindr (plus_days now (- back_start)) (\<lambda>d. day_window d (back_start - back_end))))"

fun simple_window :: "(string \<times> int) list \<Rightarrow> string \<Rightarrow> datetime \<Rightarrow> query_window option result" where
  "simple_window [] lowered now = Inr None"
| "simple_window ((word, offset) # rest) lowered now =
     (if re_found (rseqs [RBound, rlit word, RBound]) lowered
      then window_of word (bindr (plus_days now offset) (\<lambda>d. day_window d 1))
      else simple_window rest lowered now)"

definition last_period_window :: "string \<Rightarrow> datetime \<Rightarrow> query_window option result" where
  "last_period_window found now =
     (let token = casefold found;
          anchor = at_midnight now
      in if contains ''week'' token
         then window_of found (
           bindr (plus_days anchor (- weekday anchor)) (\<lambda>this_monday.
           bindr (plus_days this_monday (-7)) (\<lambda>start. Inr (start, this_monday))))
         else
           (case dt_date anchor of (y, m, n) \<Rightarrow>
             if contains ''month'' token
             then (let first = anchor\<lparr>dt_date := (y, m, 1)\<rparr>
                   in window_of found (bindr (month_add first (-1)) (\<lambda>start. Inr (start, first))))
             else (let first_jan = anchor\<lparr>dt_date := (y, 1, 1)\<rparr>
                   in window_of found
                        (if y - 1 < 1 then Inl (ValueError ''year, month or day is out of range'')
                         else Inr (first_jan\<lparr>dt_date := (y - 1, 1, 1)\<rparr>, first_jan)))))"

fun month_window :: "(string \<times> (nat \<times> string) list) list \<Rightarrow> datetime \<Rightarrow> query_window option result" where
  "month_window [] now = Inr None"
| "month_window ((found, g) # rest) now =
     (let token = casefold (case group 1 g of None \<Rightarrow> [] | Some t \<Rightarrow> t)
      in case dget MONTH_NAMES token of
           None \<Rightarrow> month_window rest now
         | Some month \<Rightarrow>
             if token \<in> set MONTH_HOMOGRAPHS \<and> group 2 g = None then month_window rest now
             else (let year = (if group 2 g \<noteq> None then group_int 2 g
                               else case dt_date now of (y, m, _) \<Rightarrow> if month \<le> m then y else y - 1)
                   in case mk_datetime year month 1 (dt_off now) of
                        Inl _ \<Rightarrow> month_window rest now
                      | Inr start \<Rightarrow>
                          window_of found (bindr (month_add start 1) (\<lambda>end. Inr (start, end)))))"

text \<open>\<open>if found: return\<close>, then the next rule.\<close>

definition or_else :: "query_window option result \<Rightarrow> query_window option result \<Rightarrow> query_window option result" where
  "or_else a b = bindr a (\<lambda>r. case r of None \<Rightarrow> b | Some q \<Rightarrow> Inr (Some q))"

definition explicit_window :: "string \<Rightarrow> datetime \<Rightarrow> query_window option result" where
  "explicit_window text now =
     (case re_search EXPLICIT_DAY text of
        None \<Rightarrow> Inr None
      | Some (_, found, p) \<Rightarrow>
          (case mk_datetime (group_int 1 (groups_of p)) (group_int 2 (groups_of p))
                  (group_int 3 (groups_of p)) (dt_off now) of
             Inl _ \<Rightarrow> Inr None
           | Inr day \<Rightarrow> window_of found (day_window day 1)))"

definition parse_query_window :: "string \<Rightarrow> datetime \<Rightarrow> query_window option result" where
  "parse_query_window text now0 =
     (if text = [] then Inr None
      else bindr (require_aware now0 ''naive_now'') (\<lambda>now.
        or_else (explicit_window text now)
          (or_else (fuzzy_window FUZZY_WINDOWS text now)
            (or_else (simple_window SIMPLE_DAYS (casefold text) now)
              (case re_search LAST_PERIOD text of
                 Some (_, found, _) \<Rightarrow> last_period_window found now
               | None \<Rightarrow> month_window (re_findall MONTH_TOKEN text) now)))))"

section \<open>Windows are proper\<close>

definition window_ok :: "query_window option result \<Rightarrow> bool" where
  "window_ok r \<longleftrightarrow> (\<forall>q. r = Inr (Some q) \<longrightarrow>
     valid_datetime (qw_start q) \<and> valid_datetime (qw_end q) \<and> instant_of (qw_start q) < instant_of (qw_end q))"

lemma window_ok_of:
  "(\<And>s e. r = Inr (s, e) \<Longrightarrow> valid_datetime s \<and> valid_datetime e \<and> instant_of s < instant_of e) \<Longrightarrow>
     window_ok (window_of x r)"
  by (auto simp: window_ok_def window_of_def)

lemma window_ok_None [simp]: "window_ok (Inr None)"
  by (simp add: window_ok_def)

lemma day_window_ok:
  assumes "valid_datetime d" "0 < n" "day_window d n = Inr (s, e)"
  shows "valid_datetime s \<and> valid_datetime e \<and> instant_of s < instant_of e"
proof -
  have s: "s = at_midnight d" "plus_days s n = Inr e" using assms(3) by (auto simp: day_window_def Let_def)
  have v: "valid_datetime s" using at_midnight_valid[OF assms(1)] s(1) by simp
  show ?thesis using plus_days_spec[OF v s(2)] v assms(2) by (simp add: day_us_def)
qed

lemma shifted_window_ok:
  assumes "valid_datetime now" "0 < n"
  shows "window_ok (window_of x (bindr (plus_days now k) (\<lambda>d. day_window d n)))"
proof (rule window_ok_of)
  fix s e assume "bindr (plus_days now k) (\<lambda>d. day_window d n) = Inr (s, e)"
  then obtain d where "plus_days now k = Inr d" "day_window d n = Inr (s, e)" by auto
  then show "valid_datetime s \<and> valid_datetime e \<and> instant_of s < instant_of e"
    using day_window_ok[OF plus_days_spec(1)[OF assms(1)] assms(2)] by blast
qed

lemma fuzzy_window_ok:
  "valid_datetime now \<Longrightarrow> \<forall>(r, a, b) \<in> set ws. b < a \<Longrightarrow> window_ok (fuzzy_window ws text now)"
proof (induction ws "text" now rule: fuzzy_window.induct)
  case (2 p a b rest tx now)
  have "window_ok (window_of x (bindr (plus_days now (- a)) (\<lambda>d. day_window d (a - b))))" for x
    by (rule shifted_window_ok[OF 2(2)]) (use 2(3) in simp)
  moreover have "window_ok (fuzzy_window rest tx now)" if "re_search p tx = None"
    using 2(1)[OF that 2(2)] 2(3) by simp
  ultimately show ?case by (auto split: option.splits)
qed simp

lemma simple_window_ok: "valid_datetime now \<Longrightarrow> window_ok (simple_window ws text now)"
  by (induction ws "text" now rule: simple_window.induct) (auto intro: shifted_window_ok)

lemma month_window_ok:
  "valid_datetime now \<Longrightarrow> window_ok (month_window ms now)"
proof (induction ms now rule: month_window.induct)
  case (2 found g rest now)
  have m: "window_ok (window_of found (bindr (month_add start 1) (\<lambda>end. Inr (start, end))))"
    if "mk_datetime y month 1 (dt_off now) = Inr start" for y month start
  proof (rule window_ok_of)
    fix s e assume a: "bindr (month_add start 1) (\<lambda>end. Inr (start, end)) = Inr (s, e)"
    have "valid_datetime start"
      using mk_datetime_spec[OF that] 2(4) by (simp add: valid_datetime_def day_us_def)
    then show "valid_datetime s \<and> valid_datetime e \<and> instant_of s < instant_of e"
      using a month_add_later by auto
  qed
  show ?case using 2 m by (auto simp: Let_def split: option.splits sum.splits)
qed simp

lemma last_period_window_ok:
  assumes "valid_datetime now"
  shows "window_ok (last_period_window found now)"
proof -
  let ?a = "at_midnight now"
  have v: "valid_datetime ?a" by (rule at_midnight_valid[OF assms])
  obtain y m n where d: "dt_date ?a = (y, m, n)" by (cases "dt_date ?a")
  have vd: "1 \<le> y" "y \<le> 9999" "1 \<le> m" "m \<le> 12"
    using valid_datetime_date[OF v] d by (auto simp: valid_date_def)
  have first: "valid_date (k, j, 1)" if "1 \<le> k" "k \<le> 9999" "1 \<le> j" "j \<le> 12" for k j
    using that by (auto simp: valid_date_def days_in_month_def)
  have vf: "valid_datetime (?a\<lparr>dt_date := (k, j, 1)\<rparr>)" if "1 \<le> k" "k \<le> 9999" "1 \<le> j" "j \<le> 12" for k j
    using v first[OF that] by (simp add: valid_datetime_def)
  have week: "window_ok (window_of found (bindr (plus_days ?a k) (\<lambda>this_monday.
      bindr (plus_days this_monday (-7)) (\<lambda>start. Inr (start, this_monday)))))" for k
  proof (rule window_ok_of)
    fix s e assume "bindr (plus_days ?a k) (\<lambda>this_monday. bindr (plus_days this_monday (-7)) (\<lambda>start. Inr (start, this_monday))) = Inr (s, e)"
    then have r: "plus_days ?a k = Inr e" "plus_days e (-7) = Inr s" by auto
    have e: "valid_datetime e" using plus_days_spec(1)[OF v r(1)] .
    show "valid_datetime s \<and> valid_datetime e \<and> instant_of s < instant_of e"
      using plus_days_spec[OF e r(2)] e by (simp add: day_us_def)
  qed
  have month: "window_ok (window_of found (bindr (month_add (?a\<lparr>dt_date := (y, m, 1)\<rparr>) (-1))
      (\<lambda>start. Inr (start, ?a\<lparr>dt_date := (y, m, 1)\<rparr>))))"
    by (rule window_ok_of) (use vf[of y m] vd month_add_earlier in force)
  have less: "instant_of (?a\<lparr>dt_date := (y - 1, 1, 1)\<rparr>) < instant_of (?a\<lparr>dt_date := (y, 1, 1)\<rparr>)" if "1 \<le> y - 1"
    using ordinal_less_month[of "y - 1" 1 1 y 1 1] first[of y 1] first[of "y - 1" 1] vd that
    by (simp add: instant_of_def day_us_def)
  have year: "window_ok (window_of found (if y - 1 < 1 then Inl x
      else Inr (?a\<lparr>dt_date := (y, 1, 1), dt_date := (y - 1, 1, 1)\<rparr>, ?a\<lparr>dt_date := (y, 1, 1)\<rparr>)))" for x
    by (rule window_ok_of) (use less vf[of y 1] vf[of "y - 1" 1] vd in \<open>auto split: if_splits\<close>)
  show ?thesis using week month year d by (auto simp: last_period_window_def Let_def split: prod.splits)
qed

lemma or_else_ok: "window_ok a \<Longrightarrow> window_ok b \<Longrightarrow> window_ok (or_else a b)"
  by (auto simp: window_ok_def or_else_def split: option.splits)

lemma explicit_window_ok: "valid_datetime now \<Longrightarrow> window_ok (explicit_window text now)"
proof -
  assume v: "valid_datetime now"
  have "window_ok (window_of x (day_window d 1))" if "mk_datetime y m n (dt_off now) = Inr d" for x y m n d
  proof (rule window_ok_of)
    fix s e assume w: "day_window d 1 = Inr (s, e)"
    have "valid_datetime d"
      using mk_datetime_spec[OF that] v by (simp add: valid_datetime_def day_us_def)
    then show "valid_datetime s \<and> valid_datetime e \<and> instant_of s < instant_of e"
      by (rule day_window_ok[OF _ _ w]) simp
  qed
  then show ?thesis unfolding explicit_window_def by (simp split: option.split sum.split prod.split)
qed

text \<open>
  The window of a query is a proper half-open interval.  Whatever temporal cue the text
  has, the window the retrieval arm receives starts strictly before it ends.
\<close>

theorem query_window_proper:
  assumes "valid_datetime now" and "parse_query_window text now = Inr (Some q)"
  shows "instant_of (qw_start q) < instant_of (qw_end q)
    \<and> contains3 (qw_interval q) (point (instant_of (qw_start q))) = TruthTRUE
    \<and> contains3 (qw_interval q) (point (instant_of (qw_end q))) = TruthFALSE"
proof -
  have fz: "\<forall>(r, a, b) \<in> set FUZZY_WINDOWS. b < a" by (simp add: FUZZY_WINDOWS_def)
  have "window_ok (parse_query_window text now)"
    unfolding parse_query_window_def require_aware_def
    using or_else_ok[OF explicit_window_ok[OF assms(1)] or_else_ok[OF fuzzy_window_ok[OF assms(1) fz]
        or_else_ok[OF simple_window_ok[OF assms(1)]]]] last_period_window_ok[OF assms(1)] month_window_ok[OF assms(1)]
    by (auto simp: window_ok_def[of "Inl _"] split: option.splits)
  then have "instant_of (qw_start q) < instant_of (qw_end q)"
    using assms(2) by (simp add: window_ok_def)
  then show ?thesis
    by (simp add: contains3_def qw_interval_def le3_def lt3_def lt3_definite_def lt3_possible_def point_def and3_def)
qed

end
