(* ===== verification/Views.thy ===== *)
theory Views
  imports LogFacts
begin

text \<open>
  What a branch sees of a table of derived rows.  A row carries the branch it was written
  on and a cursor, the number of the log entry that admitted it; a branch sees it through
  its lineage, as it sees an event.  The interface \<open>branch_rows\<close> is shared by the active
  blocks and the memory records: a property of every view, at every point of the log,
  survives the calls that leave the table alone, the forks, and the insertion of a row
  whose cursor is the newest event.
\<close>

definition reaches :: "(string \<times> int option) list \<Rightarrow> string \<Rightarrow> int \<Rightarrow> bool" where
  "reaches lin b n \<longleftrightarrow> (\<exists>(x, k) \<in> set lin. x = b \<and> below k n)"

lemma sees_reaches: "sees lin e \<longleftrightarrow> reaches lin (ev_branch e) (ev_seq e)"
  by (auto simp: sees_def reaches_def)

lemma reaches_append [simp]: "reaches (L @ M) b n \<longleftrightarrow> reaches L b n \<or> reaches M b n"
  unfolding reaches_def set_append by blast

lemma reaches_cut [simp]: "reaches (cut k L) b n \<longleftrightarrow> reaches L b n \<and> below k n"
  unfolding reaches_def cut_def set_map bex_simps(7) by (auto simp: case_prod_beta)

lemma reaches_own [simp]: "reaches [(b, None)] c n \<longleftrightarrow> b = c"
  by (auto simp: reaches_def)

lemma reaches_new:
  assumes "lineage_of bs b L" "forks_below bs n" "m > n"
  shows "reaches L c m \<longleftrightarrow> c = b"
  using sees_new[of bs b L n "undefined\<lparr>ev_branch := c, ev_seq := m\<rparr>"] assms by (simp add: sees_reaches)

text \<open>The lineage of the branch that a fork creates.\<close>

lemma create_branch_lineage:
  assumes ok: "log_ok w s" and run: "create_branch w b p fork s = Inr (r, s')"
  obtains f L where "lineage s p = Inr L" "lineage s' b = Inr (cut (Some f) L @ [(b, None)])"
    "branch_ids s' = insert b (branch_ids s)" "b \<notin> branch_ids s" "p \<in> branch_ids s"
    "\<forall>c \<in> branch_ids s. lineage s' c = lineage s c"
proof (rule create_branch_cases[OF run], goal_cases)
  case (1 es f now)
  let ?b = "\<lparr>br_id = b, br_parent = Some p, br_fork = Some f, br_created = now\<rparr>"
  have st: "st_branches s' = st_branches s @ [?b]" using 1 by simp
  have ok': "log_ok w s'" using create_branch_log_ok[OF ok run] by simp
  obtain L where L: "lineage s p = Inr L" "lineage_of (st_branches s) p L" "lineage_answers (st_branches s) p L"
    using lineage_total[OF log_okD(1)[OF ok] 1(3)] by blast
  have p: "p \<in> br_id ` set (st_branches s)" and new: "br_id ?b \<notin> br_id ` set (st_branches s)"
    using 1 by (auto simp: branch_ids_def)
  have "lineage_answers (st_branches s @ [?b]) (br_id ?b) (cut (Some f) L @ [(br_id ?b, None)])"
    by (rule lineage_fork(2)[OF L(2,3) p new]) simp_all
  then have "lineage s' b = Inr (cut (Some f) L @ [(b, None)])"
    using lineage_answer[of s' b _ s' "[]"] branches_ok_distinct[OF log_okD(1)[OF ok']] st by simp
  moreover have "lineage s' c = lineage s c" if "c \<in> branch_ids s" for c
    by (rule lineage_stable[OF log_okD(1)[OF ok] that st branches_ok_distinct[OF log_okD(1)[OF ok']]])
  moreover have "branch_ids s' = insert b (branch_ids s)" using st by (simp add: branch_ids_def)
  ultimately show thesis using that L(1) 1(3,4) by blast
qed

definition view :: "('r \<Rightarrow> string) \<Rightarrow> ('r \<Rightarrow> int) \<Rightarrow> 'r list \<Rightarrow> (string \<times> int option) list \<Rightarrow> int \<Rightarrow> 'r list" where
  "view branch cursor rows lin n = filter (\<lambda>r. reaches lin (branch r) (cursor r) \<and> cursor r \<le> n) rows"

definition cursors_ok :: "('r \<Rightarrow> string) \<Rightarrow> ('r \<Rightarrow> int) \<Rightarrow> 'r list \<Rightarrow> store \<Rightarrow> bool" where
  "cursors_ok branch cursor rows s \<longleftrightarrow>
     sorted (map cursor rows) \<and> distinct (map cursor rows)
     \<and> (\<forall>r \<in> set rows. cursor r \<le> int (length (st_events s)) \<and> branch r \<in> branch_ids s)"

definition views_ok ::
  "('r list \<Rightarrow> bool) \<Rightarrow> ('r \<Rightarrow> string) \<Rightarrow> ('r \<Rightarrow> int) \<Rightarrow> 'r list \<Rightarrow> store \<Rightarrow> bool" where
  "views_ok V branch cursor rows s \<longleftrightarrow> cursors_ok branch cursor rows s
     \<and> (\<forall>b \<in> branch_ids s. \<forall>lin n. lineage s b = Inr lin \<longrightarrow> V (view branch cursor rows lin n))"

lemma views_okD:
  "views_ok V branch cursor rows s \<Longrightarrow> b \<in> branch_ids s \<Longrightarrow> lineage s b = Inr lin \<Longrightarrow>
     V (view branch cursor rows lin n)"
  by (simp add: views_ok_def)

lemma lineage_cong: "st_branches s' = st_branches s \<Longrightarrow> lineage s' b = lineage s b"
  by (simp add: lineage_def)

lemma branch_ids_cong: "st_branches s' = st_branches s \<Longrightarrow> branch_ids s' = branch_ids s"
  by (simp add: branch_ids_def)

lemma views_ok_cong:
  "st_branches s' = st_branches s \<Longrightarrow> st_events s' = st_events s \<Longrightarrow>
     views_ok V branch cursor rows s' = views_ok V branch cursor rows s"
  by (simp add: views_ok_def cursors_ok_def lineage_def branch_ids_def)

text \<open>The event that a call has just appended carries the number of the log's length.\<close>

lemma appended_seq:
  assumes "log_ok w s'" "appends [e] s s'"
  shows "ev_seq e = int (length (st_events s'))" "length (st_events s') = Suc (length (st_events s))"
  using log_seq_nth[OF assms(1), of "length (st_events s)"] appends_fields(1)[OF assms(2)] by simp_all

locale branch_rows =
  fixes branch :: "'r \<Rightarrow> string" and cursor :: "'r \<Rightarrow> int" and V :: "'r list \<Rightarrow> bool"
  assumes empty_view: "V []"
begin

abbreviation ok :: "'r list \<Rightarrow> store \<Rightarrow> bool" where
  "ok \<equiv> views_ok V branch cursor"

lemma empty_table: "ok [] s"
  by (simp add: views_ok_def cursors_ok_def view_def empty_view)

text \<open>A call that only appends events changes no view.\<close>

lemma events_appended:
  assumes "ok rows s" "st_branches s' = st_branches s" "st_events s' = st_events s @ es"
  shows "ok rows s'"
proof -
  have "cursors_ok branch cursor rows s'"
    using assms by (auto simp: views_ok_def cursors_ok_def branch_ids_cong[OF assms(2)])
  then show ?thesis
    using assms(1) by (simp add: views_ok_def lineage_cong[OF assms(2)] branch_ids_cong[OF assms(2)])
qed

text \<open>A fork sees a prefix of what its parent sees, and nothing of its own yet.\<close>

lemma branch_forked:
  assumes ok: "ok rows s" and log: "log_ok w s" and run: "create_branch w b p fork s = Inr (r, s')"
  shows "ok rows s'"
proof -
  have ev: "st_events s' = st_events s"
    by (rule create_branch_cases[OF run]) simp
  obtain L f where L: "lineage s p = Inr L" "lineage s' b = Inr (cut (Some f) L @ [(b, None)])"
    "branch_ids s' = insert b (branch_ids s)" "b \<notin> branch_ids s" "p \<in> branch_ids s"
    "\<forall>c \<in> branch_ids s. lineage s' c = lineage s c"
    using create_branch_lineage[OF log run] by metis
  have fork_view: "view branch cursor rows (cut (Some f) L @ [(b, None)]) n = view branch cursor rows L (min n f)" for n
  proof -
    have "branch r \<noteq> b" if "r \<in> set rows" for r
      using ok L(4) that unfolding views_ok_def cursors_ok_def by blast
    then show ?thesis unfolding view_def by (intro filter_cong) auto
  qed
  have "V (view branch cursor rows lin n)" if "c \<in> branch_ids s'" "lineage s' c = Inr lin" for c lin n
  proof (cases "c = b")
    case True
    then show ?thesis using that L(2) fork_view views_okD[OF ok L(5) L(1)] by simp
  next
    case False
    then have "c \<in> branch_ids s" using that L(3) by simp
    then show ?thesis using that L(6) views_okD[OF ok] by simp
  qed
  then show ?thesis using ok L(3) ev by (auto simp: views_ok_def cursors_ok_def)
qed

text \<open>A row admitted by the newest event joins the views of its own branch, at their end.\<close>

lemma row_added:
  assumes ok: "ok rows s" and log: "log_ok w s"
    and b: "branch r \<in> branch_ids s" "lineage s (branch r) = Inr L"
    and new: "cursor r = int (length (st_events s))" "\<And>x. x \<in> set rows \<Longrightarrow> cursor x < cursor r"
    and above: "forks_below (st_branches s) (cursor r - 1)"
    and V: "V (view branch cursor rows L (cursor r) @ [r])"
  shows "ok (rows @ [r]) s"
proof -
  have "V (view branch cursor (rows @ [r]) lin n)" if c: "c \<in> branch_ids s" "lineage s c = Inr lin" for c lin n
  proof -
    obtain L' where L': "lineage s c = Inr L'" "lineage_of (st_branches s) c L'"
      using lineage_total[OF log_okD(1)[OF log] c(1)] by blast
    have reach: "reaches lin (branch r) (cursor r) \<longleftrightarrow> branch r = c"
      using reaches_new[OF L'(2) above] L' c(2) by simp
    show ?thesis
    proof (cases "branch r = c \<and> cursor r \<le> n")
      case True
      have "view branch cursor rows lin n = view branch cursor rows L (cursor r)"
        unfolding view_def by (rule filter_cong) (use True b c new(2) in force)+
      then show ?thesis using V True reach by (simp add: view_def)
    next
      case False
      then show ?thesis using reach views_okD[OF ok c] by (auto simp: view_def)
    qed
  qed
  moreover have "cursors_ok branch cursor (rows @ [r]) s"
    using ok new b(1) by (fastforce simp: views_ok_def cursors_ok_def sorted_append)
  ultimately show ?thesis by (simp add: views_ok_def)
qed

end

end
