(* ===== verification/Blocks.thy ===== *)
theory Blocks
  imports Views "HOL-Library.Multiset"
begin

text \<open>
  Records derived from the log and read through a branch: the check of their provenance
  (\<open>_assert_source_events\<close>), the protected active blocks (\<open>get_active_blocks\<close>,
  \<open>set_active_block\<close>) and the visibility test of one event (\<open>_event_visible_locked\<close>).
\<close>

section \<open>Provenance\<close>

text \<open>\<open>dict(self._lineage_locked(branch_id))\<close>: a later pair would win.\<close>

definition limits :: "(string \<times> int option) list \<Rightarrow> string \<Rightarrow> int option option" where
  "limits lin b = map_of (rev lin) b"

definition inside :: "(string \<times> int option) list \<Rightarrow> string \<Rightarrow> int \<Rightarrow> bool" where
  "inside lin b n = (case limits lin b of None \<Rightarrow> False | Some cutoff \<Rightarrow> below cutoff n)"

definition assert_source_events :: "store \<Rightarrow> string list \<Rightarrow> string \<Rightarrow> unit result" where
  "assert_source_events s source_event_ids branch_id =
     (let unique = uniq source_event_ids;
          rows = filter (\<lambda>e. ev_id e \<in> set unique) (st_events s)
      in if unique = [] then Inl (ValueError ''derived records require at least one source event'')
         else if length rows \<noteq> length unique
         then Inl (ValueError ''one or more provenance event IDs do not exist'')
         else bindr (lineage s branch_id) (\<lambda>lin.
           if \<exists>e \<in> set rows. \<not> inside lin (ev_branch e) (ev_seq e)
           then Inl (ValueError ''provenance event IDs are outside the target branch lineage'')
           else Inr ()))"

definition event_visible :: "store \<Rightarrow> event \<Rightarrow> string \<Rightarrow> bool result" where
  "event_visible s e branch_id =
     bindr (lineage s branch_id) (\<lambda>lin.
       Inr (\<exists>(visible_branch, cutoff) \<in> set lin.
              visible_branch = ev_branch e \<and> below cutoff (ev_seq e)))"

section \<open>Active blocks\<close>

definition MAX_ACTIVE_BYTES :: nat where
  "MAX_ACTIVE_BYTES = 3000"

text \<open>The rows that a branch sees, branch by branch.\<close>

definition visible_blocks :: "store \<Rightarrow> (string \<times> int option) list \<Rightarrow> active_block list" where
  "visible_blocks s lin =
     concat (map (\<lambda>(b, cutoff).
       sort_key bl_cursor (filter (\<lambda>r. bl_branch r = b \<and> below cutoff (bl_cursor r)) (st_blocks s))) lin)"

definition superseded_ids :: "string option list \<Rightarrow> string list" where
  "superseded_ids xs = filter (\<lambda>i. i \<noteq> []) (List.map_filter id xs)"

definition keep_latest :: "active_block \<Rightarrow> (string, active_block) dict \<Rightarrow> (string, active_block) dict" where
  "keep_latest b latest =
     (case dget latest (bl_name b) of
        None \<Rightarrow> dset (bl_name b) b latest
      | Some current \<Rightarrow>
          if bl_created b > bl_created current then dset (bl_name b) b latest else latest)"

definition latest_blocks :: "active_block list \<Rightarrow> (string, active_block) dict" where
  "latest_blocks rows =
     (let superseded = superseded_ids (map bl_supersedes rows)
      in fold keep_latest (filter (\<lambda>r. bl_id r \<notin> set superseded) rows) [])"

definition get_active_blocks :: "store \<Rightarrow> string \<Rightarrow> (string, active_block) dict result" where
  "get_active_blocks s branch_id =
     bindr (lineage s branch_id) (\<lambda>lin. Inr (latest_blocks (visible_blocks s lin)))"

definition insert_block :: "active_block \<Rightarrow> store \<Rightarrow> store result" where
  "insert_block b s =
     bindr (insert_keyed bl_id ''block_versions.id'' b (st_blocks s)) (\<lambda>_.
     bindr (insert_keyed (\<lambda>b. (bl_branch b, bl_name b, bl_version b))
              ''block_versions.branch_id, block_versions.name, block_versions.version'' b (st_blocks s)) (\<lambda>rows.
     bindr (foreign_key (bl_branch b \<in> br_id ` set (st_branches s))) (\<lambda>_.
     bindr (foreign_key (case bl_supersedes b of None \<Rightarrow> True | Some i \<Rightarrow> i \<in> bl_id ` set rows)) (\<lambda>_.
       Inr (s\<lparr>st_blocks := rows\<rparr>)))))"

definition active_bytes :: "string \<Rightarrow> string \<Rightarrow> (string, active_block) dict \<Rightarrow> nat" where
  "active_bytes name safe_candidate current_blocks =
     sum_list (map (\<lambda>(block_name, block).
        utf8_len (if block_name = name then safe_candidate else bl_content block)) current_blocks)
     + (if name \<in> set (dkeys current_blocks) then 0 else utf8_len safe_candidate)"

definition block_event :: "string \<Rightarrow> string \<Rightarrow> string \<Rightarrow> string option \<Rightarrow> active_block option \<Rightarrow> event_draft" where
  "block_event name content branch_id session_id previous =
     \<lparr>dr_branch = branch_id, dr_session = session_id, dr_kind = ''memory_block'', dr_role = Some ''system'',
      dr_content = content, dr_channel = INTERNAL, dr_adapter = None,
      dr_payload = [(''block'', JStr name), (''supersedes'', opt_str (map_option bl_id previous))],
      dr_files = []\<rparr>"

definition set_active_block ::
  "world \<Rightarrow> string \<Rightarrow> string \<Rightarrow> string \<Rightarrow> string option \<Rightarrow> string list \<Rightarrow> store
    \<Rightarrow> (active_block \<times> store) result" where
  "set_active_block w name content branch_id session_id source_event_ids s =
     bindr (get_active_blocks s branch_id) (\<lambda>current_blocks.
       let safe_candidate = fst (redact_text (w_rules w) True content)
       in if active_bytes name safe_candidate current_blocks > MAX_ACTIVE_BYTES
          then Inl (ValueError ''protected active memory exceeds 3000 UTF-8 bytes'')
          else (let previous = dget current_blocks name in
            bindr (append_event_in_tx w (block_event name content branch_id session_id previous) s)
              (\<lambda>(update_event, s1).
                let provenance = uniq (source_event_ids @ [ev_id update_event]) in
                bindr (assert_source_events s1 provenance branch_id) (\<lambda>_.
                  let (hex, s2) = fresh_uuid w s1;
                      (now, s3) = read_clock w s2;
                      block = \<lparr>bl_id = ''blk_'' @ hex, bl_branch = branch_id, bl_name = name,
                        bl_content = ev_content update_event,
                        bl_version = (case previous of None \<Rightarrow> 1 | Some p \<Rightarrow> bl_version p + 1),
                        bl_sources = provenance, bl_supersedes = map_option bl_id previous,
                        bl_cursor = ev_seq update_event, bl_created = now\<rparr>
                  in bindr (insert_block block s3) (\<lambda>s4. Inr (block, s4))))))"

section \<open>The rows nothing supersedes\<close>

definition heads :: "active_block list \<Rightarrow> active_block list" where
  "heads rows = filter (\<lambda>r. bl_id r \<notin> set (superseded_ids (map bl_supersedes rows))) rows"

definition block_bytes :: "active_block list \<Rightarrow> nat" where
  "block_bytes rows = sum_list (map (\<lambda>b. utf8_len (bl_content b)) rows)"

definition block_view_ok :: "active_block list \<Rightarrow> bool" where
  "block_view_ok rows \<longleftrightarrow> distinct (map bl_name (heads rows)) \<and> block_bytes (heads rows) \<le> MAX_ACTIVE_BYTES"

lemma block_view_empty: "block_view_ok []"
  by (simp add: block_view_ok_def heads_def block_bytes_def)

interpretation blk: branch_rows bl_branch bl_cursor block_view_ok
  by unfold_locales (rule block_view_empty)

definition blocks_ok :: "store \<Rightarrow> bool" where
  "blocks_ok s \<longleftrightarrow> blk.ok (st_blocks s) s
     \<and> distinct (map bl_id (st_blocks s)) \<and> [] \<notin> bl_id ` set (st_blocks s)
     \<and> set (superseded_ids (map bl_supersedes (st_blocks s))) \<subseteq> bl_id ` set (st_blocks s)"

lemma in_superseded: "i \<in> set (superseded_ids xs) \<longleftrightarrow> Some i \<in> set xs \<and> i \<noteq> []"
  by (induction xs) (auto simp: superseded_ids_def map_filter_def)

lemma heads_mset:
  assumes "mset xs = mset ys"
  shows "mset (heads xs) = mset (heads ys)"
proof -
  have "set xs = set ys" using assms by (rule mset_eq_setD)
  then have "set (superseded_ids (map bl_supersedes xs)) = set (superseded_ids (map bl_supersedes ys))"
    by (auto simp: in_superseded)
  then show ?thesis using assms by (simp add: heads_def mset_filter)
qed

lemma dset_fresh: "k \<notin> set (dkeys d) \<Longrightarrow> dset k v d = d @ [(k, v)]"
  by (induction d) auto

lemma keep_latest_distinct:
  "distinct (map bl_name hs) \<Longrightarrow> fold keep_latest hs [] = map (\<lambda>b. (bl_name b, b)) hs"
proof (induction hs rule: rev_induct)
  case Nil
  then show ?case by simp
next
  case (snoc h hs)
  have "dget (map (\<lambda>b. (bl_name b, b)) hs) (bl_name h) = None"
    using snoc.prems by (auto simp: map_of_eq_None_iff image_image)
  then show ?case
    using snoc dset_fresh[of "bl_name h" "map (\<lambda>b. (bl_name b, b)) hs" h]
    by (simp add: keep_latest_def comp_def)
qed

text \<open>Reading branch by branch collects the rows of the view.\<close>

lemma visible_blocks_mset:
  assumes d: "distinct (map fst lin)" and rows: "distinct (st_blocks s)"
    and n: "\<And>r. r \<in> set (st_blocks s) \<Longrightarrow> bl_cursor r \<le> n"
  shows "mset (visible_blocks s lin) = mset (view bl_branch bl_cursor (st_blocks s) lin n)"
proof -
  let ?P = "\<lambda>b k r. bl_branch r = b \<and> below k (bl_cursor r)"
  let ?c = "concat (map (\<lambda>(b, k). filter (?P b k) (st_blocks s)) lin)"
  have "mset (visible_blocks s lin) = mset ?c"
    unfolding visible_blocks_def by (induction lin) (auto simp: mset_filter)
  moreover have "distinct ?c"
    by (rule distinct_lineage_rows[where g = bl_branch]) (use d rows in auto)
  moreover have "set ?c = {r \<in> set (st_blocks s). reaches lin (bl_branch r) (bl_cursor r)}"
    unfolding reaches_def by fastforce
  moreover have "set (view bl_branch bl_cursor (st_blocks s) lin n)
      = {r \<in> set (st_blocks s). reaches lin (bl_branch r) (bl_cursor r)}"
    unfolding view_def using n by auto
  moreover have "distinct (view bl_branch bl_cursor (st_blocks s) lin n)"
    using rows by (simp add: view_def)
  ultimately have "mset ?c = mset (view bl_branch bl_cursor (st_blocks s) lin n)"
    by (simp add: set_eq_iff_mset_eq_distinct [symmetric])
  then show ?thesis using \<open>mset (visible_blocks s lin) = mset ?c\<close> by simp
qed

lemma block_bytes_mset: "mset xs = mset ys \<Longrightarrow> block_bytes xs = block_bytes ys"
  unfolding block_bytes_def by (metis mset_map sum_mset_sum_list)

lemma block_view_ok_mset:
  assumes "mset xs = mset ys" "block_view_ok xs"
  shows "block_view_ok ys"
proof -
  have m: "mset (heads xs) = mset (heads ys)" by (rule heads_mset[OF assms(1)])
  have "mset (map f (heads xs)) = mset (map f (heads ys))" for f :: "active_block \<Rightarrow> 'b" using m by simp
  then show ?thesis
    using assms(2) mset_eq_imp_distinct_iff sum_mset_sum_list
    unfolding block_view_ok_def block_bytes_def by metis
qed

lemma active_blocks_spec:
  assumes ok: "blocks_ok s" and log: "log_ok w s" and b: "b \<in> branch_ids s"
  obtains lin where "lineage s b = Inr lin"
    "get_active_blocks s b = Inr (map (\<lambda>b. (bl_name b, b)) (heads (visible_blocks s lin)))"
    "mset (visible_blocks s lin) = mset (view bl_branch bl_cursor (st_blocks s) lin (int (length (st_events s))))"
    "block_view_ok (visible_blocks s lin)"
proof -
  let ?n = "int (length (st_events s))"
  obtain lin where lin: "lineage s b = Inr lin" "lineage_of (st_branches s) b lin"
    using lineage_total[OF log_okD(1)[OF log] b] by blast
  have m: "mset (visible_blocks s lin) = mset (view bl_branch bl_cursor (st_blocks s) lin ?n)"
    by (rule visible_blocks_mset[OF lineage_of_distinct[OF lin(2)]])
      (use ok in \<open>auto simp: blocks_ok_def views_ok_def cursors_ok_def distinct_map\<close>)
  have "block_view_ok (view bl_branch bl_cursor (st_blocks s) lin ?n)"
    by (rule views_okD[OF _ b lin(1)]) (use ok in \<open>simp add: blocks_ok_def\<close>)
  then have v: "block_view_ok (visible_blocks s lin)"
    by (rule block_view_ok_mset[OF m[symmetric]])
  have "get_active_blocks s b = Inr (map (\<lambda>b. (bl_name b, b)) (heads (visible_blocks s lin)))"
    using lin(1) keep_latest_distinct v
    by (simp add: get_active_blocks_def latest_blocks_def block_view_ok_def heads_def Let_def)
  then show thesis using that lin(1) m v by blast
qed

section \<open>Writing a block\<close>

lemma sum_replace:
  "distinct (map nm hs) \<Longrightarrow> k \<in> nm ` set hs \<Longrightarrow>
     sum_list (map (\<lambda>b. if nm b = k then c else g b) hs) = sum_list (map g (filter (\<lambda>b. nm b \<noteq> k) hs)) + (c::nat)"
proof (induction hs)
  case Nil
  then show ?case by simp
next
  case (Cons h hs)
  show ?case
  proof (cases "nm h = k")
    case True
    then have "k \<notin> nm ` set hs" using Cons.prems by simp
    then have "\<forall>x \<in> set hs. nm x \<noteq> k" by blast
    then have "filter (\<lambda>b. nm b \<noteq> k) hs = hs"
      and "(\<Sum>b\<leftarrow>hs. if nm b = k then c else g b) = sum_list (map g hs)"
      by (simp_all add: filter_id_conv cong: map_cong)
    then show ?thesis using True by simp
  next
    case False
    then show ?thesis using Cons by simp
  qed
qed

lemma active_bytes_heads:
  assumes "distinct (map bl_name hs)"
  shows "active_bytes nm cand (map (\<lambda>b. (bl_name b, b)) hs)
       = block_bytes (filter (\<lambda>b. bl_name b \<noteq> nm) hs) + utf8_len cand"
proof (cases "nm \<in> bl_name ` set hs")
  case True
  then show ?thesis
    using sum_replace[OF assms True, of "utf8_len cand" "\<lambda>b. utf8_len (bl_content b)"]
    by (simp add: active_bytes_def block_bytes_def comp_def image_image if_distrib)
next
  case False
  then have "filter (\<lambda>b. bl_name b \<noteq> nm) hs = hs" by (auto simp: filter_id_conv)
  moreover have "(\<Sum>b\<leftarrow>hs. utf8_len (if bl_name b = nm then cand else bl_content b)) = (\<Sum>b\<leftarrow>hs. utf8_len (bl_content b))"
    by (rule arg_cong[where f = sum_list]) (use False in auto)
  ultimately show ?thesis using False
    by (simp add: active_bytes_def block_bytes_def comp_def image_image)
qed

lemma heads_snoc:
  assumes ids: "distinct (map bl_id rows)" "[] \<notin> bl_id ` set rows" and new: "bl_id b \<notin> bl_id ` set rows"
    and sup: "bl_id b \<notin> set (superseded_ids (map bl_supersedes rows))"
    and prev: "\<And>i. bl_supersedes b = Some i \<longleftrightarrow> (\<exists>p \<in> set (heads rows). bl_name p = bl_name b \<and> i = bl_id p)"
  shows "heads (rows @ [b]) = filter (\<lambda>r. bl_name r \<noteq> bl_name b) (heads rows) @ [b]"
proof -
  let ?S = "set (superseded_ids (map bl_supersedes rows))"
  have heads_rows: "set (heads rows) \<subseteq> set rows" by (auto simp: heads_def)
  have "(\<exists>p \<in> set (heads rows). bl_name p = bl_name b \<and> i = bl_id p) \<Longrightarrow> i \<noteq> []" for i
    using ids(2) heads_rows by force
  then have S': "i \<in> set (superseded_ids (map bl_supersedes (rows @ [b]))) \<longleftrightarrow>
      i \<in> ?S \<or> (\<exists>p \<in> set (heads rows). bl_name p = bl_name b \<and> i = bl_id p)" for i
    using prev[of i] by (auto simp: in_superseded)
  have b_in: "bl_id b \<notin> set (superseded_ids (map bl_supersedes (rows @ [b])))"
    unfolding S' using sup new heads_rows by fastforce
  have "bl_id r \<notin> set (superseded_ids (map bl_supersedes (rows @ [b]))) \<longleftrightarrow>
      bl_id r \<notin> ?S \<and> bl_name r \<noteq> bl_name b" if r: "r \<in> set rows" for r
  proof -
    have "p = r" if "p \<in> set (heads rows)" "bl_id r = bl_id p" for p
      using that r heads_rows ids(1) by (metis distinct_map inj_onD subsetD)
    moreover have "r \<in> set (heads rows)" if "bl_id r \<notin> ?S" using that r by (simp add: heads_def)
    ultimately show ?thesis unfolding S' by blast
  qed
  then have "filter (\<lambda>r. bl_id r \<notin> set (superseded_ids (map bl_supersedes (rows @ [b])))) rows
      = filter (\<lambda>r. bl_id r \<notin> ?S \<and> bl_name r \<noteq> bl_name b) rows"
    by (rule filter_cong[OF refl])
  then show ?thesis using b_in by (simp add: heads_def conj_commute)
qed

text \<open>What a successful write has done.\<close>

lemma set_active_block_cases:
  assumes "set_active_block w name content b ses srcs s = Inr (blk, s')"
  obtains current e s1 where
    "get_active_blocks s b = Inr current"
    "active_bytes name (fst (redact_text (w_rules w) True content)) current \<le> MAX_ACTIVE_BYTES"
    "append_event_in_tx w (block_event name content b ses (dget current name)) s = Inr (e, s1)"
    "assert_source_events s1 (srcs @ [ev_id e]) b = Inr ()"
    "blk = \<lparr>bl_id = ''blk_'' @ w_uuid w (st_uuid s1), bl_branch = b, bl_name = name, bl_content = ev_content e,
       bl_version = (case dget current name of None \<Rightarrow> 1 | Some p \<Rightarrow> bl_version p + 1),
       bl_sources = uniq (srcs @ [ev_id e]), bl_supersedes = map_option bl_id (dget current name),
       bl_cursor = ev_seq e, bl_created = w_now w (st_tick s1)\<rparr>"
    "bl_id blk \<notin> bl_id ` set (st_blocks s)"
    "s' = s1\<lparr>st_uuid := st_uuid s1 + 1, st_tick := st_tick s1 + 1, st_blocks := st_blocks s @ [blk]\<rparr>"
proof -
  obtain current where c: "get_active_blocks s b = Inr current"
      "active_bytes name (fst (redact_text (w_rules w) True content)) current \<le> MAX_ACTIVE_BYTES"
    using assms by (auto simp: set_active_block_def Let_def split: if_splits)
  obtain e s1 where e: "append_event_in_tx w (block_event name content b ses (dget current name)) s = Inr (e, s1)"
      "assert_source_events s1 (uniq (srcs @ [ev_id e])) b = Inr ()"
    using assms c by (auto simp: set_active_block_def Let_def split: if_splits)
  have "st_blocks s1 = st_blocks s"
    using append_event_in_tx_appended[OF e(1)] by (simp add: appends_fields)
  moreover have "assert_source_events s1 (srcs @ [ev_id e]) b = Inr ()"
    using e(2) by (simp add: assert_source_events_def)
  ultimately show thesis
    using that[OF c e(1)] assms c e
    by (auto simp: set_active_block_def insert_block_def fresh_uuid_def read_clock_def Let_def)
qed

lemma blocks_ok_cong:
  "st_branches s' = st_branches s \<Longrightarrow> st_events s' = st_events s \<Longrightarrow> st_blocks s' = st_blocks s \<Longrightarrow>
     blocks_ok s' = blocks_ok s"
  by (simp add: blocks_ok_def views_ok_cong[of s' s])

lemma set_active_block_step:
  assumes ok: "blocks_ok s" and log: "log_ok w s"
    and run: "set_active_block w name content b ses srcs s = Inr (blk, s')"
  shows "log_ok w s' \<and> blocks_ok s' \<and> grows s s' \<and> b \<in> branch_ids s
    \<and> (\<exists>lin. lineage s b = Inr lin
        \<and> view bl_branch bl_cursor (st_blocks s') lin (bl_cursor blk)
            = view bl_branch bl_cursor (st_blocks s) lin (int (length (st_events s))) @ [blk]
        \<and> heads (view bl_branch bl_cursor (st_blocks s') lin (bl_cursor blk)) =
            filter (\<lambda>r. bl_name r \<noteq> name)
              (heads (view bl_branch bl_cursor (st_blocks s) lin (int (length (st_events s))))) @ [blk])"
proof (rule set_active_block_cases[OF run], goal_cases)
  case (1 current e s1)
  let ?n = "int (length (st_events s))"
  note app = append_event_in_tx_appended[OF 1(3)]
  note s1 = appends_fields[OF app]
  have log1: "log_ok w s1"
    by (rule append_event_in_tx_log_ok[OF log 1(3)]) (simp add: block_event_def)
  have b: "b \<in> branch_ids s" by (rule append_event_in_tx_cases[OF 1(3)]) (simp add: block_event_def)
  obtain lin where lin: "lineage s b = Inr lin"
    "get_active_blocks s b = Inr (map (\<lambda>b. (bl_name b, b)) (heads (visible_blocks s lin)))"
    "mset (visible_blocks s lin) = mset (view bl_branch bl_cursor (st_blocks s) lin ?n)"
    "block_view_ok (visible_blocks s lin)"
    using active_blocks_spec[OF ok log b] by blast
  let ?v = "view bl_branch bl_cursor (st_blocks s) lin ?n"
  have cur: "current = map (\<lambda>b. (bl_name b, b)) (heads (visible_blocks s lin))" using lin(2) 1(1) by simp
  have hm: "mset (heads (visible_blocks s lin)) = mset (heads ?v)" by (rule heads_mset[OF lin(3)])
  have vok: "block_view_ok ?v" by (rule block_view_ok_mset[OF lin(3,4)])
  have dn: "distinct (map bl_name (heads (visible_blocks s lin)))" using lin(4) by (simp add: block_view_ok_def)
  have blkf: "bl_branch blk = b" "bl_name blk = name" "bl_content blk = fst (redact_text (w_rules w) True content)"
      "bl_cursor blk = ev_seq e" "bl_supersedes blk = map_option bl_id (dget current name)"
    using append_event_in_tx_fields(7)[OF 1(3)] unfolding 1(5) by (simp_all add: block_event_def)
  have seq: "bl_cursor blk = int (length (st_events s1))" "length (st_events s1) = Suc (length (st_events s))"
    using appended_seq[OF log1 app] blkf by simp_all
  have dg: "dget current name = Some p \<longleftrightarrow> p \<in> set (heads ?v) \<and> bl_name p = name" for p
  proof -
    have "dget current name = Some p \<longleftrightarrow> p \<in> set (heads (visible_blocks s lin)) \<and> bl_name p = name"
      unfolding cur using dn by (subst map_of_eq_Some_iff) (auto simp: comp_def)
    then show ?thesis using mset_eq_setD[OF hm] by simp
  qed
  have rows: "distinct (map bl_id (st_blocks s))" "[] \<notin> bl_id ` set (st_blocks s)"
      "set (superseded_ids (map bl_supersedes (st_blocks s))) \<subseteq> bl_id ` set (st_blocks s)"
      "blk.ok (st_blocks s) s"
    using ok by (simp_all add: blocks_ok_def)
  have sub: "set ?v \<subseteq> set (st_blocks s)" by (auto simp: view_def)
  have hv: "heads (?v @ [blk]) = filter (\<lambda>r. bl_name r \<noteq> name) (heads ?v) @ [blk]"
  proof -
    have "heads (?v @ [blk]) = filter (\<lambda>r. bl_name r \<noteq> bl_name blk) (heads ?v) @ [blk]"
    proof (rule heads_snoc)
      show "distinct (map bl_id ?v)" using rows(1) by (simp add: view_def distinct_map_filter)
      show "[] \<notin> bl_id ` set ?v" "bl_id blk \<notin> bl_id ` set ?v" using rows(2) 1(6) sub by auto
      show "bl_id blk \<notin> set (superseded_ids (map bl_supersedes ?v))"
        using rows(3) 1(6) sub by (force simp: in_superseded)
      show "bl_supersedes blk = Some i \<longleftrightarrow> (\<exists>p \<in> set (heads ?v). bl_name p = bl_name blk \<and> i = bl_id p)" for i
        using dg blkf(2,5) by auto
    qed
    then show ?thesis using blkf(2) by simp
  qed
  have V: "block_view_ok (?v @ [blk])"
  proof -
    have "active_bytes name (bl_content blk) current
        = block_bytes (filter (\<lambda>r. bl_name r \<noteq> name) (heads (visible_blocks s lin))) + utf8_len (bl_content blk)"
      unfolding cur by (rule active_bytes_heads[OF dn])
    also have "block_bytes (filter (\<lambda>r. bl_name r \<noteq> name) (heads (visible_blocks s lin)))
        = block_bytes (filter (\<lambda>r. bl_name r \<noteq> name) (heads ?v))"
      by (rule block_bytes_mset) (simp add: hm mset_filter)
    finally have "block_bytes (heads (?v @ [blk])) \<le> MAX_ACTIVE_BYTES"
      using 1(2) blkf(3) unfolding hv by (simp add: block_bytes_def)
    moreover have "distinct (map bl_name (heads (?v @ [blk])))"
      using vok blkf(2) unfolding hv by (auto simp: block_view_ok_def distinct_map_filter)
    ultimately show ?thesis by (simp add: block_view_ok_def)
  qed
  have le: "bl_cursor x \<le> ?n" if "x \<in> set (st_blocks s)" for x
    using rows(4) that by (simp add: views_ok_def cursors_ok_def)
  have v1: "view bl_branch bl_cursor (st_blocks s) lin (bl_cursor blk) = ?v"
    unfolding view_def by (rule filter_cong) (use le seq in force)+
  have ok1: "blk.ok (st_blocks s) s1" by (rule blk.events_appended[OF rows(4) s1(2,1)])
  have "blk.ok (st_blocks s @ [blk]) s1"
  proof (rule blk.row_added[OF ok1 log1])
    show "bl_branch blk \<in> branch_ids s1" "lineage s1 (bl_branch blk) = Inr lin"
      using b blkf(1) lin(1) by (simp_all add: branch_ids_cong[OF s1(2)] lineage_cong[OF s1(2)])
    show "bl_cursor blk = int (length (st_events s1))" by (rule seq(1))
    show "bl_cursor x < bl_cursor blk" if "x \<in> set (st_blocks s)" for x using le[OF that] seq by simp
    show "forks_below (st_branches s1) (bl_cursor blk - 1)" using log_okD(2)[OF log] seq s1(2) by simp
    show "block_view_ok (view bl_branch bl_cursor (st_blocks s) lin (bl_cursor blk) @ [blk])"
      using V v1 by simp
  qed
  have "reaches lin b (bl_cursor blk)"
  proof -
    obtain L where "lineage s b = Inr L" "lineage_of (st_branches s) b L"
      using lineage_total[OF log_okD(1)[OF log] b] by blast
    then show ?thesis using lin(1) by (auto simp: lineage_of_def reaches_def)
  qed
  then have "view bl_branch bl_cursor (st_blocks s @ [blk]) lin (bl_cursor blk) = ?v @ [blk]"
    using v1 blkf(1) by (simp add: view_def)
  note v2 = this and ok2 = \<open>blk.ok (st_blocks s @ [blk]) s1\<close>
  have same: "st_branches s' = st_branches s1" "st_events s' = st_events s1"
      "st_blocks s' = st_blocks s @ [blk]" "st_receipts s' = st_receipts s1"
    unfolding 1(7) by simp_all
  have log': "log_ok w s'" using log1 by (simp add: log_ok_cong[of s' s1] same)
  have grow: "grows s s'" using s1 same by (simp add: grows_def)
  have "bl_id blk \<noteq> []" by (simp add: 1(5))
  moreover have "set (superseded_ids (map bl_supersedes (st_blocks s @ [blk]))) \<subseteq> bl_id ` set (st_blocks s)"
  proof
    fix i assume "i \<in> set (superseded_ids (map bl_supersedes (st_blocks s @ [blk])))"
    then have "i \<in> set (superseded_ids (map bl_supersedes (st_blocks s))) \<or> bl_supersedes blk = Some i"
      by (auto simp: in_superseded)
    then show "i \<in> bl_id ` set (st_blocks s)"
      using rows(3) dg blkf(5) sub by (auto simp: heads_def)
  qed
  ultimately have "blocks_ok s'"
    using rows 1(6) ok2 same by (auto simp: blocks_ok_def views_ok_cong[of s' s1])
  then show ?case using log' grow b lin(1) hv v2 same(3) by simp
qed

end
