(* ===== verification/Memories.thy ===== *)
theory Memories
  imports Blocks Normalize "HOL-Library.Product_Lexorder"
begin

text \<open>
  Memory records: sourced, versioned statements derived from the log (\<open>storage.py\<close>'s
  \<open>derive_memory\<close> and the readers of \<open>memory_records\<close>), the rule that guards the authority
  of an agent's finalization (\<open>finalization_storage.py\<close>), and the trace that a derived row
  inherits from its sources (\<open>storage_support.py\<close>).  The full-text index that the code
  fills next to the table is a projection of it and is not modelled.
\<close>

section \<open>Provenance of a derived row\<close>

text \<open>\<open>common_event_trace\<close>: session and adapter, where all sources agree.\<close>

definition agreed :: "'a option list \<Rightarrow> 'a option" where
  "agreed xs = (case remdups xs of [x] \<Rightarrow> x | _ \<Rightarrow> None)"

definition common_event_trace :: "store \<Rightarrow> string list \<Rightarrow> string option \<times> string option" where
  "common_event_trace s source_event_ids =
     (if source_event_ids = [] then (None, None)
      else (let rows = filter (\<lambda>e. ev_id e \<in> set source_event_ids) (st_events s)
            in (agreed (map ev_session rows), agreed (map ev_adapter rows))))"

definition assert_agent_finalized_authority ::
  "store \<Rightarrow> (string, json) dict \<Rightarrow> string list \<Rightarrow> unit result" where
  "assert_agent_finalized_authority s metadata source_event_ids =
     (if jget metadata ''authority_level'' \<noteq> JStr ''agent_finalized'' then Inr ()
      else (case source_event_ids of
              [i] \<Rightarrow>
                (case find_event s i of
                   None \<Rightarrow> Inl (ValueError ''agent_finalized authority requires a trusted assistant Stop event'')
                 | Some e \<Rightarrow>
                     if origin_evidence_type e \<noteq> HOST_ASSISTANT_FINALIZATION
                     then Inl (ValueError ''agent_finalized authority requires a trusted assistant Stop event'')
                     else Inr ())
            | _ \<Rightarrow> Inl (ValueError ''agent_finalized memory requires one exact source event'')))"

section \<open>Valid time of a record\<close>

record temporal_fields =
  tf_from :: "string option"
  tf_to :: "string option"
  tf_from_precision :: "string option"
  tf_to_precision :: "string option"

definition fields_of :: "bound \<times> bound \<Rightarrow> temporal_fields" where
  "fields_of p =
     \<lparr>tf_from = nb_value (fst p), tf_to = nb_value (snd p),
      tf_from_precision = map_option (\<lambda>_. nb_precision (fst p)) (nb_value (fst p)),
      tf_to_precision = map_option (\<lambda>_. nb_precision (snd p)) (nb_value (snd p))\<rparr>"

text \<open>Relative expressions are read against the time of the first source event.\<close>

definition source_anchor :: "store \<Rightarrow> string list \<Rightarrow> datetime option result" where
  "source_anchor s source_event_ids =
     (case source_event_ids of
        [] \<Rightarrow> Inr None
      | i # _ \<Rightarrow>
          (case find_event s i of
             None \<Rightarrow> Inr None
           | Some e \<Rightarrow>
               (case parse_iso (ev_created e) of
                  None \<Rightarrow> Inl (ValueError ''Invalid isoformat string'')
                | Some d \<Rightarrow> Inr (Some d))))"

definition normalize_temporal_input ::
  "store \<Rightarrow> string option \<Rightarrow> string option \<Rightarrow> string list \<Rightarrow> temporal_fields result" where
  "normalize_temporal_input s valid_from valid_to source_event_ids =
     (if valid_from = None \<and> valid_to = None
      then Inr \<lparr>tf_from = None, tf_to = None, tf_from_precision = None, tf_to_precision = None\<rparr>
      else bindr (source_anchor s source_event_ids) (\<lambda>anchor.
             bindr (normalize_interval parse_iso valid_from valid_to anchor) (\<lambda>p. Inr (fields_of p))))"

section \<open>Reading\<close>

text \<open>A filter on type and time; the lineage clause is \<open>below cutoff\<close> on the row's cursor.\<close>

record memory_query =
  mq_types :: "string list"
  mq_since :: "string option"
  mq_until :: "string option"
  mq_file :: "string option"
  mq_superseded :: bool

definition all_memories :: memory_query where
  "all_memories = \<lparr>mq_types = [], mq_since = None, mq_until = None, mq_file = None, mq_superseded = True\<rparr>"

definition memory_matches :: "memory_query \<Rightarrow> string \<Rightarrow> int option \<Rightarrow> memory_record \<Rightarrow> bool" where
  "memory_matches q b cutoff r \<longleftrightarrow>
     me_branch r = b \<and> below cutoff (me_cursor r)
     \<and> (mq_types q = [] \<or> me_type r \<in> set (mq_types q))
     \<and> (\<not> given (mq_since q) \<or> the (mq_since q) \<le> me_created r)
     \<and> (\<not> given (mq_until q) \<or> me_created r \<le> the (mq_until q))"

definition list_memories :: "store \<Rightarrow> string \<Rightarrow> memory_query \<Rightarrow> memory_record list result" where
  "list_memories s branch_id q =
     bindr (lineage s branch_id) (\<lambda>lin.
       let rows = concat (map (\<lambda>(b, cutoff). filter (memory_matches q b cutoff) (st_memories s)) lin);
           superseded = superseded_ids (map me_supersedes rows);
           kept = (if mq_superseded q then rows else filter (\<lambda>r. me_id r \<notin> set superseded) rows);
           records = sort_key me_created kept
       in Inr (if given (mq_file q) then filter (\<lambda>r. the (mq_file q) \<in> set (me_files r)) records else records))"

definition get_memory :: "store \<Rightarrow> string \<Rightarrow> memory_record result" where
  "get_memory s memory_id =
     (case List.find (\<lambda>r. me_id r = memory_id) (st_memories s) of
        None \<Rightarrow> Inl (KeyError (''unknown memory: '' @ memory_id))
      | Some r \<Rightarrow> Inr r)"

text \<open>
  The last sequence number admitted at or before a time; \<open>threshold\<close> is the normalised
  text of \<open>known_at\<close>.
\<close>

definition known_at_cutoff_seq :: "store \<Rightarrow> string \<Rightarrow> string \<Rightarrow> int result" where
  "known_at_cutoff_seq s threshold branch_id =
     bindr (lineage s branch_id) (\<lambda>lin.
       Inr (fold (\<lambda>(b, cutoff) best.
              fold max (map ev_seq (filter (\<lambda>e. ev_branch e = b \<and> ev_created e \<le> threshold
                                               \<and> below cutoff (ev_seq e)) (st_events s))) best) lin 0))"

definition memories_as_of :: "store \<Rightarrow> string \<Rightarrow> int option \<Rightarrow> memory_record list result" where
  "memories_as_of s branch_id cutoff_seq =
     bindr (lineage s branch_id) (\<lambda>lin.
       Inr (sort_key (\<lambda>r. (me_cursor r, me_created r)) (concat (map (\<lambda>(b, cutoff).
              let effective = (case cutoff_seq of None \<Rightarrow> cutoff | Some k \<Rightarrow> min_cutoff cutoff (Some k))
              in filter (\<lambda>r. me_branch r = b \<and> below effective (me_cursor r)) (st_memories s)) lin))))"

definition memory_lineage_links :: "store \<Rightarrow> string \<Rightarrow> (string, string option) dict result" where
  "memory_lineage_links s branch_id =
     bindr (lineage s branch_id) (\<lambda>lin.
       Inr (fold (\<lambda>r links. dset (me_id r) (if given (me_supersedes r) then me_supersedes r else None) links)
         (concat (map (\<lambda>(b, cutoff). filter (\<lambda>r. me_branch r = b \<and> below cutoff (me_cursor r)) (st_memories s)) lin))
         []))"

text \<open>The chunks of 500 that the query is cut into do not show in the answer.\<close>

definition events_created_at :: "store \<Rightarrow> string list \<Rightarrow> (string, string) dict" where
  "events_created_at s event_ids =
     fold (\<lambda>e d. dset (ev_id e) (ev_created e) d)
       (filter (\<lambda>e. ev_id e \<in> set (filter (\<lambda>i. i \<noteq> []) (uniq event_ids))) (st_events s)) []"

definition provenance :: "store \<Rightarrow> string \<Rightarrow> event list result" where
  "provenance s memory_id =
     bindr (get_memory s memory_id) (\<lambda>record.
     bindr (mapr (get_event s) (me_sources record)) (\<lambda>events.
     bindr (lineage s (me_branch record)) (\<lambda>lin.
       if \<exists>e \<in> set events. \<not> inside lin (ev_branch e) (ev_seq e)
       then Inl (RuntimeError ''memory contains branch-invisible provenance'')
       else Inr events)))"

text \<open>SQLite's \<open>lower\<close> folds the ASCII letters only.\<close>

definition lower_ascii :: "string \<Rightarrow> string" where
  "lower_ascii s = map (\<lambda>c. if is_upper_ascii c then char_of (code c + 32) else c) s"

definition automatic_memory_eligible :: "store \<Rightarrow> string \<Rightarrow> bool result" where
  "automatic_memory_eligible s memory_id =
     bindr (get_memory s memory_id) (\<lambda>record.
       Inr (jget (me_metadata record) ''origin'' = JStr ''host_finalization''
              \<and> jget (me_metadata record) ''authority_level'' = JStr ''agent_finalized''
            \<or> me_sources record = []
            \<or> \<not> (\<exists>e \<in> set (st_events s). ev_id e \<in> set (me_sources record) \<and> ev_kind e = ''message''
                   \<and> lower_ascii (or_empty (ev_role e)) = ''assistant'')))"

section \<open>Deriving a record\<close>

record memory_draft =
  md_type :: string
  md_content :: string
  md_sources :: "string list"
  md_summary :: string
  md_files :: "string list"
  md_branch :: string
  md_risk :: pyfloat
  md_cost :: pyfloat
  md_supersedes :: "string option"
  md_metadata :: "(string, json) dict"
  md_from :: "string option"
  md_to :: "string option"
  md_expression :: "string option"

datatype memory_type = FACT | DECISION | TASK | PREFERENCE | FAILURE | LESSON | SUMMARY | INDEX

fun type_value :: "memory_type \<Rightarrow> string" where
  "type_value FACT = ''fact''"
| "type_value DECISION = ''decision''"
| "type_value TASK = ''task''"
| "type_value PREFERENCE = ''preference''"
| "type_value FAILURE = ''failure''"
| "type_value LESSON = ''lesson''"
| "type_value SUMMARY = ''summary''"
| "type_value INDEX = ''index''"

definition allowed_types :: "string list" where
  "allowed_types = map type_value [FACT, DECISION, TASK, PREFERENCE, FAILURE, LESSON, SUMMARY, INDEX]"

definition check_memory_draft :: "memory_draft \<Rightarrow> unit result" where
  "check_memory_draft d =
     (if md_type d \<notin> set allowed_types then Inl (ValueError (''unsupported memory_type: '' @ md_type d))
      else if \<not> (0 \<le> fl_value (md_risk d) \<and> fl_value (md_risk d) \<le> 1)
      then Inl (ValueError ''risk must be between 0 and 1'')
      else if fl_value (md_cost d) < 0 then Inl (ValueError ''retrieval_cost cannot be negative'')
      else Inr ())"

text \<open>The draft with every text redacted and the sources without repetition.\<close>

definition safe_draft :: "world \<Rightarrow> memory_draft \<Rightarrow> memory_draft" where
  "safe_draft w d =
     d\<lparr>md_content := fst (redact_text (w_rules w) True (md_content d)),
       md_summary := fst (redact_text (w_rules w) True
          (if md_summary d = [] then take 240 (md_content d) else md_summary d)),
       md_files := fst (redact_files (w_rules w) (md_files d)),
       md_metadata := fst (redact_object (w_rules w) (md_metadata d)),
       md_expression := map_option (\<lambda>x. fst (redact_text (w_rules w) True x)) (md_expression d),
       md_sources := uniq (md_sources d)\<rparr>"

text \<open>The version that the new record gets: one more than the record it supersedes.\<close>

definition superseding_version :: "store \<Rightarrow> string option \<Rightarrow> string \<Rightarrow> int result" where
  "superseding_version s supersedes_id branch_id =
     (if given supersedes_id
      then (case List.find (\<lambda>r. me_id r = the supersedes_id) (st_memories s) of
              None \<Rightarrow> Inl (KeyError (''unknown superseded memory: '' @ the supersedes_id))
            | Some previous \<Rightarrow>
                bindr (list_memories s branch_id all_memories) (\<lambda>visible.
                  if the supersedes_id \<notin> me_id ` set visible
                  then Inl (ValueError ''cannot supersede a memory outside the branch lineage'')
                  else Inr (me_version previous + 1)))
      else Inr 1)"

definition derivation_payload :: "string \<Rightarrow> memory_draft \<Rightarrow> temporal_fields \<Rightarrow> (string, json) dict" where
  "derivation_payload record_id d t =
     [(''operation'', JStr ''derive_memory''), (''memory_id'', JStr record_id),
      (''memory_type'', JStr (md_type d)), (''content'', JStr (md_content d)),
      (''summary'', JStr (md_summary d)), (''source_event_ids'', JArr (map JStr (md_sources d))),
      (''files'', JArr (map JStr (md_files d))), (''risk'', JFloat (fl_repr (md_risk d))),
      (''retrieval_cost'', JFloat (fl_repr (md_cost d))), (''supersedes_id'', opt_str (md_supersedes d)),
      (''metadata'', JObj (md_metadata d)), (''valid_from'', opt_str (tf_from t)),
      (''valid_to'', opt_str (tf_to t)), (''valid_from_precision'', opt_str (tf_from_precision t)),
      (''valid_to_precision'', opt_str (tf_to_precision t)),
      (''temporal_expression'', opt_str (md_expression d))]"

definition memory_row ::
  "memory_draft \<Rightarrow> temporal_fields \<Rightarrow> string \<Rightarrow> int \<Rightarrow> int \<Rightarrow> string \<Rightarrow> memory_record" where
  "memory_row d t record_id version cursor now =
     \<lparr>me_id = record_id, me_branch = md_branch d, me_type = md_type d, me_content = md_content d,
      me_summary = md_summary d, me_files = md_files d, me_risk = md_risk d, me_cost = md_cost d,
      me_version = version, me_sources = md_sources d, me_supersedes = md_supersedes d,
      me_cursor = cursor, me_created = now, me_metadata = md_metadata d, me_from = tf_from t,
      me_to = tf_to t, me_from_precision = tf_from_precision t, me_to_precision = tf_to_precision t,
      me_expression = md_expression d\<rparr>"

definition insert_memory :: "memory_record \<Rightarrow> store \<Rightarrow> store result" where
  "insert_memory r s =
     bindr (insert_keyed me_id ''memory_records.id'' r (st_memories s)) (\<lambda>rows.
     bindr (foreign_key (me_branch r \<in> br_id ` set (st_branches s))) (\<lambda>_.
     bindr (foreign_key (case me_supersedes r of None \<Rightarrow> True | Some i \<Rightarrow> i \<in> me_id ` set rows)) (\<lambda>_.
       Inr (s\<lparr>st_memories := rows\<rparr>))))"

definition derive_memory :: "world \<Rightarrow> memory_draft \<Rightarrow> store \<Rightarrow> (memory_record \<times> store) result" where
  "derive_memory w draft s =
     bindr (check_memory_draft draft) (\<lambda>_.
     (let d = safe_draft w draft in
     bindr (assert_source_events s (md_sources d) (md_branch d)) (\<lambda>_.
     bindr (assert_agent_finalized_authority s (md_metadata d) (md_sources d)) (\<lambda>_.
     bindr (normalize_temporal_input s (md_from d) (md_to d) (md_sources d)) (\<lambda>t.
       let (session, adapter) = common_event_trace s (md_sources d);
           (hex, s1) = fresh_uuid w s;
           record_id = ''mem_'' @ hex
       in bindr (superseding_version s1 (md_supersedes d) (md_branch d)) (\<lambda>version.
          bindr (append_event_in_tx w
             \<lparr>dr_branch = md_branch d, dr_session = session, dr_kind = ''state'', dr_role = None,
              dr_content = ''derived '' @ md_type d @ '': '' @ md_summary d, dr_channel = INTERNAL,
              dr_adapter = adapter, dr_payload = derivation_payload record_id d t,
              dr_files = md_files d\<rparr> s1) (\<lambda>(derivation, s2).
            let (now, s3) = read_clock w s2;
                record = memory_row d t record_id version (ev_seq derivation) now
            in bindr (insert_memory record s3) (\<lambda>s4. Inr (record, s4)))))))))"

end
