(* ===== verification/Ledger.thy ===== *)
theory Ledger
  imports Memories
begin

text \<open>
  The append-only ledgers whose rows settle something (\<open>storage.py\<close>,
  \<open>candidate_confirmation.py\<close>): activated policies, security findings, and memory and
  settlement candidates, with the transitions that each entity went through.  Every
  operation derives the origin of the event that it cites, lets \<open>validate_transition\<close> judge
  the move, and appends one row.
\<close>

section \<open>Policies\<close>

text \<open>\<open>ORDER BY version DESC LIMIT 1\<close>.\<close>

definition latest_policy :: "store \<Rightarrow> policy_row option" where
  "latest_policy s = (case sorted_rev_key po_version (st_policies s) of [] \<Rightarrow> None | p # _ \<Rightarrow> Some p)"

definition delegation_enabled :: "store \<Rightarrow> bool" where
  "delegation_enabled s =
     (case latest_policy s of
        None \<Rightarrow> False
      | Some p \<Rightarrow> truthy (jget (po_policy p) ''agent_settlement_delegation_enabled''))"

definition require_event :: "string \<Rightarrow> store \<Rightarrow> string \<Rightarrow> event result" where
  "require_event what s event_id =
     (case find_event s event_id of
        None \<Rightarrow> Inl (KeyError (what @ event_id))
      | Some e \<Rightarrow> Inr e)"

definition activate_policy ::
  "world \<Rightarrow> (string, json) dict \<Rightarrow> string \<Rightarrow> origin option \<Rightarrow> string \<Rightarrow> store \<Rightarrow> (policy_row \<times> store) result" where
  "activate_policy w policy source_event_id claimed_origin operation s =
     (if operation \<notin> set [''activated'', ''replaced'', ''rollback'']
      then Inl (ValueError ''unsupported policy operation'')
      else bindr (require_event ''unknown policy source event: '' s source_event_id) (\<lambda>source.
        let derived_origin = origin_evidence_type source
        in if claimed_origin \<noteq> None \<and> claimed_origin \<noteq> Some derived_origin
           then Inl (PermissionError ''claimed origin evidence does not match source event'')
           else if \<not> policy_activation_allowed derived_origin
           then Inl (PermissionError ''policy activation requires trusted origin'')
           else (let previous = latest_policy s;
                     (hex, s1) = fresh_uuid w s;
                     (now, s2) = read_clock w s1;
                     row = \<lparr>po_id = ''policy_'' @ hex,
                       po_version = (case previous of None \<Rightarrow> 1 | Some p \<Rightarrow> po_version p + 1),
                       po_hash = hash_text w (json_text (JObj policy)), po_policy = policy,
                       po_event = source_event_id, po_previous = map_option po_id previous,
                       po_operation = operation, po_origin = derived_origin, po_created = now\<rparr>
                 in bindr (insert_keyed po_id ''policy_ledger.id'' row (st_policies s2)) (\<lambda>rows.
                      Inr (row, s2\<lparr>st_policies := rows\<rparr>)))))"

definition active_policy :: "store \<Rightarrow> policy_row option" where
  "active_policy s = latest_policy s"

section \<open>Security findings\<close>

definition state_draft ::
  "string \<Rightarrow> string option \<Rightarrow> string \<Rightarrow> (string, json) dict \<Rightarrow> string list \<Rightarrow> event_draft" where
  "state_draft branch_id session_id content payload files =
     \<lparr>dr_branch = branch_id, dr_session = session_id, dr_kind = ''state'', dr_role = None,
      dr_content = content, dr_channel = INTERNAL, dr_adapter = None, dr_payload = payload,
      dr_files = files\<rparr>"

definition insert_finding_move :: "finding_move \<Rightarrow> store \<Rightarrow> store result" where
  "insert_finding_move m s =
     bindr (insert_keyed fm_id ''finding_transitions.id'' m (st_finding_moves s)) (\<lambda>rows.
     bindr (foreign_key (fm_finding m \<in> fi_id ` set (st_findings s))) (\<lambda>_.
     bindr (foreign_key (find_event s (fm_event m) \<noteq> None)) (\<lambda>_.
       Inr (s\<lparr>st_finding_moves := rows\<rparr>))))"

definition last_finding_move :: "store \<Rightarrow> string \<Rightarrow> finding_move option" where
  "last_finding_move s finding_id = find_last (\<lambda>m. fm_finding m = finding_id) (st_finding_moves s)"

definition record_security_finding ::
  "world \<Rightarrow> string \<Rightarrow> string \<Rightarrow> (string, json) dict \<Rightarrow> store \<Rightarrow> (string \<times> store) result" where
  "record_security_finding w finding_type incident_key details s =
     (case List.find (\<lambda>f. fi_key f = incident_key) (st_findings s) of
        Some existing \<Rightarrow> Inr (fi_id existing, s)
      | None \<Rightarrow>
          bindr (append_event_in_tx w (state_draft ''main'' None (''security finding: '' @ finding_type)
                   [(''operation'', JStr ''security_finding''), (''finding_type'', JStr finding_type),
                    (''incident_key'', JStr incident_key), (''details'', JObj details)] []) s) (\<lambda>(e, s1).
            let (hex, s2) = fresh_uuid w s1;
                finding_id = ''finding_'' @ hex;
                (now, s3) = read_clock w s2;
                row = \<lparr>fi_id = finding_id, fi_key = incident_key, fi_type = finding_type,
                       fi_details = details, fi_event = ev_id e, fi_created = now\<rparr>
            in bindr (insert_keyed fi_id ''security_findings.id'' row (st_findings s3)) (\<lambda>rows.
              let (hex', s4) = fresh_uuid w (s3\<lparr>st_findings := rows\<rparr>);
                  (now', s5) = read_clock w s4
              in bindr (insert_finding_move
                     \<lparr>fm_id = ''ftr_'' @ hex', fm_finding = finding_id, fm_from = None, fm_to = ''active'',
                      fm_event = ev_id e, fm_actor = ''integrity_monitor'', fm_origin = EXTERNAL_UNTRUSTED,
                      fm_created = now'\<rparr> s5) (\<lambda>s6. Inr (finding_id, s6)))))"

text \<open>\<open>list_security_findings\<close>: each finding with its current status.\<close>

definition list_security_findings :: "store \<Rightarrow> (finding \<times> string option) list" where
  "list_security_findings s =
     map (\<lambda>f. (f, map_option fm_to (last_finding_move s (fi_id f)))) (sort_key fi_created (st_findings s))"

definition append_finding_ack_request ::
  "world \<Rightarrow> string \<Rightarrow> string \<Rightarrow> string \<Rightarrow> store \<Rightarrow> ((event \<times> string) \<times> store) result" where
  "append_finding_ack_request w finding_id branch_id claimed_origin s =
     (case last_finding_move s finding_id of
        None \<Rightarrow> Inl (KeyError (''unknown security finding: '' @ finding_id))
      | Some m \<Rightarrow>
          if fm_to m = ''acknowledgement_requested''
          then (case find_event s (fm_event m) of
                  None \<Rightarrow> Inl (AssertionError [])
                | Some existing \<Rightarrow> Inr ((existing, fm_id m), s))
          else if \<not> flow_allows (tr_flow FINDING_RULE) (fm_to m) ''acknowledgement_requested''
          then Inl (ValueError (''illegal security finding transition: '' @ fm_to m @ '' -> acknowledgement_requested''))
          else bindr (append_event_in_tx w (state_draft branch_id None
                   (''security finding acknowledgement requested: '' @ finding_id)
                   [(''operation'', JStr ''acknowledgement_requested''), (''finding_id'', JStr finding_id),
                    (''origin_evidence_type'', JStr claimed_origin)] []) s) (\<lambda>(e, s1).
            let (hex, s2) = fresh_uuid w s1 in
            bindr (event_visible s2 e branch_id) (\<lambda>visible.
            bindr (validate_transition FINDING_RULE (fm_to m) ''acknowledgement_requested''
                     (origin_evidence_type e) visible False False [] False) (\<lambda>_.
              let (now, s3) = read_clock w s2
              in bindr (insert_finding_move
                     \<lparr>fm_id = ''ftr_'' @ hex, fm_finding = finding_id, fm_from = Some (fm_to m),
                      fm_to = ''acknowledgement_requested'', fm_event = ev_id e, fm_actor = ''request_reducer'',
                      fm_origin = origin_evidence_type e, fm_created = now\<rparr> s3)
                   (\<lambda>s4. Inr ((e, ''ftr_'' @ hex), s4))))))"

definition transition_finding ::
  "world \<Rightarrow> string \<Rightarrow> string \<Rightarrow> string \<Rightarrow> string \<Rightarrow> store \<Rightarrow> (string option \<times> store) result" where
  "transition_finding w finding_id to_status source_event_id actor s =
     (if to_status \<notin> set [''acknowledgement_requested'', ''acknowledged'']
      then Inl (ValueError ''unsupported finding transition'')
      else (case last_finding_move s finding_id of
        None \<Rightarrow> Inl (KeyError (''unknown security finding: '' @ finding_id))
      | Some m \<Rightarrow>
          bindr (require_event ''unknown source event: '' s source_event_id) (\<lambda>source.
          bindr (event_visible s source ''main'') (\<lambda>visible.
          bindr (validate_transition FINDING_RULE (fm_to m) to_status (origin_evidence_type source)
                   visible (delegation_enabled s) False [] False) (\<lambda>decision.
            if \<not> td_changed decision then Inr (None, s)
            else (let (hex, s1) = fresh_uuid w s;
                      (now, s2) = read_clock w s1
                  in bindr (insert_finding_move
                       \<lparr>fm_id = ''ftr_'' @ hex, fm_finding = finding_id, fm_from = Some (fm_to m),
                        fm_to = to_status, fm_event = source_event_id, fm_actor = actor,
                        fm_origin = origin_evidence_type source, fm_created = now\<rparr> s2)
                     (\<lambda>s3. Inr (Some (''ftr_'' @ hex), s3))))))))"

section \<open>Candidates\<close>

definition last_move :: "store \<Rightarrow> string \<Rightarrow> candidate_move option" where
  "last_move s candidate_id = find_last (\<lambda>m. mv_candidate m = candidate_id) (st_moves s)"

definition candidate_status :: "store \<Rightarrow> string \<Rightarrow> string option" where
  "candidate_status s candidate_id = map_option mv_to (last_move s candidate_id)"

definition find_candidate :: "store \<Rightarrow> string \<Rightarrow> candidate option" where
  "find_candidate s candidate_id = List.find (\<lambda>c. ca_id c = candidate_id) (st_candidates s)"

definition find_run :: "store \<Rightarrow> string \<Rightarrow> extraction_run option" where
  "find_run s run_id = List.find (\<lambda>r. ru_id r = run_id) (st_runs s)"

text \<open>The candidate joined with its run and the run's event.\<close>

definition candidate_event :: "store \<Rightarrow> string \<Rightarrow> (candidate \<times> event) option" where
  "candidate_event s candidate_id =
     (case find_candidate s candidate_id of
        None \<Rightarrow> None
      | Some c \<Rightarrow>
          (case find_run s (ca_run c) of
             None \<Rightarrow> None
           | Some r \<Rightarrow> map_option (\<lambda>e. (c, e)) (find_event s (ru_event r))))"

definition reference :: "string option \<Rightarrow> string set \<Rightarrow> bool" where
  "reference x ids = (case x of None \<Rightarrow> True | Some i \<Rightarrow> i \<in> ids)"

definition insert_move :: "candidate_move \<Rightarrow> store \<Rightarrow> store result" where
  "insert_move m s =
     bindr (insert_keyed mv_id ''candidate_transitions.id'' m (st_moves s)) (\<lambda>rows.
     bindr (foreign_key (mv_candidate m \<in> ca_id ` set (st_candidates s))) (\<lambda>_.
     bindr (foreign_key (find_event s (mv_event m) \<noteq> None)) (\<lambda>_.
     bindr (foreign_key (reference (mv_repl_candidate m) (ca_id ` set (st_candidates s)))) (\<lambda>_.
     bindr (foreign_key (reference (mv_repl_memory m) (me_id ` set (st_memories s)))) (\<lambda>_.
     bindr (foreign_key (reference (mv_run m) (ru_id ` set (st_runs s)))) (\<lambda>_.
       Inr (s\<lparr>st_moves := rows\<rparr>)))))))"

definition candidate_row_move ::
  "string \<Rightarrow> string \<Rightarrow> string option \<Rightarrow> string \<Rightarrow> event \<Rightarrow> string \<Rightarrow> string \<Rightarrow> string option \<Rightarrow> string option
    \<Rightarrow> string option \<Rightarrow> string \<Rightarrow> candidate_move" where
  "candidate_row_move move_id candidate_id frm to_status source actor rule_id repl_candidate repl_memory run now =
     \<lparr>mv_id = move_id, mv_candidate = candidate_id, mv_from = frm, mv_to = to_status,
      mv_event = ev_id source, mv_actor = actor, mv_rule = rule_id,
      mv_origin = origin_evidence_type source, mv_repl_candidate = repl_candidate,
      mv_repl_memory = repl_memory, mv_run = run, mv_created = now\<rparr>"

definition append_candidate_request ::
  "world \<Rightarrow> string \<Rightarrow> string \<Rightarrow> string \<Rightarrow> string \<Rightarrow> string \<Rightarrow> string option \<Rightarrow> string option \<Rightarrow> store
    \<Rightarrow> ((event \<times> string) \<times> store) result" where
  "append_candidate_request w candidate_id request_status branch_id action claimed_origin
       replacement_candidate_id replacement_memory_id s =
     (if request_status \<notin> set [''confirmation_requested'', ''rejection_requested'', ''supersession_requested'']
      then Inl (ValueError ''unsupported candidate request'')
      else (case last_move s candidate_id of
        None \<Rightarrow> Inl (KeyError (''unknown extraction candidate: '' @ candidate_id))
      | Some latest \<Rightarrow>
          if mv_to latest = request_status
          then (case find_event s (mv_event latest) of
                  None \<Rightarrow> Inl (AssertionError [])
                | Some existing \<Rightarrow> Inr ((existing, mv_id latest), s))
          else (case candidate_event s candidate_id of
            None \<Rightarrow> Inl (StoreIntegrityError ''candidate has no source event'')
          | Some (c, target) \<Rightarrow>
              bindr (append_event_in_tx w (state_draft branch_id None
                   (''candidate '' @ action @ '' requested: '' @ candidate_id)
                   [(''operation'', JStr request_status), (''candidate_id'', JStr candidate_id),
                    (''replacement_candidate_id'', opt_str replacement_candidate_id),
                    (''replacement_memory_id'', opt_str replacement_memory_id),
                    (''origin_evidence_type'', JStr claimed_origin)] []) s) (\<lambda>(e, s1).
                let (hex, s2) = fresh_uuid w s1 in
                bindr (event_visible s2 e (ev_branch target)) (\<lambda>visible.
                bindr (validate_transition CANDIDATE_RULE (mv_to latest) request_status
                         (origin_evidence_type e) visible False False [] False) (\<lambda>_.
                  let (now, s3) = read_clock w s2
                  in bindr (insert_move (candidate_row_move (''ctr_'' @ hex) candidate_id (Some (mv_to latest))
                              request_status e ''request_reducer'' (''untrusted_'' @ action @ ''_request'')
                              replacement_candidate_id replacement_memory_id None now) s3)
                       (\<lambda>s4. Inr ((e, ''ctr_'' @ hex), s4))))))))"

definition transition_candidate ::
  "world \<Rightarrow> string \<Rightarrow> string \<Rightarrow> string \<Rightarrow> string \<Rightarrow> string \<Rightarrow> string option \<Rightarrow> string option \<Rightarrow> store
    \<Rightarrow> (string option \<times> store) result" where
  "transition_candidate w candidate_id to_status source_event_id actor rule_id
       replacement_candidate_id replacement_memory_id s =
     (if to_status \<notin> set (map fst (tr_flow CANDIDATE_RULE))
      then Inl (ValueError (''unsupported candidate status: '' @ to_status))
      else if to_status = ''superseded'' \<and> \<not> given replacement_candidate_id \<and> \<not> given replacement_memory_id
      then Inl (ValueError ''superseded transition requires a replacement'')
      else (let (hex, s1) = fresh_uuid w s in
        (case candidate_status s1 candidate_id of
          None \<Rightarrow> Inl (KeyError (''unknown extraction candidate: '' @ candidate_id))
        | Some current \<Rightarrow>
            (case candidate_event s1 candidate_id of
              None \<Rightarrow> Inl (StoreIntegrityError ''candidate has no source event'')
            | Some (c, target) \<Rightarrow>
                bindr (require_event ''unknown source event: '' s1 source_event_id) (\<lambda>source.
                bindr (event_visible s1 source (ev_branch target)) (\<lambda>visible.
                bindr (validate_transition CANDIDATE_RULE current to_status (origin_evidence_type source)
                         visible (delegation_enabled s1) False [] False) (\<lambda>decision.
                  if \<not> td_changed decision then Inr (None, s1)
                  else (let (now, s2) = read_clock w s1
                        in bindr (insert_move (candidate_row_move (''ctr_'' @ hex) candidate_id (Some current)
                                    to_status source actor rule_id replacement_candidate_id
                                    replacement_memory_id None now) s2)
                             (\<lambda>s3. Inr (Some (''ctr_'' @ hex), s3))))))))))"

text \<open>\<open>list_extraction_candidates\<close>: every candidate with its current status.\<close>

definition list_extraction_candidates :: "store \<Rightarrow> string option \<Rightarrow> (candidate \<times> string option) list" where
  "list_extraction_candidates s status =
     (let values = map (\<lambda>c. (c, candidate_status s (ca_id c))) (sort_key ca_created (st_candidates s))
      in (case status of None \<Rightarrow> values | Some st \<Rightarrow> filter (\<lambda>(c, x). x = Some st) values))"

end
