(* ===== verification/Settlement.thy ===== *)
theory Settlement
  imports Ledger
begin

text \<open>
  Settlement candidates on the shared ledger, the authority of a memory, and the
  confirmation of a candidate that an explicit user marker repeats (\<open>storage.py\<close>,
  \<open>candidate_confirmation.py\<close>).
\<close>

section \<open>Settlement candidates\<close>

text \<open>
  \<open>INSERT OR IGNORE\<close>: a row that breaks a uniqueness constraint is dropped; a row that
  breaks a foreign key still fails.  The second component says whether the row went in.
\<close>

definition insert_or_ignore :: "bool \<Rightarrow> bool \<Rightarrow> 'r \<Rightarrow> 'r list \<Rightarrow> ('r list \<times> bool) result" where
  "insert_or_ignore unique references r rows =
     (if \<not> unique then Inr (rows, False) else bindr (foreign_key references) (\<lambda>_. Inr (rows @ [r], True)))"

definition insert_run_or_ignore :: "extraction_run \<Rightarrow> store \<Rightarrow> store result" where
  "insert_run_or_ignore r s =
     bindr (insert_or_ignore
        (ru_id r \<notin> ru_id ` set (st_runs s)
         \<and> (ru_event r, ru_config r) \<notin> (\<lambda>r. (ru_event r, ru_config r)) ` set (st_runs s))
        (find_event s (ru_event r) \<noteq> None \<and> ru_config r \<in> ec_hash ` set (st_configs s)) r (st_runs s))
       (\<lambda>(rows, _). Inr (s\<lparr>st_runs := rows\<rparr>))"

definition insert_attempt_or_ignore :: "extraction_attempt \<Rightarrow> store \<Rightarrow> store result" where
  "insert_attempt_or_ignore a s =
     bindr (insert_or_ignore
        (at_id a \<notin> at_id ` set (st_attempts s)
         \<and> (at_run a, at_no a) \<notin> (\<lambda>a. (at_run a, at_no a)) ` set (st_attempts s))
        (at_run a \<in> ru_id ` set (st_runs s)) a (st_attempts s))
       (\<lambda>(rows, _). Inr (s\<lparr>st_attempts := rows\<rparr>))"

definition candidate_key :: "candidate \<Rightarrow> string \<times> string \<times> string \<times> int \<times> int" where
  "candidate_key c = (ca_run c, ca_type c, ca_content c, ca_start c, ca_end c)"

definition insert_candidate_or_ignore :: "candidate \<Rightarrow> store \<Rightarrow> (bool \<times> store) result" where
  "insert_candidate_or_ignore c s =
     bindr (insert_or_ignore
        (ca_id c \<notin> ca_id ` set (st_candidates s) \<and> candidate_key c \<notin> candidate_key ` set (st_candidates s))
        (ca_run c \<in> ru_id ` set (st_runs s) \<and> ca_attempt c \<in> at_id ` set (st_attempts s)) c (st_candidates s))
       (\<lambda>(rows, fresh). Inr (fresh, s\<lparr>st_candidates := rows\<rparr>))"

definition settlement_run_id :: "world \<Rightarrow> string \<Rightarrow> string" where
  "settlement_run_id w source_event_id = ''run_settle_'' @ take 24 (hash_text w source_event_id)"

definition create_settlement_candidate ::
  "world \<Rightarrow> string \<Rightarrow> string \<Rightarrow> string \<Rightarrow> string option \<Rightarrow> string \<Rightarrow> string \<Rightarrow> string \<Rightarrow> store
    \<Rightarrow> ((string \<times> bool \<times> string) \<times> store) result" where
  "create_settlement_candidate w kind content source_event_id evidence_event_id memory_type strength actor s =
     (if kind = ''extraction'' then Inl (ValueError ''extraction candidates are created by the extractor'')
      else (let (created_at, s1) = read_clock w s;
                run_id = settlement_run_id w source_event_id;
                attempt_id = ''att_'' @ drop 12 run_id
      in bindr (insert_run_or_ignore
              \<lparr>ru_id = run_id, ru_event = source_event_id, ru_config = SETTLEMENT_CONFIG_HASH,
               ru_created = created_at\<rparr> s1) (\<lambda>s2.
         bindr (insert_attempt_or_ignore
              \<lparr>at_id = attempt_id, at_run = run_id, at_no = 1, at_outcome = ''deterministic'',
               at_started = created_at, at_finished = created_at, at_error = None, at_redacted = None,
               at_raw = None\<rparr> s2) (\<lambda>s3.
         let (hex, s4) = fresh_uuid w s3;
             candidate_id = ''cand_'' @ hex
         in bindr (insert_candidate_or_ignore
              \<lparr>ca_id = candidate_id, ca_run = run_id, ca_attempt = attempt_id, ca_type = memory_type,
               ca_content = content,
               ca_quote = (if given evidence_event_id then the evidence_event_id else source_event_id),
               ca_start = 0, ca_end = 0, ca_zone = kind @ '':'' @ strength,
               ca_confidence = \<lparr>fl_value = 1, fl_repr = ''1.0''\<rparr>, ca_kind = kind,
               ca_created = created_at\<rparr> s4) (\<lambda>(fresh, s5).
            if \<not> fresh
            then (case List.find (\<lambda>c. ca_run c = run_id \<and> ca_content c = content \<and> ca_kind c = kind)
                          (st_candidates s5) of
                    None \<Rightarrow> Inl (StoreIntegrityError ''settlement candidate uniqueness violated without a match'')
                  | Some c \<Rightarrow>
                      Inr ((ca_id c, False,
                            (if given (candidate_status s5 (ca_id c)) then the (candidate_status s5 (ca_id c))
                             else ''pending'')), s5))
            else (case find_event s5 source_event_id of
                    None \<Rightarrow> Inl (TypeError [])
                  | Some source \<Rightarrow>
                      let (hex', s6) = fresh_uuid w s5
                      in bindr (insert_move (candidate_row_move (''ctr_'' @ hex') candidate_id None ''pending''
                                  source actor (kind @ ''_detected'') None None (Some run_id) created_at) s6)
                           (\<lambda>s7. Inr ((candidate_id, True, ''pending''), s7))))))))"

definition settle_candidate ::
  "world \<Rightarrow> string \<Rightarrow> string \<Rightarrow> string \<Rightarrow> string \<Rightarrow> string \<Rightarrow> store \<Rightarrow> (string option \<times> store) result" where
  "settle_candidate w candidate_id to_status source_event_id actor rule_id s =
     (if to_status \<notin> set (map fst SETTLEMENT_FLOW)
      then Inl (ValueError (''unsupported settlement status: '' @ to_status))
      else (case candidate_event s candidate_id of
        None \<Rightarrow> Inl (KeyError (''unknown candidate: '' @ candidate_id))
      | Some (c, target) \<Rightarrow>
          if ca_kind c = ''extraction''
          then Inl (ValueError ''extraction candidates settle through transition_candidate'')
          else bindr (require_event ''unknown source event: '' s source_event_id) (\<lambda>source.
            let current = (if given (candidate_status s candidate_id)
                           then the (candidate_status s candidate_id) else ''pending'') in
            bindr (event_visible s source (ev_branch target)) (\<lambda>visible.
            bindr (validate_transition SETTLEMENT_RULE current to_status (origin_evidence_type source)
                     visible (delegation_enabled s) False [] (actor = ''system'')) (\<lambda>decision.
              if \<not> td_changed decision then Inr (None, s)
              else (let (hex, s1) = fresh_uuid w s;
                        (now, s2) = read_clock w s1
                    in bindr (insert_move (candidate_row_move (''ctr_'' @ hex) candidate_id (Some current)
                                to_status source actor rule_id None None None now) s2)
                         (\<lambda>s3. Inr (Some (''ctr_'' @ hex), s3))))))))"

text \<open>
  \<open>list_settlement_candidates\<close>: the candidates of the settlement kinds joined with their
  run, newest first, each with its status and the time of its last move.
\<close>

record settlement_item =
  si_candidate :: candidate
  si_event :: string
  si_status :: "string option"
  si_status_at :: "string option"

definition list_settlement_candidates :: "store \<Rightarrow> string option \<Rightarrow> string option \<Rightarrow> settlement_item list" where
  "list_settlement_candidates s kind status =
     (let rows = filter (\<lambda>c. ca_kind c \<noteq> ''extraction'' \<and> (kind = None \<or> kind = Some (ca_kind c))
                           \<and> find_run s (ca_run c) \<noteq> None) (st_candidates s);
          items = map (\<lambda>c. \<lparr>si_candidate = c, si_event = ru_event (the (find_run s (ca_run c))),
                     si_status = candidate_status s (ca_id c),
                     si_status_at = map_option mv_created (last_move s (ca_id c))\<rparr>)
                   (sorted_rev_key ca_created rows)
      in (case status of
            None \<Rightarrow> items
          | Some st \<Rightarrow> filter (\<lambda>i. (if given (si_status i) then the (si_status i) else ''pending'') = st) items))"

text \<open>\<open>get_settlement_candidate\<close>: one candidate, its status and its whole history.\<close>

definition get_settlement_candidate ::
  "store \<Rightarrow> string \<Rightarrow> (candidate \<times> string \<times> string \<times> candidate_move list) result" where
  "get_settlement_candidate s candidate_id =
     (case find_candidate s candidate_id of
        None \<Rightarrow> Inl (KeyError (''unknown settlement candidate: '' @ candidate_id))
      | Some c \<Rightarrow>
          (case find_run s (ca_run c) of
             None \<Rightarrow> Inl (KeyError (''unknown settlement candidate: '' @ candidate_id))
           | Some r \<Rightarrow>
               if ca_kind c = ''extraction''
               then Inl (KeyError (''unknown settlement candidate: '' @ candidate_id))
               else (let transitions = filter (\<lambda>m. mv_candidate m = candidate_id) (st_moves s)
                     in Inr (c, ru_event r,
                          (if transitions = [] then ''pending'' else mv_to (last transitions)), transitions))))"

definition recent_settlement_transitions ::
  "store \<Rightarrow> string \<Rightarrow> string \<Rightarrow> string option \<Rightarrow> (candidate_move \<times> candidate) list" where
  "recent_settlement_transitions s to_status since_iso kind =
     filter (\<lambda>(m, c). kind = None \<or> kind = Some (ca_kind c))
       (sorted_rev_key (\<lambda>(m, c). mv_created m)
         (concat (map (\<lambda>m. map (\<lambda>c. (m, c))
              (filter (\<lambda>c. ca_id c = mv_candidate m \<and> ca_kind c \<noteq> ''extraction'') (st_candidates s)))
            (filter (\<lambda>m. mv_to m = to_status \<and> mv_created m \<ge> since_iso) (st_moves s)))))"

definition memory_authority :: "store \<Rightarrow> string \<Rightarrow> string result" where
  "memory_authority s memory_id =
     (if \<exists>l \<in> set (st_links s). ln_memory l = memory_id
           \<and> candidate_status s (ln_candidate l) = Some ''confirmed''
      then Inr ''confirmed''
      else bindr (get_memory s memory_id) (\<lambda>record.
             Inr (case dget (me_metadata record) ''authority_level'' of
                    None \<Rightarrow> ''confirmed''
                  | Some v \<Rightarrow> py_str v)))"

section \<open>Confirming a matching candidate\<close>

definition normalized_key :: "string \<Rightarrow> string" where
  "normalized_key v = casefold (join '' '' (split_ws (strip v)))"

definition find_auto_candidate_match :: "store \<Rightarrow> string \<Rightarrow> string \<Rightarrow> (string \<times> string option) option" where
  "find_auto_candidate_match s memory_type content =
     (let key = normalized_key content;
          rows = concat (map (\<lambda>c.
             (case filter (\<lambda>l. ln_candidate l = ca_id c) (st_links s) of
                [] \<Rightarrow> [(c, None)]
              | links \<Rightarrow> map (\<lambda>l. (c, Some (ln_memory l))) links))
             (sort_key ca_created (filter (\<lambda>c. ca_type c = memory_type) (st_candidates s))))
      in map_option (\<lambda>(c, m). (ca_id c, if given m then m else None))
           (List.find (\<lambda>(c, m).
              candidate_status s (ca_id c) \<in>
                {Some ''auto'', Some ''quarantined'', Some ''confirmation_requested'', Some ''confirmed''}
              \<and> normalized_key (ca_content c) = key) rows))"

definition link_key :: "memory_link \<Rightarrow> string \<times> string \<times> string \<times> string" where
  "link_key l = (ln_candidate l, ln_memory l, ln_relation l, ln_event l)"

definition link_references :: "memory_link \<Rightarrow> store \<Rightarrow> bool" where
  "link_references l s \<longleftrightarrow> ln_candidate l \<in> ca_id ` set (st_candidates s)
     \<and> ln_memory l \<in> me_id ` set (st_memories s) \<and> find_event s (ln_event l) \<noteq> None"

definition link_confirmed_candidate ::
  "world \<Rightarrow> string \<Rightarrow> string \<Rightarrow> string \<Rightarrow> store \<Rightarrow> (unit \<times> store) result" where
  "link_confirmed_candidate w candidate_id memory_id source_event_id s =
     (let (hex, s1) = fresh_uuid w s;
          (now, s2) = read_clock w s1;
          l = \<lparr>ln_id = ''cml_'' @ hex, ln_candidate = candidate_id, ln_memory = memory_id,
               ln_relation = ''confirmed_as'', ln_event = source_event_id, ln_created = now\<rparr>
      in bindr (insert_or_ignore
            (ln_id l \<notin> ln_id ` set (st_links s2) \<and> link_key l \<notin> link_key ` set (st_links s2))
            (link_references l s2) l (st_links s2))
          (\<lambda>(rows, _). Inr ((), s2\<lparr>st_links := rows\<rparr>)))"

definition confirmed_draft :: "candidate \<Rightarrow> event \<Rightarrow> string \<Rightarrow> memory_draft" where
  "confirmed_draft c source source_event_id =
     \<lparr>md_type = ca_type c, md_content = ca_content c, md_sources = [ev_id source, source_event_id],
      md_summary = take 240 (ca_content c), md_files = ev_files source, md_branch = ev_branch source,
      md_risk = \<lparr>fl_value = 0, fl_repr = ''0.0''\<rparr>, md_cost = \<lparr>fl_value = 1, fl_repr = ''1.0''\<rparr>,
      md_supersedes = None,
      md_metadata = [(''origin'', JStr ''explicit_marker''), (''authority_level'', JStr ''confirmed''),
        (''origin_evidence_type'', JStr ''host_logical_user''), (''candidate_id'', JStr (ca_id c))],
      md_from = None, md_to = None, md_expression = None\<rparr>"

text \<open>The memory that the confirmation stands for: the one that is there, or a new one.\<close>

definition confirmed_memory ::
  "world \<Rightarrow> candidate \<Rightarrow> extraction_run \<Rightarrow> string option \<Rightarrow> string \<Rightarrow> store \<Rightarrow> (string \<times> store) result" where
  "confirmed_memory w c run memory_id source_event_id s =
     (case memory_id of
        Some i \<Rightarrow> Inr (i, s)
      | None \<Rightarrow>
          bindr (get_event s (ru_event run)) (\<lambda>source.
          bindr (derive_memory w (confirmed_draft c source source_event_id) s)
            (\<lambda>(record, s'). Inr (me_id record, s'))))"

text \<open>A candidate that waits for nobody first records the request.\<close>

definition request_confirmation :: "world \<Rightarrow> string \<Rightarrow> string \<Rightarrow> store \<Rightarrow> (string option \<times> store) result" where
  "request_confirmation w candidate_id source_event_id s =
     (if candidate_status s candidate_id \<in> {Some ''auto'', Some ''quarantined''}
      then transition_candidate w candidate_id ''confirmation_requested'' source_event_id
             ''explicit_marker'' ''normalized_explicit_match_requested'' None None s
      else Inr (None, s))"

definition confirm_candidate_match ::
  "world \<Rightarrow> string \<Rightarrow> string option \<Rightarrow> string \<Rightarrow> store \<Rightarrow> (string \<times> store) result" where
  "confirm_candidate_match w candidate_id memory_id source_event_id s =
     (case find_candidate s candidate_id of
        None \<Rightarrow> Inl (KeyError (''unknown extraction candidate: '' @ candidate_id))
      | Some c \<Rightarrow>
          (case find_run s (ca_run c) of
             None \<Rightarrow> Inl (KeyError (''unknown extraction candidate: '' @ candidate_id))
           | Some r \<Rightarrow>
               bindr (request_confirmation w candidate_id source_event_id s) (\<lambda>(_, s1).
               bindr (transition_candidate w candidate_id ''confirmed'' source_event_id
                        ''explicit_marker'' ''normalized_explicit_match'' None None s1) (\<lambda>(_, s2).
               bindr (confirmed_memory w c r memory_id source_event_id s2) (\<lambda>(i, s4).
               bindr (link_confirmed_candidate w candidate_id i source_event_id s4) (\<lambda>(_, s5).
                 Inr (i, s5)))))))"

end
