(* ===== verification/Histories.thy ===== *)
theory Histories
  imports Settlement
begin

text \<open>
  The histories that the ledgers keep.  A ledger's rows name an entity, the state it left,
  the state it entered and who vouched for it.  The interface \<open>ledger\<close> says what a table of
  such rows promises, and proves what follows: the status of an entity moves along the
  legal moves only, a terminal status is never left, and whoever is in a settled state was
  put there by somebody entitled to.
\<close>

definition move_legal :: "transition_rule \<Rightarrow> string \<Rightarrow> string \<Rightarrow> origin \<Rightarrow> bool \<Rightarrow> bool" where
  "move_legal rule frm target org exempt \<longleftrightarrow>
     frm \<noteq> target \<and> flow_allows (tr_flow rule) frm target
     \<and> (target \<in> set (tr_trusted_targets rule) \<longrightarrow> \<not> exempt \<longrightarrow> org \<in> set (tr_trusted_origins rule))"

lemma validated_move_legal:
  "validate_transition rule current target org visible deleg False reason exempt = Inr d \<Longrightarrow> td_changed d \<Longrightarrow>
     move_legal rule current target org exempt \<and> visible \<and> (org = DELEGATED_AGENT \<longrightarrow> deleg)"
  by (auto simp: validate_transition_def move_legal_def split: if_splits)

lemma validated_same:
  "validate_transition rule current target org visible deleg False reason exempt = Inr d \<Longrightarrow> current \<noteq> target \<Longrightarrow>
     td_changed d"
  by (auto simp: validate_transition_def split: if_splits)

inductive history_ok ::
  "('m \<Rightarrow> string) \<Rightarrow> ('m \<Rightarrow> string option) \<Rightarrow> ('m \<Rightarrow> string) \<Rightarrow> ('m \<Rightarrow> string \<Rightarrow> bool) \<Rightarrow> 'm list \<Rightarrow> bool"
  for entity frm to_of legal where
  empty: "history_ok entity frm to_of legal []"
| first: "history_ok entity frm to_of legal ms \<Longrightarrow> frm m = None \<Longrightarrow>
     find_last (\<lambda>x. entity x = entity m) ms = None \<Longrightarrow> history_ok entity frm to_of legal (ms @ [m])"
| next_move: "history_ok entity frm to_of legal ms \<Longrightarrow> find_last (\<lambda>x. entity x = entity m) ms = Some p \<Longrightarrow>
     frm m = Some (to_of p) \<Longrightarrow> legal m (to_of p) \<Longrightarrow> history_ok entity frm to_of legal (ms @ [m])"

inductive_cases history_ok_snocE: "history_ok entity frm to_of legal (ms @ [m])"

lemma history_ok_prefix: "history_ok entity frm to_of legal (ms @ ns) \<Longrightarrow> history_ok entity frm to_of legal ms"
proof (induction ns rule: rev_induct)
  case (snoc n ns)
  then have "history_ok entity frm to_of legal ((ms @ ns) @ [n])" by simp
  then have "history_ok entity frm to_of legal (ms @ ns)" by (rule history_ok_snocE)
  then show ?case by (rule snoc.IH)
qed simp

lemma history_ok_mono:
  assumes "history_ok entity frm to_of legal ms" "\<And>m f. m \<in> set ms \<Longrightarrow> legal m f \<Longrightarrow> legal' m f"
  shows "history_ok entity frm to_of legal' ms"
  using assms by (induction) (auto intro: history_ok.intros)

text \<open>Every row but the first of its entity was legal when it was written.\<close>

lemma history_row:
  "history_ok entity frm to_of legal ms \<Longrightarrow> m \<in> set ms \<Longrightarrow> frm m = None \<or> (\<exists>f. frm m = Some f \<and> legal m f)"
  by (induction rule: history_ok.induct) auto

locale ledger =
  fixes entity :: "'m \<Rightarrow> string" and frm :: "'m \<Rightarrow> string option" and to_of :: "'m \<Rightarrow> string"
    and legal :: "'m \<Rightarrow> string \<Rightarrow> bool" and terminal :: "string set"
  assumes terminal_final: "legal m f \<Longrightarrow> f \<notin> terminal"
begin

definition status :: "'m list \<Rightarrow> string \<Rightarrow> string option" where
  "status ms x = map_option to_of (find_last (\<lambda>m. entity m = x) ms)"

lemma status_snoc: "status (ms @ [m]) x = (if entity m = x then Some (to_of m) else status ms x)"
  by (simp add: status_def)

text \<open>A terminal status stays, whatever is appended.\<close>

lemma terminal_stays:
  "history_ok entity frm to_of legal (ms @ ns) \<Longrightarrow> status ms x = Some t \<Longrightarrow> t \<in> terminal \<Longrightarrow>
     status (ms @ ns) x = Some t"
proof (induction ns rule: rev_induct)
  case Nil
  then show ?case by simp
next
  case (snoc n ns)
  have h: "history_ok entity frm to_of legal ((ms @ ns) @ [n])" using snoc.prems by simp
  then have IH: "status (ms @ ns) x = Some t"
    using snoc history_ok_prefix[OF h] by blast
  have "entity n \<noteq> x"
  proof
    assume n: "entity n = x"
    obtain p where p: "find_last (\<lambda>m. entity m = x) (ms @ ns) = Some p" "to_of p = t"
      using IH by (auto simp: status_def)
    have "legal n t" by (rule history_ok_snocE[OF h]) (use n p in auto)
    then show False using terminal_final snoc.prems(3) by blast
  qed
  then show ?case using IH status_snoc[of "ms @ ns" n x] by simp
qed

text \<open>The status of an entity is the target of a row, the first one or a legal one.\<close>

lemma status_row:
  assumes "history_ok entity frm to_of legal ms" "status ms x = Some t"
  obtains m where "m \<in> set ms" "entity m = x" "to_of m = t"
    "frm m = None \<or> (\<exists>f. frm m = Some f \<and> legal m f)"
  using assms history_row find_last_Some unfolding status_def by fastforce

end

section \<open>The ledgers of the store\<close>

definition rule_of_move :: "candidate_move \<Rightarrow> transition_rule" where
  "rule_of_move m =
     (if (case mv_from m of None \<Rightarrow> False | Some f \<Rightarrow> f \<in> set (map fst SETTLEMENT_FLOW))
      then SETTLEMENT_RULE else CANDIDATE_RULE)"

text \<open>Only the settlement ledger exempts the system itself from the rule on origins.\<close>

definition exempt_move :: "candidate_move \<Rightarrow> bool" where
  "exempt_move m \<longleftrightarrow> rule_of_move m = SETTLEMENT_RULE \<and> mv_actor m = ''system''"

definition candidate_move_legal :: "candidate_move \<Rightarrow> string \<Rightarrow> bool" where
  "candidate_move_legal m f \<longleftrightarrow> mv_from m = Some f
     \<and> move_legal (rule_of_move m) f (mv_to m) (mv_origin m) (exempt_move m)"

definition candidate_terminal :: "string set" where
  "candidate_terminal = {''rejected'', ''superseded'', ''reverted'', ''contested''}"

definition finding_move_legal :: "finding_move \<Rightarrow> string \<Rightarrow> bool" where
  "finding_move_legal m f \<longleftrightarrow> move_legal FINDING_RULE f (fm_to m) (fm_origin m) False"

lemma rules_distinct: "SETTLEMENT_RULE \<noteq> CANDIDATE_RULE"
  by (simp add: SETTLEMENT_RULE_def CANDIDATE_RULE_def)

interpretation cand: ledger mv_candidate mv_from mv_to candidate_move_legal candidate_terminal
proof
  fix m f assume a: "candidate_move_legal m f"
  show "f \<notin> candidate_terminal"
  proof
    assume "f \<in> candidate_terminal"
    then have "dget_default SETTLEMENT_FLOW f [] = [] \<and> dget_default CANDIDATE_FLOW f [] = []"
      by (auto simp: candidate_terminal_def dget_default_def flow_defs)
    then show False
      using a by (auto simp: candidate_move_legal_def move_legal_def rule_of_move_def flow_allows_def
          SETTLEMENT_RULE_def CANDIDATE_RULE_def split: if_splits)
  qed
qed

interpretation find: ledger fm_finding fm_from fm_to finding_move_legal "{''acknowledged''}"
  by unfold_locales
    (auto simp: finding_move_legal_def move_legal_def FINDING_RULE_def flow_allows_def FINDING_FLOW_def dget_default_def)

end
