(* ===== verification/MemoryFacts.thy ===== *)
theory MemoryFacts
  imports Memories
begin

text \<open>
  The invariant of the memory table: every record is typed and bounded, its sources are
  events that its branch saw before the record was admitted, agent-finalized authority
  rests on one trusted Stop event, and a superseded record is visible wherever its
  successor is.
\<close>

section \<open>Visible sources\<close>

definition visible_source :: "store \<Rightarrow> string \<Rightarrow> int \<Rightarrow> string \<Rightarrow> bool" where
  "visible_source s b n i \<longleftrightarrow> (\<exists>e lin. find_event s i = Some e \<and> lineage s b = Inr lin
     \<and> reaches lin (ev_branch e) (ev_seq e) \<and> ev_seq e \<le> n)"

lemma inside_reaches:
  assumes "distinct (map fst lin)"
  shows "inside lin b n = reaches lin b n"
proof -
  have "limits lin b = map_of lin b"
    unfolding limits_def using assms map_of_inject_set[of "rev lin" lin] by (simp flip: rev_map)
  then have "inside lin b n \<longleftrightarrow> (\<exists>k. map_of lin b = Some k \<and> below k n)"
    by (auto simp: inside_def split: option.splits)
  also have "\<dots> \<longleftrightarrow> reaches lin b n"
    unfolding reaches_def using assms by (auto simp: map_of_eq_Some_iff)
  finally show ?thesis .
qed

lemma event_visible_reaches:
  "event_visible s e b = Inr v \<longleftrightarrow> (\<exists>lin. lineage s b = Inr lin \<and> v = reaches lin (ev_branch e) (ev_seq e))"
  by (auto simp: event_visible_def reaches_def)

lemma find_event_unique:
  "log_ok w s \<Longrightarrow> e \<in> set (st_events s) \<Longrightarrow> find_event s (ev_id e) = Some e"
  unfolding find_event_def by (rule find_unique) (simp_all add: log_okD)

lemma find_event_grows:
  assumes "grows s s'" "find_event s i = Some e"
  shows "find_event s' i = Some e"
proof -
  have "List.find (\<lambda>x. ev_id x = i) (xs @ ys) = Some e" if "List.find (\<lambda>x. ev_id x = i) xs = Some e" for xs ys
    using that by (induction xs) (auto split: if_splits)
  then show ?thesis using assms by (auto simp: grows_def find_event_def)
qed

lemma lineage_grows:
  assumes "log_ok w s" "log_ok w s'" "grows s s'" "b \<in> branch_ids s"
  shows "lineage s' b = lineage s b"
proof -
  obtain R where "st_branches s' = st_branches s @ R" using assms(3) unfolding grows_def by blast
  then show ?thesis
    by (rule lineage_stable[OF log_okD(1)[OF assms(1)] assms(4) _ branches_ok_distinct[OF log_okD(1)[OF assms(2)]]])
qed

lemma visible_source_grows:
  assumes "log_ok w s" "log_ok w s'" "grows s s'" "b \<in> branch_ids s" "visible_source s b n i"
  shows "visible_source s' b n i"
proof -
  obtain e lin where e: "find_event s i = Some e" "lineage s b = Inr lin"
      "reaches lin (ev_branch e) (ev_seq e)" "ev_seq e \<le> n"
    using assms(5) unfolding visible_source_def by auto
  show ?thesis unfolding visible_source_def
    by (intro exI[of _ e] exI[of _ lin] conjI)
      (use e find_event_grows[OF assms(3) e(1)] lineage_grows[OF assms(1-4)] in simp_all)
qed

text \<open>What the check of the sources establishes.\<close>

lemma assert_source_events_spec:
  assumes log: "log_ok w s" and b: "b \<in> branch_ids s" and run: "assert_source_events s ids b = Inr ()"
  shows "ids \<noteq> []" "i \<in> set ids \<Longrightarrow> visible_source s b (int (length (st_events s))) i"
proof -
  let ?rows = "filter (\<lambda>e. ev_id e \<in> set ids) (st_events s)"
  obtain lin where lin: "lineage s b = Inr lin" "lineage_of (st_branches s) b lin"
    using lineage_total[OF log_okD(1)[OF log] b] by blast
  have r: "uniq ids \<noteq> []" "length ?rows = length (uniq ids)" "\<forall>e \<in> set ?rows. inside lin (ev_branch e) (ev_seq e)"
    using run lin(1) by (auto simp: assert_source_events_def Let_def split: if_splits)
  show "ids \<noteq> []" using r(1) by simp
  assume i: "i \<in> set ids"
  have "card (ev_id ` set ?rows) = length ?rows"
    using log_okD(4)[OF log] by (metis distinct_card distinct_map_filter length_map list.set_map)
  moreover have "card (set ids) = length (uniq ids)"
    by (metis distinct_card distinct_uniq set_uniq)
  moreover have "ev_id ` set ?rows \<subseteq> set ids" by auto
  ultimately have "ev_id ` set ?rows = set ids"
    using r(2) by (metis List.finite_set card_subset_eq)
  then obtain e where e: "e \<in> set ?rows" "ev_id e = i" using i by (metis imageE)
  then have "find_event s i = Some e" using find_event_unique[OF log, of e] by simp
  moreover have "reaches lin (ev_branch e) (ev_seq e)"
    using r(3) e(1) inside_reaches[OF lineage_of_distinct[OF lin(2)]] by simp
  moreover have "ev_seq e \<le> int (length (st_events s))" using log_seq_range[OF log] e(1) by simp
  ultimately show "visible_source s b (int (length (st_events s))) i"
    using lin(1) by (auto simp: visible_source_def)
qed

section \<open>The invariant\<close>

definition agent_finalized :: "(string, json) dict \<Rightarrow> bool" where
  "agent_finalized m \<longleftrightarrow> jget m ''authority_level'' = JStr ''agent_finalized''"

definition finalized_by_stop :: "store \<Rightarrow> memory_record \<Rightarrow> bool" where
  "finalized_by_stop s r \<longleftrightarrow> (\<exists>i e. me_sources r = [i] \<and> find_event s i = Some e
     \<and> origin_evidence_type e = HOST_ASSISTANT_FINALIZATION)"

definition memory_row_ok :: "store \<Rightarrow> memory_record \<Rightarrow> bool" where
  "memory_row_ok s r \<longleftrightarrow>
     me_type r \<in> set allowed_types \<and> 0 \<le> fl_value (me_risk r) \<and> fl_value (me_risk r) \<le> 1
     \<and> 0 \<le> fl_value (me_cost r) \<and> 1 \<le> me_version r
     \<and> me_sources r \<noteq> [] \<and> distinct (me_sources r)
     \<and> (\<forall>i \<in> set (me_sources r). visible_source s (me_branch r) (me_cursor r - 1) i)
     \<and> (agent_finalized (me_metadata r) \<longrightarrow> finalized_by_stop s r)"

definition chain_closed :: "memory_record list \<Rightarrow> bool" where
  "chain_closed rows \<longleftrightarrow> (\<forall>r \<in> set rows. given (me_supersedes r) \<longrightarrow>
     (\<exists>p \<in> set rows. me_id p = the (me_supersedes r) \<and> me_version r = me_version p + 1
        \<and> me_cursor p < me_cursor r))"

interpretation mem: branch_rows me_branch me_cursor chain_closed
  by unfold_locales (simp add: chain_closed_def)

definition memories_ok :: "store \<Rightarrow> bool" where
  "memories_ok s \<longleftrightarrow> mem.ok (st_memories s) s \<and> distinct (map me_id (st_memories s))
     \<and> (\<forall>r \<in> set (st_memories s). memory_row_ok s r)"

lemma memory_row_ok_grows:
  assumes "log_ok w s" "log_ok w s'" "grows s s'" "me_branch r \<in> branch_ids s" "memory_row_ok s r"
  shows "memory_row_ok s' r"
proof -
  have "finalized_by_stop s r \<Longrightarrow> finalized_by_stop s' r"
    using find_event_grows[OF assms(3)] unfolding finalized_by_stop_def by blast
  then show ?thesis
    using assms(5) visible_source_grows[OF assms(1-4)] unfolding memory_row_ok_def by blast
qed

lemma memory_branch: "memories_ok s \<Longrightarrow> r \<in> set (st_memories s) \<Longrightarrow> me_branch r \<in> branch_ids s"
  by (simp add: memories_ok_def views_ok_def cursors_ok_def)

lemma memories_ok_rows:
  assumes ok: "memories_ok s" and log: "log_ok w s" "log_ok w s'" "grows s s'"
    and same: "st_memories s' = st_memories s" and views: "mem.ok (st_memories s) s'"
  shows "memories_ok s'"
  using ok memory_row_ok_grows[OF log] memory_branch[OF ok] views unfolding memories_ok_def same by blast

lemma memories_ok_appended:
  assumes ok: "memories_ok s" and log: "log_ok w s" "log_ok w s'"
    and same: "st_branches s' = st_branches s" "st_events s' = st_events s @ es" "st_memories s' = st_memories s"
  shows "memories_ok s'"
proof (rule memories_ok_rows[OF ok log _ same(3)])
  show "grows s s'" using same by (simp add: grows_def)
  show "mem.ok (st_memories s) s'"
    by (rule mem.events_appended[OF _ same(1,2)]) (use ok in \<open>simp add: memories_ok_def\<close>)
qed

lemma memories_ok_cong:
  assumes "st_branches s' = st_branches s" "st_events s' = st_events s" "st_memories s' = st_memories s"
  shows "memories_ok s' = memories_ok s"
proof -
  have "find_event s' i = find_event s i" "lineage s' b = lineage s b" for i b
    using assms by (simp_all add: find_event_def lineage_def)
  then show ?thesis
    using assms by (simp add: memories_ok_def views_ok_cong[of s' s] memory_row_ok_def finalized_by_stop_def
        visible_source_def)
qed

section \<open>A successful derivation\<close>

text \<open>The rows a branch sees, whatever their order in the answer.\<close>

lemma list_memories_all:
  assumes "lineage s b = Inr lin"
  shows "\<exists>rs. list_memories s b all_memories = Inr rs
    \<and> set rs = {r \<in> set (st_memories s). reaches lin (me_branch r) (me_cursor r)}"
proof -
  have "set (concat (map (\<lambda>(b, k). filter (memory_matches all_memories b k) (st_memories s)) lin))
      = {r \<in> set (st_memories s). reaches lin (me_branch r) (me_cursor r)}"
    unfolding reaches_def memory_matches_def all_memories_def by (fastforce simp: given_def)
  then show ?thesis
    using assms by (simp add: list_memories_def Let_def all_memories_def given_def)
qed

text \<open>Admitting one record with the event that was just appended.\<close>

lemma memory_added:
  assumes ok: "memories_ok s" and log: "log_ok w s" "log_ok w s1" and app: "appends [e] s s1"
    and lin: "me_branch r \<in> branch_ids s" "lineage s (me_branch r) = Inr lin"
    and cur: "me_cursor r = ev_seq e" and new: "me_id r \<notin> me_id ` set (st_memories s)"
    and row: "memory_row_ok s1 r"
    and chain: "given (me_supersedes r) \<Longrightarrow> \<exists>p \<in> set (st_memories s). reaches lin (me_branch p) (me_cursor p)
        \<and> me_id p = the (me_supersedes r) \<and> me_version r = me_version p + 1"
    and s': "st_branches s' = st_branches s1" "st_events s' = st_events s1" "st_receipts s' = st_receipts s1"
      "st_memories s' = st_memories s @ [r]"
  shows "memories_ok s' \<and> log_ok w s' \<and> grows s s'"
proof -
  note s1 = appends_fields[OF app] and seq = appended_seq[OF log(2) app]
  have ok0: "mem.ok (st_memories s) s" "distinct (map me_id (st_memories s))"
    using ok by (simp_all add: memories_ok_def)
  have le: "me_cursor x \<le> int (length (st_events s))" if "x \<in> set (st_memories s)" for x
    using ok0(1) that by (simp add: views_ok_def cursors_ok_def)
  have ok1: "mem.ok (st_memories s) s1" by (rule mem.events_appended[OF ok0(1) s1(2,1)])
  have "mem.ok (st_memories s @ [r]) s1"
  proof (rule mem.row_added[OF ok1 log(2)])
    show "me_branch r \<in> branch_ids s1" "lineage s1 (me_branch r) = Inr lin"
      using lin by (simp_all add: branch_ids_cong[OF s1(2)] lineage_cong[OF s1(2)])
    show "me_cursor r = int (length (st_events s1))" using cur seq by simp
    show "me_cursor x < me_cursor r" if "x \<in> set (st_memories s)" for x using le[OF that] cur seq by simp
    show "forks_below (st_branches s1) (me_cursor r - 1)" using log_okD(2)[OF log(1)] cur seq s1(2) by simp
    have "chain_closed (view me_branch me_cursor (st_memories s) lin (me_cursor r))"
      by (rule views_okD[OF ok0(1) lin])
    moreover have "\<exists>p \<in> set (view me_branch me_cursor (st_memories s) lin (me_cursor r)).
        me_id p = the (me_supersedes r) \<and> me_version r = me_version p + 1 \<and> me_cursor p < me_cursor r"
      if "given (me_supersedes r)"
      using chain[OF that] le cur seq by (force simp: view_def)
    ultimately show "chain_closed (view me_branch me_cursor (st_memories s) lin (me_cursor r) @ [r])"
      unfolding chain_closed_def by auto
  qed
  then have views: "mem.ok (st_memories s @ [r]) s'" using s' by (simp add: views_ok_cong[of s' s1])
  have log': "log_ok w s'" using log(2) s' by (simp add: log_ok_cong[of s' s1])
  have g1: "grows s s'" "grows s1 s'" using s1 s' by (simp_all add: grows_def)
  have "memory_row_ok s' r"
    by (rule memory_row_ok_grows[OF log(2) log' g1(2) _ row]) (simp add: branch_ids_cong[OF s1(2)] lin)
  moreover have "memory_row_ok s' x" if "x \<in> set (st_memories s)" for x
    by (rule memory_row_ok_grows[OF log(1) log' g1(1) memory_branch[OF ok that]])
      (use ok that in \<open>simp add: memories_ok_def\<close>)
  ultimately show ?thesis
    using views log' g1(1) ok0(2) new s'(4) by (auto simp: memories_ok_def)
qed

lemma derive_memory_cases:
  assumes "derive_memory w draft s = Inr (r, s')"
  obtains d t version e s1 s2 where
    "d = safe_draft w draft" "check_memory_draft draft = Inr ()"
    "assert_source_events s (md_sources d) (md_branch d) = Inr ()"
    "assert_agent_finalized_authority s (md_metadata d) (md_sources d) = Inr ()"
    "normalize_temporal_input s (md_from d) (md_to d) (md_sources d) = Inr t"
    "s1 = s\<lparr>st_uuid := st_uuid s + 1\<rparr>"
    "superseding_version s1 (md_supersedes d) (md_branch d) = Inr version"
    "append_event_in_tx w
       \<lparr>dr_branch = md_branch d, dr_session = fst (common_event_trace s (md_sources d)),
        dr_kind = ''state'', dr_role = None, dr_content = ''derived '' @ md_type d @ '': '' @ md_summary d,
        dr_channel = INTERNAL, dr_adapter = snd (common_event_trace s (md_sources d)),
        dr_payload = derivation_payload (''mem_'' @ w_uuid w (st_uuid s)) d t, dr_files = md_files d\<rparr> s1
      = Inr (e, s2)"
    "r = memory_row d t (''mem_'' @ w_uuid w (st_uuid s)) version (ev_seq e) (w_now w (st_tick s2))"
    "me_id r \<notin> me_id ` set (st_memories s)"
    "s' = s2\<lparr>st_tick := st_tick s2 + 1, st_memories := st_memories s @ [r]\<rparr>"
proof -
  let ?s1 = "s\<lparr>st_uuid := st_uuid s + 1\<rparr>" and ?d = "safe_draft w draft"
  let ?ev = "\<lambda>t. \<lparr>dr_branch = md_branch ?d, dr_session = fst (common_event_trace s (md_sources ?d)),
        dr_kind = ''state'', dr_role = None, dr_content = ''derived '' @ md_type ?d @ '': '' @ md_summary ?d,
        dr_channel = INTERNAL, dr_adapter = snd (common_event_trace s (md_sources ?d)),
        dr_payload = derivation_payload (''mem_'' @ w_uuid w (st_uuid s)) ?d t, dr_files = md_files ?d\<rparr>"
  obtain t version e s2 where h: "check_memory_draft draft = Inr ()"
      "assert_source_events s (md_sources ?d) (md_branch ?d) = Inr ()"
      "assert_agent_finalized_authority s (md_metadata ?d) (md_sources ?d) = Inr ()"
      "normalize_temporal_input s (md_from ?d) (md_to ?d) (md_sources ?d) = Inr t"
      "superseding_version ?s1 (md_supersedes ?d) (md_branch ?d) = Inr version"
      "append_event_in_tx w (?ev t) ?s1 = Inr (e, s2)"
      "(let (now, s3) = read_clock w s2;
            record = memory_row ?d t (''mem_'' @ w_uuid w (st_uuid s)) version (ev_seq e) now
        in bindr (insert_memory record s3) (\<lambda>s4. Inr (record, s4))) = Inr (r, s')"
    using assms by (auto simp: derive_memory_def Let_def fresh_uuid_def split_beta)
  have "st_memories s2 = st_memories s" "st_branches s2 = st_branches s"
    using appends_fields(2,10)[OF append_event_in_tx_appended[OF h(6)]] by simp_all
  then show thesis
    using that[OF refl h(1-4) refl h(5,6)] h(7)
    by (auto simp: Let_def read_clock_def insert_memory_def)
qed

lemma superseding_version_spec:
  assumes run: "superseding_version s old b = Inr version" and lin: "lineage s b = Inr lin"
    and ids: "distinct (map me_id (st_memories s))"
  shows "given old \<Longrightarrow> \<exists>p \<in> set (st_memories s). reaches lin (me_branch p) (me_cursor p)
      \<and> me_id p = the old \<and> version = me_version p + 1"
    and "\<not> given old \<Longrightarrow> version = 1"
proof -
  show "\<not> given old \<Longrightarrow> version = 1" using run by (simp add: superseding_version_def)
  assume g: "given old"
  obtain rs where rs: "list_memories s b all_memories = Inr rs"
      "set rs = {r \<in> set (st_memories s). reaches lin (me_branch r) (me_cursor r)}"
    using list_memories_all[OF lin] by blast
  then obtain p where p: "List.find (\<lambda>r. me_id r = the old) (st_memories s) = Some p" "the old \<in> me_id ` set rs"
      "version = me_version p + 1"
    using run g by (auto simp: superseding_version_def split: option.splits if_splits)
  then obtain q where q: "q \<in> set rs" "me_id q = the old" by auto
  have "p \<in> set (st_memories s)" "me_id p = the old" using find_Some_iff2[OF p(1)] by simp_all
  moreover have "q \<in> set (st_memories s)" using q rs(2) by simp
  moreover have "inj_on me_id (set (st_memories s))" using ids by (simp add: distinct_map)
  ultimately have "p = q" using q(2) by (metis inj_onD)
  then show "\<exists>p \<in> set (st_memories s). reaches lin (me_branch p) (me_cursor p)
      \<and> me_id p = the old \<and> version = me_version p + 1"
    using q rs(2) p(3) by auto
qed

lemma derive_memory_step:
  assumes ok: "memories_ok s" and log: "log_ok w s" and run: "derive_memory w draft s = Inr (r, s')"
  shows "memories_ok s' \<and> log_ok w s' \<and> grows s s'"
proof (rule derive_memory_cases[OF run], goal_cases)
  case (1 d t version e s1 s2)
  have log1: "log_ok w s1" using log unfolding 1(6) by (simp add: log_ok_counters)
  have ok1: "memories_ok s1" using ok memories_ok_cong[of s1 s] by (simp add: 1(6))
  note app = append_event_in_tx_appended[OF 1(8)]
  have log2: "log_ok w s2"
    by (rule append_event_in_tx_log_ok[OF log1 1(8)]) (simp add: channel_defs)
  have b: "md_branch d \<in> branch_ids s1" by (rule append_event_in_tx_cases[OF 1(8)]) simp
  obtain lin where lin: "lineage s1 (md_branch d) = Inr lin"
    using lineage_total[OF log_okD(1)[OF log1] b] by blast
  have b0: "md_branch d \<in> branch_ids s" and g: "grows s s2"
    using b appends_grows[OF app] by (simp_all add: 1(6) branch_ids_def grows_def)
  have r: "me_branch r = md_branch d" "me_cursor r = ev_seq e" "me_sources r = md_sources d"
      "me_supersedes r = md_supersedes d" "me_version r = version" "me_metadata r = md_metadata d"
      "me_type r = md_type draft" "me_risk r = md_risk draft" "me_cost r = md_cost draft"
    unfolding 1(9) by (simp_all add: memory_row_def 1(1) safe_draft_def)
  have seq: "ev_seq e - 1 = int (length (st_events s))"
    using appended_seq[OF log2 app] by (simp add: 1(6))
  have prev: "given (md_supersedes d) \<Longrightarrow> \<exists>p \<in> set (st_memories s1). reaches lin (me_branch p) (me_cursor p)
        \<and> me_id p = the (md_supersedes d) \<and> version = me_version p + 1"
    and first: "\<not> given (md_supersedes d) \<Longrightarrow> version = 1"
    using superseding_version_spec[OF 1(7) lin] ok1 by (auto simp: memories_ok_def)
  have "1 \<le> version"
  proof (cases "given (md_supersedes d)")
    case True
    then show ?thesis using prev ok1 by (force simp: memories_ok_def memory_row_ok_def)
  qed (simp add: first)
  moreover have "visible_source s2 (md_branch d) (ev_seq e - 1) i" if "i \<in> set (md_sources d)" for i
    unfolding seq
    by (rule visible_source_grows[OF log log2 g b0 assert_source_events_spec(2)[OF log b0 1(3) that]])
  moreover have "md_sources d \<noteq> []" "distinct (md_sources d)"
    using assert_source_events_spec(1)[OF log b0 1(3)] by (simp_all add: 1(1) safe_draft_def)
  moreover have "finalized_by_stop s2 r" if "agent_finalized (md_metadata d)"
    using that 1(4) find_event_grows[OF g] r(3)
    by (auto simp: assert_agent_finalized_authority_def agent_finalized_def finalized_by_stop_def
        split: list.splits option.splits if_splits)
  ultimately have row: "memory_row_ok s2 r"
    using 1(2) r by (auto simp: memory_row_ok_def check_memory_draft_def split: if_splits)
  have "memories_ok s' \<and> log_ok w s' \<and> grows s1 s'"
    by (rule memory_added[OF ok1 log1 log2 app _ _ r(2) _ row])
      (use b lin r prev 1(10) in \<open>simp_all add: 1(11) 1(6)\<close>)
  then show ?case by (simp add: 1(6) grows_def)
qed

end
