(* ===== verification/LedgerFacts.thy ===== *)
theory LedgerFacts
  imports Histories MemoryFacts
begin

text \<open>
  The invariants of the ledgers and their preservation: policies are a linked, trusted
  sequence; the rows of the candidate and finding ledgers cite events of the log with the
  origin that those events have, and form legal histories.
\<close>

section \<open>Drawing a name or a time changes nothing that is read\<close>

lemma counters [simp]:
  "lineage (s\<lparr>st_uuid := u\<rparr>) b = lineage s b" "lineage (s\<lparr>st_tick := t\<rparr>) b = lineage s b"
  "find_event (s\<lparr>st_uuid := u\<rparr>) i = find_event s i" "find_event (s\<lparr>st_tick := t\<rparr>) i = find_event s i"
  "find_candidate (s\<lparr>st_uuid := u\<rparr>) i = find_candidate s i" "find_candidate (s\<lparr>st_tick := t\<rparr>) i = find_candidate s i"
  "find_run (s\<lparr>st_uuid := u\<rparr>) i = find_run s i" "find_run (s\<lparr>st_tick := t\<rparr>) i = find_run s i"
  "last_move (s\<lparr>st_uuid := u\<rparr>) i = last_move s i" "last_move (s\<lparr>st_tick := t\<rparr>) i = last_move s i"
  "latest_policy (s\<lparr>st_uuid := u\<rparr>) = latest_policy s" "latest_policy (s\<lparr>st_tick := t\<rparr>) = latest_policy s"
  "last_finding_move (s\<lparr>st_uuid := u\<rparr>) i = last_finding_move s i"
  "last_finding_move (s\<lparr>st_tick := t\<rparr>) i = last_finding_move s i"
  by (simp_all add: lineage_def find_event_def find_candidate_def find_run_def last_move_def
      latest_policy_def last_finding_move_def)

lemma counters_derived [simp]:
  "event_visible (s\<lparr>st_uuid := u\<rparr>) e b = event_visible s e b" "event_visible (s\<lparr>st_tick := t\<rparr>) e b = event_visible s e b"
  "candidate_status (s\<lparr>st_uuid := u\<rparr>) i = candidate_status s i"
  "candidate_status (s\<lparr>st_tick := t\<rparr>) i = candidate_status s i"
  "candidate_event (s\<lparr>st_uuid := u\<rparr>) i = candidate_event s i"
  "candidate_event (s\<lparr>st_tick := t\<rparr>) i = candidate_event s i"
  "delegation_enabled (s\<lparr>st_uuid := u\<rparr>) = delegation_enabled s"
  "delegation_enabled (s\<lparr>st_tick := t\<rparr>) = delegation_enabled s"
  by (simp_all add: event_visible_def candidate_status_def candidate_event_def delegation_enabled_def
      cong: option.case_cong)

section \<open>Tables that only grow\<close>

lemma find_append: "List.find P xs = Some x \<Longrightarrow> List.find P (xs @ ys) = Some x"
  by (induction xs) (auto split: if_splits)

lemma find_event_cong: "st_events s' = st_events s \<Longrightarrow> find_event s' i = find_event s i"
  by (simp add: find_event_def)

lemma find_candidate_Some: "find_candidate s i = Some c \<Longrightarrow> c \<in> set (st_candidates s) \<and> ca_id c = i"
  unfolding find_candidate_def by (rule find_Some_iff2)

lemma find_candidate_None: "find_candidate s i = None \<longleftrightarrow> i \<notin> ca_id ` set (st_candidates s)"
  by (auto simp: find_candidate_def find_None_iff)

text \<open>
  \<open>extends s s'\<close>: events, runs and candidates were only added, and the branches are the
  same; a call that raises or that leaves these tables alone is the trivial case.
\<close>

definition extends :: "store \<Rightarrow> store \<Rightarrow> bool" where
  "extends s s' \<longleftrightarrow> st_branches s' = st_branches s \<and> (\<exists>es. st_events s' = st_events s @ es)
     \<and> (\<exists>rs. st_runs s' = st_runs s @ rs) \<and> (\<exists>cs. st_candidates s' = st_candidates s @ cs)"

lemma extends_refl [simp]: "extends s s"
  by (simp add: extends_def)

lemma extends_trans: "extends s t \<Longrightarrow> extends t u \<Longrightarrow> extends s u"
  unfolding extends_def by (metis append.assoc)

lemma extends_same:
  "st_branches s' = st_branches s \<Longrightarrow> st_events s' = st_events s \<Longrightarrow> st_runs s' = st_runs s \<Longrightarrow>
     st_candidates s' = st_candidates s \<Longrightarrow> extends s s'"
  by (simp add: extends_def)

lemma extends_find:
  assumes "extends s s'"
  shows "find_event s i = Some e \<Longrightarrow> find_event s' i = Some e"
    "find_candidate s i = Some c \<Longrightarrow> find_candidate s' i = Some c"
    "find_run s i = Some r \<Longrightarrow> find_run s' i = Some r"
  using assms find_append by (auto simp: extends_def find_event_def find_candidate_def find_run_def)

lemma candidate_event_extends:
  assumes "extends s s'" "candidate_event s i = Some (c, t)"
  shows "candidate_event s' i = Some (c, t)"
  using assms(2) extends_find[OF assms(1)]
  by (auto simp: candidate_event_def split: option.splits)

lemma appendsE:
  "appends es s s' \<Longrightarrow> \<exists>u t. s' = s\<lparr>st_uuid := u, st_tick := t, st_events := st_events s @ es\<rparr>"
  unfolding appends_def by blast

lemma append_extends:
  assumes "append_event_in_tx w d s = Inr (e, s')"
  shows "extends s s'"
  using append_event_in_tx_appended[OF assms] by (cases s; cases s') (simp add: appends_def extends_def)

section \<open>Candidates\<close>

text \<open>The row cites an event of the log that the candidate's branch sees, by its own origin.\<close>

definition cites_visible :: "store \<Rightarrow> candidate_move \<Rightarrow> bool" where
  "cites_visible s m \<longleftrightarrow> (\<exists>c t e lin. candidate_event s (mv_candidate m) = Some (c, t)
     \<and> find_event s (mv_event m) = Some e \<and> mv_origin m = origin_evidence_type e
     \<and> lineage s (ev_branch t) = Inr lin \<and> reaches lin (ev_branch e) (ev_seq e))"

definition settlement_states :: "string list" where
  "settlement_states = map fst SETTLEMENT_FLOW"

definition candidates_ok :: "store \<Rightarrow> bool" where
  "candidates_ok s \<longleftrightarrow>
     history_ok mv_candidate mv_from mv_to candidate_move_legal (st_moves s)
     \<and> distinct (map ca_id (st_candidates s))
     \<and> (\<forall>m \<in> set (st_moves s). mv_candidate m \<in> ca_id ` set (st_candidates s)
           \<and> (mv_from m \<noteq> None \<longrightarrow> cites_visible s m))
     \<and> (\<forall>c \<in> set (st_candidates s). ca_kind c \<noteq> ''extraction'' \<longrightarrow>
           candidate_status s (ca_id c) \<in> Some ` set settlement_states)"

lemma cites_visible_extends:
  assumes "extends s s'" "cites_visible s m"
  shows "cites_visible s' m"
proof -
  obtain c t e lin where h: "candidate_event s (mv_candidate m) = Some (c, t)"
     "find_event s (mv_event m) = Some e" "mv_origin m = origin_evidence_type e"
     "lineage s (ev_branch t) = Inr lin" "reaches lin (ev_branch e) (ev_seq e)"
    using assms(2) unfolding cites_visible_def by auto
  have "lineage s' (ev_branch t) = Inr lin" using h(4) assms(1) by (simp add: extends_def lineage_def)
  then show ?thesis unfolding cites_visible_def
    using h candidate_event_extends[OF assms(1) h(1)] extends_find(1)[OF assms(1) h(2)] by auto
qed

lemma candidate_status_cong: "st_moves s' = st_moves s \<Longrightarrow> candidate_status s' i = candidate_status s i"
  by (simp add: candidate_status_def last_move_def)

lemma candidates_ok_kept:
  assumes "candidates_ok s" "extends s s'" "st_moves s' = st_moves s" "st_candidates s' = st_candidates s"
  shows "candidates_ok s'"
  using assms cites_visible_extends[OF assms(2)] candidate_status_cong[OF assms(3)]
  by (auto simp: candidates_ok_def)

text \<open>Forks leave the ledgers alone: the lineages of the branches there were are the same.\<close>

lemma candidates_ok_grown:
  assumes ok: "candidates_ok s" and log: "log_ok w s" "log_ok w s'" "grows s s'"
    and same: "st_moves s' = st_moves s" "st_candidates s' = st_candidates s" "st_runs s' = st_runs s"
  shows "candidates_ok s'"
proof -
  have "cites_visible s' m" if m: "cites_visible s m" for m
  proof -
    obtain c t e lin where h: "candidate_event s (mv_candidate m) = Some (c, t)"
       "find_event s (mv_event m) = Some e" "mv_origin m = origin_evidence_type e"
       "lineage s (ev_branch t) = Inr lin" "reaches lin (ev_branch e) (ev_seq e)"
      using m unfolding cites_visible_def by auto
    obtain r where r: "find_candidate s (mv_candidate m) = Some c" "find_run s (ca_run c) = Some r"
        "find_event s (ru_event r) = Some t"
      using h(1) by (auto simp: candidate_event_def split: option.splits)
    have "candidate_event s' (mv_candidate m) = Some (c, t)"
      using r same find_event_grows[OF log(3) r(3)]
      by (simp add: candidate_event_def find_candidate_def find_run_def)
    moreover have "ev_branch t \<in> branch_ids s"
      using find_event_Some[OF r(3)] log_okD(6)[OF log(1)] by auto
    ultimately show ?thesis
      using h find_event_grows[OF log(3) h(2)] lineage_grows[OF log] unfolding cites_visible_def by auto
  qed
  then show ?thesis
    using ok same candidate_status_cong[OF same(1)] by (auto simp: candidates_ok_def)
qed

lemma insert_move_Inr:
  "insert_move m s = Inr s' \<longleftrightarrow>
     mv_id m \<notin> mv_id ` set (st_moves s) \<and> mv_candidate m \<in> ca_id ` set (st_candidates s)
     \<and> find_event s (mv_event m) \<noteq> None
     \<and> reference (mv_repl_candidate m) (ca_id ` set (st_candidates s))
     \<and> reference (mv_repl_memory m) (me_id ` set (st_memories s))
     \<and> reference (mv_run m) (ru_id ` set (st_runs s))
     \<and> s' = s\<lparr>st_moves := st_moves s @ [m]\<rparr>"
  by (auto simp: insert_move_def)

lemma settlement_closed:
  "candidate_move_legal m f \<Longrightarrow> f \<in> set settlement_states \<Longrightarrow> mv_to m \<in> set settlement_states"
proof -
  assume a: "candidate_move_legal m f" "f \<in> set settlement_states"
  then have "flow_allows SETTLEMENT_FLOW f (mv_to m)"
    by (auto simp: candidate_move_legal_def move_legal_def rule_of_move_def settlement_states_def
        SETTLEMENT_RULE_def split: if_splits)
  then show ?thesis
    by (auto simp: flow_allows_def SETTLEMENT_FLOW_def dget_default_def settlement_states_def split: if_splits)
qed

text \<open>One more move of a candidate, judged legal and citing a visible event.\<close>

lemma move_added:
  assumes ok: "candidates_ok s" and st: "candidate_status s (mv_candidate m) = Some f"
    and legal: "candidate_move_legal m f" and cites: "cites_visible s m"
    and s': "st_moves s' = st_moves s @ [m]" "st_candidates s' = st_candidates s" "extends s s'"
  shows "candidates_ok s'"
proof -
  obtain p where p: "find_last (\<lambda>x. mv_candidate x = mv_candidate m) (st_moves s) = Some p" "mv_to p = f"
    using st by (auto simp: candidate_status_def last_move_def)
  have "history_ok mv_candidate mv_from mv_to candidate_move_legal (st_moves s @ [m])"
    by (rule history_ok.next_move[OF _ p(1)])
      (use ok legal p(2) in \<open>auto simp: candidates_ok_def candidate_move_legal_def\<close>)
  moreover have "mv_candidate m \<in> ca_id ` set (st_candidates s)"
    using ok find_last_Some[OF p(1)] unfolding candidates_ok_def by metis
  moreover have "candidate_status s' i = (if mv_candidate m = i then Some (mv_to m) else candidate_status s i)" for i
    by (simp add: candidate_status_def last_move_def s'(1))
  moreover have "mv_to m \<in> set settlement_states" if "c \<in> set (st_candidates s)" "ca_kind c \<noteq> ''extraction''"
      "mv_candidate m = ca_id c" for c
  proof (rule settlement_closed[OF legal])
    show "f \<in> set settlement_states" using ok that st by (auto simp: candidates_ok_def)
  qed
  ultimately show ?thesis
    using ok cites cites_visible_extends[OF s'(3)] s'(1,2) by (auto simp: candidates_ok_def)
qed

lemma candidate_row_move_fields:
  fixes mid cid frm to_st e actor rule rc rm run now
  defines "m \<equiv> candidate_row_move mid cid frm to_st e actor rule rc rm run now"
  shows "mv_candidate m = cid" "mv_from m = frm" "mv_to m = to_st" "mv_event m = ev_id e"
    "mv_origin m = origin_evidence_type e" "mv_actor m = actor" "mv_id m = mid" "mv_run m = run"
  by (simp_all add: m_def candidate_row_move_def)

text \<open>A validated move under the candidate rule is legal for its row.\<close>

lemma candidate_rule_move:
  assumes "validate_transition CANDIDATE_RULE f target (mv_origin m) visible deleg False reason False = Inr d"
    and "td_changed d" "mv_from m = Some f" "mv_to m = target"
  shows "candidate_move_legal m f \<and> visible"
proof -
  have l: "move_legal CANDIDATE_RULE f target (mv_origin m) False \<and> visible"
    using validated_move_legal[OF assms(1,2)] by simp
  then have "f \<notin> set (map fst SETTLEMENT_FLOW)"
    by (auto simp: move_legal_def CANDIDATE_RULE_def flow_allows_def flow_defs dget_default_def)
  then have "rule_of_move m = CANDIDATE_RULE" using assms(3) by (simp add: rule_of_move_def)
  then show ?thesis using l assms rules_distinct by (simp add: candidate_move_legal_def exempt_move_def move_legal_def)
qed

lemma settlement_rule_move:
  assumes "validate_transition SETTLEMENT_RULE f target (mv_origin m) visible deleg False reason (mv_actor m = ''system'') = Inr d"
    and "td_changed d" "mv_from m = Some f" "mv_to m = target"
  shows "candidate_move_legal m f \<and> visible"
proof -
  have l: "move_legal SETTLEMENT_RULE f target (mv_origin m) (mv_actor m = ''system'') \<and> visible"
    using validated_move_legal[OF assms(1,2)] by simp
  then have "f \<in> set (map fst SETTLEMENT_FLOW)"
    by (auto simp: move_legal_def SETTLEMENT_RULE_def flow_allows_def flow_defs dget_default_def split: if_splits)
  then have "rule_of_move m = SETTLEMENT_RULE" using assms(3) by (simp add: rule_of_move_def)
  then show ?thesis using l assms by (simp add: candidate_move_legal_def exempt_move_def move_legal_def)
qed

section \<open>The operations on candidates\<close>

text \<open>What a call on the candidate ledger leaves alone.\<close>

definition only_moves :: "store \<Rightarrow> store \<Rightarrow> bool" where
  "only_moves s s' \<longleftrightarrow> s' = s\<lparr>st_uuid := st_uuid s', st_tick := st_tick s', st_moves := st_moves s'\<rparr>"

lemma only_moves_fields:
  assumes "only_moves s s'"
  shows "st_branches s' = st_branches s" "st_events s' = st_events s" "st_receipts s' = st_receipts s"
    "st_blocks s' = st_blocks s" "st_memories s' = st_memories s" "st_candidates s' = st_candidates s"
    "st_runs s' = st_runs s" "st_policies s' = st_policies s" "st_findings s' = st_findings s"
    "st_finding_moves s' = st_finding_moves s" "st_tasks s' = st_tasks s" "st_sessions s' = st_sessions s"
  using assms by (cases s; cases s'; simp add: only_moves_def)+

lemma event_visible_cong: "st_branches s' = st_branches s \<Longrightarrow> event_visible s' e b = event_visible s e b"
  by (simp add: event_visible_def lineage_def)

lemma cites_visibleI:
  assumes "candidate_event s (mv_candidate m) = Some (c, t)" "find_event s (mv_event m) = Some e"
    "mv_origin m = origin_evidence_type e" "event_visible s e (ev_branch t) = Inr True"
  shows "cites_visible s m"
  using assms by (auto simp: cites_visible_def event_visible_reaches)

lemma require_event_Inr: "require_event what s i = Inr e \<longleftrightarrow> find_event s i = Some e"
  by (auto simp: require_event_def split: option.splits)

lemma transition_candidate_cases:
  assumes "transition_candidate w cid target src actor rule rc rm s = Inr (r, s')"
  obtains (same) "r = None" "s' = s\<lparr>st_uuid := st_uuid s + 1\<rparr>" "candidate_status s cid = Some target"
  | (moved) f c t e m where "candidate_status s cid = Some f" "candidate_event s cid = Some (c, t)"
      "find_event s src = Some e" "event_visible s e (ev_branch t) = Inr True"
      "m = candidate_row_move (''ctr_'' @ w_uuid w (st_uuid s)) cid (Some f) target e actor rule rc rm None
             (w_now w (st_tick s))"
      "candidate_move_legal m f" "r = Some (mv_id m)"
      "s' = s\<lparr>st_uuid := st_uuid s + 1, st_tick := st_tick s + 1, st_moves := st_moves s @ [m]\<rparr>"
proof -
  let ?s1 = "s\<lparr>st_uuid := st_uuid s + 1\<rparr>"
  obtain f c t e visible d where h: "candidate_status s cid = Some f" "candidate_event s cid = Some (c, t)"
      "find_event s src = Some e" "event_visible s e (ev_branch t) = Inr visible"
      "validate_transition CANDIDATE_RULE f target (origin_evidence_type e) visible (delegation_enabled s)
         False [] False = Inr d"
      and rest: "(if \<not> td_changed d then Inr (None, ?s1)
        else (let (now, s2) = read_clock w ?s1
              in bindr (insert_move (candidate_row_move (''ctr_'' @ w_uuid w (st_uuid s)) cid (Some f)
                          target e actor rule rc rm None now) s2)
                   (\<lambda>s3. Inr (Some (''ctr_'' @ w_uuid w (st_uuid s)), s3)))) = Inr (r, s')"
    using assms
    by (auto simp: transition_candidate_def Let_def fresh_uuid_def require_event_def
        split: if_splits option.splits)
  show thesis
  proof (cases "td_changed d")
    case False
    then have "f = target" using validated_same[OF h(5)] by blast
    then show ?thesis using that(1) rest h(1) False by simp
  next
    case True
    let ?m = "candidate_row_move (''ctr_'' @ w_uuid w (st_uuid s)) cid (Some f) target e actor rule rc rm None
             (w_now w (st_tick s))"
    have "candidate_move_legal ?m f \<and> visible"
      by (rule candidate_rule_move[where deleg = "delegation_enabled s" and reason = "[]" and d = d])
        (use h(5) True in \<open>simp_all add: candidate_row_move_fields\<close>)
    then show ?thesis
      using that(2)[OF h(1-3) _ refl] rest True h(4)
      by (auto simp: read_clock_def insert_move_Inr candidate_row_move_fields)
  qed
qed

lemma transition_candidate_step:
  assumes ok: "candidates_ok s" and run: "transition_candidate w cid target src actor rule rc rm s = Inr (r, s')"
  shows "candidates_ok s' \<and> only_moves s s' \<and> candidate_status s' cid = Some target"
  using run
proof (cases rule: transition_candidate_cases)
  case same
  then show ?thesis
    using candidates_ok_kept[OF ok, of s'] by (simp add: only_moves_def extends_same)
next
  case (moved f c t e m)
  have m: "mv_candidate m = cid" "mv_event m = ev_id e" "mv_origin m = origin_evidence_type e" "mv_to m = target"
    unfolding moved(5) by (simp_all add: candidate_row_move_fields)
  have "ev_id e = src" using find_event_Some[OF moved(3)] by simp
  then have "cites_visible s m"
    using moved m by (intro cites_visibleI[of s m c t e]) simp_all
  then have "candidates_ok s'"
    by (intro move_added[OF ok _ moved(6)]) (use moved m in \<open>simp_all add: extends_same\<close>)
  then show ?thesis
    using m by (simp add: moved(8) only_moves_def candidate_status_def last_move_def)
qed

lemma settle_candidate_cases:
  assumes "settle_candidate w cid target src actor rule s = Inr (r, s')"
    and ok: "candidates_ok s"
  obtains (same) "r = None" "s' = s" "candidate_status s cid = Some target"
  | (moved) f c t e m where "candidate_status s cid = Some f" "candidate_event s cid = Some (c, t)"
      "find_event s src = Some e" "event_visible s e (ev_branch t) = Inr True"
      "m = candidate_row_move (''ctr_'' @ w_uuid w (st_uuid s)) cid (Some f) target e actor rule None None None
             (w_now w (st_tick s))"
      "candidate_move_legal m f" "r = Some (mv_id m)" "ca_kind c \<noteq> ''extraction''"
      "s' = s\<lparr>st_uuid := st_uuid s + 1, st_tick := st_tick s + 1, st_moves := st_moves s @ [m]\<rparr>"
proof -
  obtain c t e where h: "candidate_event s cid = Some (c, t)" "ca_kind c \<noteq> ''extraction''" "find_event s src = Some e"
    using assms(1)
    by (auto simp: settle_candidate_def require_event_Inr split: if_splits option.splits)
  have c: "c \<in> set (st_candidates s)" "ca_id c = cid"
    using h(1) find_candidate_Some by (auto simp: candidate_event_def split: option.splits)
  then obtain f where f: "candidate_status s cid = Some f" "f \<in> set settlement_states"
    using ok h(2) unfolding candidates_ok_def by auto
  then have g: "given (Some f)" by (auto simp: given_def settlement_states_def SETTLEMENT_FLOW_def)
  obtain visible d where v: "event_visible s e (ev_branch t) = Inr visible"
      "validate_transition SETTLEMENT_RULE f target (origin_evidence_type e) visible (delegation_enabled s)
         False [] (actor = ''system'') = Inr d"
      and rest: "(if \<not> td_changed d then Inr (None, s)
              else (let (hex, s1) = fresh_uuid w s;
                        (now, s2) = read_clock w s1
                    in bindr (insert_move (candidate_row_move (''ctr_'' @ hex) cid (Some f)
                                target e actor rule None None None now) s2)
                         (\<lambda>s3. Inr (Some (''ctr_'' @ hex), s3)))) = Inr (r, s')"
    using assms(1) h f(1) g
    by (auto simp: settle_candidate_def require_event_def Let_def split: if_splits)
  show thesis
  proof (cases "td_changed d")
    case False
    then have "f = target" using validated_same[OF v(2)] by blast
    then show ?thesis using that(1) rest f(1) False by simp
  next
    case True
    let ?m = "candidate_row_move (''ctr_'' @ w_uuid w (st_uuid s)) cid (Some f) target e actor rule None None None
             (w_now w (st_tick s))"
    have "candidate_move_legal ?m f \<and> visible"
      by (rule settlement_rule_move[where deleg = "delegation_enabled s" and reason = "[]" and d = d])
        (use v(2) True in \<open>simp_all add: candidate_row_move_fields\<close>)
    then show ?thesis
      using that(2)[OF f(1) h(1,3) _ refl] rest True v(1) h(2)
      by (auto simp: read_clock_def fresh_uuid_def insert_move_Inr candidate_row_move_fields)
  qed
qed

lemma settle_candidate_step:
  assumes ok: "candidates_ok s" and run: "settle_candidate w cid target src actor rule s = Inr (r, s')"
  shows "candidates_ok s' \<and> only_moves s s' \<and> candidate_status s' cid = Some target"
  using run ok
proof (cases rule: settle_candidate_cases)
  case same
  then show ?thesis using ok by (simp add: only_moves_def)
next
  case (moved f c t e m)
  have m: "mv_candidate m = cid" "mv_event m = ev_id e" "mv_origin m = origin_evidence_type e" "mv_to m = target"
    unfolding moved(5) by (simp_all add: candidate_row_move_fields)
  have "ev_id e = src" using find_event_Some[OF moved(3)] by simp
  then have "cites_visible s m"
    using moved m by (intro cites_visibleI[of s m c t e]) simp_all
  then have "candidates_ok s'"
    by (intro move_added[OF ok _ moved(6)]) (use moved m in \<open>simp_all add: extends_same\<close>)
  then show ?thesis
    using m by (simp add: moved(9) only_moves_def candidate_status_def last_move_def)
qed

lemma only_moves_trans: "only_moves s t \<Longrightarrow> only_moves t u \<Longrightarrow> only_moves s u"
  by (cases s; cases t; cases u) (simp add: only_moves_def)

text \<open>A request is recorded with the event that the call itself appends.\<close>

definition only_requests :: "store \<Rightarrow> store \<Rightarrow> bool" where
  "only_requests s s' \<longleftrightarrow> (\<exists>es. s' = s\<lparr>st_uuid := st_uuid s', st_tick := st_tick s',
     st_events := st_events s @ es, st_moves := st_moves s'\<rparr>)"

lemma only_requests_fields:
  assumes "only_requests s s'"
  shows "st_branches s' = st_branches s" "\<exists>es. st_events s' = st_events s @ es" "st_receipts s' = st_receipts s"
    "st_blocks s' = st_blocks s" "st_memories s' = st_memories s" "st_candidates s' = st_candidates s"
    "st_runs s' = st_runs s" "st_policies s' = st_policies s" "st_findings s' = st_findings s"
    "st_finding_moves s' = st_finding_moves s" "st_tasks s' = st_tasks s"
  using assms by (cases s; cases s'; simp add: only_requests_def; blast?)+

lemma only_requests_refl [simp]: "only_requests s s"
  unfolding only_requests_def by (rule exI[of _ "[]"]) simp

lemma only_requestsI:
  "s' = s\<lparr>st_uuid := u, st_tick := t, st_events := st_events s @ es, st_moves := ms\<rparr> \<Longrightarrow> only_requests s s'"
  unfolding only_requests_def by (rule exI[of _ es]) simp

lemma append_candidate_request_step:
  assumes ok: "candidates_ok s" and log: "log_ok w s"
    and run: "append_candidate_request w cid req b action org rc rm s = Inr (r, s')"
  shows "candidates_ok s' \<and> log_ok w s' \<and> only_requests s s'"
proof (cases "candidate_status s cid = Some req")
  case True
  then have "s' = s"
    using run by (auto simp: append_candidate_request_def candidate_status_def split: if_splits option.splits)
  then show ?thesis using ok log by simp
next
  case False
  let ?d = "state_draft b None (''candidate '' @ action @ '' requested: '' @ cid)
       [(''operation'', JStr req), (''candidate_id'', JStr cid),
        (''replacement_candidate_id'', opt_str rc), (''replacement_memory_id'', opt_str rm),
        (''origin_evidence_type'', JStr org)] []"
  obtain p c t e s1 where h: "last_move s cid = Some p" "candidate_event s cid = Some (c, t)"
      "append_event_in_tx w ?d s = Inr (e, s1)"
      and rest: "bindr (event_visible s1 e (ev_branch t)) (\<lambda>visible.
          bindr (validate_transition CANDIDATE_RULE (mv_to p) req (origin_evidence_type e) visible False False [] False) (\<lambda>_.
            let (now, s3) = read_clock w (s1\<lparr>st_uuid := st_uuid s1 + 1\<rparr>)
            in bindr (insert_move (candidate_row_move (''ctr_'' @ w_uuid w (st_uuid s1)) cid (Some (mv_to p))
                        req e ''request_reducer'' (''untrusted_'' @ action @ ''_request'') rc rm None now) s3)
                 (\<lambda>s4. Inr ((e, ''ctr_'' @ w_uuid w (st_uuid s1)), s4)))) = Inr (r, s')"
    using run False
    by (auto simp: append_candidate_request_def candidate_status_def fresh_uuid_def split: if_splits option.splits)
  let ?m = "candidate_row_move (''ctr_'' @ w_uuid w (st_uuid s1)) cid (Some (mv_to p)) req e ''request_reducer''
              (''untrusted_'' @ action @ ''_request'') rc rm None (w_now w (st_tick s1))"
  note ext = append_extends[OF h(3)] and app = append_event_in_tx_appended[OF h(3)]
  have log1: "log_ok w s1"
    by (rule append_event_in_tx_log_ok[OF log h(3)]) (simp add: state_draft_def)
  obtain visible d where v: "event_visible s1 e (ev_branch t) = Inr visible"
      "validate_transition CANDIDATE_RULE (mv_to p) req (origin_evidence_type e) visible False False [] False = Inr d"
      "find_event s1 (ev_id e) \<noteq> None"
      "s' = s1\<lparr>st_uuid := st_uuid s1 + 1, st_tick := st_tick s1 + 1, st_moves := st_moves s1 @ [?m]\<rparr>"
    using rest by (auto simp: read_clock_def insert_move_Inr candidate_row_move_fields)
  have "mv_to p \<noteq> req" using False h(1) by (simp add: candidate_status_def)
  then have legal: "candidate_move_legal ?m (mv_to p) \<and> visible"
    by (intro candidate_rule_move[where deleg = False and reason = "[]" and d = d])
      (use v(2) validated_same[OF v(2)] in \<open>simp_all add: candidate_row_move_fields\<close>)
  have tables: "st_moves s1 = st_moves s" "st_candidates s1 = st_candidates s"
    using app by (cases s; cases s1; simp add: appends_def)+
  have ok1: "candidates_ok s1" by (rule candidates_ok_kept[OF ok ext tables])
  have e: "find_event s1 (ev_id e) = Some e"
    by (rule find_event_unique[OF log1]) (simp add: appends_fields(1)[OF app])
  have "cites_visible s1 ?m"
    by (rule cites_visibleI[of s1 ?m c t e])
      (use candidate_event_extends[OF ext h(2)] e v(1) legal in \<open>simp_all add: candidate_row_move_fields\<close>)
  moreover have "candidate_status s1 cid = Some (mv_to p)"
    using h(1) by (simp add: candidate_status_def last_move_def tables)
  ultimately have "candidates_ok s'"
    by (intro move_added[OF ok1, of ?m "mv_to p"])
      (use legal in \<open>simp_all add: v(4) candidate_row_move_fields extends_same\<close>)
  moreover have "log_ok w s'" using log1 log_ok_cong[of s' s1 w] by (simp add: v(4))
  moreover obtain u t' where eq: "s1 = s\<lparr>st_uuid := u, st_tick := t', st_events := st_events s @ [e]\<rparr>"
    using appendsE[OF app] by blast
  have "s' = s\<lparr>st_uuid := u + 1, st_tick := t' + 1, st_events := st_events s @ [e],
      st_moves := st_moves s1 @ [?m]\<rparr>"
    unfolding v(4) by (simp add: eq)
  then have "only_requests s s'" by (rule only_requestsI)
  ultimately show ?thesis by simp
qed

text \<open>A new settlement candidate and its first row.\<close>

lemma candidate_added:
  assumes ok: "candidates_ok s" and new: "ca_id c \<notin> ca_id ` set (st_candidates s)"
    and m: "mv_candidate m = ca_id c" "mv_from m = None"
    and st: "ca_kind c \<noteq> ''extraction'' \<Longrightarrow> mv_to m \<in> set settlement_states"
    and s': "st_moves s' = st_moves s @ [m]" "st_candidates s' = st_candidates s @ [c]" "extends s s'"
  shows "candidates_ok s'"
proof -
  have none: "find_last (\<lambda>x. mv_candidate x = mv_candidate m) (st_moves s) = None"
    using ok new m(1) unfolding find_last_None candidates_ok_def by metis
  have "history_ok mv_candidate mv_from mv_to candidate_move_legal (st_moves s @ [m])"
    by (rule history_ok.first) (use ok m(2) none in \<open>simp_all add: candidates_ok_def\<close>)
  moreover have "candidate_status s' i = (if ca_id c = i then Some (mv_to m) else candidate_status s i)" for i
    by (simp add: candidate_status_def last_move_def s'(1) m(1))
  ultimately show ?thesis
    using ok new m st cites_visible_extends[OF s'(3)] s'(1,2)
    by (auto simp: candidates_ok_def)
qed

definition only_candidates :: "store \<Rightarrow> store \<Rightarrow> bool" where
  "only_candidates s s' \<longleftrightarrow> s' = s\<lparr>st_uuid := st_uuid s', st_tick := st_tick s', st_runs := st_runs s',
     st_attempts := st_attempts s', st_candidates := st_candidates s', st_moves := st_moves s'\<rparr>"

lemma only_candidates_fields:
  assumes "only_candidates s s'"
  shows "st_branches s' = st_branches s" "st_events s' = st_events s" "st_receipts s' = st_receipts s"
    "st_blocks s' = st_blocks s" "st_memories s' = st_memories s" "st_policies s' = st_policies s"
    "st_findings s' = st_findings s" "st_finding_moves s' = st_finding_moves s" "st_tasks s' = st_tasks s"
  using assms by (cases s; cases s'; simp add: only_candidates_def)+

lemma insert_or_ignore_rows:
  "insert_or_ignore unique refs r rows = Inr (rows', fresh) \<Longrightarrow>
     fresh = unique \<and> (\<exists>rs. rows' = rows @ rs) \<and> (fresh \<longrightarrow> rows' = rows @ [r])"
  by (auto simp: insert_or_ignore_def split: if_splits)

lemma insert_run_or_ignore_spec:
  "insert_run_or_ignore r s = Inr s' \<Longrightarrow> \<exists>rs. s' = s\<lparr>st_runs := st_runs s @ rs\<rparr>"
  by (auto simp: insert_run_or_ignore_def dest!: insert_or_ignore_rows)

lemma insert_attempt_or_ignore_spec:
  "insert_attempt_or_ignore a s = Inr s' \<Longrightarrow> \<exists>xs. s' = s\<lparr>st_attempts := st_attempts s @ xs\<rparr>"
  by (auto simp: insert_attempt_or_ignore_def dest!: insert_or_ignore_rows)

lemma insert_candidate_or_ignore_spec:
  assumes "insert_candidate_or_ignore c s = Inr (fresh, s')"
  shows "\<not> fresh \<Longrightarrow> s' = s"
    "fresh \<Longrightarrow> s' = s\<lparr>st_candidates := st_candidates s @ [c]\<rparr> \<and> ca_id c \<notin> ca_id ` set (st_candidates s)"
  using assms by (auto simp: insert_candidate_or_ignore_def insert_or_ignore_def split: if_splits)

lemma create_settlement_candidate_step:
  assumes ok: "candidates_ok s"
    and run: "create_settlement_candidate w kind content src ev mt strength actor s = Inr (r, s')"
  shows "candidates_ok s' \<and> only_candidates s s' \<and> extends s s'"
proof -
  let ?run = "\<lparr>ru_id = settlement_run_id w src, ru_event = src, ru_config = SETTLEMENT_CONFIG_HASH,
               ru_created = w_now w (st_tick s)\<rparr>"
  let ?att = "\<lparr>at_id = ''att_'' @ drop 12 (settlement_run_id w src), at_run = settlement_run_id w src, at_no = 1,
               at_outcome = ''deterministic'', at_started = w_now w (st_tick s), at_finished = w_now w (st_tick s),
               at_error = None, at_redacted = None, at_raw = None\<rparr>"
  obtain s2 s3 where h: "kind \<noteq> ''extraction''"
      "insert_run_or_ignore ?run (s\<lparr>st_tick := st_tick s + 1\<rparr>) = Inr s2"
      "insert_attempt_or_ignore ?att s2 = Inr s3"
    using run by (auto simp: create_settlement_candidate_def Let_def read_clock_def split: if_splits)
  obtain rs xs where s3: "s3 = s\<lparr>st_tick := st_tick s + 1, st_runs := st_runs s @ rs, st_attempts := st_attempts s @ xs\<rparr>"
    using insert_run_or_ignore_spec[OF h(2)] insert_attempt_or_ignore_spec[OF h(3)] by auto
  let ?c = "\<lparr>ca_id = ''cand_'' @ w_uuid w (st_uuid s3), ca_run = settlement_run_id w src,
               ca_attempt = ''att_'' @ drop 12 (settlement_run_id w src), ca_type = mt, ca_content = content,
               ca_quote = (if given ev then the ev else src), ca_start = 0, ca_end = 0,
               ca_zone = kind @ '':'' @ strength, ca_confidence = \<lparr>fl_value = 1, fl_repr = ''1.0''\<rparr>,
               ca_kind = kind, ca_created = w_now w (st_tick s)\<rparr>"
  let ?s4 = "s3\<lparr>st_uuid := st_uuid s3 + 1\<rparr>"
  obtain fresh s5 where f: "insert_candidate_or_ignore ?c ?s4 = Inr (fresh, s5)"
    using run h by (auto simp: create_settlement_candidate_def Let_def read_clock_def fresh_uuid_def split: if_splits)
  show ?thesis
  proof (cases fresh)
    case False
    then have "s5 = ?s4" by (rule insert_candidate_or_ignore_spec(1)[OF f])
    then have "s' = ?s4"
      using run h f False
      by (auto simp: create_settlement_candidate_def Let_def read_clock_def fresh_uuid_def split: if_splits option.splits)
    moreover have "extends s ?s4" by (simp add: s3 extends_def)
    ultimately show ?thesis
      using candidates_ok_kept[OF ok, of s'] by (simp add: s3 only_candidates_def)
  next
    case True
    then have s5: "s5 = ?s4\<lparr>st_candidates := st_candidates s @ [?c]\<rparr>" "ca_id ?c \<notin> ca_id ` set (st_candidates s)"
      using insert_candidate_or_ignore_spec(2)[OF f True] unfolding s3 by simp_all
    obtain source where src: "find_event s5 src = Some source"
        "insert_move (candidate_row_move (''ctr_'' @ w_uuid w (st_uuid s5)) (ca_id ?c) None ''pending''
             source actor (kind @ ''_detected'') None None (Some (settlement_run_id w src)) (w_now w (st_tick s)))
           (s5\<lparr>st_uuid := st_uuid s5 + 1\<rparr>) = Inr s'"
      using run h f True
      by (auto simp: create_settlement_candidate_def Let_def read_clock_def fresh_uuid_def split: if_splits option.splits)
    let ?m = "candidate_row_move (''ctr_'' @ w_uuid w (st_uuid s5)) (ca_id ?c) None ''pending''
             source actor (kind @ ''_detected'') None None (Some (settlement_run_id w src)) (w_now w (st_tick s))"
    have s': "s' = s5\<lparr>st_uuid := st_uuid s5 + 1, st_moves := st_moves s5 @ [?m]\<rparr>"
      using src(2) by (simp add: insert_move_Inr)
    have ext: "extends s s'" unfolding s' s5 s3 by (simp add: extends_def)
    have "candidates_ok s'"
      by (rule candidate_added[OF ok s5(2), of ?m])
        (use ext in \<open>simp_all add: candidate_row_move_fields s' s5 s3 settlement_states_def SETTLEMENT_FLOW_def\<close>)
    then show ?thesis using ext unfolding s' s5 s3 by (simp add: only_candidates_def)
  qed
qed

end
