(* ===== verification/PolicyFacts.thy ===== *)
theory PolicyFacts
  imports LedgerFacts
begin

text \<open>
  The invariants of the policy ledger and of the security findings, and what a successful
  confirmation of a candidate has done.
\<close>

section \<open>Policies\<close>

text \<open>The policy that a version replaces: the row before it.\<close>

definition policy_row_ok :: "world \<Rightarrow> store \<Rightarrow> policy_row option \<Rightarrow> policy_row \<Rightarrow> bool" where
  "policy_row_ok w s previous p \<longleftrightarrow>
     po_version p = (case previous of None \<Rightarrow> 1 | Some q \<Rightarrow> po_version q + 1)
     \<and> po_previous p = map_option po_id previous
     \<and> po_hash p = hash_text w (json_text (JObj (po_policy p)))
     \<and> (\<exists>e. find_event s (po_event p) = Some e \<and> po_origin p = origin_evidence_type e
          \<and> policy_activation_allowed (origin_evidence_type e))"

fun policies_linked :: "world \<Rightarrow> store \<Rightarrow> policy_row option \<Rightarrow> policy_row list \<Rightarrow> bool" where
  "policies_linked w s previous [] = True"
| "policies_linked w s previous (p # ps) = (policy_row_ok w s previous p \<and> policies_linked w s (Some p) ps)"

definition policies_ok :: "world \<Rightarrow> store \<Rightarrow> bool" where
  "policies_ok w s \<longleftrightarrow> policies_linked w s None (st_policies s) \<and> distinct (map po_id (st_policies s))"

lemma policies_linked_snoc:
  "policies_linked w s q (ps @ [p]) \<longleftrightarrow>
     policies_linked w s q ps \<and> policy_row_ok w s (if ps = [] then q else Some (last ps)) p"
  by (induction ps arbitrary: q) auto

lemma policies_linked_mono:
  assumes "\<And>i e. find_event s i = Some e \<Longrightarrow> find_event s' i = Some e"
  shows "policies_linked w s q ps \<Longrightarrow> policies_linked w s' q ps"
proof (induction ps arbitrary: q)
  case (Cons p ps)
  then have "policy_row_ok w s' q p" using assms by (auto simp: policy_row_ok_def)
  then show ?case using Cons by simp
qed simp

lemma policies_ok_mono:
  assumes "policies_ok w s" "\<And>i e. find_event s i = Some e \<Longrightarrow> find_event s' i = Some e"
    and "st_policies s' = st_policies s"
  shows "policies_ok w s'"
  using assms(1,3) policies_linked_mono[of s s' w] assms(2) by (auto simp: policies_ok_def)

lemma linked_versions:
  "policies_linked w s None ps \<Longrightarrow> map po_version ps = map int [1..<Suc (length ps)]"
proof (induction ps rule: rev_induct)
  case (snoc p ps)
  then have IH: "map po_version ps = map int [1..<Suc (length ps)]" by (simp add: policies_linked_snoc)
  have "po_version p = int (length ps) + 1"
  proof (cases "ps = []")
    case True
    then show ?thesis using snoc.prems by (simp add: policy_row_ok_def)
  next
    case False
    then have "po_version (last ps) = last (map po_version ps)" by (simp add: last_map)
    also have "\<dots> = int (length ps)" unfolding IH using False by (simp add: Suc_le_eq)
    finally show ?thesis using False snoc.prems by (simp add: policies_linked_snoc policy_row_ok_def)
  qed
  then show ?case using IH by (simp del: upt_Suc add: upt_Suc_append)
qed simp

lemma filter_same_key:
  "distinct (map f xs) \<Longrightarrow> k \<in> set xs \<Longrightarrow> filter (\<lambda>x. f k = f x) xs = [k]"
proof (induction xs)
  case (Cons x xs)
  show ?case
  proof (cases "k = x")
    case True
    then have "f k \<notin> f ` set xs" using Cons.prems(1) by simp
    then have "\<forall>y \<in> set xs. f k \<noteq> f y" by blast
    then show ?thesis using True by simp
  next
    case False
    then have "k \<in> set xs" using Cons.prems(2) by simp
    then have "f k \<noteq> f x" using Cons.prems(1) by (metis distinct.simps(2) imageI list.set_map list.simps(9))
    then show ?thesis using Cons False by simp
  qed
qed simp

lemma sort_key_rev:
  assumes "sorted (map f xs)" "distinct (map f xs)"
  shows "sort_key f (rev xs) = xs"
proof (rule properties_for_sort_key, goal_cases)
  case (2 k)
  then show ?case
    using filter_same_key[OF assms(2)] by (simp add: rev_filter[symmetric])
qed (simp_all add: assms)

text \<open>The newest row is the one with the highest version.\<close>

lemma latest_policy_last:
  assumes "policies_ok w s"
  shows "latest_policy s = (if st_policies s = [] then None else Some (last (st_policies s)))"
proof -
  have v: "map po_version (st_policies s) = map int [1..<Suc (length (st_policies s))]"
    using assms linked_versions[of w s "st_policies s"] by (simp add: policies_ok_def del: upt_Suc)
  have "sorted (map po_version (st_policies s))" "distinct (map po_version (st_policies s))"
    unfolding v by (simp_all add: distinct_map del: upt_Suc) (simp add: sorted_map del: upt_Suc)
  then have "sort_key po_version (rev (st_policies s)) = st_policies s" by (rule sort_key_rev)
  then have "sorted_rev_key po_version (st_policies s) = rev (st_policies s)"
    by (simp add: sorted_rev_key_def)
  then show ?thesis
    by (cases "st_policies s" rule: rev_cases) (simp_all add: latest_policy_def)
qed

definition only_policies :: "store \<Rightarrow> store \<Rightarrow> bool" where
  "only_policies s s' \<longleftrightarrow> s' = s\<lparr>st_uuid := st_uuid s', st_tick := st_tick s', st_policies := st_policies s'\<rparr>"

lemma only_policies_fields:
  assumes "only_policies s s'"
  shows "st_branches s' = st_branches s" "st_events s' = st_events s" "st_receipts s' = st_receipts s"
    "st_blocks s' = st_blocks s" "st_memories s' = st_memories s" "st_candidates s' = st_candidates s"
    "st_runs s' = st_runs s" "st_moves s' = st_moves s" "st_findings s' = st_findings s"
    "st_finding_moves s' = st_finding_moves s" "st_tasks s' = st_tasks s"
  using assms by (cases s; cases s'; simp add: only_policies_def)+

lemma activate_policy_step:
  assumes ok: "policies_ok w s" and run: "activate_policy w policy src claimed op s = Inr (p, s')"
  shows "policies_ok w s' \<and> only_policies s s' \<and> latest_policy s' = Some p \<and> po_policy p = policy
    \<and> (\<exists>e. find_event s src = Some e \<and> policy_activation_allowed (origin_evidence_type e))"
proof -
  obtain e where e: "find_event s src = Some e" "policy_activation_allowed (origin_evidence_type e)"
      and p: "p = \<lparr>po_id = ''policy_'' @ w_uuid w (st_uuid s),
         po_version = (case latest_policy s of None \<Rightarrow> 1 | Some p \<Rightarrow> po_version p + 1),
         po_hash = hash_text w (json_text (JObj policy)), po_policy = policy, po_event = src,
         po_previous = map_option po_id (latest_policy s), po_operation = op,
         po_origin = origin_evidence_type e, po_created = w_now w (st_tick s)\<rparr>"
      and new: "po_id p \<notin> po_id ` set (st_policies s)"
      and s': "s' = s\<lparr>st_uuid := st_uuid s + 1, st_tick := st_tick s + 1, st_policies := st_policies s @ [p]\<rparr>"
    using run
    by (auto simp: activate_policy_def require_event_def Let_def fresh_uuid_def read_clock_def
        split: if_splits option.splits)
  have "policy_row_ok w s (if st_policies s = [] then None else Some (last (st_policies s))) p"
    using e unfolding policy_row_ok_def p latest_policy_last[OF ok] by auto
  then have "policies_linked w s None (st_policies s @ [p])"
    using ok unfolding policies_linked_snoc policies_ok_def by simp
  then have "policies_linked w s' None (st_policies s @ [p])"
    by (rule policies_linked_mono[rotated]) (simp add: s' find_event_def)
  then have ok': "policies_ok w s'"
    using ok new by (simp add: policies_ok_def s')
  then have "latest_policy s' = Some p" by (simp add: latest_policy_last s')
  moreover have "only_policies s s'" by (simp add: s' only_policies_def)
  ultimately show ?thesis using ok' e by (auto simp: p)
qed

section \<open>Security findings\<close>

definition findings_ok :: "store \<Rightarrow> bool" where
  "findings_ok s \<longleftrightarrow>
     history_ok fm_finding fm_from fm_to finding_move_legal (st_finding_moves s)
     \<and> distinct (map fi_id (st_findings s)) \<and> distinct (map fi_key (st_findings s))
     \<and> (\<forall>m \<in> set (st_finding_moves s). fm_finding m \<in> fi_id ` set (st_findings s)
          \<and> (fm_from m \<noteq> None \<longrightarrow> (\<exists>e. find_event s (fm_event m) = Some e \<and> fm_origin m = origin_evidence_type e)))"

lemma findings_ok_mono:
  assumes "findings_ok s" "\<And>i e. find_event s i = Some e \<Longrightarrow> find_event s' i = Some e"
    and "st_findings s' = st_findings s" "st_finding_moves s' = st_finding_moves s"
  shows "findings_ok s'"
  using assms unfolding findings_ok_def by (metis (no_types, lifting))

definition only_findings :: "store \<Rightarrow> store \<Rightarrow> bool" where
  "only_findings s s' \<longleftrightarrow> (\<exists>es. s' = s\<lparr>st_uuid := st_uuid s', st_tick := st_tick s',
     st_events := st_events s @ es, st_findings := st_findings s', st_finding_moves := st_finding_moves s'\<rparr>)"

lemma only_findingsI:
  "s' = s\<lparr>st_uuid := u, st_tick := t, st_events := st_events s @ es, st_findings := fs, st_finding_moves := ms\<rparr> \<Longrightarrow>
     only_findings s s'"
  unfolding only_findings_def by (rule exI[of _ es]) simp

lemma only_findings_refl [simp]: "only_findings s s"
  unfolding only_findings_def by (rule exI[of _ "[]"]) simp

lemma only_findings_fields:
  assumes "only_findings s s'"
  shows "st_branches s' = st_branches s" "\<exists>es. st_events s' = st_events s @ es" "st_receipts s' = st_receipts s"
    "st_blocks s' = st_blocks s" "st_memories s' = st_memories s" "st_candidates s' = st_candidates s"
    "st_runs s' = st_runs s" "st_moves s' = st_moves s" "st_policies s' = st_policies s" "st_tasks s' = st_tasks s"
  using assms by (cases s; cases s'; simp add: only_findings_def; blast?)+

lemma insert_finding_move_Inr:
  "insert_finding_move m s = Inr s' \<longleftrightarrow>
     fm_id m \<notin> fm_id ` set (st_finding_moves s) \<and> fm_finding m \<in> fi_id ` set (st_findings s)
     \<and> find_event s (fm_event m) \<noteq> None \<and> s' = s\<lparr>st_finding_moves := st_finding_moves s @ [m]\<rparr>"
  by (auto simp: insert_finding_move_def)

lemma finding_move_added:
  assumes ok: "findings_ok s" and last: "last_finding_move s (fm_finding m) = Some p"
    and m: "fm_from m = Some (fm_to p)" "finding_move_legal m (fm_to p)"
      "find_event s (fm_event m) = Some e" "fm_origin m = origin_evidence_type e"
    and s': "st_finding_moves s' = st_finding_moves s @ [m]" "st_findings s' = st_findings s"
      "st_events s' = st_events s"
  shows "findings_ok s'"
proof -
  have "history_ok fm_finding fm_from fm_to finding_move_legal (st_finding_moves s @ [m])"
    by (rule history_ok.next_move) (use ok last m in \<open>simp_all add: findings_ok_def last_finding_move_def\<close>)
  moreover have "fm_finding m \<in> fi_id ` set (st_findings s)"
    using ok find_last_Some[OF last[unfolded last_finding_move_def]] unfolding findings_ok_def by metis
  ultimately show ?thesis
    using ok m s' find_event_cong[OF s'(3)] unfolding findings_ok_def by auto
qed

lemma transition_finding_step:
  assumes ok: "findings_ok s" and run: "transition_finding w fid target src actor s = Inr (r, s')"
  shows "findings_ok s' \<and> only_findings s s' \<and> st_events s' = st_events s
     \<and> map_option fm_to (last_finding_move s' fid) = Some target"
proof -
  obtain p e visible d where h: "last_finding_move s fid = Some p" "find_event s src = Some e"
      "validate_transition FINDING_RULE (fm_to p) target (origin_evidence_type e) visible (delegation_enabled s)
         False [] False = Inr d"
      and rest: "(if \<not> td_changed d then Inr (None, s)
            else (let (hex, s1) = fresh_uuid w s;
                      (now, s2) = read_clock w s1
                  in bindr (insert_finding_move
                       \<lparr>fm_id = ''ftr_'' @ hex, fm_finding = fid, fm_from = Some (fm_to p),
                        fm_to = target, fm_event = src, fm_actor = actor,
                        fm_origin = origin_evidence_type e, fm_created = now\<rparr> s2)
                     (\<lambda>s3. Inr (Some (''ftr_'' @ hex), s3)))) = Inr (r, s')"
    using run by (auto simp: transition_finding_def require_event_def split: if_splits option.splits)
  show ?thesis
  proof (cases "td_changed d")
    case False
    then show ?thesis using rest ok validated_same[OF h(3)] h(1) by auto
  next
    case True
    let ?m = "\<lparr>fm_id = ''ftr_'' @ w_uuid w (st_uuid s), fm_finding = fid, fm_from = Some (fm_to p),
                        fm_to = target, fm_event = src, fm_actor = actor,
                        fm_origin = origin_evidence_type e, fm_created = w_now w (st_tick s)\<rparr>"
    have s': "s' = s\<lparr>st_uuid := st_uuid s + 1, st_tick := st_tick s + 1, st_finding_moves := st_finding_moves s @ [?m]\<rparr>"
      using rest True by (auto simp: fresh_uuid_def read_clock_def insert_finding_move_Inr)
    have "finding_move_legal ?m (fm_to p)"
      using validated_move_legal[OF h(3) True] by (simp add: finding_move_legal_def)
    then have "findings_ok s'"
      by (intro finding_move_added[OF ok, of ?m p e]) (use h in \<open>simp_all add: s'\<close>)
    moreover have "only_findings s s'"
      unfolding only_findings_def by (rule exI[of _ "[]"]) (simp add: s')
    ultimately show ?thesis by (simp add: s' last_finding_move_def)
  qed
qed

lemma append_finding_ack_request_step:
  assumes ok: "findings_ok s" and log: "log_ok w s"
    and run: "append_finding_ack_request w fid b org s = Inr (r, s')"
  shows "findings_ok s' \<and> log_ok w s' \<and> only_findings s s'"
proof -
  obtain p where p: "last_finding_move s fid = Some p"
    using run by (auto simp: append_finding_ack_request_def split: option.splits)
  show ?thesis
  proof (cases "fm_to p = ''acknowledgement_requested''")
    case True
    then show ?thesis
      using run p ok log by (auto simp: append_finding_ack_request_def split: option.splits)
  next
    case False
    let ?d = "state_draft b None (''security finding acknowledgement requested: '' @ fid)
         [(''operation'', JStr ''acknowledgement_requested''), (''finding_id'', JStr fid),
          (''origin_evidence_type'', JStr org)] []"
    obtain e s1 visible d where h: "append_event_in_tx w ?d s = Inr (e, s1)"
        "validate_transition FINDING_RULE (fm_to p) ''acknowledgement_requested'' (origin_evidence_type e)
           visible False False [] False = Inr d"
        and rest: "(let (now, s3) = read_clock w (s1\<lparr>st_uuid := st_uuid s1 + 1\<rparr>)
              in bindr (insert_finding_move
                     \<lparr>fm_id = ''ftr_'' @ w_uuid w (st_uuid s1), fm_finding = fid, fm_from = Some (fm_to p),
                      fm_to = ''acknowledgement_requested'', fm_event = ev_id e, fm_actor = ''request_reducer'',
                      fm_origin = origin_evidence_type e, fm_created = now\<rparr> s3)
                   (\<lambda>s4. Inr ((e, ''ftr_'' @ w_uuid w (st_uuid s1)), s4))) = Inr (r, s')"
      using run p False
      by (auto simp: append_finding_ack_request_def fresh_uuid_def split: if_splits)
    let ?m = "\<lparr>fm_id = ''ftr_'' @ w_uuid w (st_uuid s1), fm_finding = fid, fm_from = Some (fm_to p),
                      fm_to = ''acknowledgement_requested'', fm_event = ev_id e, fm_actor = ''request_reducer'',
                      fm_origin = origin_evidence_type e, fm_created = w_now w (st_tick s1)\<rparr>"
    note app = append_event_in_tx_appended[OF h(1)] and ext = append_extends[OF h(1)]
    have log1: "log_ok w s1"
      by (rule append_event_in_tx_log_ok[OF log h(1)]) (simp add: state_draft_def)
    obtain u t where eq: "s1 = s\<lparr>st_uuid := u, st_tick := t, st_events := st_events s @ [e]\<rparr>"
      using appendsE[OF app] by blast
    have s': "s' = s1\<lparr>st_uuid := st_uuid s1 + 1, st_tick := st_tick s1 + 1,
        st_finding_moves := st_finding_moves s1 @ [?m]\<rparr>"
      using rest by (auto simp: read_clock_def insert_finding_move_Inr)
    have ok1: "findings_ok s1"
      by (rule findings_ok_mono[OF ok extends_find(1)[OF ext]]) (simp_all add: eq)
    have e: "find_event s1 (ev_id e) = Some e"
      by (rule find_event_unique[OF log1]) (simp add: eq)
    have "td_changed d" using validated_same[OF h(2) False] .
    then have "finding_move_legal ?m (fm_to p)"
      using validated_move_legal[OF h(2)] by (simp add: finding_move_legal_def)
    then have "findings_ok s'"
      by (intro finding_move_added[OF ok1, of ?m p e]) (use p e in \<open>simp_all add: s' last_finding_move_def eq\<close>)
    moreover have "log_ok w s'" using log1 log_ok_cong[of s' s1 w] by (simp add: s')
    moreover have "only_findings s s'"
      unfolding only_findings_def by (rule exI[of _ "[e]"]) (simp add: s' eq)
    ultimately show ?thesis by simp
  qed
qed

lemma record_security_finding_step:
  assumes ok: "findings_ok s" and log: "log_ok w s"
    and run: "record_security_finding w ft key details s = Inr (r, s')"
  shows "findings_ok s' \<and> log_ok w s' \<and> only_findings s s'"
proof (cases "List.find (\<lambda>f. fi_key f = key) (st_findings s)")
  case (Some f)
  then show ?thesis using run ok log by (simp add: record_security_finding_def)
next
  case None
  let ?d = "state_draft ''main'' None (''security finding: '' @ ft)
       [(''operation'', JStr ''security_finding''), (''finding_type'', JStr ft),
        (''incident_key'', JStr key), (''details'', JObj details)] []"
  obtain e s1 where h: "append_event_in_tx w ?d s = Inr (e, s1)"
    using run None by (auto simp: record_security_finding_def)
  note app = append_event_in_tx_appended[OF h] and ext = append_extends[OF h]
  have log1: "log_ok w s1"
    by (rule append_event_in_tx_log_ok[OF log h]) (simp add: state_draft_def)
  obtain u t where eq: "s1 = s\<lparr>st_uuid := u, st_tick := t, st_events := st_events s @ [e]\<rparr>"
    using appendsE[OF app] by blast
  let ?f = "\<lparr>fi_id = ''finding_'' @ w_uuid w u, fi_key = key, fi_type = ft,
             fi_details = details, fi_event = ev_id e, fi_created = w_now w t\<rparr>"
  let ?m = "\<lparr>fm_id = ''ftr_'' @ w_uuid w (u + 1), fm_finding = ''finding_'' @ w_uuid w u, fm_from = None,
             fm_to = ''active'', fm_event = ev_id e, fm_actor = ''integrity_monitor'',
             fm_origin = EXTERNAL_UNTRUSTED, fm_created = w_now w (t + 1)\<rparr>"
  have s': "s' = s1\<lparr>st_uuid := u + 2, st_tick := t + 2, st_findings := st_findings s @ [?f],
        st_finding_moves := st_finding_moves s @ [?m]\<rparr>"
      and new: "fi_id ?f \<notin> fi_id ` set (st_findings s)"
    using run None h eq
    by (auto simp: record_security_finding_def fresh_uuid_def read_clock_def Let_def insert_finding_move_Inr)
  have "key \<notin> fi_key ` set (st_findings s)" using None by (auto simp: find_None_iff)
  moreover have "find_last (\<lambda>x. fm_finding x = fi_id ?f) (st_finding_moves s) = None"
    using ok new unfolding find_last_None findings_ok_def by metis
  then have "history_ok fm_finding fm_from fm_to finding_move_legal (st_finding_moves s @ [?m])"
    by (intro history_ok.first) (use ok in \<open>simp_all add: findings_ok_def\<close>)
  moreover have "find_event s' i = Some x" if "find_event s i = Some x" for i x
    using extends_find(1)[OF ext that] by (simp add: s' find_event_def)
  ultimately have "findings_ok s'"
    using ok new unfolding findings_ok_def s' eq by fastforce
  moreover have "log_ok w s'" using log1 log_ok_cong[of s' s1 w] by (simp add: s')
  moreover have "only_findings s s'"
    unfolding only_findings_def by (rule exI[of _ "[e]"]) (simp add: s' eq)
  ultimately show ?thesis by simp
qed

section \<open>Deriving and confirming\<close>

lemma derive_memory_frame:
  assumes "derive_memory w draft s = Inr (r, s')"
  obtains u t e where "s' = s\<lparr>st_uuid := u, st_tick := t, st_events := st_events s @ [e],
      st_memories := st_memories s @ [r]\<rparr>"
proof (rule derive_memory_cases[OF assms], goal_cases)
  case (1 d t version e s1 s2)
  obtain u t' where "s2 = s1\<lparr>st_uuid := u, st_tick := t', st_events := st_events s1 @ [e]\<rparr>"
    using appendsE[OF append_event_in_tx_appended[OF 1(9)]] by blast
  then have "s' = s\<lparr>st_uuid := u, st_tick := t' + 1, st_events := st_events s @ [e],
      st_memories := st_memories s @ [r]\<rparr>"
    by (simp add: 1(7,12))
  then show ?case by (rule 1(1))
qed

definition only_confirms :: "store \<Rightarrow> store \<Rightarrow> bool" where
  "only_confirms s s' \<longleftrightarrow> (\<exists>u t es ms mv ls. s' = s\<lparr>st_uuid := u, st_tick := t,
     st_events := st_events s @ es, st_memories := ms, st_moves := mv, st_links := ls\<rparr>)"

lemma only_confirms_fields:
  assumes "only_confirms s s'"
  shows "st_branches s' = st_branches s" "\<exists>es. st_events s' = st_events s @ es" "st_receipts s' = st_receipts s"
    "st_blocks s' = st_blocks s" "st_candidates s' = st_candidates s" "st_runs s' = st_runs s"
    "st_policies s' = st_policies s" "st_findings s' = st_findings s"
    "st_finding_moves s' = st_finding_moves s" "st_tasks s' = st_tasks s"
  using assms by (auto simp: only_confirms_def)

lemma only_confirmsI:
  "s' = s\<lparr>st_uuid := u, st_tick := t, st_events := st_events s @ es, st_memories := ms, st_moves := mv,
     st_links := ls\<rparr> \<Longrightarrow> only_confirms s s'"
  unfolding only_confirms_def by blast

lemma only_confirms_refl: "only_confirms s s"
  by (rule only_confirmsI[where u = "st_uuid s" and t = "st_tick s" and es = "[]" and ms = "st_memories s" and mv = "st_moves s" and ls = "st_links s"]) simp

lemma only_confirms_trans:
  assumes "only_confirms s t" "only_confirms t u"
  shows "only_confirms s u"
proof -
  obtain n m es ms mv ls where t: "t = s\<lparr>st_uuid := n, st_tick := m, st_events := st_events s @ es,
      st_memories := ms, st_moves := mv, st_links := ls\<rparr>"
    using assms(1) unfolding only_confirms_def by blast
  obtain n' m' es' ms' mv' ls' where u: "u = t\<lparr>st_uuid := n', st_tick := m', st_events := st_events t @ es',
      st_memories := ms', st_moves := mv', st_links := ls'\<rparr>"
    using assms(2) unfolding only_confirms_def by blast
  show ?thesis
    by (rule only_confirmsI[where u = n' and t = m' and es = "es @ es'" and ms = ms' and mv = mv' and ls = ls']) (simp add: u t)
qed

lemma only_moves_confirms:
  assumes "only_moves s s'"
  shows "only_confirms s s'"
proof -
  obtain u t mv where s': "s' = s\<lparr>st_uuid := u, st_tick := t, st_moves := mv\<rparr>"
    using assms unfolding only_moves_def by blast
  show ?thesis
    by (rule only_confirmsI[where u = u and t = t and es = "[]" and ms = "st_memories s" and mv = mv
          and ls = "st_links s"]) (simp add: s')
qed

lemma link_confirmed_frame:
  "link_confirmed_candidate w cid i src s = Inr (x, s') \<Longrightarrow>
     \<exists>u t ls. s' = s\<lparr>st_uuid := u, st_tick := t, st_links := ls\<rparr>"
  by (auto simp: link_confirmed_candidate_def fresh_uuid_def read_clock_def Let_def)

text \<open>The three invariants that a confirmation touches, kept together.\<close>

definition confirm_inv :: "world \<Rightarrow> store \<Rightarrow> bool" where
  "confirm_inv w s \<longleftrightarrow> log_ok w s \<and> memories_ok s \<and> candidates_ok s"

lemma confirm_inv_moves:
  assumes inv: "confirm_inv w s" and only: "only_moves s s'" and ok: "candidates_ok s'"
  shows "confirm_inv w s'"
proof -
  note f = only_moves_fields[OF only]
  show ?thesis
    using inv ok log_ok_cong[of s' s w] memories_ok_cong[of s' s] f by (simp add: confirm_inv_def)
qed

lemma transition_candidate_inv:
  assumes inv: "confirm_inv w s" and run: "transition_candidate w cid target src actor rule rc rm s = Inr (r, s')"
  shows "confirm_inv w s' \<and> only_confirms s s' \<and> candidate_status s' cid = Some target"
proof -
  have step: "candidates_ok s' \<and> only_moves s s' \<and> candidate_status s' cid = Some target"
    by (rule transition_candidate_step[OF _ run]) (use inv in \<open>simp add: confirm_inv_def\<close>)
  have "confirm_inv w s'" by (rule confirm_inv_moves[OF inv]) (use step in simp_all)
  moreover have "only_confirms s s'" by (rule only_moves_confirms) (use step in simp)
  ultimately show ?thesis using step by simp
qed

lemma derive_memory_inv:
  assumes inv: "confirm_inv w s" and run: "derive_memory w draft s = Inr (r, s')"
  shows "confirm_inv w s' \<and> only_confirms s s' \<and> st_moves s' = st_moves s"
proof -
  obtain u t e where s': "s' = s\<lparr>st_uuid := u, st_tick := t, st_events := st_events s @ [e],
      st_memories := st_memories s @ [r]\<rparr>"
    by (rule derive_memory_frame[OF run])
  have step: "memories_ok s' \<and> log_ok w s' \<and> grows s s'"
    by (rule derive_memory_step[OF _ _ run]) (use inv in \<open>simp_all add: confirm_inv_def\<close>)
  have ext: "extends s s'" and same: "st_moves s' = st_moves s" "st_candidates s' = st_candidates s"
    unfolding s' by (simp_all add: extends_def)
  have "candidates_ok s'"
    by (rule candidates_ok_kept[OF _ ext same]) (use inv in \<open>simp add: confirm_inv_def\<close>)
  moreover have "only_confirms s s'"
    by (rule only_confirmsI[where u = u and t = t and es = "[e]" and ms = "st_memories s @ [r]"
          and mv = "st_moves s" and ls = "st_links s"]) (simp add: s')
  ultimately show ?thesis using step same(1) by (simp add: confirm_inv_def)
qed

lemma link_confirmed_inv:
  assumes inv: "confirm_inv w s" and run: "link_confirmed_candidate w cid i src s = Inr (x, s')"
  shows "confirm_inv w s' \<and> only_confirms s s' \<and> st_moves s' = st_moves s"
proof -
  obtain u t ls where s': "s' = s\<lparr>st_uuid := u, st_tick := t, st_links := ls\<rparr>"
    using link_confirmed_frame[OF run] by blast
  have ext: "extends s s'" and same: "st_moves s' = st_moves s" "st_candidates s' = st_candidates s"
    unfolding s' by (simp_all add: extends_def)
  have "candidates_ok s'"
    by (rule candidates_ok_kept[OF _ ext same]) (use inv in \<open>simp add: confirm_inv_def\<close>)
  moreover have "log_ok w s'" "memories_ok s'"
    using inv log_ok_cong[of s' s w] memories_ok_cong[of s' s] by (simp_all add: confirm_inv_def s')
  moreover have "only_confirms s s'"
    by (rule only_confirmsI[where u = u and t = t and es = "[]" and ms = "st_memories s"
          and mv = "st_moves s" and ls = ls]) (simp add: s')
  ultimately show ?thesis using same(1) by (simp add: confirm_inv_def)
qed

lemma confirm_candidate_match_step:
  assumes inv: "confirm_inv w s" and run: "confirm_candidate_match w cid mid src s = Inr (r, s')"
  shows "confirm_inv w s' \<and> only_confirms s s' \<and> candidate_status s' cid = Some ''confirmed''"
proof -
  obtain c ru x1 s1 x2 s2 s4 where h:
      "request_confirmation w cid src s = Inr (x1, s1)"
      "transition_candidate w cid ''confirmed'' src ''explicit_marker'' ''normalized_explicit_match''
         None None s1 = Inr (x2, s2)"
      "confirmed_memory w c ru mid src s2 = Inr (r, s4)"
      "link_confirmed_candidate w cid r src s4 = Inr ((), s')"
    using run by (auto simp: confirm_candidate_match_def split: option.splits)
  have 1: "confirm_inv w s1 \<and> only_confirms s s1"
    using h(1) inv transition_candidate_inv[OF inv] only_confirms_refl
    by (auto simp: request_confirmation_def split: if_splits)
  then have 2: "confirm_inv w s2 \<and> only_confirms s1 s2 \<and> candidate_status s2 cid = Some ''confirmed''"
    using transition_candidate_inv[OF _ h(2)] by simp
  have 3: "confirm_inv w s4 \<and> only_confirms s2 s4 \<and> st_moves s4 = st_moves s2"
    using h(3) 2 derive_memory_inv only_confirms_refl
    by (auto simp: confirmed_memory_def split: option.splits)
  then have 4: "confirm_inv w s' \<and> only_confirms s4 s' \<and> st_moves s' = st_moves s4"
    using link_confirmed_inv[OF _ h(4)] by simp
  have "only_confirms s s'" using 1 2 3 4 only_confirms_trans by metis
  moreover have "candidate_status s' cid = candidate_status s2 cid"
    by (rule candidate_status_cong) (use 3 4 in simp)
  ultimately show ?thesis using 2 4 by simp
qed

end
