(* ===== verification/Tasks.thy ===== *)
theory Tasks
  imports PolicyFacts
begin

text \<open>
  Workstreams (\<open>task_storage.py\<close>): versioned task records and the sessions bound to them.
  A version after the first cites a new event, and the workstream rule judges the step from
  the origin of that event.
\<close>

section \<open>Operations\<close>

definition task_rows :: "store \<Rightarrow> string \<Rightarrow> task_version list" where
  "task_rows s task_key = filter (\<lambda>t. tk_key t = task_key) (st_tasks s)"

definition latest_task :: "store \<Rightarrow> string \<Rightarrow> task_version option" where
  "latest_task s task_key =
     (case sorted_rev_key tk_version (task_rows s task_key) of [] \<Rightarrow> None | t # _ \<Rightarrow> Some t)"

record task_draft =
  td_key :: string
  td_branch :: string
  td_title :: string
  td_status :: string
  td_sources :: "string list"
  td_parent :: "string option"
  td_snapshot :: "string option"
  td_metadata :: "(string, json) dict"
  td_reopen :: bool
  td_reason :: string

definition insert_task :: "task_version \<Rightarrow> store \<Rightarrow> store result" where
  "insert_task t s =
     bindr (insert_keyed tk_id ''task_versions.id'' t (st_tasks s)) (\<lambda>_.
     bindr (insert_keyed (\<lambda>t. (tk_key t, tk_version t)) ''task_versions.task_key, task_versions.version''
              t (st_tasks s)) (\<lambda>rows.
     bindr (foreign_key (tk_branch t \<in> br_id ` set (st_branches s))) (\<lambda>_.
       Inr (s\<lparr>st_tasks := rows\<rparr>))))"

text \<open>The judgement on a further version: \<open>True\<close> if it is a change.\<close>

definition judge_task_step :: "store \<Rightarrow> task_draft \<Rightarrow> task_version \<Rightarrow> bool result" where
  "judge_task_step s d current =
     (let source_id = (if td_sources d = [] then [] else last (td_sources d)) in
      bindr (require_event ''unknown source event: '' s source_id) (\<lambda>source.
        if source_id \<in> set (tk_sources current)
        then Inl (ValueError ''workstream transition requires a new source event'')
        else bindr (event_visible s source (td_branch d)) (\<lambda>visible.
             bindr (validate_transition WORKSTREAM_RULE (tk_status current) (td_status d)
                      (origin_evidence_type source) visible (delegation_enabled s) (td_reopen d)
                      (td_reason d) False) (\<lambda>decision. Inr (td_changed decision)))))"

definition write_task_version ::
  "world \<Rightarrow> task_draft \<Rightarrow> task_version option \<Rightarrow> store \<Rightarrow> (task_version \<times> store) result" where
  "write_task_version w d current s =
     (let (hex, s1) = fresh_uuid w s;
          (now, s2) = read_clock w s1;
          row = \<lparr>tk_id = ''task_'' @ hex, tk_key = td_key d, tk_branch = td_branch d,
            tk_version = (case current of None \<Rightarrow> 1 | Some t \<Rightarrow> tk_version t + 1),
            tk_title = fst (redact_text (w_rules w) True (td_title d)), tk_status = td_status d,
            tk_parent = td_parent d, tk_sources = uniq (td_sources d), tk_snapshot = td_snapshot d,
            tk_metadata = fst (redact_object (w_rules w) (td_metadata d)), tk_created = now\<rparr>
      in bindr (insert_task row s2) (\<lambda>s3. Inr (row, s3)))"

definition create_task_version :: "world \<Rightarrow> task_draft \<Rightarrow> store \<Rightarrow> (task_version \<times> store) result" where
  "create_task_version w d s =
     (if td_key d = [] \<or> td_title d = [] then Inl (ValueError ''task key and title must be non-empty'')
      else if td_status d \<notin> set [''active'', ''blocked'', ''completed'', ''cancelled'']
      then Inl (ValueError ''unsupported task status'')
      else bindr (assert_source_events s (td_sources d) (td_branch d)) (\<lambda>_.
        case latest_task s (td_key d) of
          None \<Rightarrow>
            if td_status d \<noteq> ''active'' then Inl (ValueError ''a workstream must start in active state'')
            else write_task_version w d None s
        | Some current \<Rightarrow>
            if tk_branch current \<noteq> td_branch d
            then Inl (ValueError ''task key is already assigned to another branch'')
            else if tk_status current = td_status d then Inr (current, s)
            else bindr (judge_task_step s d current) (\<lambda>changed.
                   if \<not> changed then Inr (current, s) else write_task_version w d (Some current) s)))"

definition get_task :: "store \<Rightarrow> string \<Rightarrow> task_version result" where
  "get_task s task_key =
     (case latest_task s task_key of
        None \<Rightarrow> Inl (KeyError (''unknown task: '' @ task_key))
      | Some t \<Rightarrow> Inr t)"

definition list_tasks :: "store \<Rightarrow> string option \<Rightarrow> task_version list" where
  "list_tasks s status =
     sort_key tk_created
       (filter (\<lambda>t. tk_version t = Max (tk_version ` set (task_rows s (tk_key t)))
                    \<and> (status = None \<or> status = Some (tk_status t))) (st_tasks s))"

definition bind_task_session :: "world \<Rightarrow> string \<Rightarrow> string \<Rightarrow> store \<Rightarrow> (unit \<times> store) result" where
  "bind_task_session w session_id task_key s =
     (case List.find (\<lambda>b. tb_session b = session_id) (st_bindings s) of
        Some existing \<Rightarrow>
          if tb_key existing \<noteq> task_key then Inl (ValueError ''session is already bound to another task'')
          else Inr ((), s)
      | None \<Rightarrow>
          if find_session s session_id = None then Inl (KeyError (''unknown session: '' @ session_id))
          else if task_rows s task_key = [] then Inl (KeyError (''unknown task: '' @ task_key))
          else (let (now, s1) = read_clock w s
                in Inr ((), s1\<lparr>st_bindings := st_bindings s1 @
                     [\<lparr>tb_session = session_id, tb_key = task_key, tb_created = now\<rparr>]\<rparr>)))"

definition has_hook_activity :: "store \<Rightarrow> string \<Rightarrow> bool" where
  "has_hook_activity s agent \<longleftrightarrow> (\<exists>h \<in> set (st_hooks s). hb_agent h = agent)"

definition task_for_hook_session :: "store \<Rightarrow> string \<Rightarrow> string \<Rightarrow> task_version option" where
  "task_for_hook_session s agent external_session_id =
     (let rows = concat (map (\<lambda>h. concat (map (\<lambda>b. task_rows s (tb_key b))
                   (filter (\<lambda>b. tb_session b = hb_session h) (st_bindings s))))
                 (filter (\<lambda>h. hb_agent h = agent \<and> hb_external h = external_session_id) (st_hooks s)))
      in case sorted_rev_key tk_version rows of [] \<Rightarrow> None | t # _ \<Rightarrow> Some t)"

section \<open>The invariant of a workstream\<close>

definition task_step_ok :: "store \<Rightarrow> task_version \<Rightarrow> task_version \<Rightarrow> bool" where
  "task_step_ok s p t \<longleftrightarrow>
     tk_version t = tk_version p + 1 \<and> tk_branch t = tk_branch p \<and> tk_status t \<noteq> tk_status p
     \<and> (\<exists>e. find_event s (ev_id e) = Some e \<and> ev_id e \<in> set (tk_sources t) \<and> ev_id e \<notin> set (tk_sources p)
          \<and> (if tk_status p \<in> {''completed'', ''cancelled''}
             then tk_status t = ''active'' \<and> origin_evidence_type e \<in> set USER_OPERATOR_OR_DELEGATE
             else tk_status t \<in> {''completed'', ''cancelled''} \<longrightarrow>
                  origin_evidence_type e \<in> set USER_OPERATOR_OR_DELEGATE))"

fun task_chain :: "store \<Rightarrow> task_version list \<Rightarrow> bool" where
  "task_chain s [] = True"
| "task_chain s [t] = (tk_version t = 1 \<and> tk_status t = ''active'')"
| "task_chain s (t # u # ts) = (task_chain s (u # ts) \<and> task_step_ok s u t)"

text \<open>The versions of a key, newest first, form a chain down to version one.\<close>

definition tasks_ok :: "store \<Rightarrow> bool" where
  "tasks_ok s \<longleftrightarrow> (\<forall>key. task_chain s (rev (task_rows s key)))
     \<and> (\<forall>t \<in> set (st_tasks s). \<forall>i \<in> set (tk_sources t). find_event s i \<noteq> None)"

lemma task_step_ok_mono:
  assumes "\<And>i e. find_event s i = Some e \<Longrightarrow> find_event s' i = Some e" "task_step_ok s p t"
  shows "task_step_ok s' p t"
  using assms unfolding task_step_ok_def by meson

lemma task_chain_mono:
  assumes "\<And>i e. find_event s i = Some e \<Longrightarrow> find_event s' i = Some e"
  shows "task_chain s ts \<Longrightarrow> task_chain s' ts"
proof (induction ts rule: induct_list012)
  case (3 t u ts)
  then show ?case using task_step_ok_mono[of s s' u t] assms by simp
qed simp_all

lemma tasks_ok_mono:
  assumes "tasks_ok s" "\<And>i e. find_event s i = Some e \<Longrightarrow> find_event s' i = Some e"
    and "st_tasks s' = st_tasks s"
  shows "tasks_ok s'"
  using assms task_chain_mono[of s s'] unfolding tasks_ok_def task_rows_def
  by (metis not_None_eq)

lemma task_chain_versions:
  "task_chain s ts \<Longrightarrow> map tk_version (rev ts) = map int [1..<Suc (length ts)]"
proof (induction s ts rule: task_chain.induct)
  case (3 s t u ts)
  then have IH: "map tk_version (rev (u # ts)) = map int [1..<Suc (length (u # ts))]"
    and step: "task_step_ok s u t" by simp_all
  have "tk_version u = last (map tk_version (rev (u # ts)))" by simp
  also have "\<dots> = int (length (u # ts))" unfolding IH by simp
  finally have "tk_version t = int (length (u # ts)) + 1" using step by (simp add: task_step_ok_def)
  then show ?case using IH by (simp del: upt_Suc add: upt_Suc_append)
qed simp_all

lemma latest_task_last:
  assumes "tasks_ok s"
  shows "latest_task s key = (if task_rows s key = [] then None else Some (last (task_rows s key)))"
proof -
  have v: "map tk_version (task_rows s key) = map int [1..<Suc (length (task_rows s key))]"
    using assms task_chain_versions[of s "rev (task_rows s key)"] by (simp add: tasks_ok_def del: upt_Suc)
  have "sorted (map tk_version (task_rows s key))" "distinct (map tk_version (task_rows s key))"
    unfolding v by (simp_all add: distinct_map del: upt_Suc) (simp add: sorted_map del: upt_Suc)
  then have "sort_key tk_version (rev (task_rows s key)) = task_rows s key" by (rule sort_key_rev)
  then have "sorted_rev_key tk_version (task_rows s key) = rev (task_rows s key)"
    by (simp add: sorted_rev_key_def)
  then show ?thesis
    by (cases "task_rows s key" rule: rev_cases) (simp_all add: latest_task_def)
qed

text \<open>A write touches only the table of workstreams.\<close>

definition only_tasks :: "store \<Rightarrow> store \<Rightarrow> bool" where
  "only_tasks s s' \<longleftrightarrow> s' = s\<lparr>st_uuid := st_uuid s', st_tick := st_tick s', st_tasks := st_tasks s'\<rparr>"

lemma only_tasks_refl [simp]: "only_tasks s s"
  by (simp add: only_tasks_def)

lemma only_tasks_fields:
  assumes "only_tasks s s'"
  shows "st_branches s' = st_branches s" "st_events s' = st_events s" "st_receipts s' = st_receipts s"
    "st_blocks s' = st_blocks s" "st_memories s' = st_memories s" "st_candidates s' = st_candidates s"
    "st_runs s' = st_runs s" "st_moves s' = st_moves s" "st_policies s' = st_policies s"
    "st_findings s' = st_findings s" "st_finding_moves s' = st_finding_moves s"
  using assms by (cases s; cases s'; simp add: only_tasks_def)+

lemma write_task_version_spec:
  assumes "write_task_version w d current s = Inr (t, s')"
  shows "tk_key t = td_key d" "tk_branch t = td_branch d" "tk_status t = td_status d"
    "tk_version t = (case current of None \<Rightarrow> 1 | Some p \<Rightarrow> tk_version p + 1)"
    "set (tk_sources t) = set (td_sources d)" "only_tasks s s'" "st_tasks s' = st_tasks s @ [t]"
    "td_branch d \<in> branch_ids s"
  using assms
  by (auto simp: branch_ids_def write_task_version_def insert_task_def fresh_uuid_def read_clock_def only_tasks_def Let_def)

lemma task_added:
  assumes ok: "tasks_ok s" and ev: "st_events s' = st_events s" and rows: "st_tasks s' = st_tasks s @ [t]"
    and src: "\<forall>i \<in> set (tk_sources t). find_event s i \<noteq> None"
    and chain: "task_chain s (t # rev (task_rows s (tk_key t)))"
  shows "tasks_ok s'"
proof -
  have mono: "find_event s i = Some e \<Longrightarrow> find_event s' i = Some e" for i e
    using find_event_cong[OF ev] by simp
  have "rev (task_rows s' key) = (if tk_key t = key then t # rev (task_rows s key) else rev (task_rows s key))" for key
    by (simp add: task_rows_def rows)
  moreover have "task_chain s (rev (task_rows s key))" for key using ok by (simp add: tasks_ok_def)
  ultimately have "task_chain s (rev (task_rows s' key))" for key
    using chain by (cases "tk_key t = key") auto
  then have "task_chain s' (rev (task_rows s' key))" for key
    using task_chain_mono[of s s', OF mono] by blast
  then show ?thesis using ok src rows find_event_cong[OF ev] by (auto simp: tasks_ok_def)
qed

lemma create_task_version_cases:
  assumes "create_task_version w d s = Inr (t, s')"
  obtains (same) "s' = s" "latest_task s (td_key d) = Some t" "tk_status t = td_status d"
  | (first) "latest_task s (td_key d) = None" "td_status d = ''active''" "write_task_version w d None s = Inr (t, s')"
      "assert_source_events s (td_sources d) (td_branch d) = Inr ()"
  | (further) p e visible dec where "latest_task s (td_key d) = Some p" "tk_branch p = td_branch d"
      "tk_status p \<noteq> td_status d" "td_sources d \<noteq> []" "find_event s (last (td_sources d)) = Some e"
      "last (td_sources d) \<notin> set (tk_sources p)"
      "validate_transition WORKSTREAM_RULE (tk_status p) (td_status d) (origin_evidence_type e) visible
         (delegation_enabled s) (td_reopen d) (td_reason d) False = Inr dec"
      "write_task_version w d (Some p) s = Inr (t, s')"
      "assert_source_events s (td_sources d) (td_branch d) = Inr ()"
proof -
  have src: "assert_source_events s (td_sources d) (td_branch d) = Inr ()"
    using assms by (auto simp: create_task_version_def split: if_splits)
  then have ne: "td_sources d \<noteq> []" by (auto simp: assert_source_events_def split: if_splits)
  show thesis
  proof (cases "latest_task s (td_key d)")
    case None
    then show thesis using that(2) assms src by (auto simp: create_task_version_def split: if_splits)
  next
    case (Some p)
    show thesis
    proof (cases "tk_status p = td_status d")
      case True
      then show thesis using that(1) assms Some by (auto simp: create_task_version_def split: if_splits)
    next
      case False
      then obtain changed where c: "judge_task_step s d p = Inr changed" "tk_branch p = td_branch d"
          "(if \<not> changed then Inr (p, s) else write_task_version w d (Some p) s) = Inr (t, s')"
        using assms Some by (auto simp: create_task_version_def split: if_splits)
      obtain e visible dec where v: "find_event s (last (td_sources d)) = Some e"
          "last (td_sources d) \<notin> set (tk_sources p)" "changed = td_changed dec"
          "validate_transition WORKSTREAM_RULE (tk_status p) (td_status d) (origin_evidence_type e) visible
             (delegation_enabled s) (td_reopen d) (td_reason d) False = Inr dec"
        using c(1) ne by (auto simp: judge_task_step_def require_event_def Let_def split: if_splits option.splits)
      have "changed" using v(3,4) False by (auto simp: validate_transition_def split: if_splits)
      then show thesis using that(3)[OF Some c(2) False ne v(1,2,4)] c(3) src by simp
    qed
  qed
qed

lemma workstream_step:
  assumes "validate_transition WORKSTREAM_RULE c t org visible deleg reopen reason False = Inr d" "c \<noteq> t"
  shows "if c \<in> {''completed'', ''cancelled''} then t = ''active'' \<and> org \<in> set USER_OPERATOR_OR_DELEGATE
         else t \<in> {''completed'', ''cancelled''} \<longrightarrow> org \<in> set USER_OPERATOR_OR_DELEGATE"
  using assms
  by (auto simp: validate_transition_def WORKSTREAM_RULE_def flow_allows_def WORKSTREAM_FLOW_def dget_default_def
      split: if_splits)

lemma create_task_version_step:
  assumes ok: "tasks_ok s" and log: "log_ok w s" and run: "create_task_version w d s = Inr (t, s')"
  shows "tasks_ok s' \<and> only_tasks s s' \<and> latest_task s' (td_key d) = Some t \<and> tk_status t = td_status d"
  using run
proof (cases rule: create_task_version_cases)
  case same
  then show ?thesis using ok by simp
next
  case first
  note t = write_task_version_spec[OF first(3)]
  note kept = only_tasks_fields[OF t(6)]
  have none: "task_rows s (td_key d) = []"
    using first(1) latest_task_last[OF ok] by (simp split: if_splits)
  have "\<forall>i \<in> set (tk_sources t). find_event s i \<noteq> None"
    using assert_source_events_spec(2)[OF log t(8) first(4)] by (auto simp: t(5) visible_source_def)
  then have ok': "tasks_ok s'"
    by (rule task_added[OF ok kept(2) t(7)]) (use t none first in simp)
  then show ?thesis using t latest_task_last[OF ok'] none by (simp add: task_rows_def)
next
  case (further p e visible dec)
  note t = write_task_version_spec[OF further(8)]
  note kept = only_tasks_fields[OF t(6)]
  have p: "task_rows s (td_key d) \<noteq> []" "last (task_rows s (td_key d)) = p"
    using further(1) latest_task_last[OF ok] by (simp_all split: if_splits)
  then obtain rows where rows: "task_rows s (td_key d) = rows @ [p]" by (metis append_butlast_last_id)
  have "\<forall>i \<in> set (tk_sources t). find_event s i \<noteq> None"
    using assert_source_events_spec(2)[OF log t(8) further(9)] by (auto simp: t(5) visible_source_def)
  moreover have "task_step_ok s p t"
    unfolding task_step_ok_def
  proof (intro conjI exI[of _ e])
    show "if tk_status p \<in> {''completed'', ''cancelled''}
        then tk_status t = ''active'' \<and> origin_evidence_type e \<in> set USER_OPERATOR_OR_DELEGATE
        else tk_status t \<in> {''completed'', ''cancelled''} \<longrightarrow>
               origin_evidence_type e \<in> set USER_OPERATOR_OR_DELEGATE"
      using workstream_step[OF further(7)] further(3) t(3) by simp
  qed (use t further(2,3,4,5,6) find_event_Some[OF further(5)] last_in_set[OF further(4)] in auto)
  moreover have "task_chain s (rev (task_rows s (td_key d)))" using ok by (simp add: tasks_ok_def)
  ultimately have ok': "tasks_ok s'"
    by (intro task_added[OF ok kept(2) t(7)]) (simp_all add: t(1) rows)
  then show ?thesis using t latest_task_last[OF ok'] by (simp add: task_rows_def)
qed

text \<open>Binding a session writes its own table only.\<close>

lemma bind_task_session_frame:
  "bind_task_session w i k s = Inr (u, s') \<Longrightarrow> \<exists>t bs. s' = s\<lparr>st_tick := t, st_bindings := bs\<rparr>"
  by (cases s) (auto simp: bind_task_session_def read_clock_def split: option.splits if_splits)

end
