(* ===== verification/Growth.thy ===== *)
theory Growth
  imports Tasks LogProps "HOL-Library.Sublist"
begin

text \<open>
  Nothing is ever rewritten: every call of the store extends the tables it touches at their
  end and leaves the others as they are.  \<open>advances\<close> says so for the tables that carry
  history; the lemmas of this theory establish it for each operation from its definition,
  without any invariant.  The two audit tables of finalization are written by operations of
  their own (theory \<open>Finalization\<close>); everything else leaves them alone.
\<close>

section \<open>Advancing\<close>

definition advances :: "store \<Rightarrow> store \<Rightarrow> bool" where
  "advances s s' \<longleftrightarrow> prefix (st_branches s) (st_branches s') \<and> prefix (st_events s) (st_events s')
     \<and> prefix (st_blocks s) (st_blocks s') \<and> prefix (st_memories s) (st_memories s')
     \<and> prefix (st_candidates s) (st_candidates s') \<and> prefix (st_moves s) (st_moves s')
     \<and> prefix (st_links s) (st_links s') \<and> prefix (st_policies s) (st_policies s')
     \<and> prefix (st_findings s) (st_findings s') \<and> prefix (st_finding_moves s) (st_finding_moves s')
     \<and> prefix (st_tasks s) (st_tasks s') \<and> prefix (st_runs s) (st_runs s')
     \<and> st_finalizations s' = st_finalizations s \<and> st_quarantine s' = st_quarantine s"

lemma advances_refl [simp]: "advances s s"
  by (simp add: advances_def)

lemma advances_trans: "advances s t \<Longrightarrow> advances t u \<Longrightarrow> advances s u"
  by (auto simp: advances_def intro: prefix_order.trans)

lemma advances_grows: "advances s s' \<Longrightarrow> grows s s'"
  by (auto simp: advances_def grows_def prefix_def)

text \<open>Drawing a name, reading the clock, and the tables without history.\<close>

lemma advances_counters [simp]:
  "advances s (t\<lparr>st_uuid := n\<rparr>) = advances s t" "advances s (t\<lparr>st_tick := n\<rparr>) = advances s t"
  "advances s (t\<lparr>st_sessions := ss\<rparr>) = advances s t" "advances s (t\<lparr>st_hooks := hs\<rparr>) = advances s t"
  "advances s (t\<lparr>st_receipts := rs\<rparr>) = advances s t" "advances s (t\<lparr>st_consolidation := cs\<rparr>) = advances s t"
  "advances s (t\<lparr>st_bindings := bs\<rparr>) = advances s t" "advances s (t\<lparr>st_attempts := as\<rparr>) = advances s t"
  by (simp_all add: advances_def)

lemma advances_from_counters [simp]:
  "advances (t\<lparr>st_uuid := n\<rparr>) s = advances t s" "advances (t\<lparr>st_tick := n\<rparr>) s = advances t s"
  by (simp_all add: advances_def)

text \<open>One more row at the end of a table.\<close>

lemma advances_rows:
  "advances s t \<Longrightarrow> prefix (st_moves t) xs0 \<Longrightarrow> advances s (t\<lparr>st_moves := xs0\<rparr>)"
  "advances s t \<Longrightarrow> prefix (st_finding_moves t) xs1 \<Longrightarrow> advances s (t\<lparr>st_finding_moves := xs1\<rparr>)"
  "advances s t \<Longrightarrow> prefix (st_policies t) xs2 \<Longrightarrow> advances s (t\<lparr>st_policies := xs2\<rparr>)"
  "advances s t \<Longrightarrow> prefix (st_tasks t) xs3 \<Longrightarrow> advances s (t\<lparr>st_tasks := xs3\<rparr>)"
  "advances s t \<Longrightarrow> prefix (st_links t) xs4 \<Longrightarrow> advances s (t\<lparr>st_links := xs4\<rparr>)"
  "advances s t \<Longrightarrow> prefix (st_memories t) xs5 \<Longrightarrow> advances s (t\<lparr>st_memories := xs5\<rparr>)"
  "advances s t \<Longrightarrow> prefix (st_blocks t) xs6 \<Longrightarrow> advances s (t\<lparr>st_blocks := xs6\<rparr>)"
  "advances s t \<Longrightarrow> prefix (st_candidates t) xs7 \<Longrightarrow> advances s (t\<lparr>st_candidates := xs7\<rparr>)"
  "advances s t \<Longrightarrow> prefix (st_findings t) xs8 \<Longrightarrow> advances s (t\<lparr>st_findings := xs8\<rparr>)"
  "advances s t \<Longrightarrow> prefix (st_runs t) xs9 \<Longrightarrow> advances s (t\<lparr>st_runs := xs9\<rparr>)"
  "advances s t \<Longrightarrow> prefix (st_branches t) xs10 \<Longrightarrow> advances s (t\<lparr>st_branches := xs10\<rparr>)"
  by (auto simp: advances_def intro: prefix_order.trans)

lemma advances_append: "appends es s s' \<Longrightarrow> advances s s'"
  by (drule appendsE) (auto simp: advances_def)

lemmas advances_event = advances_append[OF append_event_in_tx_appended]

section \<open>Operations\<close>

lemma grown_move: "insert_move m t = Inr s' \<Longrightarrow> advances s t \<Longrightarrow> advances s s'"
  by (auto simp: insert_move_Inr intro: advances_rows)

lemma grown_finding_move: "insert_finding_move m t = Inr s' \<Longrightarrow> advances s t \<Longrightarrow> advances s s'"
  by (auto simp: insert_finding_move_Inr intro: advances_rows)

lemma grown_transition_candidate:
  "transition_candidate w cid target src actor rule rc rm s = Inr (r, s') \<Longrightarrow> advances s s'"
  by (auto simp: transition_candidate_def Let_def fresh_uuid_def read_clock_def
      split: if_splits option.splits elim!: grown_move)

lemma grown_settle_candidate:
  "settle_candidate w cid target src actor rule s = Inr (r, s') \<Longrightarrow> advances s s'"
  by (auto simp: settle_candidate_def Let_def fresh_uuid_def read_clock_def
      split: if_splits option.splits elim!: grown_move)

lemma grown_candidate_request:
  "append_candidate_request w cid req b action org rc rm s = Inr (r, s') \<Longrightarrow> advances s s'"
  by (auto simp: append_candidate_request_def Let_def fresh_uuid_def read_clock_def
      split: if_splits option.splits elim!: grown_move dest!: advances_event)

lemma grown_policy: "activate_policy w policy src claimed op s = Inr (p, s') \<Longrightarrow> advances s s'"
  by (auto simp: activate_policy_def Let_def fresh_uuid_def read_clock_def
      split: if_splits option.splits intro!: advances_rows)

lemma grown_transition_finding:
  "transition_finding w fid target src actor s = Inr (r, s') \<Longrightarrow> advances s s'"
  by (auto simp: transition_finding_def Let_def fresh_uuid_def read_clock_def
      split: if_splits option.splits elim!: grown_finding_move)

lemma grown_ack_request: "append_finding_ack_request w fid b org s = Inr (r, s') \<Longrightarrow> advances s s'"
  by (auto simp: append_finding_ack_request_def Let_def fresh_uuid_def read_clock_def
      split: if_splits option.splits elim!: grown_finding_move dest!: advances_event)

lemma grown_record_finding: "record_security_finding w ft key details s = Inr (r, s') \<Longrightarrow> advances s s'"
  by (auto simp: record_security_finding_def Let_def fresh_uuid_def read_clock_def
      split: if_splits option.splits elim!: grown_finding_move intro!: advances_rows dest!: advances_event)

lemma grown_block: "set_active_block w name content b ses srcs s = Inr (r, s') \<Longrightarrow> advances s s'"
proof (erule set_active_block_cases, goal_cases)
  case (1 current e s1)
  have "st_blocks s1 = st_blocks s" by (rule appends_fields(9)[OF append_event_in_tx_appended[OF 1(3)]])
  then show ?case using advances_event[OF 1(3)] unfolding 1(7) by (auto intro: advances_rows)
qed

lemma grown_memory: "derive_memory w d s = Inr (r, s') \<Longrightarrow> advances s s'"
  by (erule derive_memory_frame) (simp add: advances_def)

lemma grown_or_ignore:
  "insert_run_or_ignore x t = Inr u \<Longrightarrow> advances t u"
  "insert_attempt_or_ignore y t = Inr u \<Longrightarrow> advances t u"
  "insert_candidate_or_ignore c t = Inr (f, u) \<Longrightarrow> advances t u"
  by (auto simp: insert_run_or_ignore_def insert_attempt_or_ignore_def insert_candidate_or_ignore_def
      insert_or_ignore_def split: if_splits intro!: advances_rows)

lemma grown_settlement:
  assumes "create_settlement_candidate w kind content src ev mt strength actor s = Inr (r, s')"
  shows "advances s s'"
proof -
  have move: "insert_move m t = Inr u \<Longrightarrow> advances t u" for m t u
    using grown_move advances_refl by blast
  show ?thesis
    using assms unfolding create_settlement_candidate_def
    by (auto simp: Let_def fresh_uuid_def read_clock_def split: if_splits option.splits
        dest!: grown_or_ignore move) (meson advances_trans)+
qed

lemma grown_link: "link_confirmed_candidate w cid i src s = Inr (x, s') \<Longrightarrow> advances s s'"
  by (auto simp: link_confirmed_candidate_def insert_or_ignore_def fresh_uuid_def read_clock_def Let_def
      split: if_splits intro!: advances_rows)

lemma grown_confirm:
  assumes "confirm_candidate_match w cid mid src s = Inr (r, s')"
  shows "advances s s'"
proof -
  obtain c ru x1 s1 x2 s2 s4 x5 where h:
      "request_confirmation w cid src s = Inr (x1, s1)"
      "transition_candidate w cid ''confirmed'' src ''explicit_marker'' ''normalized_explicit_match''
         None None s1 = Inr (x2, s2)"
      "confirmed_memory w c ru mid src s2 = Inr (r, s4)"
      "link_confirmed_candidate w cid r src s4 = Inr (x5, s')"
    using assms by (auto simp: confirm_candidate_match_def split: option.splits)
  have 1: "advances s s1"
    using h(1) grown_transition_candidate by (auto simp: request_confirmation_def split: if_splits)
  have 3: "advances s2 s4"
    using h(3) by (auto simp: confirmed_memory_def split: option.splits dest: grown_memory)
  show ?thesis
    by (rule advances_trans[OF advances_trans[OF advances_trans[OF 1 grown_transition_candidate[OF h(2)]] 3]
          grown_link[OF h(4)]])
qed

lemma grown_write_task:
  assumes "write_task_version w d current s = Inr (t, s')"
  shows "advances s s'"
proof -
  obtain u k where "s' = s\<lparr>st_uuid := u, st_tick := k, st_tasks := st_tasks s @ [t]\<rparr>"
    using write_task_version_spec(6,7)[OF assms] unfolding only_tasks_def by metis
  then show ?thesis by (auto intro: advances_rows)
qed

lemma grown_task: "create_task_version w d s = Inr (t, s') \<Longrightarrow> advances s s'"
  by (erule create_task_version_cases) (simp_all add: grown_write_task)

lemma grown_binding: "bind_task_session w i k s = Inr (u, s') \<Longrightarrow> advances s s'"
  by (auto simp: bind_task_session_def read_clock_def split: option.splits if_splits)

text \<open>The calls that write the log.\<close>

lemma grown_once:
  assumes "append_events_once_from w key items b ses channel adapter s = Inr ((es, fresh), s')"
  shows "advances s s'"
proof (cases fresh)
  case False
  then show ?thesis using once_fresh_cases(3)[OF assms] by simp
next
  case True
  then obtain s1 t now where "append_batch w b ses channel adapter items s = Inr (es, s1)"
      "s' = s1\<lparr>st_tick := t, st_receipts := st_receipts s1 @
                  [\<lparr>rc_key = key, rc_events = map ev_id es, rc_created = now\<rparr>]\<rparr>"
    using once_fresh_cases(4)[OF assms] by metis
  then show ?thesis using advances_append[OF batch_grows] by simp
qed

lemma grown_session: "insert_session w i a b caps t = Inr s' \<Longrightarrow> advances s t \<Longrightarrow> advances s s'"
  by (auto dest!: insert_session_same)

lemma grown_fork: "create_branch w b p fork s = Inr (r, s') \<Longrightarrow> advances s s'"
  by (erule create_branch_cases) (simp add: advances_def)

lemma grown_log_call:
  assumes "run_call w c s = Inr (u, s')"
  shows "advances s s'"
  using assms
  by (cases c) (auto simp: append_event_def append_host_event_def once_defs start_session_def hook_session_def
      mark_consolidated_def fresh_uuid_def read_clock_def Let_def split: if_splits option.splits
      dest!: advances_event insert_session_same dest: grown_once grown_fork)

end
