(* ===== verification/Evidence.thy ===== *)
theory Evidence
  imports Tables
begin

text \<open>
  The evidence rules of extraction (\<open>extraction.py\<close>): the zones of a Markdown text, the
  search for a quote in it, the strict parsing of a model's answer, and the decision
  whether a candidate may become a memory by itself.  The conversions \<open>json.loads\<close> and
  \<open>float\<close> are arguments.
\<close>

section \<open>Zones\<close>

text \<open>\<open>line.lstrip(" \t")\<close> and the fence marker that a line starts with.\<close>

definition lstrip_blank :: "string \<Rightarrow> string" where
  "lstrip_blank s = dropWhile (\<lambda>c. c = CHR '' '' \<or> c = CHR 0x09) s"

definition leading_run :: "string \<Rightarrow> string" where
  "leading_run s = (case s of [] \<Rightarrow> [] | c # _ \<Rightarrow> takeWhile (\<lambda>d. d = c) s)"

definition fence_marker :: "string \<Rightarrow> string option" where
  "fence_marker stripped =
     (let run = leading_run stripped
      in if length run \<ge> 3 \<and> (hd run = CHR 0x60 \<or> hd run = CHR ''~'') then Some run else None)"

text \<open>Inline code: a run of backticks up to the next run of the same width on the line.\<close>

function inline_zones :: "string \<Rightarrow> string list" where
  "inline_zones [] = []"
| "inline_zones (c # rest) =
     (if c \<noteq> CHR 0x60 then ''prose'' # inline_zones rest
      else (let width = length (leading_run (c # rest));
                after = drop width (c # rest)
            in case find_sub (replicate width (CHR 0x60)) after of
                 None \<Rightarrow> replicate width ''prose'' @ inline_zones after
               | Some k \<Rightarrow> replicate (width + k + width) ''inline_code'' @ inline_zones (drop (k + width) after)))"
  by pat_completeness auto
termination
  by (relation "measure length") (auto simp: leading_run_def)

text \<open>The state is the token of the open fence.\<close>

fun zone_lines :: "string option \<Rightarrow> string list \<Rightarrow> string list" where
  "zone_lines fence [] = []"
| "zone_lines fence (line # lines) =
     (let stripped = lstrip_blank line;
          marker = fence_marker stripped
      in case fence of
           Some token \<Rightarrow>
             replicate (length line) ''fenced_code''
             @ zone_lines
                 (case marker of
                    None \<Rightarrow> Some token
                  | Some m \<Rightarrow> if hd m = hd token \<and> length m \<ge> length token then None else Some token) lines
         | None \<Rightarrow>
             (case marker of
                Some m \<Rightarrow> replicate (length line) ''fenced_code'' @ zone_lines (Some m) lines
              | None \<Rightarrow>
                  (if starts_with ''>'' stripped then replicate (length line) ''blockquote''
                   else inline_zones line)
                  @ zone_lines None lines))"

definition zone_map :: "string \<Rightarrow> string list" where
  "zone_map text_value = zone_lines None (splitlines_keep text_value)"

section \<open>Quotes\<close>

text \<open>The starts of \<open>re.finditer\<close> for a literal: leftmost first, not overlapping.\<close>

function find_all :: "string \<Rightarrow> nat \<Rightarrow> string \<Rightarrow> nat list" where
  "find_all p off s =
     (if p = [] then []
      else (case find_sub p s of
              None \<Rightarrow> []
            | Some i \<Rightarrow> (off + i) # find_all p (off + i + length p) (drop (i + length p) s)))"
  by pat_completeness auto

lemma find_sub_Some: "find_sub p s = Some i \<Longrightarrow> i + length p \<le> length s \<and> take (length p) (drop i s) = p"
proof (induction s arbitrary: i)
  case (Cons c s)
  show ?case
  proof (cases "starts_with p (c # s)")
    case True
    then have "length p \<le> Suc (length s)" unfolding starts_with_iff by (metis length_Cons length_append le_add1)
    then show ?thesis using Cons.prems True by (simp add: starts_with_def)
  next
    case False
    then show ?thesis using Cons by auto
  qed
qed (simp split: if_splits)

termination find_all
proof (relation "measure (\<lambda>(p, off, s). length s)", goal_cases)
  case (2 p off s i)
  then have "i + length p \<le> length s" using find_sub_Some by blast
  then show ?case using 2(1) by (cases p) auto
qed simp

declare find_all.simps [simp del]

definition extraction_error :: "string \<Rightarrow> 'a result" where
  "extraction_error what = Inl (ExtractionValidationError what)"

definition locate_evidence :: "string \<Rightarrow> string \<Rightarrow> (nat \<times> nat \<times> string) result" where
  "locate_evidence content quote =
     (if quote = [] then extraction_error ''empty_evidence''
      else (case find_all quote 0 content of
              [] \<Rightarrow> extraction_error ''evidence_not_found''
            | [start] \<Rightarrow>
                (let fin = start + length quote;
                     zones = remdups (take (fin - start) (drop start (zone_map content)))
                 in Inr (start, fin, if length zones = 1 then hd zones else ''fenced_code''))
            | _ \<Rightarrow> extraction_error ''ambiguous_evidence''))"

section \<open>Candidates\<close>

definition normalize_content :: "string \<Rightarrow> string" where
  "normalize_content v = join '' '' (split_ws (strip v))"

record proposed =
  pc_type :: string
  pc_content :: string
  pc_quote :: string
  pc_confidence :: pyfloat

definition ALLOWED_CANDIDATE_TYPES :: "string list" where
  "ALLOWED_CANDIDATE_TYPES = [''decision'', ''fact'', ''failure'', ''lesson'', ''preference'', ''task'']"

definition candidate_fields :: "string list" where
  "candidate_fields = [''memory_type'', ''normalized_content'', ''evidence_quote'', ''confidence'']"

definition parse_candidate :: "(json \<Rightarrow> pyfloat result) \<Rightarrow> json \<Rightarrow> proposed result" where
  "parse_candidate to_float item =
     (case item of
        JObj d \<Rightarrow>
          if set (dkeys d) \<noteq> set candidate_fields then extraction_error ''schema_violation''
          else if py_str (jget d ''memory_type'') \<notin> set ALLOWED_CANDIDATE_TYPES
          then extraction_error ''unsupported_type''
          else (let normalized = normalize_content (py_str (jget d ''normalized_content''));
                    quote = py_str (jget d ''evidence_quote'')
                in bindr (to_float (jget d ''confidence'')) (\<lambda>confidence.
                     if normalized = [] then extraction_error ''empty_content''
                     else if \<not> (0 \<le> fl_value confidence \<and> fl_value confidence \<le> 1)
                     then extraction_error ''invalid_confidence''
                     else Inr \<lparr>pc_type = py_str (jget d ''memory_type''), pc_content = normalized,
                            pc_quote = quote, pc_confidence = confidence\<rparr>))
      | _ \<Rightarrow> extraction_error ''schema_violation'')"

definition parse_candidates ::
  "(string \<Rightarrow> json option) \<Rightarrow> (json \<Rightarrow> pyfloat result) \<Rightarrow> json \<Rightarrow> proposed list result" where
  "parse_candidates loads to_float value =
     bindr (case value of
              JStr t \<Rightarrow> (case loads t of None \<Rightarrow> extraction_error ''malformed_output'' | Some v \<Rightarrow> Inr v)
            | v \<Rightarrow> Inr v) (\<lambda>v.
       case (case v of JObj d \<Rightarrow> jget d ''candidates'' | x \<Rightarrow> x) of
         JArr items \<Rightarrow> mapr (parse_candidate to_float) items
       | _ \<Rightarrow> extraction_error ''malformed_output'')"

record verdict =
  vd_holds :: bool
  vd_reason :: string

record validated =
  vc_type :: string
  vc_content :: string
  vc_quote :: string
  vc_confidence :: pyfloat
  vc_start :: nat
  vc_end :: nat
  vc_zone :: string
  vc_status :: string
  vc_rule :: string

definition validate_candidate :: "proposed \<Rightarrow> string \<Rightarrow> pyfloat \<Rightarrow> verdict option \<Rightarrow> validated result" where
  "validate_candidate c content threshold verdict =
     bindr (locate_evidence content (pc_quote c)) (\<lambda>(start, fin, zone).
       let (status, rule) =
         (if zone \<noteq> ''prose'' then (''quarantined'', ''untrusted_evidence_zone:'' @ zone)
          else if verdict \<noteq> None \<and> \<not> vd_holds (the verdict)
          then (''quarantined'', ''verifier_rejected:'' @ vd_reason (the verdict))
          else if fl_value (pc_confidence c) < fl_value threshold then (''quarantined'', ''below_auto_threshold'')
          else (''auto'', ''exact_prose_above_threshold''))
       in Inr \<lparr>vc_type = pc_type c, vc_content = pc_content c, vc_quote = pc_quote c,
            vc_confidence = pc_confidence c, vc_start = start, vc_end = fin, vc_zone = zone,
            vc_status = status, vc_rule = rule\<rparr>)"

section \<open>Facts\<close>

lemma takeWhile_run: "leading_run (c # s) = c # takeWhile (\<lambda>d. d = c) s"
  by (simp add: leading_run_def)

lemma length_inline_zones: "length (inline_zones s) = length s"
proof (induction s rule: inline_zones.induct)
  case (2 c rest)
  let ?w = "length (leading_run (c # rest))" and ?a = "drop (length (leading_run (c # rest))) (c # rest)"
  have le: "?w \<le> length (c # rest)" using length_takeWhile_le by (simp add: takeWhile_run)
  show ?case
  proof (cases "c = CHR 0x60")
    case False
    then show ?thesis using 2(1) by simp
  next
    case True
    show ?thesis
    proof (cases "find_sub (replicate ?w (CHR 0x60)) ?a")
      case None
      then have "inline_zones (c # rest) = replicate ?w ''prose'' @ inline_zones ?a"
        using True by (simp add: Let_def)
      then show ?thesis using 2(2)[OF _ refl refl None] True le by simp
    next
      case (Some k)
      then have eq: "inline_zones (c # rest) = replicate (?w + k + ?w) ''inline_code'' @ inline_zones (drop (k + ?w) ?a)"
        using True by (simp add: Let_def)
      have "k + ?w \<le> length ?a" using find_sub_Some[OF Some] by simp
      then show ?thesis using 2(3)[OF _ refl refl Some] True le unfolding eq by simp
    qed
  qed
qed simp

lemma length_zone_lines: "length (zone_lines fence lines) = length (concat lines)"
  by (induction lines arbitrary: fence) (simp_all add: Let_def length_inline_zones split: option.splits)

lemma length_zone_map [simp]: "length (zone_map s) = length s"
  by (simp add: zone_map_def length_zone_lines)

lemma find_all_in:
  "i \<in> set (find_all p off s) \<Longrightarrow> off \<le> i \<and> i - off + length p \<le> length s \<and> take (length p) (drop (i - off) s) = p"
proof (induction p off s rule: find_all.induct)
  case (1 p off s)
  have p: "p \<noteq> []" using 1(2) by (auto simp: find_all.simps[of p off s])
  obtain j where j: "find_sub p s = Some j"
    using 1(2) p by (cases "find_sub p s") (simp_all add: find_all.simps[of p off s])
  note fj = find_sub_Some[OF j]
  have "i = off + j \<or> i \<in> set (find_all p (off + j + length p) (drop (j + length p) s))"
    using 1(2) p j by (simp add: find_all.simps[of p off s])
  then show ?case
  proof
    assume "i = off + j"
    then show ?thesis using fj by simp
  next
    assume i: "i \<in> set (find_all p (off + j + length p) (drop (j + length p) s))"
    note ih = 1(1)[OF p j i]
    have "drop (i - (off + j + length p)) (drop (j + length p) s) = drop (i - off) s"
      using ih by (simp add: drop_drop)
    then show ?thesis using ih fj by auto
  qed
qed

text \<open>
  The search is for occurrences that do not overlap.  Nothing stands before the first one, and
  if it is the only one found, every occurrence begins inside it.
\<close>

lemma find_sub_leftmost:
  "take (length p) (drop i s) = p \<Longrightarrow> i + length p \<le> length s \<Longrightarrow> \<exists>j \<le> i. find_sub p s = Some j"
proof (induction s arbitrary: i)
  case Nil
  then show ?case by simp
next
  case (Cons c s)
  show ?case
  proof (cases "starts_with p (c # s)")
    case False
    then obtain k where k: "i = Suc k" using Cons.prems by (cases i) (auto simp: starts_with_def)
    then show ?thesis using Cons.IH[of k] Cons.prems False by auto
  qed simp
qed

lemma find_all_single:
  assumes one: "find_all p 0 s = [j]" and i: "i + length p \<le> length s" "take (length p) (drop i s) = p"
  shows "j \<le> i \<and> i < j + length p"
proof -
  have p: "p \<noteq> []" using one by (auto simp: find_all.simps[of p 0 s])
  obtain k where k: "find_sub p s = Some k" "k \<le> i" using find_sub_leftmost[OF i(2,1)] by blast
  have j: "k = j" "find_all p (j + length p) (drop (j + length p) s) = []"
    using one p k(1) by (auto simp: find_all.simps[of p 0 s])
  have "i < j + length p"
  proof (rule ccontr)
    assume "\<not> i < j + length p"
    then have "take (length p) (drop (i - (j + length p)) (drop (j + length p) s)) = p"
      "i - (j + length p) + length p \<le> length (drop (j + length p) s)"
      using i by (simp_all add: drop_drop)
    then obtain l where "find_sub p (drop (j + length p) s) = Some l" using find_sub_leftmost by blast
    then show False using j p by (simp add: find_all.simps[of p "j + length p"])
  qed
  then show ?thesis using k(2) j(1) by simp
qed

text \<open>Where a quote was located, it stands, and its zone is the zone of each of its characters.\<close>

lemma located:
  assumes "locate_evidence content quote = Inr (start, fin, zone)"
  shows "quote \<noteq> []" "fin = start + length quote" "fin \<le> length content"
    "take (fin - start) (drop start content) = quote"
    "zone \<noteq> ''fenced_code'' \<Longrightarrow> start \<le> i \<Longrightarrow> i < fin \<Longrightarrow> zone_map content ! i = zone"
    "k + length quote \<le> length content \<Longrightarrow> take (length quote) (drop k content) = quote \<Longrightarrow>
       start \<le> k \<and> k < fin"
proof -
  have q: "quote \<noteq> []" using assms by (auto simp: locate_evidence_def extraction_error_def)
  have f: "find_all quote 0 content = [start]" "fin = start + length quote"
      and z: "zone = (let zones = remdups (take (fin - start) (drop start (zone_map content)))
                 in if length zones = 1 then hd zones else ''fenced_code'')"
    using assms q by (auto simp: locate_evidence_def extraction_error_def Let_def split: list.splits)
  have s: "start + length quote \<le> length content" "take (length quote) (drop start content) = quote"
    using find_all_in[of start quote 0 content] f(1) q by (cases quote; fastforce)+
  show "quote \<noteq> []" "fin = start + length quote" "fin \<le> length content"
    "take (fin - start) (drop start content) = quote"
    using q f(2) s by simp_all
  show "start \<le> k \<and> k < fin" if "k + length quote \<le> length content" "take (length quote) (drop k content) = quote"
    using find_all_single[OF f(1) that] f(2) by simp
  show "zone_map content ! i = zone" if "zone \<noteq> ''fenced_code''" "start \<le> i" "i < fin"
  proof -
    let ?zs = "take (fin - start) (drop start (zone_map content))"
    have one: "length (remdups ?zs) = 1"
    proof (rule ccontr)
      assume "length (remdups ?zs) \<noteq> 1"
      with z have "zone = ''fenced_code''" by simp
      with that(1) show False by simp
    qed
    then obtain x where "remdups ?zs = [x]" by (metis One_nat_def length_0_conv length_Suc_conv)
    with z have x: "remdups ?zs = [x]" "zone = x" by simp_all
    have "zone_map content ! i = ?zs ! (i - start)" using that(2,3) f(2) s(1) by simp
    also have "\<dots> \<in> set ?zs" by (rule nth_mem) (use that(2,3) f(2) s(1) in simp)
    also have "set ?zs = {x}" using x(1) set_remdups[of ?zs] by simp
    finally show ?thesis using x(2) by simp
  qed
qed

section \<open>Properties\<close>

text \<open>
  C22: what may become a memory by itself.  The quote of a validated candidate stands word for
  word in the event at the recorded place, and every occurrence of it in the event begins
  inside that one (so it is the first, and unique but for occurrences that overlap it).  The
  candidate gets the status \<open>auto\<close> exactly if its zone is prose, its confidence reaches
  the threshold and no verifier rejected it, and is quarantined otherwise; in the zone prose
  every character of the quote lies in prose (no fence, no block quote, no inline code).
\<close>

theorem auto_needs_exact_prose:
  assumes "validate_candidate c content threshold verdict = Inr v"
  shows "vc_status v = (if vc_zone v = ''prose'' \<and> fl_value threshold \<le> fl_value (pc_confidence c)
             \<and> (verdict = None \<or> vd_holds (the verdict)) then ''auto'' else ''quarantined'')
    \<and> vc_quote v \<noteq> [] \<and> vc_end v \<le> length content \<and> vc_end v = vc_start v + length (vc_quote v)
    \<and> take (vc_end v - vc_start v) (drop (vc_start v) content) = vc_quote v
    \<and> (\<forall>i. i + length (vc_quote v) \<le> length content \<and> take (length (vc_quote v)) (drop i content) = vc_quote v
           \<longrightarrow> vc_start v \<le> i \<and> i < vc_end v)
    \<and> (vc_zone v = ''prose'' \<longrightarrow> (\<forall>i. vc_start v \<le> i \<and> i < vc_end v \<longrightarrow> zone_map content ! i = ''prose''))"
proof -
  obtain start fin zone where l: "locate_evidence content (pc_quote c) = Inr (start, fin, zone)"
    using assms by (auto simp: validate_candidate_def)
  have v: "vc_quote v = pc_quote c" "vc_start v = start" "vc_end v = fin" "vc_zone v = zone"
      "vc_status v = (if zone = ''prose'' \<and> fl_value threshold \<le> fl_value (pc_confidence c)
             \<and> (verdict = None \<or> vd_holds (the verdict)) then ''auto'' else ''quarantined'')"
    using assms l by (auto simp: validate_candidate_def Let_def split_beta split: if_splits)
  show ?thesis unfolding v using located[OF l] by auto
qed

definition demo_candidate :: proposed where
  "demo_candidate = \<lparr>pc_type = ''fact'', pc_content = ''x'', pc_quote = ''ok'',
     pc_confidence = \<lparr>fl_value = 1, fl_repr = ''1.0''\<rparr>\<rparr>"

lemma demo_validated:
  "is_ok (validate_candidate demo_candidate ''all ok `no`'' \<lparr>fl_value = 1 / 2, fl_repr = ''0.5''\<rparr> None)"
  by code_simp

theorem auto_needs_exact_prose_witness:
  "\<exists>v. validate_candidate demo_candidate ''all ok `no`'' \<lparr>fl_value = 1 / 2, fl_repr = ''0.5''\<rparr> None = Inr v
     \<and> vc_end v = vc_start v + length (vc_quote v)"
proof -
  obtain v where r: "validate_candidate demo_candidate ''all ok `no`'' \<lparr>fl_value = 1 / 2, fl_repr = ''0.5''\<rparr> None = Inr v"
    using demo_validated by (auto simp: is_ok_iff)
  show ?thesis using auto_needs_exact_prose[OF r] r by blast
qed

text \<open>What the schema promises of a candidate.\<close>

definition proposed_ok :: "proposed \<Rightarrow> bool" where
  "proposed_ok c \<longleftrightarrow> pc_type c \<in> set ALLOWED_CANDIDATE_TYPES \<and> pc_content c \<noteq> []
     \<and> 0 \<le> fl_value (pc_confidence c) \<and> fl_value (pc_confidence c) \<le> 1
     \<and> (\<exists>t. pc_content c = normalize_content t)"

lemma parse_candidate_spec: "parse_candidate to_float item = Inr c \<Longrightarrow> proposed_ok c"
  by (auto simp: proposed_ok_def parse_candidate_def extraction_error_def Let_def split: json.splits if_splits)

lemma mapr_all: "mapr f xs = Inr ys \<Longrightarrow> (\<And>x y. f x = Inr y \<Longrightarrow> P y) \<Longrightarrow> \<forall>y \<in> set ys. P y"
  by (induction xs arbitrary: ys) auto

lemma parse_candidates_ok:
  assumes "parse_candidates loads to_float value = Inr cs"
  shows "\<forall>c \<in> set cs. proposed_ok c"
proof -
  obtain v where v: "(case (case v of JObj d \<Rightarrow> jget d ''candidates'' | x \<Rightarrow> x) of
       JArr items \<Rightarrow> mapr (parse_candidate to_float) items
     | _ \<Rightarrow> extraction_error ''malformed_output'') = Inr cs"
    using assms by (auto simp: parse_candidates_def)
  obtain items where "mapr (parse_candidate to_float) items = Inr cs"
    using v by (cases "case v of JObj d \<Rightarrow> jget d ''candidates'' | x \<Rightarrow> x") (simp_all add: extraction_error_def)
  then show ?thesis using parse_candidate_spec by (rule mapr_all)
qed

text \<open>
  The parser is strict.  Whatever a model answers, the candidates that come out of it
  have one of the six types, a content that is not empty and in normal form, and a
  confidence between 0 and 1; one item that fails makes the whole answer fail.
\<close>

theorem parser_is_strict:
  assumes "parse_candidates loads to_float value = Inr cs"
  shows "set cs \<subseteq> {c. pc_type c \<in> {''decision'', ''fact'', ''failure'', ''lesson'', ''preference'', ''task''}
     \<and> pc_content c \<noteq> [] \<and> 0 \<le> fl_value (pc_confidence c) \<and> fl_value (pc_confidence c) \<le> 1
     \<and> (\<exists>t. pc_content c = normalize_content t)}"
  using parse_candidates_ok[OF assms] by (auto simp: proposed_ok_def ALLOWED_CANDIDATE_TYPES_def)

definition demo_answer :: json where
  "demo_answer = JArr [JObj [(''memory_type'', JStr ''fact''), (''normalized_content'', JStr '' a  b ''),
     (''evidence_quote'', JStr ''ok''), (''confidence'', JFloat ''1.0'')]]"

lemma demo_parsed: "is_ok (parse_candidates (\<lambda>_. None) (\<lambda>_. Inr \<lparr>fl_value = 1, fl_repr = ''1.0''\<rparr>) demo_answer)"
  by code_simp

theorem parser_is_strict_witness:
  "\<exists>cs. parse_candidates (\<lambda>_. None) (\<lambda>_. Inr \<lparr>fl_value = 1, fl_repr = ''1.0''\<rparr>) demo_answer = Inr cs
     \<and> set cs \<subseteq> {c. pc_content c \<noteq> []}"
proof -
  obtain cs where r: "parse_candidates (\<lambda>_. None) (\<lambda>_. Inr \<lparr>fl_value = 1, fl_repr = ''1.0''\<rparr>) demo_answer = Inr cs"
    using demo_parsed by (auto simp: is_ok_iff)
  show ?thesis using parser_is_strict[OF r] r by blast
qed

end
