(* ===== verification/ExtractionRuns.thy ===== *)
theory ExtractionRuns
  imports Settlement Evidence
begin

text \<open>
  Extraction runs: what the store records of a model's attempts to read an event
  (\<open>storage.py\<close>), and the loop that drives them (\<open>extraction.py\<close>, \<open>ExtractionService\<close>).  The
  extractor, its verifier, \<open>json.loads\<close>, \<open>float\<close> and \<open>str\<close> of an exception are
  arguments.
\<close>

section \<open>Runs and attempts\<close>

definition register_extractor_config ::
  "world \<Rightarrow> string \<Rightarrow> (string, json) dict \<Rightarrow> store \<Rightarrow> (unit \<times> store) result" where
  "register_extractor_config w config_hash descriptor s =
     (if config_hash = [] then Inl (ValueError ''extractor config hash must be non-empty'')
      else (let existing = List.find (\<lambda>c. ec_hash c = config_hash) (st_configs s);
                encoded = json_text (JObj descriptor)
            in if existing \<noteq> None \<and> ec_descriptor (the existing) \<noteq> encoded
               then Inl (ValueError ''extractor config hash collision'')
               else (let (now, s1) = read_clock w s
                     in Inr ((), s1\<lparr>st_configs := st_configs s1 @
                          (if existing = None
                           then [\<lparr>ec_hash = config_hash, ec_descriptor = encoded, ec_created = now\<rparr>] else [])\<rparr>))))"

definition canonical_message :: "event \<Rightarrow> bool" where
  "canonical_message e \<longleftrightarrow> ev_kind e = ''message'' \<and> ev_role e \<in> {Some ''user'', Some ''assistant''}"

definition preceding_canonical_events :: "store \<Rightarrow> int \<Rightarrow> int \<Rightarrow> event list result" where
  "preceding_canonical_events s seq limit =
     (if limit < 1 then Inr []
      else (case List.find (\<lambda>e. ev_seq e = seq) (st_events s) of
              None \<Rightarrow> Inl (KeyError (''unknown event seq: '' @ show_int seq))
            | Some current \<Rightarrow>
                Inr (take_last (nat limit) (sort_key ev_seq
                  (filter (\<lambda>e. ev_seq e < seq \<and> ev_branch e = ev_branch current \<and> canonical_message e)
                    (st_events s))))))"

definition run_of :: "store \<Rightarrow> string \<Rightarrow> string \<Rightarrow> extraction_run option" where
  "run_of s event_id config_hash =
     List.find (\<lambda>r. ru_event r = event_id \<and> ru_config r = config_hash) (st_runs s)"

definition run_attempts :: "store \<Rightarrow> string \<Rightarrow> extraction_attempt list" where
  "run_attempts s run_id = sorted_rev_key at_no (filter (\<lambda>a. at_run a = run_id) (st_attempts s))"

definition extraction_done :: "store \<Rightarrow> string \<Rightarrow> string \<Rightarrow> bool" where
  "extraction_done s event_id config_hash \<longleftrightarrow>
     (case run_of s event_id config_hash of
        None \<Rightarrow> False
      | Some r \<Rightarrow> \<exists>a \<in> set (run_attempts s (ru_id r)). at_outcome a = ''succeeded'')"

definition selected_for_extraction :: "store \<Rightarrow> string \<Rightarrow> bool \<Rightarrow> int \<Rightarrow> event \<Rightarrow> bool" where
  "selected_for_extraction s config_hash retry_failed max_retries e \<longleftrightarrow>
     (case run_of s (ev_id e) config_hash of
        None \<Rightarrow> True
      | Some r \<Rightarrow>
          (case run_attempts s (ru_id r) of
             [] \<Rightarrow> True
           | latest # _ \<Rightarrow>
               at_outcome latest = ''retryable_failure'' \<and> at_no latest < max_retries
               \<or> retry_failed \<and> at_outcome latest \<in> {''retryable_failure'', ''terminal_failure''}))"

definition pending_extraction_events :: "store \<Rightarrow> string \<Rightarrow> int option \<Rightarrow> bool \<Rightarrow> int \<Rightarrow> event list" where
  "pending_extraction_events s config_hash limit retry_failed max_retries =
     (let rows = sort_key ev_seq (filter (\<lambda>e. canonical_message e \<and> \<not> extraction_done s (ev_id e) config_hash)
                   (st_events s));
          selected = filter (selected_for_extraction s config_hash retry_failed max_retries) rows
      in case limit of None \<Rightarrow> selected | Some n \<Rightarrow> take (nat n) selected)"

definition insert_run :: "extraction_run \<Rightarrow> store \<Rightarrow> store result" where
  "insert_run r s =
     bindr (insert_keyed ru_id ''extraction_runs.id'' r (st_runs s)) (\<lambda>rows.
     bindr (foreign_key (find_event s (ru_event r) \<noteq> None)) (\<lambda>_.
     bindr (foreign_key (ru_config r \<in> ec_hash ` set (st_configs s))) (\<lambda>_.
       Inr (s\<lparr>st_runs := rows\<rparr>))))"

definition ensure_extraction_run :: "world \<Rightarrow> string \<Rightarrow> string \<Rightarrow> store \<Rightarrow> (string \<times> store) result" where
  "ensure_extraction_run w event_id config_hash s =
     (case run_of s event_id config_hash of
        Some r \<Rightarrow> Inr (ru_id r, s)
      | None \<Rightarrow>
          if find_event s event_id = None then Inl (KeyError (''unknown event: '' @ event_id))
          else (let (hex, s1) = fresh_uuid w s;
                    (now, s2) = read_clock w s1
                in bindr (insert_run \<lparr>ru_id = ''run_'' @ hex, ru_event = event_id, ru_config = config_hash,
                            ru_created = now\<rparr> s2) (\<lambda>s3. Inr (''run_'' @ hex, s3))))"

definition last_start_no :: "store \<Rightarrow> string \<Rightarrow> int" where
  "last_start_no s run_id =
     (case map as_no (filter (\<lambda>a. as_run a = run_id) (st_starts s)) of
        [] \<Rightarrow> 0
      | n # ns \<Rightarrow> fold max ns n)"

definition start_extraction_attempt :: "world \<Rightarrow> string \<Rightarrow> store \<Rightarrow> ((int \<times> string) \<times> store) result" where
  "start_extraction_attempt w run_id s =
     (if find_run s run_id = None then Inl (KeyError (''unknown extraction run: '' @ run_id))
      else (let attempt_no = last_start_no s run_id + 1;
                (now, s1) = read_clock w s;
                (hex, s2) = fresh_uuid w s1;
                row = \<lparr>as_id = ''start_'' @ hex, as_run = run_id, as_no = attempt_no, as_started = now\<rparr>
            in bindr (insert_keyed as_id ''extraction_attempt_starts.id'' row (st_starts s2)) (\<lambda>_.
               bindr (insert_keyed (\<lambda>a. (as_run a, as_no a))
                        ''extraction_attempt_starts.run_id, extraction_attempt_starts.attempt_no'' row (st_starts s2))
                 (\<lambda>rows. Inr ((attempt_no, now), s2\<lparr>st_starts := rows\<rparr>)))))"

definition insert_attempt :: "extraction_attempt \<Rightarrow> store \<Rightarrow> store result" where
  "insert_attempt a s =
     bindr (insert_keyed at_id ''extraction_attempts.id'' a (st_attempts s)) (\<lambda>_.
     bindr (insert_keyed (\<lambda>a. (at_run a, at_no a))
              ''extraction_attempts.run_id, extraction_attempts.attempt_no'' a (st_attempts s)) (\<lambda>rows.
     bindr (foreign_key (find_run s (at_run a) \<noteq> None)) (\<lambda>_.
       Inr (s\<lparr>st_attempts := rows\<rparr>))))"

definition finish_extraction_failure ::
  "world \<Rightarrow> string \<Rightarrow> int \<Rightarrow> string \<Rightarrow> string \<Rightarrow> string \<Rightarrow> string \<Rightarrow> store \<Rightarrow> (string \<times> store) result" where
  "finish_extraction_failure w run_id attempt_no started_at outcome error_code redacted_error s =
     (if outcome \<notin> set [''retryable_failure'', ''terminal_failure'']
      then Inl (ValueError ''invalid extraction failure outcome'')
      else (let safe_error = fst (redact_text (w_rules w) True redacted_error);
                (hex, s1) = fresh_uuid w s;
                (now, s2) = read_clock w s1
            in bindr (insert_attempt
                 \<lparr>at_id = ''attempt_'' @ hex, at_run = run_id, at_no = attempt_no, at_outcome = outcome,
                  at_started = started_at, at_finished = now, at_error = Some error_code,
                  at_redacted = Some (take 2000 safe_error), at_raw = None\<rparr> s2)
               (\<lambda>s3. Inr (''attempt_'' @ hex, s3))))"

section \<open>Committing what an attempt found\<close>

record rejected =
  rx_candidate :: json
  rx_code :: string
  rx_error :: string

definition insert_raw :: "raw_response \<Rightarrow> store \<Rightarrow> store result" where
  "insert_raw r s =
     bindr (insert_keyed rr_id ''extraction_raw_responses.id'' r (st_raws s)) (\<lambda>_.
     bindr (insert_keyed rr_attempt ''extraction_raw_responses.attempt_id'' r (st_raws s)) (\<lambda>rows.
     bindr (foreign_key (rr_attempt r \<in> at_id ` set (st_attempts s))) (\<lambda>_.
       Inr (s\<lparr>st_raws := rows\<rparr>))))"

fun insert_rejections :: "world \<Rightarrow> string \<Rightarrow> string \<Rightarrow> rejected list \<Rightarrow> store \<Rightarrow> store result" where
  "insert_rejections w run_id attempt_id [] s = Inr s"
| "insert_rejections w run_id attempt_id (x # xs) s =
     (let safe_error = fst (redact_text (w_rules w) True (rx_error x));
          (hex, s1) = fresh_uuid w s;
          (now, s2) = read_clock w s1
      in bindr (insert_keyed rj_id ''extraction_rejections.id''
                  \<lparr>rj_id = ''reject_'' @ hex, rj_run = run_id, rj_attempt = attempt_id,
                   rj_candidate = json_text (rx_candidate x), rj_code = rx_code x,
                   rj_error = take 2000 safe_error, rj_created = now\<rparr> (st_rejections s2))
           (\<lambda>rows. insert_rejections w run_id attempt_id xs (s2\<lparr>st_rejections := rows\<rparr>)))"

definition interpretation_key :: "validated \<Rightarrow> string \<times> nat \<times> nat" where
  "interpretation_key c = (vc_type c, vc_start c, vc_end c)"

text \<open>The keys that were read in more than one way.\<close>

definition conflicting :: "validated list \<Rightarrow> validated \<Rightarrow> bool" where
  "conflicting cs c \<longleftrightarrow>
     length (remdups (map (\<lambda>x. normalized_key (vc_content x))
       (filter (\<lambda>x. interpretation_key x = interpretation_key c) cs))) > 1"

definition existing_auto_memory :: "store \<Rightarrow> string \<Rightarrow> string \<Rightarrow> memory_record option" where
  "existing_auto_memory s memory_type normalized =
     List.find (\<lambda>r. normalized_key (me_content r) = normalized_key normalized)
       (sort_key me_created (filter (\<lambda>r. me_type r = memory_type) (st_memories s)))"

definition auto_memory_row ::
  "validated \<Rightarrow> event \<Rightarrow> string \<Rightarrow> string \<Rightarrow> string \<Rightarrow> string \<Rightarrow> int \<Rightarrow> string \<Rightarrow> memory_record" where
  "auto_memory_row c e run_id candidate_id config_hash memory_id cursor created_at =
     \<lparr>me_id = memory_id, me_branch = ev_branch e, me_type = vc_type c, me_content = vc_content c,
      me_summary = take 240 (vc_content c), me_files = ev_files e,
      me_risk = \<lparr>fl_value = 0, fl_repr = ''0.0''\<rparr>, me_cost = \<lparr>fl_value = 5 / 4, fl_repr = ''1.25''\<rparr>,
      me_version = 1, me_sources = [ev_id e], me_supersedes = None, me_cursor = cursor,
      me_created = created_at,
      me_metadata = [(''origin'', JStr ''auto''), (''authority_level'', JStr ''auto''),
        (''origin_evidence_type'', JStr ''extractor''), (''extraction_run_id'', JStr run_id),
        (''candidate_id'', JStr candidate_id), (''extractor_config_hash'', JStr config_hash),
        (''confidence'', JFloat (fl_repr (vc_confidence c))), (''evidence_zone'', JStr (vc_zone c))],
      me_from = None, me_to = None, me_from_precision = None, me_to_precision = None,
      me_expression = None\<rparr>"

text \<open>The memory that an automatic candidate supports, or the one it becomes.\<close>

definition auto_memory ::
  "world \<Rightarrow> validated \<Rightarrow> event \<Rightarrow> string \<Rightarrow> string \<Rightarrow> string \<Rightarrow> string \<Rightarrow> store
    \<Rightarrow> ((string \<times> string) \<times> store) result" where
  "auto_memory w c e run_id candidate_id config_hash created_at s =
     (case existing_auto_memory s (vc_type c) (vc_content c) of
        Some existing \<Rightarrow> Inr ((me_id existing, ''supports''), s)
      | None \<Rightarrow>
          (let (hex, s1) = fresh_uuid w s;
               memory_id = ''mem_'' @ hex
           in bindr (append_event_in_tx w (state_draft (ev_branch e) None
                  (''auto-derived '' @ vc_type c @ '': '' @ take 240 (vc_content c))
                  [(''operation'', JStr ''auto_derive_memory''), (''memory_id'', JStr memory_id),
                   (''source_event_ids'', JArr [JStr (ev_id e)]), (''extraction_run_id'', JStr run_id),
                   (''candidate_id'', JStr candidate_id), (''extractor_config_hash'', JStr config_hash)]
                  (ev_files e)) s1) (\<lambda>(derivation, s2).
              bindr (insert_memory (auto_memory_row c e run_id candidate_id config_hash memory_id
                       (ev_seq derivation) created_at) s2) (\<lambda>s3.
                Inr ((memory_id, ''derived''), s3)))))"

definition insert_link :: "memory_link \<Rightarrow> store \<Rightarrow> store result" where
  "insert_link l s =
     bindr (insert_keyed ln_id ''candidate_memory_links.id'' l (st_links s)) (\<lambda>_.
     bindr (insert_keyed link_key ''candidate_memory_links.candidate_id'' l (st_links s)) (\<lambda>rows.
     bindr (foreign_key (link_references l s)) (\<lambda>_. Inr (s\<lparr>st_links := rows\<rparr>))))"

definition commit_candidate ::
  "world \<Rightarrow> string \<Rightarrow> string \<Rightarrow> event \<Rightarrow> string \<Rightarrow> validated list \<Rightarrow> validated \<Rightarrow> store
    \<Rightarrow> (string list \<times> store) result" where
  "commit_candidate w run_id attempt_id e config_hash cs c s =
     (let (hex, s1) = fresh_uuid w s;
          candidate_id = ''cand_'' @ hex;
          initial_status = (if conflicting cs c then ''quarantined'' else vc_status c);
          initial_rule = (if conflicting cs c then ''conflicting_interpretations'' else vc_rule c);
          (created_at, s2) = read_clock w s1
      in bindr (insert_candidate_or_ignore
           \<lparr>ca_id = candidate_id, ca_run = run_id, ca_attempt = attempt_id, ca_type = vc_type c,
            ca_content = vc_content c, ca_quote = vc_quote c, ca_start = int (vc_start c),
            ca_end = int (vc_end c), ca_zone = vc_zone c, ca_confidence = vc_confidence c,
            ca_kind = ''extraction'', ca_created = created_at\<rparr> s2) (\<lambda>(fresh, s3).
         if \<not> fresh then Inr ([], s3)
         else (let (hex', s4) = fresh_uuid w s3 in
           bindr (insert_move (candidate_row_move (''ctr_'' @ hex') candidate_id None initial_status e
                    ''extractor'' initial_rule None None (Some run_id) created_at) s4) (\<lambda>s5.
           if initial_status \<noteq> ''auto'' then Inr ([candidate_id], s5)
           else bindr (auto_memory w c e run_id candidate_id config_hash created_at s5) (\<lambda>((memory_id, relation), s6).
             let (hex'', s7) = fresh_uuid w s6
             in bindr (insert_link \<lparr>ln_id = ''cml_'' @ hex'', ln_candidate = candidate_id, ln_memory = memory_id,
                         ln_relation = relation, ln_event = ev_id e, ln_created = created_at\<rparr> s7)
                  (\<lambda>s8. Inr ([candidate_id], s8)))))))"

fun commit_candidates ::
  "world \<Rightarrow> string \<Rightarrow> string \<Rightarrow> event \<Rightarrow> string \<Rightarrow> validated list \<Rightarrow> validated list \<Rightarrow> store
    \<Rightarrow> (string list \<times> store) result" where
  "commit_candidates w run_id attempt_id e config_hash cs [] s = Inr ([], s)"
| "commit_candidates w run_id attempt_id e config_hash cs (c # rest) s =
     bindr (commit_candidate w run_id attempt_id e config_hash cs c s) (\<lambda>(ids, s1).
     bindr (commit_candidates w run_id attempt_id e config_hash cs rest s1) (\<lambda>(more_ids, s2).
       Inr (ids @ more_ids, s2)))"

definition commit_extraction_success ::
  "world \<Rightarrow> string \<Rightarrow> int \<Rightarrow> string \<Rightarrow> event \<Rightarrow> validated list \<Rightarrow> rejected list \<Rightarrow> json \<Rightarrow> string \<Rightarrow> store
    \<Rightarrow> (string list \<times> store) result" where
  "commit_extraction_success w run_id attempt_no started_at e candidates rejections raw config_hash s =
     (let raw_text = json_text (fst (redact_value (w_rules w) raw));
          (hex, s1) = fresh_uuid w s;
          (hex', s2) = fresh_uuid w s1;
          attempt_id = ''attempt_'' @ hex;
          raw_id = ''raw_'' @ hex'
      in case find_run s2 run_id of
           None \<Rightarrow> Inl (ValueError ''extraction run and canonical event do not match'')
         | Some run \<Rightarrow>
             if ru_event run \<noteq> ev_id e
             then Inl (ValueError ''extraction run and canonical event do not match'')
             else (let (now, s3) = read_clock w s2 in
               bindr (insert_attempt
                 \<lparr>at_id = attempt_id, at_run = run_id, at_no = attempt_no, at_outcome = ''succeeded'',
                  at_started = started_at, at_finished = now, at_error = None, at_redacted = None,
                  at_raw = Some raw_id\<rparr> s3) (\<lambda>s4.
               let (now', s5) = read_clock w s4 in
               bindr (insert_raw \<lparr>rr_id = raw_id, rr_attempt = attempt_id, rr_payload = raw_text,
                        rr_created = now'\<rparr> s5) (\<lambda>s6.
               bindr (insert_rejections w run_id attempt_id rejections s6) (\<lambda>s7.
                 commit_candidates w run_id attempt_id e config_hash candidates candidates s7)))))"

section \<open>The loop\<close>

record extractor =
  xr_hash :: string
  xr_threshold :: pyfloat
  xr_retries :: int
  xr_context :: int
  xr_extract :: "event \<Rightarrow> event list \<Rightarrow> json result"
  xr_verify :: "proposed \<Rightarrow> event \<Rightarrow> verdict option result"
  xr_loads :: "string \<Rightarrow> json option"
  xr_float :: "json \<Rightarrow> pyfloat result"
  xr_text :: "exn \<Rightarrow> string"

text \<open>\<open>getattr(exc, "code", type(exc).__name__)\<close>.\<close>

fun error_code :: "exn \<Rightarrow> string" where
  "error_code (ValueError _) = ''ValueError''"
| "error_code (KeyError _) = ''KeyError''"
| "error_code (PermissionError _) = ''PermissionError''"
| "error_code (RuntimeError _) = ''RuntimeError''"
| "error_code (OverflowError _) = ''OverflowError''"
| "error_code (AssertionError _) = ''AssertionError''"
| "error_code BudgetExceededError = ''BudgetExceededError''"
| "error_code (IntegrityError _) = ''IntegrityError''"
| "error_code (AttributeError _) = ''AttributeError''"
| "error_code (ZlibError _) = ''error''"
| "error_code (SnapshotIntegrityError _ _ _) = ''SnapshotIntegrityError''"
| "error_code (TypeError _) = ''TypeError''"
| "error_code (StoreIntegrityError _) = ''StoreIntegrityError''"
| "error_code (TemporalValidationError c) = c"
| "error_code (ExtractionValidationError c) = c"

text \<open>\<open>asdict(candidate)\<close>.\<close>

definition proposed_dict :: "proposed \<Rightarrow> json" where
  "proposed_dict c =
     JObj [(''memory_type'', JStr (pc_type c)), (''normalized_content'', JStr (pc_content c)),
       (''evidence_quote'', JStr (pc_quote c)), (''confidence'', JFloat (fl_repr (pc_confidence c)))]"

fun validate_all :: "extractor \<Rightarrow> event \<Rightarrow> proposed list \<Rightarrow> (validated list \<times> rejected list) result" where
  "validate_all x e [] = Inr ([], [])"
| "validate_all x e (c # cs) =
     (case bindr (xr_verify x c e) (\<lambda>v. validate_candidate c (ev_content e) (xr_threshold x) v) of
        Inl (ExtractionValidationError err) \<Rightarrow>
          bindr (validate_all x e cs) (\<lambda>(vs, rs).
            Inr (vs, \<lparr>rx_candidate = proposed_dict c, rx_code = err,
                      rx_error = xr_text x (ExtractionValidationError err)\<rparr> # rs))
      | Inl err \<Rightarrow> Inl err
      | Inr v \<Rightarrow> bindr (validate_all x e cs) (\<lambda>(vs, rs). Inr (v # vs, rs)))"

text \<open>The body of the \<open>try\<close>: from the model's answer to the committed candidates.\<close>

definition extract_event ::
  "world \<Rightarrow> extractor \<Rightarrow> event \<Rightarrow> string \<Rightarrow> int \<Rightarrow> string \<Rightarrow> store \<Rightarrow> (string list \<times> store) result" where
  "extract_event w x e run_id attempt_no started_at s =
     bindr (if xr_context x < 1 then Inr [] else preceding_canonical_events s (ev_seq e) (xr_context x)) (\<lambda>context.
     bindr (xr_extract x e context) (\<lambda>raw.
     bindr (parse_candidates (xr_loads x) (xr_float x) raw) (\<lambda>proposals.
     bindr (validate_all x e proposals) (\<lambda>(valid, rejections).
       commit_extraction_success w run_id attempt_no started_at e valid rejections raw (xr_hash x) s))))"

text \<open>
  One event of the backlog: whether it succeeded, or the exception that stops the loop, and
  the store, which keeps what the transactions before the failing one committed.
\<close>

definition process_event :: "world \<Rightarrow> extractor \<Rightarrow> event \<Rightarrow> store \<Rightarrow> bool result \<times> store" where
  "process_event w x e s =
     (case ensure_extraction_run w (ev_id e) (xr_hash x) s of
        Inl err \<Rightarrow> (Inl err, s)
      | Inr (run_id, s1) \<Rightarrow>
          (case start_extraction_attempt w run_id s1 of
             Inl err \<Rightarrow> (Inl err, s1)
           | Inr ((attempt_no, started_at), s2) \<Rightarrow>
               (case extract_event w x e run_id attempt_no started_at s2 of
                  Inr (_, s3) \<Rightarrow> (Inr True, s3)
                | Inl exc \<Rightarrow>
                    (case finish_extraction_failure w run_id attempt_no started_at
                            (if attempt_no < xr_retries x then ''retryable_failure'' else ''terminal_failure'')
                            (error_code exc) (xr_text x exc) s2 of
                       Inl err \<Rightarrow> (Inl err, s2)
                     | Inr (_, s3) \<Rightarrow> (Inr False, s3)))))"

fun process_events ::
  "world \<Rightarrow> extractor \<Rightarrow> event list \<Rightarrow> nat \<times> nat \<Rightarrow> store \<Rightarrow> (nat \<times> nat) result \<times> store" where
  "process_events w x [] counts s = (Inr counts, s)"
| "process_events w x (e # es) (succeeded, failed) s =
     (case process_event w x e s of
        (Inl err, s') \<Rightarrow> (Inl err, s')
      | (Inr True, s') \<Rightarrow> process_events w x es (succeeded + 1, failed) s'
      | (Inr False, s') \<Rightarrow> process_events w x es (succeeded, failed + 1) s')"

definition process_backlog ::
  "world \<Rightarrow> extractor \<Rightarrow> int option \<Rightarrow> bool \<Rightarrow> store \<Rightarrow> (nat \<times> nat) result \<times> store" where
  "process_backlog w x limit retry_failed s =
     process_events w x (pending_extraction_events s (xr_hash x) limit retry_failed (xr_retries x)) (0, 0) s"

end
