(* ===== verification/ExtractionFacts.thy ===== *)
theory ExtractionFacts
  imports Growth ExtractionRuns
begin

text \<open>
  What the calls of extraction keep: the log, the memory records and the candidate ledger
  stay in order, and everything else is left alone.
\<close>

section \<open>Frames\<close>

text \<open>The tables that extraction never writes; events are only appended.\<close>

definition only_extracts :: "store \<Rightarrow> store \<Rightarrow> bool" where
  "only_extracts s s' \<longleftrightarrow> st_branches s' = st_branches s \<and> (\<exists>es. st_events s' = st_events s @ es)
     \<and> st_blocks s' = st_blocks s \<and> st_policies s' = st_policies s \<and> st_findings s' = st_findings s
     \<and> st_finding_moves s' = st_finding_moves s \<and> st_tasks s' = st_tasks s"

lemma only_extracts_refl [simp]: "only_extracts s s"
  by (simp add: only_extracts_def)

lemma only_extracts_trans: "only_extracts s t \<Longrightarrow> only_extracts t u \<Longrightarrow> only_extracts s u"
  by (auto simp: only_extracts_def)

lemma only_extracts_find:
  "only_extracts s s' \<Longrightarrow> find_event s i = Some e \<Longrightarrow> find_event s' i = Some e"
  using find_append by (auto simp: only_extracts_def find_event_def)

text \<open>The step relation of one call: the invariants hold, the tables advance.\<close>

definition extraction_step :: "world \<Rightarrow> store \<Rightarrow> store \<Rightarrow> bool" where
  "extraction_step w s s' \<longleftrightarrow> confirm_inv w s' \<and> only_extracts s s' \<and> advances s s'"

lemma extraction_step_refl: "confirm_inv w s \<Longrightarrow> extraction_step w s s"
  by (simp add: extraction_step_def)

lemma extraction_step_trans:
  "extraction_step w s t \<Longrightarrow> extraction_step w t u \<Longrightarrow> extraction_step w s u"
  unfolding extraction_step_def using only_extracts_trans advances_trans by blast

lemma extraction_stepD:
  assumes "extraction_step w s s'"
  shows "confirm_inv w s'" "only_extracts s s'" "advances s s'"
  using assms by (simp_all add: extraction_step_def)

text \<open>A call that writes none of the tables the invariants are about.\<close>

lemma confirm_inv_same:
  assumes inv: "confirm_inv w s"
    and same: "st_branches s' = st_branches s" "st_events s' = st_events s" "st_receipts s' = st_receipts s"
      "st_memories s' = st_memories s" "st_moves s' = st_moves s" "st_candidates s' = st_candidates s"
    and runs: "\<exists>rs. st_runs s' = st_runs s @ rs"
  shows "confirm_inv w s'"
proof -
  have ext: "extends s s'" using same runs by (simp add: extends_def)
  have "candidates_ok s'"
    by (rule candidates_ok_kept[OF _ ext same(5,6)]) (use inv in \<open>simp add: confirm_inv_def\<close>)
  then show ?thesis
    using inv log_ok_cong[of s' s w] memories_ok_cong[of s' s] same by (simp add: confirm_inv_def)
qed

lemma ensure_run_step:
  assumes inv: "confirm_inv w s" and run: "ensure_extraction_run w i h s = Inr (r, s')"
  shows "extraction_step w s s'"
proof -
  have "s' = s \<or> (\<exists>u t rs. s' = s\<lparr>st_uuid := u, st_tick := t, st_runs := st_runs s @ rs\<rparr>)"
    using run by (auto simp: ensure_extraction_run_def insert_run_def fresh_uuid_def read_clock_def Let_def
        split: option.splits if_splits)
  then show ?thesis
  proof
    assume "s' = s"
    then show ?thesis using inv by (simp add: extraction_step_refl)
  next
    assume "\<exists>u t rs. s' = s\<lparr>st_uuid := u, st_tick := t, st_runs := st_runs s @ rs\<rparr>"
    then obtain u t rs where s': "s' = s\<lparr>st_uuid := u, st_tick := t, st_runs := st_runs s @ rs\<rparr>" by blast
    have "confirm_inv w s'" by (rule confirm_inv_same[OF inv]) (simp_all add: s')
    then show ?thesis by (auto simp: extraction_step_def s' only_extracts_def intro: advances_rows)
  qed
qed

lemma start_attempt_step:
  assumes inv: "confirm_inv w s" and run: "start_extraction_attempt w i s = Inr (r, s')"
  shows "extraction_step w s s'"
proof -
  obtain u t xs where s': "s' = s\<lparr>st_tick := t, st_uuid := u, st_starts := xs\<rparr>"
    using run by (auto simp: start_extraction_attempt_def fresh_uuid_def read_clock_def Let_def split: if_splits)
  have "confirm_inv w s'" by (rule confirm_inv_same[OF inv]) (simp_all add: s')
  then show ?thesis by (simp add: extraction_step_def s' only_extracts_def advances_def)
qed

lemma insert_attempt_same: "insert_attempt a s = Inr s' \<Longrightarrow> s' = s\<lparr>st_attempts := st_attempts s @ [a]\<rparr>"
  by (auto simp: insert_attempt_def)

lemma finish_failure_step:
  assumes inv: "confirm_inv w s" and run: "finish_extraction_failure w i n st oc ec err s = Inr (r, s')"
  shows "extraction_step w s s'"
proof -
  obtain u t xs where s': "s' = s\<lparr>st_uuid := u, st_tick := t, st_attempts := xs\<rparr>"
    using run by (auto simp: finish_extraction_failure_def fresh_uuid_def read_clock_def Let_def
        split: if_splits dest!: insert_attempt_same)
  have "confirm_inv w s'" by (rule confirm_inv_same[OF inv]) (simp_all add: s')
  then show ?thesis by (simp add: extraction_step_def s' only_extracts_def advances_def)
qed

section \<open>The automatic memory\<close>

lemma auto_memory_step:
  assumes inv: "confirm_inv w s" and e: "find_event s (ev_id e) = Some e" and type: "vc_type c \<in> set allowed_types"
    and run: "auto_memory w c e rid cid h now s = Inr (r, s')"
  shows "extraction_step w s s' \<and> st_moves s' = st_moves s \<and> st_candidates s' = st_candidates s"
proof (cases "existing_auto_memory s (vc_type c) (vc_content c)")
  case (Some m)
  then show ?thesis using run inv by (simp add: auto_memory_def extraction_step_refl)
next
  case None
  let ?mid = "''mem_'' @ w_uuid w (st_uuid s)" and ?s1 = "s\<lparr>st_uuid := st_uuid s + 1\<rparr>"
  obtain d s2 where h: "append_event_in_tx w (state_draft (ev_branch e) None
                  (''auto-derived '' @ vc_type c @ '': '' @ take 240 (vc_content c))
                  [(''operation'', JStr ''auto_derive_memory''), (''memory_id'', JStr ?mid),
                   (''source_event_ids'', JArr [JStr (ev_id e)]), (''extraction_run_id'', JStr rid),
                   (''candidate_id'', JStr cid), (''extractor_config_hash'', JStr h)] (ev_files e)) ?s1 = Inr (d, s2)"
      and ins: "insert_memory (auto_memory_row c e rid cid h ?mid (ev_seq d) now) s2 = Inr s'"
    using run None by (auto simp: auto_memory_def fresh_uuid_def Let_def)
  let ?r = "auto_memory_row c e rid cid h ?mid (ev_seq d) now"
  note app = append_event_in_tx_appended[OF h]
  have log1: "log_ok w ?s1" using inv by (simp add: confirm_inv_def log_ok_counters)
  have log2: "log_ok w s2" by (rule append_event_in_tx_log_ok[OF log1 h]) (simp add: state_draft_def)
  have ok1: "memories_ok ?s1" using inv memories_ok_cong[of ?s1 s] by (simp add: confirm_inv_def)
  have b: "ev_branch e \<in> branch_ids ?s1" by (rule append_event_in_tx_cases[OF h]) (simp add: state_draft_def)
  obtain lin where lin: "lineage ?s1 (ev_branch e) = Inr lin" "lineage_of (st_branches ?s1) (ev_branch e) lin"
    using lineage_total[OF log_okD(1)[OF log1] b] by blast
  obtain u t where s2: "s2 = s\<lparr>st_uuid := u, st_tick := t, st_events := st_events s @ [d]\<rparr>"
    using appendsE[OF app] by auto
  have s': "s' = s2\<lparr>st_memories := st_memories s @ [?r]\<rparr>" and new: "me_id ?r \<notin> me_id ` set (st_memories s)"
    using ins by (auto simp: insert_memory_def s2)
  have r: "me_branch ?r = ev_branch e" "me_cursor ?r = ev_seq d" "me_sources ?r = [ev_id e]" "me_supersedes ?r = None"
      "me_type ?r = vc_type c" "me_version ?r = 1"
    by (simp_all add: auto_memory_row_def)
  have seq: "ev_seq d - 1 = int (length (st_events s))" using appended_seq[OF log2 app] by simp
  have "ev_seq e \<le> int (length (st_events s))"
    using log_seq_range[OF _ conjunct1[OF find_event_Some[OF e]], of w] inv by (simp add: confirm_inv_def)
  moreover have "find_event s2 (ev_id e) = Some e" using e find_append by (auto simp: s2 find_event_def)
  moreover have "lineage s2 (ev_branch e) = Inr lin" using lin(1) by (simp add: s2 lineage_def)
  moreover have "reaches lin (ev_branch e) (ev_seq e)" using lin(2) by (auto simp: lineage_of_def)
  ultimately have "visible_source s2 (ev_branch e) (ev_seq d - 1) (ev_id e)"
    unfolding visible_source_def seq by blast
  moreover have "\<not> agent_finalized (me_metadata ?r)"
    by (simp add: agent_finalized_def auto_memory_row_def jget_def)
  ultimately have row: "memory_row_ok s2 ?r"
    using type r by (simp add: memory_row_ok_def) (simp add: auto_memory_row_def)
  have kept: "memories_ok s' \<and> log_ok w s' \<and> grows ?s1 s'"
    by (rule memory_added[OF ok1 log1 log2 app _ _ r(2) _ row])
      (use b lin r new in \<open>simp_all add: s' s2 given_def\<close>)
  have ext: "extends s s'" and same: "st_moves s' = st_moves s" "st_candidates s' = st_candidates s"
    unfolding s' s2 by (simp_all add: extends_def)
  have "candidates_ok s'"
    by (rule candidates_ok_kept[OF _ ext same]) (use inv in \<open>simp add: confirm_inv_def\<close>)
  then have "confirm_inv w s'" using kept by (simp add: confirm_inv_def)
  moreover have "advances s s'" unfolding s' s2 by (simp add: advances_def)
  ultimately show ?thesis using same by (simp add: extraction_step_def) (simp add: s' s2 only_extracts_def)
qed

section \<open>Committing\<close>

lemma confirm_inv_counters:
  "confirm_inv w s \<Longrightarrow> confirm_inv w (s\<lparr>st_uuid := u\<rparr>)" "confirm_inv w s \<Longrightarrow> confirm_inv w (s\<lparr>st_tick := t\<rparr>)"
  by (auto intro: confirm_inv_same)

lemma step_from_counters:
  "extraction_step w (s\<lparr>st_uuid := u\<rparr>) s' = extraction_step w s s'"
  "extraction_step w (s\<lparr>st_tick := t\<rparr>) s' = extraction_step w s s'"
  by (simp_all add: extraction_step_def only_extracts_def)

lemma insert_link_frame: "insert_link l s = Inr s' \<Longrightarrow> s' = s\<lparr>st_links := st_links s @ [l]\<rparr>"
  by (auto simp: insert_link_def)

lemma link_step:
  assumes inv: "confirm_inv w s" and run: "insert_link l s = Inr s'"
  shows "extraction_step w s s'"
proof -
  note s' = insert_link_frame[OF run]
  have "confirm_inv w s'" by (rule confirm_inv_same[OF inv]) (simp_all add: s')
  then show ?thesis by (auto simp: extraction_step_def s' only_extracts_def intro: advances_rows)
qed

text \<open>The row of a new candidate and its first move.\<close>

lemma candidate_step:
  assumes inv: "confirm_inv w s" and new: "ca_id c \<notin> ca_id ` set (st_candidates s)" and kind: "ca_kind c = ''extraction''"
    and m: "mv_candidate m = ca_id c" "mv_from m = None"
    and run: "insert_move m (s\<lparr>st_candidates := st_candidates s @ [c], st_uuid := u\<rparr>) = Inr s'"
  shows "extraction_step w s s'"
proof -
  have s': "s' = s\<lparr>st_candidates := st_candidates s @ [c], st_uuid := u, st_moves := st_moves s @ [m]\<rparr>"
    using run by (simp add: insert_move_Inr)
  have "candidates_ok s'"
    by (rule candidate_added[OF _ new m]) (use inv kind in \<open>simp_all add: confirm_inv_def s' extends_def\<close>)
  moreover have "log_ok w s'" "memories_ok s'"
    using inv log_ok_cong[of s' s w] memories_ok_cong[of s' s] by (simp_all add: confirm_inv_def s')
  moreover have "advances s s'" unfolding s' by (simp add: advances_def)
  ultimately show ?thesis by (simp add: extraction_step_def confirm_inv_def) (simp add: s' only_extracts_def)
qed

lemma commit_candidate_step:
  assumes inv: "confirm_inv w s" and e: "find_event s (ev_id e) = Some e" and type: "vc_type c \<in> set allowed_types"
    and run: "commit_candidate w rid aid e h cs c s = Inr (ids, s')"
  shows "extraction_step w s s'"
proof -
  let ?s2 = "s\<lparr>st_uuid := st_uuid s + 1, st_tick := st_tick s + 1\<rparr>"
  let ?cid = "''cand_'' @ w_uuid w (st_uuid s)" and ?now = "w_now w (st_tick s)"
  let ?st = "if conflicting cs c then ''quarantined'' else vc_status c"
  let ?rule = "if conflicting cs c then ''conflicting_interpretations'' else vc_rule c"
  let ?c = "\<lparr>ca_id = ?cid, ca_run = rid, ca_attempt = aid, ca_type = vc_type c,
            ca_content = vc_content c, ca_quote = vc_quote c, ca_start = int (vc_start c),
            ca_end = int (vc_end c), ca_zone = vc_zone c, ca_confidence = vc_confidence c,
            ca_kind = ''extraction'', ca_created = ?now\<rparr>"
  obtain fresh s3 where f: "insert_candidate_or_ignore ?c ?s2 = Inr (fresh, s3)"
      and rest: "(if \<not> fresh then Inr ([], s3)
         else (let (hex', s4) = fresh_uuid w s3 in
           bindr (insert_move (candidate_row_move (''ctr_'' @ hex') ?cid None ?st e ''extractor'' ?rule
                    None None (Some rid) ?now) s4) (\<lambda>s5.
           if ?st \<noteq> ''auto'' then Inr ([?cid], s5)
           else bindr (auto_memory w c e rid ?cid h ?now s5) (\<lambda>((memory_id, relation), s6).
             let (hex'', s7) = fresh_uuid w s6
             in bindr (insert_link \<lparr>ln_id = ''cml_'' @ hex'', ln_candidate = ?cid, ln_memory = memory_id,
                         ln_relation = relation, ln_event = ev_id e, ln_created = ?now\<rparr> s7)
                  (\<lambda>s8. Inr ([?cid], s8)))))) = Inr (ids, s')"
    using run by (auto simp: commit_candidate_def fresh_uuid_def read_clock_def Let_def cong: if_cong)
  have inv2: "confirm_inv w ?s2" using inv confirm_inv_counters by blast
  show ?thesis
  proof (cases fresh)
    case False
    then have "s' = ?s2" using rest insert_candidate_or_ignore_spec(1)[OF f] by simp
    then show ?thesis using inv2 by (simp add: extraction_step_def only_extracts_def)
  next
    case True
    let ?m = "candidate_row_move (''ctr_'' @ w_uuid w (st_uuid s3)) ?cid None ?st e ''extractor'' ?rule
                    None None (Some rid) ?now"
    have s3: "s3 = ?s2\<lparr>st_candidates := st_candidates ?s2 @ [?c]\<rparr>" "ca_id ?c \<notin> ca_id ` set (st_candidates ?s2)"
      using insert_candidate_or_ignore_spec(2)[OF f True] by simp_all
    obtain s5 where m: "insert_move ?m (s3\<lparr>st_uuid := st_uuid s3 + 1\<rparr>) = Inr s5"
        and rest5: "(if ?st \<noteq> ''auto'' then Inr ([?cid], s5)
           else bindr (auto_memory w c e rid ?cid h ?now s5) (\<lambda>((memory_id, relation), s6).
             let (hex'', s7) = fresh_uuid w s6
             in bindr (insert_link \<lparr>ln_id = ''cml_'' @ hex'', ln_candidate = ?cid, ln_memory = memory_id,
                         ln_relation = relation, ln_event = ev_id e, ln_created = ?now\<rparr> s7)
                  (\<lambda>s8. Inr ([?cid], s8)))) = Inr (ids, s')"
      using rest True unfolding fresh_uuid_def Let_def by auto
    have "extraction_step w ?s2 s5"
      by (rule candidate_step[OF inv2 s3(2), of ?m "st_uuid s3 + 1"])
        (use m in \<open>simp_all add: s3(1) candidate_row_move_fields\<close>)
    then have 5: "extraction_step w s s5" by (simp add: step_from_counters)
    show ?thesis
    proof (cases "?st = ''auto''")
      case False
      then show ?thesis using rest5 5 by simp
    next
      case True
      then obtain mid rel s6 s8 where a: "auto_memory w c e rid ?cid h ?now s5 = Inr ((mid, rel), s6)"
          "insert_link \<lparr>ln_id = ''cml_'' @ w_uuid w (st_uuid s6), ln_candidate = ?cid, ln_memory = mid,
                         ln_relation = rel, ln_event = ev_id e, ln_created = ?now\<rparr> (s6\<lparr>st_uuid := st_uuid s6 + 1\<rparr>) = Inr s'"
        using rest5 unfolding fresh_uuid_def Let_def by auto
      note d5 = extraction_stepD[OF 5]
      have 6: "extraction_step w s5 s6"
        using auto_memory_step[OF d5(1) only_extracts_find[OF d5(2) e] type a(1)] by simp
      have "extraction_step w (s6\<lparr>st_uuid := st_uuid s6 + 1\<rparr>) s'"
        by (rule link_step[OF confirm_inv_counters(1)[OF extraction_stepD(1)[OF 6]] a(2)])
      then have "extraction_step w s6 s'" by (simp add: step_from_counters)
      then show ?thesis using 5 6 extraction_step_trans by blast
    qed
  qed
qed

lemma commit_candidates_step:
  assumes "confirm_inv w s" "find_event s (ev_id e) = Some e" "\<forall>c \<in> set todo. vc_type c \<in> set allowed_types"
    and "commit_candidates w rid aid e h cs todo s = Inr (ids, s')"
  shows "extraction_step w s s'"
  using assms
proof (induction todo arbitrary: s ids)
  case Nil
  then show ?case by (simp add: extraction_step_refl)
next
  case (Cons c todo)
  then obtain ids1 s1 ids2 where h: "commit_candidate w rid aid e h cs c s = Inr (ids1, s1)"
      "commit_candidates w rid aid e h cs todo s1 = Inr (ids2, s')"
    by auto
  have 1: "extraction_step w s s1" by (rule commit_candidate_step[OF Cons.prems(1,2) _ h(1)]) (use Cons.prems(3) in simp)
  note d = extraction_stepD[OF 1]
  have "extraction_step w s1 s'"
    by (rule Cons.IH[OF d(1) only_extracts_find[OF d(2) Cons.prems(2)] _ h(2)]) (use Cons.prems(3) in simp)
  then show ?case using 1 extraction_step_trans by blast
qed

lemma rejections_frame:
  "insert_rejections w rid aid xs s = Inr s' \<Longrightarrow> \<exists>u t rs. s' = s\<lparr>st_uuid := u, st_tick := t, st_rejections := rs\<rparr>"
proof (induction xs arbitrary: s)
  case Nil
  then show ?case by (cases s) auto
next
  case (Cons x xs)
  then obtain rows where "insert_rejections w rid aid xs
      (s\<lparr>st_uuid := st_uuid s + 1, st_tick := st_tick s + 1, st_rejections := rows\<rparr>) = Inr s'"
    by (auto simp: fresh_uuid_def read_clock_def Let_def)
  from Cons.IH[OF this] show ?case by auto
qed

lemma commit_success_step:
  assumes inv: "confirm_inv w s" and e: "find_event s (ev_id e) = Some e"
    and types: "\<forall>c \<in> set cands. vc_type c \<in> set allowed_types"
    and run: "commit_extraction_success w rid no started e cands rejs raw h s = Inr (ids, s')"
  shows "extraction_step w s s'"
proof -
  obtain att s3 s4 row s6 s7 where h: "s3 = s\<lparr>st_uuid := st_uuid s + 2, st_tick := st_tick s + 1\<rparr>"
      "insert_attempt att s3 = Inr s4" "insert_raw row (s4\<lparr>st_tick := st_tick s4 + 1\<rparr>) = Inr s6"
      "insert_rejections w rid (''attempt_'' @ w_uuid w (st_uuid s)) rejs s6 = Inr s7"
      "commit_candidates w rid (''attempt_'' @ w_uuid w (st_uuid s)) e h cands cands s7 = Inr (ids, s')"
    using run by (auto simp: commit_extraction_success_def fresh_uuid_def read_clock_def Let_def
        split: option.splits if_splits)
  obtain u t rs where s7: "s7 = s6\<lparr>st_uuid := u, st_tick := t, st_rejections := rs\<rparr>"
    using rejections_frame[OF h(4)] by blast
  obtain ats rws k where s6: "s6 = s\<lparr>st_uuid := st_uuid s + 2, st_attempts := ats, st_tick := k, st_raws := rws\<rparr>"
    using h(3) insert_attempt_same[OF h(2)] by (auto simp: insert_raw_def h(1))
  have inv7: "confirm_inv w s7" by (rule confirm_inv_same[OF inv]) (simp_all add: s7 s6)
  have step7: "extraction_step w s s7"
    using inv7 by (simp add: extraction_step_def s7 s6 only_extracts_def advances_def)
  have "find_event s7 (ev_id e) = Some e" using e by (simp add: s7 s6 find_event_def)
  then have "extraction_step w s7 s'" by (rule commit_candidates_step[OF inv7 _ types h(5)])
  then show ?thesis using step7 extraction_step_trans by blast
qed

section \<open>The loop\<close>

lemma validate_all_types:
  "validate_all x e cs = Inr (vs, rs) \<Longrightarrow> \<forall>c \<in> set cs. pc_type c \<in> T \<Longrightarrow> \<forall>v \<in> set vs. vc_type v \<in> T"
proof (induction cs arbitrary: vs rs)
  case (Cons c cs)
  show ?case
  proof (cases "bindr (xr_verify x c e) (\<lambda>v. validate_candidate c (ev_content e) (xr_threshold x) v)")
    case (Inl err)
    then show ?thesis using Cons by (cases err) auto
  next
    case (Inr v)
    then have "vc_type v = pc_type c" by (auto simp: validate_candidate_def Let_def split_beta)
    then show ?thesis using Cons Inr by auto
  qed
qed simp

lemma extract_event_step:
  assumes inv: "confirm_inv w s" and e: "find_event s (ev_id e) = Some e"
    and run: "extract_event w x e rid no st s = Inr (ids, s')"
  shows "extraction_step w s s'"
proof -
  obtain raw props vs rs where h: "parse_candidates (xr_loads x) (xr_float x) raw = Inr props"
      "validate_all x e props = Inr (vs, rs)"
      "commit_extraction_success w rid no st e vs rs raw (xr_hash x) s = Inr (ids, s')"
    using run by (auto simp: extract_event_def split: if_splits)
  have "\<forall>c \<in> set props. pc_type c \<in> set allowed_types"
    using parse_candidates_ok[OF h(1)] by (auto simp: proposed_ok_def ALLOWED_CANDIDATE_TYPES_def allowed_types_def)
  then have "\<forall>v \<in> set vs. vc_type v \<in> set allowed_types" by (rule validate_all_types[OF h(2)])
  then show ?thesis by (rule commit_success_step[OF inv e _ h(3)])
qed

text \<open>Whatever happens to an event, the store it leaves is in order.\<close>

lemma process_event_step:
  assumes inv: "confirm_inv w s" and e: "find_event s (ev_id e) = Some e"
  shows "extraction_step w s (snd (process_event w x e s))"
proof (cases "ensure_extraction_run w (ev_id e) (xr_hash x) s")
  case (Inl err)
  then show ?thesis using inv by (simp add: process_event_def extraction_step_refl)
next
  case (Inr r1)
  obtain rid s1 where r1: "r1 = (rid, s1)" by fastforce
  have 1: "extraction_step w s s1" using ensure_run_step[OF inv] Inr r1 by simp
  note d1 = extraction_stepD[OF 1]
  show ?thesis
  proof (cases "start_extraction_attempt w rid s1")
    case (Inl err)
    then show ?thesis using Inr r1 1 by (simp add: process_event_def)
  next
    case (Inr r2)
    obtain no st s2 where r2: "r2 = ((no, st), s2)" by (metis prod.exhaust)
    have 2: "extraction_step w s s2"
      using start_attempt_step[OF d1(1)] Inr r2 1 extraction_step_trans by blast
    note d2 = extraction_stepD[OF 2]
    show ?thesis
    proof (cases "extract_event w x e rid no st s2")
      case (Inr r3)
      obtain ids s3 where "r3 = (ids, s3)" by fastforce
      then have "extraction_step w s s3"
        using extract_event_step[OF d2(1) only_extracts_find[OF d2(2) e]] Inr 2 extraction_step_trans by blast
      then show ?thesis
        using \<open>ensure_extraction_run w (ev_id e) (xr_hash x) s = Inr r1\<close> r1
          \<open>start_extraction_attempt w rid s1 = Inr r2\<close> r2 Inr \<open>r3 = (ids, s3)\<close> by (simp add: process_event_def)
    next
      case (Inl exc)
      then show ?thesis
        using \<open>ensure_extraction_run w (ev_id e) (xr_hash x) s = Inr r1\<close> r1
          \<open>start_extraction_attempt w rid s1 = Inr r2\<close> r2 2 finish_failure_step[OF d2(1)] extraction_step_trans
        by (auto simp: process_event_def split: sum.splits)
    qed
  qed
qed

lemma process_events_step:
  assumes "confirm_inv w s" "\<forall>e \<in> set es. find_event s (ev_id e) = Some e"
  shows "extraction_step w s (snd (process_events w x es counts s))"
  using assms
proof (induction es arbitrary: counts s)
  case Nil
  then show ?case by (cases counts) (simp add: extraction_step_refl)
next
  case (Cons e es)
  obtain a b where c: "counts = (a, b)" by fastforce
  have 1: "extraction_step w s (snd (process_event w x e s))" by (rule process_event_step) (use Cons.prems in simp_all)
  note d = extraction_stepD[OF 1]
  have IH: "extraction_step w s (snd (process_events w x es k (snd (process_event w x e s))))" for k
    using Cons.IH[OF d(1)] only_extracts_find[OF d(2)] Cons.prems(2) 1 extraction_step_trans by (meson list.set_intros(2))
  show ?case
  proof (cases "fst (process_event w x e s)")
    case (Inl err)
    then show ?thesis using 1 c by (cases "process_event w x e s") simp
  next
    case (Inr b')
    then show ?thesis using IH c by (cases "process_event w x e s"; cases b') simp_all
  qed
qed

lemma process_backlog_step:
  assumes inv: "confirm_inv w s"
  shows "extraction_step w s (snd (process_backlog w x limit retry s))"
proof -
  have log: "log_ok w s" using inv by (simp add: confirm_inv_def)
  have "set (pending_extraction_events s (xr_hash x) limit retry (xr_retries x)) \<subseteq> set (st_events s)"
    by (auto simp: pending_extraction_events_def Let_def split: option.splits dest: in_set_takeD)
  then show ?thesis
    unfolding process_backlog_def by (intro process_events_step[OF inv]) (use find_event_unique[OF log] in blast)
qed

end
