(* ===== verification/Finalization.thy ===== *)
theory Finalization
  imports Growth
begin

text \<open>
  Finalization (\<open>finalization.py\<close>, \<open>finalization_observer.py\<close>, \<open>finalization_storage.py\<close>): the
  strict tags an assistant may put into its last message, their audit rows, and the memory
  records that confirmed tags become.  The callbacks that project a new record into plugins
  after the commit are not modelled here.
\<close>

section \<open>Audit rows\<close>

definition finalization_key :: "finalization_row \<Rightarrow> string \<times> string \<times> string \<times> string" where
  "finalization_key r = (fz_event r, fz_type r, fz_status r, fz_content r)"

definition insert_finalization :: "finalization_row \<Rightarrow> store \<Rightarrow> store result" where
  "insert_finalization r s =
     bindr (insert_keyed fz_id ''finalization_records.id'' r (st_finalizations s)) (\<lambda>_.
     bindr (insert_keyed finalization_key ''finalization_records.source_event_id'' r (st_finalizations s)) (\<lambda>rows.
     bindr (foreign_key (fz_branch r \<in> br_id ` set (st_branches s))) (\<lambda>_.
       Inr (s\<lparr>st_finalizations := rows\<rparr>))))"

text \<open>A memory that the row names must exist, on the branch of the row.\<close>

definition check_finalization_memory :: "store \<Rightarrow> string option \<Rightarrow> string \<Rightarrow> unit result" where
  "check_finalization_memory s memory_id branch_id =
     (case memory_id of
        None \<Rightarrow> Inr ()
      | Some i \<Rightarrow>
          (case List.find (\<lambda>r. me_id r = i) (st_memories s) of
             None \<Rightarrow> Inl (KeyError (''unknown finalization memory: '' @ i))
           | Some m \<Rightarrow>
               if me_branch m \<noteq> branch_id
               then Inl (ValueError ''finalization memory is outside the target branch'') else Inr ()))"

definition record_finalization ::
  "world \<Rightarrow> string \<Rightarrow> string \<Rightarrow> string \<Rightarrow> string \<Rightarrow> string \<Rightarrow> string option \<Rightarrow> store \<Rightarrow> (string \<times> store) result" where
  "record_finalization w source_event_id branch_id finalization_type status content memory_id s =
     (case find_event s source_event_id of
        None \<Rightarrow> Inl (KeyError (''unknown source event: '' @ source_event_id))
      | Some source \<Rightarrow>
          if ev_branch source \<noteq> branch_id
          then Inl (ValueError ''finalization source is outside the target branch'')
          else if origin_evidence_type source \<noteq> HOST_ASSISTANT_FINALIZATION
          then Inl (ValueError ''finalization requires a trusted assistant Stop event'')
          else bindr (check_finalization_memory s memory_id branch_id) (\<lambda>_.
            case List.find (\<lambda>r. finalization_key r = (source_event_id, finalization_type, status, content))
                   (st_finalizations s) of
              Some existing \<Rightarrow>
                if fz_memory existing \<noteq> memory_id
                then Inl (StoreIntegrityError ''finalization replay changed its memory link'')
                else Inr (fz_id existing, s)
            | None \<Rightarrow>
                (let (hex, s1) = fresh_uuid w s;
                     (now, s2) = read_clock w s1
                 in bindr (insert_finalization
                      \<lparr>fz_id = ''fin_'' @ hex, fz_event = source_event_id, fz_branch = branch_id,
                       fz_type = finalization_type, fz_status = status, fz_content = content,
                       fz_memory = memory_id, fz_created = now\<rparr> s2)
                    (\<lambda>s3. Inr (''fin_'' @ hex, s3)))))"

definition quarantine_key :: "quarantine_row \<Rightarrow> string \<times> string \<times> string" where
  "quarantine_key r = (qz_event r, qz_reason r, qz_raw r)"

definition quarantine_finalization ::
  "world \<Rightarrow> string \<Rightarrow> string \<Rightarrow> string \<Rightarrow> store \<Rightarrow> (string \<times> store) result" where
  "quarantine_finalization w source_event_id reason_code raw_content s =
     (if find_event s source_event_id = None
      then Inl (KeyError (''unknown source event: '' @ source_event_id))
      else (case List.find (\<lambda>r. quarantine_key r = (source_event_id, reason_code, raw_content)) (st_quarantine s) of
              Some existing \<Rightarrow> Inr (qz_id existing, s)
            | None \<Rightarrow>
                (let (hex, s1) = fresh_uuid w s;
                     (now, s2) = read_clock w s1;
                     row = \<lparr>qz_id = ''finq_'' @ hex, qz_event = source_event_id, qz_reason = reason_code,
                            qz_raw = raw_content, qz_created = now\<rparr>
                 in bindr (insert_keyed qz_id ''finalization_quarantine.id'' row (st_quarantine s2)) (\<lambda>rows.
                      Inr (qz_id row, s2\<lparr>st_quarantine := rows\<rparr>)))))"

definition list_finalizations :: "store \<Rightarrow> string option \<Rightarrow> string option \<Rightarrow> finalization_row list" where
  "list_finalizations s branch_id status =
     filter (\<lambda>r. (branch_id = None \<or> branch_id = Some (fz_branch r))
                 \<and> (status = None \<or> status = Some (fz_status r))) (st_finalizations s)"

definition list_finalization_quarantine :: "store \<Rightarrow> quarantine_row list" where
  "list_finalization_quarantine s = st_quarantine s"

section \<open>The grammar of tags\<close>

definition tag_names :: "string list" where
  "tag_names = [''GOAL'', ''DECISION'', ''FACT'', ''CONSTRAINT'', ''TODO'', ''PREFERENCE'', ''FAILURE'', ''LESSON'']"

definition not_space :: "char \<Rightarrow> bool" where
  "not_space c \<longleftrightarrow> \<not> is_space c"

definition any_char :: "char \<Rightarrow> bool" where
  "any_char c \<longleftrightarrow> code c \<noteq> 10"

definition FINALIZATION_PATTERN :: rx where
  "FINALIZATION_PATTERN = rseqs
     [RBegin, rlit ''['', RGroup 1 (ralts (map rlit tag_names)), rlit ''] '',
      RGroup 2 (ralts (map rlit [''CONFIRMED'', ''REJECTED'', ''DEFERRED''])), rlit '': '',
      RGroup 3 (RSeq (RChar not_space) (ropt (RSeq (RStar (RChar any_char)) (RChar not_space)))), REnd]"

definition TAG_LOOKALIKE :: rx where
  "TAG_LOOKALIKE = rseqs [rlit ''['', ralts (map rlit tag_names), rlit '']'']"

definition MAX_TEXT_LENGTH :: nat where
  "MAX_TEXT_LENGTH = 2000"

record tag =
  tg_type :: string
  tg_status :: string
  tg_text :: string

record classified =
  cl_valid :: "tag list"
  cl_malformed :: "string list"
  cl_excluded :: "string list"

text \<open>The first three characters of a line that opens or closes a fence.\<close>

definition marker_of :: "string \<Rightarrow> string option" where
  "marker_of stripped =
     (if starts_with ''```'' stripped \<or> starts_with ''~~~'' stripped then Some (take 3 stripped) else None)"

definition matched :: "nat \<Rightarrow> pos \<Rightarrow> string" where
  "matched n p = or_empty (group n (groups_of p))"

definition parse_tag :: "string \<Rightarrow> tag option" where
  "parse_tag line =
     (case re_fullmatch FINALIZATION_PATTERN line of
        None \<Rightarrow> None
      | Some p \<Rightarrow>
          if length (matched 3 p) > MAX_TEXT_LENGTH then None
          else Some \<lparr>tg_type = matched 1 p, tg_status = matched 2 p, tg_text = matched 3 p\<rparr>)"

fun classify_lines :: "string option \<Rightarrow> string list \<Rightarrow> classified" where
  "classify_lines fence [] = \<lparr>cl_valid = [], cl_malformed = [], cl_excluded = []\<rparr>"
| "classify_lines fence (line # ls) =
     (let stripped = lstrip line in
      case marker_of stripped of
        Some m \<Rightarrow> classify_lines (if fence = None then Some m else if fence = Some m then None else fence) ls
      | None \<Rightarrow>
          if \<not> re_found TAG_LOOKALIKE line then classify_lines fence ls
          else let rest = classify_lines fence ls in
            if fence \<noteq> None \<or> starts_with ''>'' stripped then rest\<lparr>cl_excluded := line # cl_excluded rest\<rparr>
            else (case parse_tag line of
                    None \<Rightarrow> rest\<lparr>cl_malformed := line # cl_malformed rest\<rparr>
                  | Some t \<Rightarrow> rest\<lparr>cl_valid := t # cl_valid rest\<rparr>))"

definition classify_finalization_text :: "string \<Rightarrow> classified" where
  "classify_finalization_text content = classify_lines None (splitlines content)"

section \<open>Materialising\<close>

definition MEMORY_TYPE :: "(string, string) dict" where
  "MEMORY_TYPE =
     [(''GOAL'', ''fact''), (''DECISION'', ''decision''), (''FACT'', ''fact''), (''CONSTRAINT'', ''fact''),
      (''TODO'', ''task''), (''PREFERENCE'', ''preference''), (''FAILURE'', ''failure''), (''LESSON'', ''lesson'')]"

text \<open>
  \<open>_AUDIT_LINK_ONLY\<close>: a bare reference to a proposal or task.  The three Cyrillic words of
  the pattern cannot match a text of the modelled character range.
\<close>

definition AUDIT_LINK_ONLY :: rx where
  "AUDIT_LINK_ONLY = rseqs
     [RBegin, ralts (map rlit_i [''proposal'', ''task'', ''todo'']), RStar (RChar is_space),
      ropt (rlit ''#''), RStar (RChar is_space),
      rplus (RChar (\<lambda>c. is_word c \<or> c \<in> {CHR ''.'', CHR ''-''})),
      ropt (RChar (\<lambda>c. c \<in> {CHR ''.'', CHR ''!''})), REnd]"

definition audit_link_only :: "string \<Rightarrow> bool" where
  "audit_link_only content \<longleftrightarrow> re_fullmatch AUDIT_LINK_ONLY content \<noteq> None"

record finalization_result =
  fr_event :: string
  fr_records :: "string list"
  fr_memories :: "string list"
  fr_quarantine :: "string list"
  fr_eligible :: bool

definition render_audit_content :: "tag \<Rightarrow> string" where
  "render_audit_content t =
     (if tg_status t = ''CONFIRMED'' then tg_text t else ''['' @ tg_status t @ ''] '' @ tg_text t)"

definition tag_line :: "tag \<Rightarrow> string" where
  "tag_line t = ''['' @ tg_type t @ ''] '' @ tg_status t @ '': '' @ tg_text t"

text \<open>Quarantine a list of texts for one reason, one after the other.\<close>

fun quarantine_all ::
  "world \<Rightarrow> event \<Rightarrow> (string \<times> string) list \<Rightarrow> store \<Rightarrow> (string list \<times> store) result" where
  "quarantine_all w e [] s = Inr ([], s)"
| "quarantine_all w e ((reason, raw) # rs) s =
     bindr (quarantine_finalization w (ev_id e) reason raw s) (\<lambda>(i, s1).
     bindr (quarantine_all w e rs s1) (\<lambda>(is, s2). Inr (i # is, s2)))"

text \<open>One text confirmed and rejected at once.\<close>

definition contradictory :: "tag list \<Rightarrow> bool" where
  "contradictory ts \<longleftrightarrow>
     (\<exists>t \<in> set ts. \<exists>u \<in> set ts. tg_type t = tg_type u \<and> tg_text t = tg_text u \<and> tg_status t \<noteq> tg_status u)"

text \<open>\<open>str.title\<close> of a word of capitals.\<close>

definition title_word :: "string \<Rightarrow> string" where
  "title_word v = take 1 v @ lower_ascii (drop 1 v)"

definition finalized_draft :: "event \<Rightarrow> tag \<Rightarrow> string \<Rightarrow> memory_draft" where
  "finalized_draft e t mtype =
     \<lparr>md_type = mtype, md_content = tg_text t, md_sources = [ev_id e],
      md_summary = title_word (tg_type t) @ '': '' @ tg_text t, md_files = [], md_branch = ev_branch e,
      md_risk = \<lparr>fl_value = 0, fl_repr = ''0.0''\<rparr>, md_cost = \<lparr>fl_value = 1, fl_repr = ''1.0''\<rparr>,
      md_supersedes = None,
      md_metadata = [(''origin'', JStr ''host_finalization''), (''authority_level'', JStr ''agent_finalized''),
        (''origin_evidence_type'', JStr ''host_assistant_finalization''),
        (''finalization_type'', JStr (tg_type t)), (''finalization_status'', JStr (tg_status t))],
      md_from = None, md_to = None, md_expression = None\<rparr>"

definition confirmed_tag_memory :: "world \<Rightarrow> event \<Rightarrow> tag \<Rightarrow> store \<Rightarrow> (string option \<times> store) result" where
  "confirmed_tag_memory w e t s =
     (if tg_status t \<noteq> ''CONFIRMED'' then Inr (None, s)
      else (case dget MEMORY_TYPE (tg_type t) of
              None \<Rightarrow> Inl (KeyError (tg_type t))
            | Some mtype \<Rightarrow>
                bindr (derive_memory w (finalized_draft e t mtype) s) (\<lambda>(m, s1). Inr (Some (me_id m), s1))))"

text \<open>The row that an earlier delivery of the event left for this tag.\<close>

definition prior_row :: "finalization_row list \<Rightarrow> event \<Rightarrow> tag \<Rightarrow> finalization_row option" where
  "prior_row existing e t =
     find_last (\<lambda>r. finalization_key r = (ev_id e, tg_type t, tg_status t, render_audit_content t)) existing"

fun materialize_tags ::
  "world \<Rightarrow> event \<Rightarrow> finalization_row list \<Rightarrow> tag list \<Rightarrow> store
    \<Rightarrow> ((string list \<times> string list) \<times> store) result" where
  "materialize_tags w e existing [] s = Inr (([], []), s)"
| "materialize_tags w e existing (t # ts) s =
     bindr (case prior_row existing e t of
              Some r \<Rightarrow> Inr ((fz_id r, fz_memory r), s)
            | None \<Rightarrow>
                bindr (confirmed_tag_memory w e t s) (\<lambda>(m, s1).
                bindr (record_finalization w (ev_id e) (ev_branch e) (tg_type t) (tg_status t)
                         (render_audit_content t) m s1) (\<lambda>(i, s2). Inr ((i, m), s2))))
       (\<lambda>((i, m), s3).
     bindr (materialize_tags w e existing ts s3) (\<lambda>((is, ms), s4).
       Inr ((i # is, (case m of None \<Rightarrow> ms | Some j \<Rightarrow> j # ms)), s4)))"

definition materialize_event :: "world \<Rightarrow> event \<Rightarrow> store \<Rightarrow> (finalization_result \<times> store) result" where
  "materialize_event w e s =
     (if origin_evidence_type e \<noteq> HOST_ASSISTANT_FINALIZATION
      then Inr (\<lparr>fr_event = ev_id e, fr_records = [], fr_memories = [], fr_quarantine = [], fr_eligible = False\<rparr>, s)
      else let c = classify_finalization_text (ev_content e);
               links = filter (\<lambda>t. audit_link_only (tg_text t)) (cl_valid c);
               tags = uniq (filter (\<lambda>t. \<not> audit_link_only (tg_text t)) (cl_valid c))
           in bindr (quarantine_all w e (map (Pair ''malformed_finalization'') (cl_malformed c)
                       @ map (\<lambda>t. (''non_standalone_text'', tag_line t)) links) s) (\<lambda>(qs, s1).
              if contradictory tags
              then bindr (quarantine_all w e (map (\<lambda>t. (''contradictory_statuses'', tag_line t)) tags) s1) (\<lambda>(qs', s2).
                     Inr (\<lparr>fr_event = ev_id e, fr_records = [], fr_memories = [], fr_quarantine = qs @ qs',
                           fr_eligible = True\<rparr>, s2))
              else bindr (materialize_tags w e (list_finalizations s1 (Some (ev_branch e)) None) tags s1)
                     (\<lambda>((is, ms), s2).
                     Inr (\<lparr>fr_event = ev_id e, fr_records = is, fr_memories = ms, fr_quarantine = qs,
                           fr_eligible = True\<rparr>, s2))))"

fun materialize_finalizations ::
  "world \<Rightarrow> event list \<Rightarrow> store \<Rightarrow> (finalization_result list \<times> store) result" where
  "materialize_finalizations w [] s = Inr ([], s)"
| "materialize_finalizations w (e # es) s =
     bindr (materialize_event w e s) (\<lambda>(r, s1).
     bindr (materialize_finalizations w es s1) (\<lambda>(rs, s2). Inr (r # rs, s2)))"

end
