(* ===== verification/FinalizationFacts.thy ===== *)
theory FinalizationFacts
  imports Finalization
begin

text \<open>
  What finalization keeps: the audit tables only grow, each of their rows rests on a trusted
  Stop event of its branch, and delivering the same events again changes nothing.
\<close>

section \<open>Growing with the audit tables\<close>

definition evolves :: "store \<Rightarrow> store \<Rightarrow> bool" where
  "evolves s s' \<longleftrightarrow> advances s (s'\<lparr>st_finalizations := st_finalizations s, st_quarantine := st_quarantine s\<rparr>)
     \<and> prefix (st_finalizations s) (st_finalizations s') \<and> prefix (st_quarantine s) (st_quarantine s')"

lemma evolves_refl [simp]: "evolves s s"
  by (simp add: evolves_def advances_def)

lemma evolves_trans: "evolves s t \<Longrightarrow> evolves t u \<Longrightarrow> evolves s u"
  by (auto simp: evolves_def advances_def intro: prefix_order.trans)

lemma advances_evolves: "advances s s' \<Longrightarrow> evolves s s'"
  by (simp add: evolves_def advances_def)

lemma evolves_fields:
  assumes "evolves s s'"
  shows "prefix (st_branches s) (st_branches s')" "prefix (st_events s) (st_events s')"
    "prefix (st_memories s) (st_memories s')" "prefix (st_moves s) (st_moves s')"
    "prefix (st_finding_moves s) (st_finding_moves s')"
  using assms by (simp_all add: evolves_def advances_def)

lemma evolves_find: "evolves s s' \<Longrightarrow> find_event s i = Some e \<Longrightarrow> find_event s' i = Some e"
  using evolves_fields(2)[of s s'] find_append[of "\<lambda>e. ev_id e = i" "st_events s" e]
  by (auto simp: find_event_def prefix_def)

text \<open>What one operation on the audit tables does.\<close>

definition only_audits :: "store \<Rightarrow> store \<Rightarrow> bool" where
  "only_audits s s' \<longleftrightarrow> st_branches s' = st_branches s \<and> st_events s' = st_events s
     \<and> st_receipts s' = st_receipts s \<and> st_memories s' = st_memories s \<and> st_moves s' = st_moves s
     \<and> st_candidates s' = st_candidates s \<and> st_blocks s' = st_blocks s \<and> st_policies s' = st_policies s
     \<and> st_findings s' = st_findings s \<and> st_finding_moves s' = st_finding_moves s \<and> st_tasks s' = st_tasks s
     \<and> st_runs s' = st_runs s \<and> st_links s' = st_links s"

lemma only_audits_fields:
  assumes "only_audits s s'"
  shows "st_branches s' = st_branches s" "st_events s' = st_events s" "st_receipts s' = st_receipts s"
    "st_memories s' = st_memories s" "st_moves s' = st_moves s" "st_candidates s' = st_candidates s"
    "st_blocks s' = st_blocks s" "st_policies s' = st_policies s" "st_findings s' = st_findings s"
    "st_finding_moves s' = st_finding_moves s" "st_tasks s' = st_tasks s" "st_runs s' = st_runs s"
    "st_links s' = st_links s"
  using assms by (simp_all add: only_audits_def)

lemma quarantine_finalization_cases:
  assumes "quarantine_finalization w i reason raw s = Inr (q, s')"
  obtains (known) r where "List.find (\<lambda>r. quarantine_key r = (i, reason, raw)) (st_quarantine s) = Some r"
      "q = qz_id r" "s' = s"
  | (added) r u t where "List.find (\<lambda>r. quarantine_key r = (i, reason, raw)) (st_quarantine s) = None"
      "quarantine_key r = (i, reason, raw)" "q = qz_id r"
      "s' = s\<lparr>st_uuid := u, st_tick := t, st_quarantine := st_quarantine s @ [r]\<rparr>"
proof (cases "List.find (\<lambda>r. quarantine_key r = (i, reason, raw)) (st_quarantine s)")
  case None
  let ?r = "\<lparr>qz_id = ''finq_'' @ w_uuid w (st_uuid s), qz_event = i, qz_reason = reason, qz_raw = raw,
    qz_created = w_now w (st_tick s)\<rparr>"
  have "quarantine_key ?r = (i, reason, raw)" by (simp add: quarantine_key_def)
  then show thesis
    using assms None
    by (intro added[where r = ?r and u = "st_uuid s + 1" and t = "st_tick s + 1"])
      (auto simp: quarantine_finalization_def fresh_uuid_def read_clock_def split: if_splits)
next
  case (Some r)
  show thesis by (rule known[OF Some]) (use assms Some in \<open>simp_all add: quarantine_finalization_def split: if_splits\<close>)
qed

lemma record_finalization_cases:
  assumes "record_finalization w i b ft st ct m s = Inr (q, s')"
  obtains (known) e r where "find_event s i = Some e" "ev_branch e = b"
      "List.find (\<lambda>r. finalization_key r = (i, ft, st, ct)) (st_finalizations s) = Some r"
      "q = fz_id r" "fz_memory r = m" "s' = s"
  | (added) e r u t where "find_event s i = Some e" "ev_branch e = b"
      "origin_evidence_type e = HOST_ASSISTANT_FINALIZATION" "check_finalization_memory s m b = Inr ()"
      "finalization_key r = (i, ft, st, ct)" "fz_branch r = b" "fz_memory r = m" "q = fz_id r"
      "finalization_key r \<notin> finalization_key ` set (st_finalizations s)"
      "s' = s\<lparr>st_uuid := u, st_tick := t, st_finalizations := st_finalizations s @ [r]\<rparr>"
proof -
  obtain e where e: "find_event s i = Some e" "ev_branch e = b" "origin_evidence_type e = HOST_ASSISTANT_FINALIZATION"
      "check_finalization_memory s m b = Inr ()"
    using assms by (auto simp: record_finalization_def split: if_splits option.splits)
  show thesis
  proof (cases "List.find (\<lambda>r. finalization_key r = (i, ft, st, ct)) (st_finalizations s)")
    case None
    let ?r = "\<lparr>fz_id = ''fin_'' @ w_uuid w (st_uuid s), fz_event = i, fz_branch = b, fz_type = ft,
      fz_status = st, fz_content = ct, fz_memory = m, fz_created = w_now w (st_tick s)\<rparr>"
    have k: "finalization_key ?r = (i, ft, st, ct)" by (simp add: finalization_key_def)
    have "(i, ft, st, ct) \<notin> finalization_key ` set (st_finalizations s)" using None by (auto simp: find_None_iff)
    then show thesis
      using assms None e k
      by (intro added[where e = e and r = ?r and u = "st_uuid s + 1" and t = "st_tick s + 1"])
        (auto simp: record_finalization_def insert_finalization_def fresh_uuid_def read_clock_def)
  next
    case (Some r)
    show thesis
      by (rule known[OF e(1,2) Some]) (use assms Some e in \<open>simp_all add: record_finalization_def split: if_splits\<close>)
  qed
qed

lemma find_append_last:
  "List.find P xs = None \<Longrightarrow> List.find P (xs @ [x]) = (if P x then Some x else None)"
  by (induction xs) (auto split: if_splits)

lemma quarantine_evolves: "quarantine_finalization w i reason raw s = Inr (q, s') \<Longrightarrow> only_audits s s' \<and> evolves s s'"
  by (erule quarantine_finalization_cases)
    (auto simp: only_audits_def evolves_def advances_def)

lemma record_evolves: "record_finalization w i b ft st ct m s = Inr (q, s') \<Longrightarrow> only_audits s s' \<and> evolves s s'"
  by (erule record_finalization_cases)
    (auto simp: only_audits_def evolves_def advances_def)

section \<open>The invariant of the audit rows\<close>

definition finalization_row_ok :: "store \<Rightarrow> finalization_row \<Rightarrow> bool" where
  "finalization_row_ok s r \<longleftrightarrow>
     (\<exists>e. find_event s (fz_event r) = Some e \<and> origin_evidence_type e = HOST_ASSISTANT_FINALIZATION
        \<and> fz_branch r = ev_branch e)
   \<and> (\<forall>i. fz_memory r = Some i \<longrightarrow> (\<exists>m \<in> set (st_memories s). me_id m = i \<and> me_branch m = fz_branch r))"

definition finalizations_ok :: "store \<Rightarrow> bool" where
  "finalizations_ok s \<longleftrightarrow> (\<forall>r \<in> set (st_finalizations s). finalization_row_ok s r)
     \<and> distinct (map finalization_key (st_finalizations s))"

lemma finalization_row_ok_mono: "evolves s s' \<Longrightarrow> finalization_row_ok s r \<Longrightarrow> finalization_row_ok s' r"
  using evolves_find[of s s'] set_mono_prefix[OF evolves_fields(3)[of s s']]
  unfolding finalization_row_ok_def by fastforce

lemma finalizations_ok_kept:
  "finalizations_ok s \<Longrightarrow> evolves s s' \<Longrightarrow> st_finalizations s' = st_finalizations s \<Longrightarrow> finalizations_ok s'"
  by (auto simp: finalizations_ok_def intro: finalization_row_ok_mono)

lemma advances_finalizations_ok: "finalizations_ok s \<Longrightarrow> advances s s' \<Longrightarrow> finalizations_ok s'"
  by (rule finalizations_ok_kept) (auto simp: advances_evolves advances_def)

lemma quarantine_finalizations_ok:
  assumes "finalizations_ok s" "quarantine_finalization w i reason raw s = Inr (q, s')"
  shows "finalizations_ok s'"
  using assms(2) quarantine_evolves[OF assms(2)]
  by (cases rule: quarantine_finalization_cases) (auto intro: finalizations_ok_kept[OF assms(1)] simp: assms(1))

lemma record_finalizations_ok:
  assumes ok: "finalizations_ok s" and run: "record_finalization w i b ft st ct m s = Inr (q, s')"
  shows "finalizations_ok s'"
  using run
proof (cases rule: record_finalization_cases)
  case (known e r)
  then show ?thesis using ok by simp
next
  case (added e r u t)
  have "fz_event r = i" using added(5) by (simp add: finalization_key_def)
  moreover have "fz_memory r = Some j \<Longrightarrow> \<exists>x \<in> set (st_memories s). me_id x = j \<and> me_branch x = b" for j
    using added(4,7) by (auto simp: check_finalization_memory_def find_Some_iff split: option.splits if_splits)
  ultimately have "finalization_row_ok s r" using added(1-3,6) by (auto simp: finalization_row_ok_def)
  then have row: "finalization_row_ok s' r" using record_evolves[OF run] finalization_row_ok_mono by blast
  have "\<forall>r \<in> set (st_finalizations s). finalization_row_ok s' r"
    using ok record_evolves[OF run] finalization_row_ok_mono by (auto simp: finalizations_ok_def)
  then show ?thesis using ok row added(9) by (simp add: finalizations_ok_def added(10))
qed

text \<open>One step of finalization: the invariant of the audit rows holds and the store evolves.\<close>

definition audit_step :: "store \<Rightarrow> store \<Rightarrow> bool" where
  "audit_step s s' \<longleftrightarrow> evolves s s' \<and> finalizations_ok s'"

lemma audit_step_refl: "finalizations_ok s \<Longrightarrow> audit_step s s"
  by (simp add: audit_step_def)

lemma audit_step_trans: "audit_step s t \<Longrightarrow> audit_step t u \<Longrightarrow> audit_step s u"
  unfolding audit_step_def using evolves_trans by blast

lemma audit_stepD: "audit_step s s' \<Longrightarrow> evolves s s'" "audit_step s s' \<Longrightarrow> finalizations_ok s'"
  by (simp_all add: audit_step_def)

lemma quarantine_step:
  "finalizations_ok s \<Longrightarrow> quarantine_finalization w i reason raw s = Inr (q, s') \<Longrightarrow> audit_step s s'"
  by (simp add: audit_step_def quarantine_evolves quarantine_finalizations_ok)

lemma quarantine_all_step:
  "finalizations_ok s \<Longrightarrow> quarantine_all w e rs s = Inr (qs, s') \<Longrightarrow> audit_step s s'"
proof (induction w e rs s arbitrary: qs s' rule: quarantine_all.induct)
  case (2 w e reason raw rs s)
  then obtain i s1 "is" where h: "quarantine_finalization w (ev_id e) reason raw s = Inr (i, s1)"
      "quarantine_all w e rs s1 = Inr (is, s')" by auto
  have 1: "audit_step s s1" by (rule quarantine_step[OF 2(2) h(1)])
  have "audit_step s1 s'" using 2(1)[OF audit_stepD(2)[OF 1] h(2)] .
  then show ?case by (rule audit_step_trans[OF 1])
qed (simp add: audit_step_refl)

section \<open>Delivering again\<close>

lemma quarantine_again:
  assumes "quarantine_finalization w i reason raw s = Inr (q, s')" "evolves s' t"
  shows "quarantine_finalization w i reason raw t = Inr (q, t)"
proof -
  let ?P = "\<lambda>r. quarantine_key r = (i, reason, raw)"
  have "\<exists>r. List.find ?P (st_quarantine s') = Some r \<and> q = qz_id r"
    using assms(1) by (cases rule: quarantine_finalization_cases) (auto simp: find_append_last)
  then obtain r where r: "List.find ?P (st_quarantine s') = Some r" "q = qz_id r" by blast
  have "List.find ?P (st_quarantine t) = Some r"
    using find_append[OF r(1)] assms(2) by (auto simp: evolves_def prefix_def)
  moreover have "\<exists>e. find_event s i = Some e"
    using assms(1) by (auto simp: quarantine_finalization_def split: if_splits)
  then have "find_event t i \<noteq> None"
    using evolves_find[of s t i] evolves_trans[of s s' t] quarantine_evolves[OF assms(1)] assms(2) by fastforce
  ultimately show ?thesis using r(2) by (simp add: quarantine_finalization_def)
qed

lemma quarantine_all_again:
  assumes "finalizations_ok s" "quarantine_all w e rs s = Inr (qs, s')" "evolves s' t"
  shows "quarantine_all w e rs t = Inr (qs, t)"
  using assms
proof (induction w e rs s arbitrary: qs s' rule: quarantine_all.induct)
  case (2 w e reason raw rs s)
  then obtain i s1 "is" where h: "quarantine_finalization w (ev_id e) reason raw s = Inr (i, s1)"
      "quarantine_all w e rs s1 = Inr (is, s')" "qs = i # is" by auto
  have 1: "audit_step s s1" by (rule quarantine_step[OF 2(2) h(1)])
  have again: "quarantine_all w e rs t = Inr (is, t)"
    using 2(1)[OF audit_stepD(2)[OF 1] h(2) 2(4)] .
  have "evolves s1 t"
    using evolves_trans[OF audit_stepD(1)[OF quarantine_all_step[OF audit_stepD(2)[OF 1] h(2)]] 2(4)] .
  then show ?case using quarantine_again[OF h(1)] again h(3) by simp
qed simp

text \<open>The row behind a tag: found by any later delivery.\<close>

definition row_of_tag :: "store \<Rightarrow> event \<Rightarrow> tag \<Rightarrow> string \<Rightarrow> string option \<Rightarrow> bool" where
  "row_of_tag s e t i m \<longleftrightarrow> (\<exists>r \<in> set (st_finalizations s).
     finalization_key r = (ev_id e, tg_type t, tg_status t, render_audit_content t)
     \<and> fz_branch r = ev_branch e \<and> fz_id r = i \<and> fz_memory r = m)"

lemma row_of_tag_mono: "row_of_tag s e t i m \<Longrightarrow> evolves s s' \<Longrightarrow> row_of_tag s' e t i m"
  unfolding row_of_tag_def evolves_def using set_mono_prefix by blast

lemma prior_of_row:
  assumes ok: "finalizations_ok s" and row: "row_of_tag s e t i m"
  obtains r where "prior_row (list_finalizations s (Some (ev_branch e)) None) e t = Some r" "fz_id r = i" "fz_memory r = m"
proof -
  let ?k = "(ev_id e, tg_type t, tg_status t, render_audit_content t)"
  let ?P = "\<lambda>r. finalization_key r = ?k"
  let ?ex = "list_finalizations s (Some (ev_branch e)) None"
  obtain r where r: "r \<in> set (st_finalizations s)" "?P r" "fz_branch r = ev_branch e" "fz_id r = i" "fz_memory r = m"
    using row unfolding row_of_tag_def by blast
  have "r \<in> set ?ex" using r by (simp add: list_finalizations_def)
  then have "find_last ?P ?ex \<noteq> None" using r(2) by (auto simp: find_last_None)
  then obtain r' where r': "find_last ?P ?ex = Some r'" by blast
  then have "r' \<in> set (st_finalizations s)" "?P r'"
    using find_last_Some[of ?P ?ex r'] by (auto simp: list_finalizations_def)
  then have "r' = r" using ok r(1,2) by (auto simp: finalizations_ok_def distinct_map inj_on_def)
  then show thesis using that[of r] r' r(4,5) by (simp add: prior_row_def)
qed

lemma confirmed_tag_step:
  assumes "finalizations_ok s" "confirmed_tag_memory w e t s = Inr (m, s')"
  shows "audit_step s s'"
  using assms advances_finalizations_ok advances_evolves grown_memory
  by (fastforce simp: confirmed_tag_memory_def audit_step_def split: if_splits option.splits)

lemma tag_recorded:
  assumes ok: "finalizations_ok s"
    and run: "record_finalization w (ev_id e) (ev_branch e) (tg_type t) (tg_status t) (render_audit_content t) m s = Inr (i, s')"
  shows "audit_step s s' \<and> row_of_tag s' e t i m"
proof -
  have "row_of_tag s' e t i m" using run
  proof (cases rule: record_finalization_cases)
    case (known e' r)
    then have r: "r \<in> set (st_finalizations s)" "finalization_key r = (ev_id e, tg_type t, tg_status t, render_audit_content t)"
      by (auto simp: find_Some_iff)
    then have "finalization_row_ok s r" using ok by (simp add: finalizations_ok_def)
    then have "fz_branch r = ev_branch e" using r(2) known(1,2) by (auto simp: finalization_row_ok_def finalization_key_def)
    then show ?thesis using r known by (auto simp: row_of_tag_def)
  qed (auto simp: row_of_tag_def)
  then show ?thesis using record_evolves[OF run] record_finalizations_ok[OF ok run] by (simp add: audit_step_def)
qed

lemma materialize_tags_step:
  assumes "finalizations_ok s" "materialize_tags w e ex ts s = Inr ((is, ms), s')"
    and "\<forall>r \<in> set ex. r \<in> set (st_finalizations s) \<and> fz_branch r = ev_branch e"
  shows "audit_step s s' \<and> (\<forall>t. audit_step s' t \<longrightarrow>
           materialize_tags w e (list_finalizations t (Some (ev_branch e)) None) ts t = Inr ((is, ms), t))"
  using assms
proof (induction ts arbitrary: s "is" ms)
  case (Cons tag ts)
  obtain i m s3 "is'" ms' where h:
      "(case prior_row ex e tag of Some r \<Rightarrow> Inr ((fz_id r, fz_memory r), s)
        | None \<Rightarrow> bindr (confirmed_tag_memory w e tag s) (\<lambda>(m, s1).
                bindr (record_finalization w (ev_id e) (ev_branch e) (tg_type tag) (tg_status tag)
                         (render_audit_content tag) m s1) (\<lambda>(i, s2). Inr ((i, m), s2)))) = Inr ((i, m), s3)"
      "materialize_tags w e ex ts s3 = Inr ((is', ms'), s')" "is = i # is'"
      "ms = (case m of None \<Rightarrow> ms' | Some j \<Rightarrow> j # ms')"
    using Cons.prems(2) by auto
  have 1: "audit_step s s3 \<and> row_of_tag s3 e tag i m"
  proof (cases "prior_row ex e tag")
    case (Some r)
    then have "r \<in> set ex" "finalization_key r = (ev_id e, tg_type tag, tg_status tag, render_audit_content tag)"
      using find_last_Some unfolding prior_row_def by fast+
    then show ?thesis using h(1) Some Cons.prems(1,3) by (auto simp: row_of_tag_def audit_step_refl)
  next
    case None
    then obtain s1 where "confirmed_tag_memory w e tag s = Inr (m, s1)"
        "record_finalization w (ev_id e) (ev_branch e) (tg_type tag) (tg_status tag) (render_audit_content tag) m s1 = Inr (i, s3)"
      using h(1) by auto
    then show ?thesis
      using confirmed_tag_step[OF Cons.prems(1)] tag_recorded audit_stepD(2) audit_step_trans by meson
  qed
  have "set (st_finalizations s) \<subseteq> set (st_finalizations s3)"
    using 1 set_mono_prefix by (auto simp: audit_step_def evolves_def)
  then have 2: "audit_step s3 s' \<and> (\<forall>t. audit_step s' t \<longrightarrow>
      materialize_tags w e (list_finalizations t (Some (ev_branch e)) None) ts t = Inr ((is', ms'), t))"
    using Cons.IH[OF _ h(2)] 1 Cons.prems(3) by (meson audit_stepD(2) subset_iff)
  show ?case
  proof (intro conjI allI impI)
    show "audit_step s s'" using 1 2 audit_step_trans by blast
  next
    fix t assume t: "audit_step s' t"
    have "row_of_tag t e tag i m"
      using 1 2 t row_of_tag_mono audit_stepD(1) audit_step_trans by meson
    then obtain r where "prior_row (list_finalizations t (Some (ev_branch e)) None) e tag = Some r"
        "fz_id r = i" "fz_memory r = m" using prior_of_row[OF audit_stepD(2)[OF t]] by blast
    then show "materialize_tags w e (list_finalizations t (Some (ev_branch e)) None) (tag # ts) t = Inr ((is, ms), t)"
      using 2 t h(3,4) by simp
  qed
qed (simp add: audit_step_refl)

lemma materialize_event_step:
  assumes ok: "finalizations_ok s" and run: "materialize_event w e s = Inr (r, s')"
  shows "audit_step s s' \<and> (\<forall>t. audit_step s' t \<longrightarrow> materialize_event w e t = Inr (r, t))"
proof (cases "origin_evidence_type e = HOST_ASSISTANT_FINALIZATION")
  case False
  then show ?thesis using run ok by (simp add: materialize_event_def audit_step_refl)
next
  case True
  define c where "c = classify_finalization_text (ev_content e)"
  define tags where "tags = uniq (filter (\<lambda>t. \<not> audit_link_only (tg_text t)) (cl_valid c))"
  define first where "first = map (Pair ''malformed_finalization'') (cl_malformed c)
      @ map (\<lambda>t. (''non_standalone_text'', tag_line t)) (filter (\<lambda>t. audit_link_only (tg_text t)) (cl_valid c))"
  note simps = materialize_event_def Let_def c_def[symmetric] tags_def[symmetric] first_def[symmetric]
  obtain qs s1 where 1: "quarantine_all w e first s = Inr (qs, s1)" using run True by (auto simp: simps)
  note step1 = quarantine_all_step[OF ok 1]
  show ?thesis
  proof (cases "contradictory tags")
    case c: True
    let ?qs = "map (\<lambda>t. (''contradictory_statuses'', tag_line t)) tags"
    obtain qs' where 2: "quarantine_all w e ?qs s1 = Inr (qs', s')"
        "r = \<lparr>fr_event = ev_id e, fr_records = [], fr_memories = [], fr_quarantine = qs @ qs', fr_eligible = True\<rparr>"
      using run True 1 c by (auto simp: simps)
    note step2 = quarantine_all_step[OF audit_stepD(2)[OF step1] 2(1)]
    have "materialize_event w e t = Inr (r, t)" if t: "audit_step s' t" for t
      using quarantine_all_again[OF ok 1 audit_stepD(1)[OF audit_step_trans[OF step2 t]]]
        quarantine_all_again[OF audit_stepD(2)[OF step1] 2(1) audit_stepD(1)[OF t]] True c 2(2)
      by (simp add: simps)
    then show ?thesis using audit_step_trans[OF step1 step2] by blast
  next
    case c: False
    obtain "is" ms where 2: "materialize_tags w e (list_finalizations s1 (Some (ev_branch e)) None) tags s1 = Inr ((is, ms), s')"
        "r = \<lparr>fr_event = ev_id e, fr_records = is, fr_memories = ms, fr_quarantine = qs, fr_eligible = True\<rparr>"
      using run True 1 c by (auto simp: simps)
    note step2 = materialize_tags_step[OF audit_stepD(2)[OF step1] 2(1)]
    have rows: "\<forall>r \<in> set (list_finalizations s1 (Some (ev_branch e)) None).
        r \<in> set (st_finalizations s1) \<and> fz_branch r = ev_branch e" by (simp add: list_finalizations_def)
    have step: "audit_step s1 s'" using step2[OF rows] by simp
    have "materialize_event w e t = Inr (r, t)" if t: "audit_step s' t" for t
      using quarantine_all_again[OF ok 1 audit_stepD(1)[OF audit_step_trans[OF step t]]] step2[OF rows] t True c 2(2)
      by (simp add: simps)
    then show ?thesis using audit_step_trans[OF step1 step] by blast
  qed
qed

lemma materialize_step:
  assumes "finalizations_ok s" "materialize_finalizations w es s = Inr (rs, s')"
  shows "audit_step s s' \<and> (\<forall>t. audit_step s' t \<longrightarrow> materialize_finalizations w es t = Inr (rs, t))"
  using assms
proof (induction es arbitrary: s rs)
  case (Cons e es)
  obtain r s1 rs' where h: "materialize_event w e s = Inr (r, s1)"
      "materialize_finalizations w es s1 = Inr (rs', s')" "rs = r # rs'" using Cons.prems(2) by auto
  note 1 = materialize_event_step[OF Cons.prems(1) h(1)]
  note 2 = Cons.IH[OF audit_stepD(2)[OF conjunct1[OF 1]] h(2)]
  have "materialize_finalizations w (e # es) t = Inr (rs, t)" if t: "audit_step s' t" for t
    using 1 2 t h(3) audit_step_trans[OF conjunct1[OF 2] t] by simp
  then show ?case using 1 2 audit_step_trans by blast
qed (simp add: audit_step_refl)

end
