(* ===== verification/Floats.thy ===== *)
theory Floats
  imports Prelude "HOL-Library.Log_Nat"
begin

text \<open>
  Python floats as the rationals they denote: \<open>fl\<close> rounds a rational to the nearest binary
  number of 53 significant bits, ties to the even one.  Overflow and subnormal numbers are
  outside the values that the program computes with.
\<close>

definition round_even :: "rat \<Rightarrow> int" where
  "round_even x =
     (let n = \<lfloor>x\<rfloor>; d = x - of_int n
      in if d < 1 / 2 then n else if d > 1 / 2 then n + 1 else if even n then n else n + 1)"

text \<open>The power of two that is one unit of the last place of \<open>p / q\<close>, for positive \<open>p\<close> and \<open>q\<close>.\<close>

definition pow2 :: "int \<Rightarrow> rat" where
  "pow2 e = (if 0 \<le> e then 2 ^ nat e else 1 / 2 ^ nat (- e))"

definition ulp_exponent :: "int \<Rightarrow> int \<Rightarrow> int" where
  "ulp_exponent p q =
     (let e = bitlen p - bitlen q - 53
      in if Fract p q < pow2 (e + 52) then e - 1
         else if Fract p q \<ge> pow2 (e + 53) then e + 1 else e)"

definition fl :: "rat \<Rightarrow> rat" where
  "fl x =
     (if x = 0 then 0
      else (let (p, q) = quotient_of \<bar>x\<bar>;
                e = ulp_exponent p q;
                r = of_int (round_even (\<bar>x\<bar> / pow2 e)) * pow2 e
            in if x < 0 then - r else r))"

lemma fl_0 [simp]: "fl 0 = 0"
  by (simp add: fl_def)

lemma pow2_pos [simp]: "pow2 e > 0"
  by (simp add: pow2_def)

lemma round_even_int [simp]: "round_even (of_int n) = n"
  by (simp add: round_even_def)

lemma round_even_near: "\<bar>of_int (round_even x) - x\<bar> \<le> 1 / 2"
proof -
  obtain n :: int where n: "\<lfloor>x\<rfloor> = n" "of_int n \<le> x" "x < of_int n + 1" using that[of "\<lfloor>x\<rfloor>"] floor_correct[of x] by simp
  then show ?thesis unfolding round_even_def n(1) Let_def by (auto simp: abs_if)
qed

end
