(* ===== verification/WorkerLease.thy ===== *)
theory WorkerLease
  imports Store Floats
begin

text \<open>
  The lease of the extraction worker (\<open>storage.py\<close>: \<open>signal_extraction_worker\<close>,
  \<open>claim_extraction_worker\<close>, \<open>complete_extraction_worker_cycle\<close>): wakeups are coalesced into
  a generation number, one owner at a time works on them, and a generation that moved while
  the owner worked makes it go round again.
\<close>

section \<open>Operations\<close>

definition find_wakeup :: "store \<Rightarrow> string \<Rightarrow> wakeup option" where
  "find_wakeup s config_hash = List.find (\<lambda>k. wk_config k = config_hash) (st_wakeups s)"

definition update_wakeup :: "string \<Rightarrow> (wakeup \<Rightarrow> wakeup) \<Rightarrow> store \<Rightarrow> store" where
  "update_wakeup config_hash f s =
     s\<lparr>st_wakeups := map (\<lambda>k. if wk_config k = config_hash then f k else k) (st_wakeups s)\<rparr>"

definition signal_extraction_worker :: "world \<Rightarrow> string \<Rightarrow> store \<Rightarrow> int \<times> store" where
  "signal_extraction_worker w config_hash s =
     (let (now, s1) = read_clock w s in
      case find_wakeup s1 config_hash of
        None \<Rightarrow>
          (1, s1\<lparr>st_wakeups := st_wakeups s1 @
             [\<lparr>wk_config = config_hash, wk_generation = 1, wk_owner = None, wk_lease = None, wk_updated = now\<rparr>]\<rparr>)
      | Some k \<Rightarrow>
          (wk_generation k + 1,
           update_wakeup config_hash (\<lambda>k. k\<lparr>wk_generation := wk_generation k + 1, wk_updated := now\<rparr>) s1))"

text \<open>Another owner holds a lease that has not run out.\<close>

definition held_by_other :: "wakeup \<Rightarrow> string \<Rightarrow> rat \<Rightarrow> bool" where
  "held_by_other k owner now \<longleftrightarrow>
     wk_owner k \<noteq> None \<and> wk_owner k \<noteq> Some owner \<and> (case wk_lease k of None \<Rightarrow> 0 | Some l \<Rightarrow> l) > now"

definition claim_extraction_worker ::
  "world \<Rightarrow> string \<Rightarrow> string \<Rightarrow> rat \<Rightarrow> store \<Rightarrow> int option \<times> store" where
  "claim_extraction_worker w config_hash owner lease_seconds s =
     (let (now, s1) = read_time w s in
      case find_wakeup s1 config_hash of
        None \<Rightarrow> (None, s1)
      | Some k \<Rightarrow>
          if held_by_other k owner now then (None, s1)
          else (let (stamp, s2) = read_clock w s1
                in (Some (wk_generation k),
                    update_wakeup config_hash
                      (\<lambda>k. k\<lparr>wk_owner := Some owner, wk_lease := Some (fl (now + lease_seconds)), wk_updated := stamp\<rparr>)
                      s2)))"

definition complete_extraction_worker_cycle ::
  "world \<Rightarrow> string \<Rightarrow> string \<Rightarrow> int \<Rightarrow> rat \<Rightarrow> store \<Rightarrow> (bool \<times> int) \<times> store" where
  "complete_extraction_worker_cycle w config_hash owner observed lease_seconds s =
     (case find_wakeup s config_hash of
        None \<Rightarrow> ((True, observed), s)
      | Some k \<Rightarrow>
          if wk_owner k \<noteq> Some owner then ((True, observed), s)
          else if wk_generation k = observed
          then (let (stamp, s1) = read_clock w s
                in ((True, wk_generation k),
                    update_wakeup config_hash
                      (\<lambda>k. if wk_owner k = Some owner
                           then k\<lparr>wk_owner := None, wk_lease := None, wk_updated := stamp\<rparr> else k) s1))
          else (let (now, s1) = read_time w s;
                    (stamp, s2) = read_clock w s1
                in ((False, wk_generation k),
                    update_wakeup config_hash
                      (\<lambda>k. if wk_owner k = Some owner
                           then k\<lparr>wk_lease := Some (fl (now + lease_seconds)), wk_updated := stamp\<rparr> else k) s2)))"

section \<open>Interleavings\<close>

datatype worker_call =
    Signal
  | Claim string rat
  | Complete string int rat

fun worker_step :: "world \<Rightarrow> string \<Rightarrow> worker_call \<Rightarrow> store \<Rightarrow> store" where
  "worker_step w h Signal s = snd (signal_extraction_worker w h s)"
| "worker_step w h (Claim owner l) s = snd (claim_extraction_worker w h owner l s)"
| "worker_step w h (Complete owner n l) s = snd (complete_extraction_worker_cycle w h owner n l s)"

definition worker_run :: "world \<Rightarrow> string \<Rightarrow> worker_call list \<Rightarrow> store \<Rightarrow> store" where
  "worker_run w h cs s = fold (worker_step w h) cs s"

lemma worker_run_simps [simp]:
  "worker_run w h [] s = s" "worker_run w h (c # cs) s = worker_run w h cs (worker_step w h c s)"
  by (simp_all add: worker_run_def)

text \<open>The calls of everybody but \<open>owner\<close>.\<close>

fun by_other :: "string \<Rightarrow> worker_call \<Rightarrow> bool" where
  "by_other owner Signal = True"
| "by_other owner (Claim o2 l) = (o2 \<noteq> owner)"
| "by_other owner (Complete o2 n l) = (o2 \<noteq> owner)"

fun signals :: "worker_call list \<Rightarrow> int" where
  "signals [] = 0"
| "signals (Signal # cs) = signals cs + 1"
| "signals (c # cs) = signals cs"

lemma find_wakeup_update:
  assumes "\<And>k. wk_config (f k) = wk_config k"
  shows "find_wakeup (update_wakeup h f s) h = map_option f (find_wakeup s h)"
proof -
  have "List.find (\<lambda>k. wk_config k = h) (map (\<lambda>k. if wk_config k = h then f k else k) ks)
      = map_option f (List.find (\<lambda>k. wk_config k = h) ks)" for ks
    by (induction ks) (auto simp: assms)
  then show ?thesis by (simp add: find_wakeup_def update_wakeup_def)
qed

lemma find_wakeup_tick [simp]: "find_wakeup (s\<lparr>st_tick := t\<rparr>) h = find_wakeup s h"
  by (simp add: find_wakeup_def)

lemma update_wakeup_tick [simp]: "st_tick (update_wakeup h f s) = st_tick s"
  by (simp add: update_wakeup_def)

lemma find_wakeup_Some: "find_wakeup s h = Some k \<Longrightarrow> wk_config k = h"
  unfolding find_wakeup_def using find_Some_iff2 by fastforce

text \<open>The clock moves on with every call.\<close>

lemma step_tick: "st_tick s \<le> st_tick (worker_step w h c s)"
  by (cases c) (auto simp: signal_extraction_worker_def claim_extraction_worker_def
      complete_extraction_worker_cycle_def read_clock_def read_time_def Let_def split: option.splits)

text \<open>A call of somebody else while the lease lasts: the owner and the lease stay.\<close>

definition leased :: "string \<Rightarrow> store \<Rightarrow> string \<Rightarrow> rat \<Rightarrow> int \<Rightarrow> bool" where
  "leased h s owner until g \<longleftrightarrow>
     (\<exists>k. find_wakeup s h = Some k \<and> wk_owner k = Some owner \<and> wk_lease k = Some until \<and> wk_generation k = g)"

lemma other_step:
  assumes "leased h s owner until g" "by_other owner c" "w_time w (st_tick s) < until"
  shows "leased h (worker_step w h c s) owner until (if c = Signal then g + 1 else g)"
proof -
  obtain k where k: "find_wakeup s h = Some k" "wk_owner k = Some owner" "wk_lease k = Some until" "wk_generation k = g"
    using assms(1) unfolding leased_def by blast
  show ?thesis
  proof (cases c)
    case Signal
    then show ?thesis using k
      by (simp add: signal_extraction_worker_def read_clock_def leased_def find_wakeup_update)
  next
    case (Claim o2 l)
    then have "held_by_other k o2 (w_time w (st_tick s))" using k assms(2,3) by (auto simp: held_by_other_def)
    then show ?thesis using k Claim by (simp add: claim_extraction_worker_def read_time_def leased_def)
  next
    case (Complete o2 n l)
    then show ?thesis using k assms(2) by (simp add: complete_extraction_worker_cycle_def leased_def)
  qed
qed

lemma run_tick: "st_tick s \<le> st_tick (worker_run w h cs s)"
proof (induction cs arbitrary: s)
  case (Cons c cs)
  have "st_tick s \<le> st_tick (worker_step w h c s)" by (rule step_tick)
  also have "\<dots> \<le> st_tick (worker_run w h cs (worker_step w h c s))" by (rule Cons.IH)
  finally show ?case by simp
qed simp

lemma others_run:
  assumes "leased h s owner until g" "list_all (by_other owner) cs"
    and "\<And>t. st_tick s \<le> t \<Longrightarrow> t \<le> st_tick (worker_run w h cs s) \<Longrightarrow> w_time w t < until"
  shows "leased h (worker_run w h cs s) owner until (g + signals cs)"
  using assms
proof (induction cs arbitrary: s g)
  case (Cons c cs)
  let ?s = "worker_step w h c s" and ?g = "if c = Signal then g + 1 else g"
  have "w_time w (st_tick s) < until" by (rule Cons.prems(3)) (use run_tick[of s w h "c # cs"] in auto)
  then have "leased h ?s owner until ?g" using Cons.prems(1,2) by (intro other_step) simp_all
  moreover have "w_time w t < until" if "st_tick ?s \<le> t" "t \<le> st_tick (worker_run w h cs ?s)" for t
    by (rule Cons.prems(3)) (use that step_tick[of s w h c] in simp_all)
  ultimately have "leased h (worker_run w h cs ?s) owner until (?g + signals cs)"
    using Cons.prems(2) by (intro Cons.IH) simp_all
  then show ?case by (cases c) (simp_all add: algebra_simps)
qed simp

lemma claimed:
  assumes "claim_extraction_worker w h owner l s = (Some g, s')"
  shows "leased h s' owner (fl (w_time w (st_tick s) + l)) g" "st_tick s' = st_tick s + 2"
proof -
  obtain k where k: "find_wakeup s h = Some k"
    using assms by (auto simp: claim_extraction_worker_def read_time_def Let_def split: option.splits)
  then show "leased h s' owner (fl (w_time w (st_tick s) + l)) g" "st_tick s' = st_tick s + 2"
    using assms by (auto simp: claim_extraction_worker_def read_time_def read_clock_def Let_def leased_def
        find_wakeup_update split: if_splits)
qed

section \<open>Properties\<close>

text \<open>
  C23: one worker at a time.  After a worker has claimed the lease, and as long as the clock
  has not reached the end of the lease, no interleaving of signals and of calls by other
  workers takes it away: every claim by another worker is refused.
\<close>

theorem lease_is_exclusive:
  assumes "claim_extraction_worker w h owner l s = (Some g, s1)" "list_all (by_other owner) cs" "other \<noteq> owner"
    and "\<And>t. st_tick s1 \<le> t \<Longrightarrow> t \<le> st_tick (worker_run w h cs s1) \<Longrightarrow> w_time w t < fl (w_time w (st_tick s) + l)"
  shows "fst (claim_extraction_worker w h other l' (worker_run w h cs s1)) = None"
proof -
  let ?s = "worker_run w h cs s1"
  have "leased h ?s owner (fl (w_time w (st_tick s) + l)) (g + signals cs)"
    by (rule others_run[OF claimed(1)[OF assms(1)] assms(2,4)])
  moreover have "w_time w (st_tick ?s) < fl (w_time w (st_tick s) + l)" by (rule assms(4)) (use run_tick in simp_all)
  ultimately show ?thesis
    using assms(3) by (auto simp: leased_def claim_extraction_worker_def read_time_def held_by_other_def)
qed

text \<open>
  C24: no wakeup is lost.  A worker that claimed generation \<open>g\<close> and finishes a cycle within
  its lease is told to stop exactly if no signal arrived in between; otherwise it goes round
  again, with the generation that counts every signal, and keeps the lease.
\<close>

theorem no_wakeup_is_lost:
  assumes "claim_extraction_worker w h owner l s = (Some g, s1)" "list_all (by_other owner) cs"
    and "\<And>t. st_tick s1 \<le> t \<Longrightarrow> t \<le> st_tick (worker_run w h cs s1) \<Longrightarrow> w_time w t < fl (w_time w (st_tick s) + l)"
  shows "fst (complete_extraction_worker_cycle w h owner g l (worker_run w h cs s1)) = (signals cs = 0, g + signals cs)
    \<and> (\<exists>k. find_wakeup (snd (complete_extraction_worker_cycle w h owner g l (worker_run w h cs s1))) h = Some k
          \<and> wk_owner k = (if signals cs = 0 then None else Some owner))"
proof -
  let ?s = "worker_run w h cs s1"
  have "leased h ?s owner (fl (w_time w (st_tick s) + l)) (g + signals cs)"
    by (rule others_run[OF claimed(1)[OF assms(1)] assms(2,3)])
  then obtain k where k: "find_wakeup ?s h = Some k" "wk_owner k = Some owner" "wk_generation k = g + signals cs"
    unfolding leased_def by blast
  have "(if wk_owner k = Some owner then f k else k) = f k" for f :: "wakeup \<Rightarrow> wakeup" using k(2) by simp
  then show ?thesis using k
    by (auto simp: complete_extraction_worker_cycle_def read_clock_def read_time_def find_wakeup_update)
qed

text \<open>A run with two workers: the clock stands still, a signal arrives and the second worker
asks while the first one works.\<close>

definition lease_world :: world where
  "lease_world = \<lparr>w_uuid = (\<lambda>_. []), w_now = (\<lambda>_. ''now''), w_time = (\<lambda>_. 100), w_sha256 = (\<lambda>_. []), w_rules = []\<rparr>"

definition lease_store :: store where
  "lease_store = snd (claim_extraction_worker lease_world ''h'' ''a'' 30
     (snd (signal_extraction_worker lease_world ''h'' (initial_store lease_world))))"

lemma fl_130: "fl 130 = 130"
  by code_simp

lemma lease_claimed:
  "claim_extraction_worker lease_world ''h'' ''a'' 30
     (snd (signal_extraction_worker lease_world ''h'' (initial_store lease_world))) = (Some 1, lease_store)"
  unfolding lease_store_def by (rule prod_eqI) (code_simp, simp)

lemma lease_time: "w_time lease_world t < fl (w_time lease_world (st_tick s) + 30)"
  by (simp add: lease_world_def fl_130)

theorem lease_is_exclusive_witness:
  "fst (claim_extraction_worker lease_world ''h'' ''b'' 30
     (worker_run lease_world ''h'' [Signal, Claim ''b'' 30, Complete ''b'' 1 30] lease_store)) = None"
  by (rule lease_is_exclusive[OF lease_claimed]) (simp_all add: lease_time)

theorem no_wakeup_is_lost_witness:
  "fst (complete_extraction_worker_cycle lease_world ''h'' ''a'' 1 30
     (worker_run lease_world ''h'' [Claim ''b'' 30, Signal] lease_store)) = (False, 2)"
  using no_wakeup_is_lost[OF lease_claimed, of "[Claim ''b'' 30, Signal]"] by (simp add: lease_time)

end
