(* ===== verification/System.thy ===== *)
theory System
  imports ExtractionFacts FinalizationFacts WorkerLease
begin

text \<open>
  The store as one system: every call that writes it, the invariant that all of them keep,
  and the stores that a program can reach.  A call that raises leaves the store as it was.
\<close>

section \<open>Calls\<close>

datatype store_call =
    LogCall log_call
  | SetBlock string string string "string option" "string list"
  | DeriveMemory memory_draft
  | ActivatePolicy "(string \<times> json) list" string "origin option" string
  | RecordFinding string string "(string \<times> json) list"
  | RequestAck string string string
  | TransitionFinding string string string string
  | RequestCandidate string string string string string "string option" "string option"
  | TransitionCandidate string string string string string "string option" "string option"
  | CreateSettlement string string string "string option" string string string
  | SettleCandidate string string string string string
  | ConfirmMatch string "string option" string
  | WriteTask task_draft
  | BindTask string string
  | RegisterConfig string "(string, json) dict"
  | ProcessBacklog extractor "int option" bool
  | RecordFinalization string string string string string "string option"
  | QuarantineFinalization string string string
  | Worker string worker_call

fun run_store :: "world \<Rightarrow> store_call \<Rightarrow> store \<Rightarrow> (unit \<times> store) result" where
  "run_store w (LogCall c) s = run_call w c s"
| "run_store w (SetBlock name content b ses srcs) s = drop_value (set_active_block w name content b ses srcs s)"
| "run_store w (DeriveMemory d) s = drop_value (derive_memory w d s)"
| "run_store w (ActivatePolicy p src claimed op) s = drop_value (activate_policy w p src claimed op s)"
| "run_store w (RecordFinding ft key details) s = drop_value (record_security_finding w ft key details s)"
| "run_store w (RequestAck fid b org) s = drop_value (append_finding_ack_request w fid b org s)"
| "run_store w (TransitionFinding fid target src actor) s = drop_value (transition_finding w fid target src actor s)"
| "run_store w (RequestCandidate cid req b action org rc rm) s =
     drop_value (append_candidate_request w cid req b action org rc rm s)"
| "run_store w (TransitionCandidate cid target src actor rule rc rm) s =
     drop_value (transition_candidate w cid target src actor rule rc rm s)"
| "run_store w (CreateSettlement kind content src ev mt strength actor) s =
     drop_value (create_settlement_candidate w kind content src ev mt strength actor s)"
| "run_store w (SettleCandidate cid target src actor rule) s =
     drop_value (settle_candidate w cid target src actor rule s)"
| "run_store w (ConfirmMatch cid mid src) s = drop_value (confirm_candidate_match w cid mid src s)"
| "run_store w (WriteTask d) s = drop_value (create_task_version w d s)"
| "run_store w (BindTask i k) s = drop_value (bind_task_session w i k s)"
| "run_store w (RegisterConfig h d) s = drop_value (register_extractor_config w h d s)"
| "run_store w (ProcessBacklog x limit retry) s = Inr ((), snd (process_backlog w x limit retry s))"
| "run_store w (RecordFinalization i b ft st ct m) s = drop_value (record_finalization w i b ft st ct m s)"
| "run_store w (QuarantineFinalization i reason raw) s = drop_value (quarantine_finalization w i reason raw s)"
| "run_store w (Worker h c) s = Inr ((), worker_step w h c s)"

text \<open>The stores that any sequence of calls leads to.\<close>

inductive reachable :: "world \<Rightarrow> store \<Rightarrow> bool" for w where
  start: "reachable w (initial_store w)"
| step: "reachable w s \<Longrightarrow> reachable w (attempt (run_store w) c s)"

text \<open>The calls that are not about finalization leave its audit tables alone.\<close>

fun audits :: "store_call \<Rightarrow> bool" where
  "audits (RecordFinalization i b ft st ct m) = True"
| "audits (QuarantineFinalization i reason raw) = True"
| "audits c = False"

text \<open>What writes the tables of configurations and wakeups only.\<close>

definition same_tables :: "store \<Rightarrow> store \<Rightarrow> bool" where
  "same_tables s s' \<longleftrightarrow> only_audits s s' \<and> st_finalizations s' = st_finalizations s \<and> st_quarantine s' = st_quarantine s"

lemma grown_same: "same_tables s s' \<Longrightarrow> advances s s'"
  by (simp add: same_tables_def only_audits_def advances_def)

lemma worker_frame: "same_tables s (worker_step w h c s)"
  by (cases c) (auto simp: same_tables_def only_audits_def signal_extraction_worker_def claim_extraction_worker_def
      complete_extraction_worker_cycle_def update_wakeup_def read_clock_def read_time_def split: option.splits)

lemma register_frame: "register_extractor_config w h d s = Inr (u, s') \<Longrightarrow> same_tables s s'"
  by (auto simp: register_extractor_config_def read_clock_def Let_def same_tables_def only_audits_def split: if_splits)

lemmas grown_side = grown_same[OF worker_frame] grown_same[OF register_frame]

section \<open>The invariant\<close>

definition store_ok :: "world \<Rightarrow> store \<Rightarrow> bool" where
  "store_ok w s \<longleftrightarrow> log_ok w s \<and> blocks_ok s \<and> memories_ok s \<and> candidates_ok s \<and> policies_ok w s
     \<and> findings_ok s \<and> tasks_ok s"

lemma store_okD:
  assumes "store_ok w s"
  shows "log_ok w s" "blocks_ok s" "memories_ok s" "candidates_ok s" "policies_ok w s" "findings_ok s" "tasks_ok s"
  using assms by (simp_all add: store_ok_def)

text \<open>
  A call that appends events and writes one of the tables: what it wrote is vouched for by
  its own lemma, the rest is carried over.
\<close>

lemma store_ok_carried:
  assumes ok: "store_ok w s" and log: "log_ok w s'"
    and br: "st_branches s' = st_branches s" and ev: "\<exists>es. st_events s' = st_events s @ es"
    and blocks: "blocks_ok s' \<or> st_blocks s' = st_blocks s"
    and memories: "memories_ok s' \<or> st_memories s' = st_memories s"
    and cands: "candidates_ok s' \<or> (st_moves s' = st_moves s \<and> st_candidates s' = st_candidates s \<and> st_runs s' = st_runs s)"
    and policies: "policies_ok w s' \<or> st_policies s' = st_policies s"
    and findings: "findings_ok s' \<or> (st_findings s' = st_findings s \<and> st_finding_moves s' = st_finding_moves s)"
    and tasks: "tasks_ok s' \<or> st_tasks s' = st_tasks s"
  shows "store_ok w s'"
proof -
  note ok' = store_okD[OF ok]
  obtain es where es: "st_events s' = st_events s @ es" using ev by blast
  have g: "grows s s'" using br es by (simp add: grows_def)
  note found = find_event_grows[OF g]
  have "blocks_ok s'"
    using blocks ok'(2) blk.events_appended[OF _ br es, of "st_blocks s"] by (auto simp: blocks_ok_def)
  moreover have "memories_ok s'" using memories memories_ok_appended[OF ok'(3,1) log br es] by blast
  moreover have "candidates_ok s'" using cands candidates_ok_grown[OF ok'(4,1) log g] by blast
  moreover have "policies_ok w s'" using policies policies_ok_mono[OF ok'(5) found] by blast
  moreover have "findings_ok s'" using findings findings_ok_mono[OF ok'(6) found] by blast
  moreover have "tasks_ok s'" using tasks tasks_ok_mono[OF ok'(7) found] by blast
  ultimately show ?thesis using log by (simp add: store_ok_def)
qed

lemma store_ok_forked:
  assumes ok: "store_ok w s" and run: "create_branch w b p fork s = Inr (r, s')"
  shows "store_ok w s'"
proof -
  note ok' = store_okD[OF ok]
  have log: "log_ok w s'" "grows s s'" using create_branch_log_ok[OF ok'(1) run] by simp_all
  have same: "st_blocks s' = st_blocks s" "st_memories s' = st_memories s" "st_moves s' = st_moves s"
    "st_candidates s' = st_candidates s" "st_runs s' = st_runs s" "st_policies s' = st_policies s"
    "st_findings s' = st_findings s" "st_finding_moves s' = st_finding_moves s" "st_tasks s' = st_tasks s"
    by (rule create_branch_cases[OF run]; simp)+
  note found = find_event_grows[OF log(2)]
  have "blk.ok (st_blocks s) s'" by (rule blk.branch_forked[OF _ ok'(1) run]) (use ok'(2) in \<open>simp add: blocks_ok_def\<close>)
  then have "blocks_ok s'" using ok'(2) same(1) by (simp add: blocks_ok_def)
  moreover have "memories_ok s'"
    by (rule memories_ok_rows[OF ok'(3,1) log same(2) mem.branch_forked[OF _ ok'(1) run]])
      (use ok'(3) in \<open>simp add: memories_ok_def\<close>)
  moreover have "candidates_ok s'" by (rule candidates_ok_grown[OF ok'(4,1) log same(3,4,5)])
  moreover have "policies_ok w s'" by (rule policies_ok_mono[OF ok'(5) found same(6)])
  moreover have "findings_ok s'" by (rule findings_ok_mono[OF ok'(6) found same(7,8)])
  moreover have "tasks_ok s'" by (rule tasks_ok_mono[OF ok'(7) found same(9)])
  ultimately show ?thesis using log(1) by (simp add: store_ok_def)
qed

text \<open>What the calls of the log leave alone, forks aside.\<close>

definition only_log :: "store \<Rightarrow> store \<Rightarrow> bool" where
  "only_log s s' \<longleftrightarrow> st_branches s' = st_branches s \<and> (\<exists>es. st_events s' = st_events s @ es)
     \<and> st_blocks s' = st_blocks s \<and> st_memories s' = st_memories s \<and> st_candidates s' = st_candidates s
     \<and> st_moves s' = st_moves s \<and> st_runs s' = st_runs s \<and> st_policies s' = st_policies s
     \<and> st_findings s' = st_findings s \<and> st_finding_moves s' = st_finding_moves s \<and> st_tasks s' = st_tasks s"

lemma only_log_append: "appends es s s' \<Longrightarrow> only_log s s'"
  by (drule appendsE) (auto simp: only_log_def)

lemmas only_log_event = only_log_append[OF append_event_in_tx_appended]

lemma only_log_refl [simp]: "only_log s s"
  by (simp add: only_log_def)

lemma only_log_once:
  assumes "append_events_once_from w key items b ses channel adapter s = Inr ((es, fresh), s')"
  shows "only_log s s'"
proof (cases fresh)
  case False
  then show ?thesis using once_fresh_cases(3)[OF assms] by simp
next
  case True
  then obtain s1 t now where "append_batch w b ses channel adapter items s = Inr (es, s1)"
      "s' = s1\<lparr>st_tick := t, st_receipts := st_receipts s1 @
                  [\<lparr>rc_key = key, rc_events = map ev_id es, rc_created = now\<rparr>]\<rparr>"
    using once_fresh_cases(4)[OF assms] by metis
  then show ?thesis using only_log_append[OF batch_grows] by (auto simp: only_log_def)
qed

lemma only_log_sessions:
  "insert_session w i a b caps (s\<lparr>st_uuid := u\<rparr>) = Inr s' \<Longrightarrow> only_log s s'"
  "insert_session w i a b caps (s\<lparr>st_uuid := u\<rparr>) = Inr s' \<Longrightarrow> only_log s (s'\<lparr>st_tick := n, st_hooks := hs\<rparr>)"
  by (auto simp: only_log_def dest!: insert_session_same)

lemma only_log_mark: "mark_consolidated w e r s = Inr (u, s') \<Longrightarrow> only_log s s'"
  by (auto simp: only_log_def mark_consolidated_def read_clock_def split: if_splits)

lemma log_call_frame:
  assumes "run_call w c s = Inr (u, s')"
  shows "only_log s s' \<or> (\<exists>b p fork r. create_branch w b p fork s = Inr (r, s'))"
  using assms
  by (cases c) (auto simp: append_event_def append_host_event_def once_defs start_session_def hook_session_def
      fresh_uuid_def read_clock_def Let_def split: if_splits option.splits
      dest: only_log_event only_log_once only_log_sessions only_log_mark)

lemma confirm_inv_of: "store_ok w s \<Longrightarrow> confirm_inv w s"
  by (simp add: store_ok_def confirm_inv_def)

lemma run_store_advances:
  assumes "store_ok w s" "run_store w c s = Inr (u, s')" "\<not> audits c"
  shows "advances s s'"
proof (cases "\<exists>x limit retry. c = ProcessBacklog x limit retry")
  case True
  then show ?thesis
    using extraction_stepD(3)[OF process_backlog_step[OF confirm_inv_of[OF assms(1)]]] assms(2) by auto
next
  case False
  then show ?thesis
    using assms(2,3)
    by (cases c) (auto intro: grown_log_call grown_block grown_memory grown_policy grown_record_finding
      grown_ack_request grown_transition_finding grown_candidate_request grown_transition_candidate
      grown_settlement grown_settle_candidate grown_confirm grown_task grown_binding grown_side)
qed

section \<open>Every call keeps the invariant\<close>

lemma only_log_ok:
  assumes "store_ok w s" "log_ok w s'" "only_log s s'"
  shows "store_ok w s'"
  by (rule store_ok_carried[OF assms(1,2)]) (use assms(3) in \<open>simp_all add: only_log_def\<close>)

lemma log_call_ok:
  assumes "store_ok w s" "run_call w c s = Inr (u, s')"
  shows "store_ok w s'"
proof -
  have "log_ok w s'" using run_call_log[OF assms(2)] store_okD(1)[OF assms(1)] by blast
  then show ?thesis
    using log_call_frame[OF assms(2)] only_log_ok[OF assms(1)] store_ok_forked[OF assms(1)] by blast
qed

lemma block_call_ok:
  assumes ok: "store_ok w s" and run: "set_active_block w name content b ses srcs s = Inr (r, s')"
  shows "store_ok w s'"
proof -
  have step: "log_ok w s' \<and> blocks_ok s'"
    using set_active_block_step[OF store_okD(2,1)[OF ok] run] by blast
  show ?thesis
  proof (rule set_active_block_cases[OF run], goal_cases)
    case (1 current e s1)
    obtain u t where s1: "s1 = s\<lparr>st_uuid := u, st_tick := t, st_events := st_events s @ [e]\<rparr>"
      using appendsE[OF append_event_in_tx_appended[OF 1(3)]] by blast
    show ?case by (rule store_ok_carried[OF ok]) (use step in \<open>simp_all add: 1(7) s1\<close>)
  qed
qed

lemma moves_call_ok:
  assumes ok: "store_ok w s" and "candidates_ok s'" "only_moves s s'"
  shows "store_ok w s'"
proof -
  note f = only_moves_fields[OF assms(3)]
  have "log_ok w s'" using store_okD(1)[OF ok] log_ok_cong[of s' s w] f by simp
  then show ?thesis by (rule store_ok_carried[OF ok]) (use assms(2) f in simp_all)
qed

text \<open>A call that writes none of the tables of the invariant.\<close>

lemma audit_call_ok:
  assumes ok: "store_ok w s" and only: "only_audits s s'"
  shows "store_ok w s'"
proof -
  note same = only_audits_fields[OF only]
  have "log_ok w s'" using store_okD(1)[OF ok] log_ok_cong[of s' s w] same by simp
  then show ?thesis by (rule store_ok_carried[OF ok]) (simp_all add: same)
qed

lemma only_extracts_fields:
  assumes "only_extracts s s'"
  shows "st_branches s' = st_branches s" "\<exists>es. st_events s' = st_events s @ es"
    "st_blocks s' = st_blocks s" "st_policies s' = st_policies s" "st_findings s' = st_findings s"
    "st_finding_moves s' = st_finding_moves s" "st_tasks s' = st_tasks s"
  using assms by (simp_all add: only_extracts_def)

lemma confirm_call_ok:
  assumes ok: "store_ok w s" and inv: "confirm_inv w s'" and only: "only_confirms s s'"
  shows "store_ok w s'"
proof -
  note f = only_confirms_fields[OF only]
  show ?thesis by (rule store_ok_carried[OF ok]) (use inv f in \<open>simp_all add: confirm_inv_def\<close>)
qed

lemma run_store_ok:
  assumes ok: "store_ok w s" and run: "run_store w c s = Inr (u, s')"
  shows "store_ok w s'"
proof -
  note inv = store_okD[OF ok]
  have ci: "confirm_inv w s" using inv by (simp add: confirm_inv_def)
  have carried: "log_ok w s' \<Longrightarrow> store_ok w s'" if "only_findings s s'" "findings_ok s'"
    by (rule store_ok_carried[OF ok]) (use that only_findings_fields[OF that(1)] in simp_all)
  show ?thesis
  proof (cases c)
    case (LogCall lc)
    then show ?thesis using run log_call_ok[OF ok] by simp
  next
    case (SetBlock name content b ses srcs)
    then show ?thesis using run block_call_ok[OF ok] by auto
  next
    case (DeriveMemory d)
    then obtain r where "derive_memory w d s = Inr (r, s')" using run by auto
    then show ?thesis using derive_memory_inv[OF ci] confirm_call_ok[OF ok] by blast
  next
    case (ActivatePolicy p src claimed op)
    then obtain r where r: "activate_policy w p src claimed op s = Inr (r, s')" using run by auto
    have step: "policies_ok w s'" "only_policies s s'" using activate_policy_step[OF inv(5) r] by simp_all
    note f = only_policies_fields[OF step(2)]
    have "log_ok w s'" using inv(1) log_ok_cong[of s' s w] f by simp
    then show ?thesis by (rule store_ok_carried[OF ok]) (use step f in simp_all)
  next
    case (RecordFinding ft key details)
    then obtain r where r: "record_security_finding w ft key details s = Inr (r, s')" using run by auto
    show ?thesis using record_security_finding_step[OF inv(6,1) r] carried by blast
  next
    case (RequestAck fid b org)
    then obtain r where r: "append_finding_ack_request w fid b org s = Inr (r, s')" using run by auto
    show ?thesis using append_finding_ack_request_step[OF inv(6,1) r] carried by blast
  next
    case (TransitionFinding fid target src actor)
    then obtain r where r: "transition_finding w fid target src actor s = Inr (r, s')" using run by auto
    have step: "findings_ok s'" "only_findings s s'" "st_events s' = st_events s"
      using transition_finding_step[OF inv(6) r] by simp_all
    have "log_ok w s'" using inv(1) log_ok_cong[of s' s w] only_findings_fields[OF step(2)] step(3) by simp
    then show ?thesis using carried step by blast
  next
    case (RequestCandidate cid req b action org rc rm)
    then obtain r where r: "append_candidate_request w cid req b action org rc rm s = Inr (r, s')" using run by auto
    have step: "candidates_ok s'" "log_ok w s'" "only_requests s s'"
      using append_candidate_request_step[OF inv(4,1) r] by simp_all
    show ?thesis
      by (rule store_ok_carried[OF ok step(2)]) (use step(1) only_requests_fields[OF step(3)] in simp_all)
  next
    case (TransitionCandidate cid target src actor rule rc rm)
    then obtain r where r: "transition_candidate w cid target src actor rule rc rm s = Inr (r, s')" using run by auto
    show ?thesis using transition_candidate_step[OF inv(4) r] moves_call_ok[OF ok] by blast
  next
    case (CreateSettlement kind content src ev mt strength actor)
    then obtain r where r: "create_settlement_candidate w kind content src ev mt strength actor s = Inr (r, s')"
      using run by auto
    have step: "candidates_ok s'" "only_candidates s s'"
      using create_settlement_candidate_step[OF inv(4) r] by simp_all
    note f = only_candidates_fields[OF step(2)]
    have "log_ok w s'" using inv(1) log_ok_cong[of s' s w] f by simp
    then show ?thesis by (rule store_ok_carried[OF ok]) (use step f in simp_all)
  next
    case (SettleCandidate cid target src actor rule)
    then obtain r where r: "settle_candidate w cid target src actor rule s = Inr (r, s')" using run by auto
    show ?thesis using settle_candidate_step[OF inv(4) r] moves_call_ok[OF ok] by blast
  next
    case (ConfirmMatch cid mid src)
    then obtain r where r: "confirm_candidate_match w cid mid src s = Inr (r, s')" using run by auto
    show ?thesis using confirm_candidate_match_step[OF ci r] confirm_call_ok[OF ok] by blast
  next
    case (WriteTask d)
    then obtain t where t: "create_task_version w d s = Inr (t, s')" using run by auto
    have step: "tasks_ok s'" "only_tasks s s'" using create_task_version_step[OF inv(7,1) t] by simp_all
    note f = only_tasks_fields[OF step(2)]
    have "log_ok w s'" using inv(1) log_ok_cong[of s' s w] f by simp
    then show ?thesis by (rule store_ok_carried[OF ok]) (use step f in simp_all)
  next
    case (BindTask i k)
    then have "bind_task_session w i k s = Inr ((), s')" using run by auto
    then obtain t bs where s': "s' = s\<lparr>st_tick := t, st_bindings := bs\<rparr>" using bind_task_session_frame by blast
    have "log_ok w s'" using inv(1) log_ok_cong[of s' s w] by (simp add: s')
    then show ?thesis by (rule store_ok_carried[OF ok]) (simp_all add: s')
  next
    case (RegisterConfig h d)
    then obtain r where "register_extractor_config w h d s = Inr (r, s')" using run by auto
    then show ?thesis using register_frame audit_call_ok[OF ok] by (auto simp: same_tables_def)
  next
    case (ProcessBacklog x limit retry)
    then have s': "s' = snd (process_backlog w x limit retry s)" using run by simp
    note step = extraction_stepD[OF process_backlog_step[OF ci, of x limit retry], folded s']
    show ?thesis
      by (rule store_ok_carried[OF ok])
        (use step(1) only_extracts_fields[OF step(2)] in \<open>simp_all add: confirm_inv_def\<close>)
  next
    case (RecordFinalization i b ft st ct m)
    then obtain r where "record_finalization w i b ft st ct m s = Inr (r, s')" using run by auto
    then show ?thesis using record_evolves audit_call_ok[OF ok] by blast
  next
    case (QuarantineFinalization i reason raw)
    then obtain r where "quarantine_finalization w i reason raw s = Inr (r, s')" using run by auto
    then show ?thesis using quarantine_evolves audit_call_ok[OF ok] by blast
  next
    case (Worker h c)
    then show ?thesis using run worker_frame[of s w h c] audit_call_ok[OF ok] by (auto simp: same_tables_def)
  qed
qed

lemma run_store_evolves:
  assumes ok: "store_ok w s" and run: "run_store w c s = Inr (u, s')"
  shows "evolves s s'"
proof (cases "audits c")
  case True
  then show ?thesis using run record_evolves quarantine_evolves by (cases c) auto
next
  case False
  then show ?thesis using run_store_advances[OF ok run] advances_evolves by blast
qed

lemma run_store_finalizations_ok:
  assumes ok: "store_ok w s" and fin: "finalizations_ok s" and run: "run_store w c s = Inr (u, s')"
  shows "finalizations_ok s'"
proof (cases "audits c")
  case True
  then show ?thesis using run record_finalizations_ok[OF fin] quarantine_finalizations_ok[OF fin] by (cases c) auto
next
  case False
  then show ?thesis using run_store_advances[OF ok run] advances_finalizations_ok[OF fin] by blast
qed

lemma initial_store_ok: "store_ok w (initial_store w)"
proof -
  have tables: "st_blocks (initial_store w) = []" "st_memories (initial_store w) = []"
    "st_moves (initial_store w) = []" "st_candidates (initial_store w) = []" "st_policies (initial_store w) = []"
    "st_findings (initial_store w) = []" "st_finding_moves (initial_store w) = []" "st_tasks (initial_store w) = []"
    by (simp_all add: initial_store_def)
  show ?thesis
    by (simp add: store_ok_def initial_log_ok tables blocks_ok_def memories_ok_def blk.empty_table mem.empty_table
        candidates_ok_def policies_ok_def findings_ok_def tasks_ok_def task_rows_def history_ok.empty superseded_ids_def)
qed

lemma reachable_ok: "reachable w s \<Longrightarrow> store_ok w s"
  by (induction rule: reachable.induct)
    (auto simp: initial_store_ok attempt_def split: sum.splits intro: run_store_ok)

lemma reachable_finalizations_ok: "reachable w s \<Longrightarrow> finalizations_ok s"
proof (induction rule: reachable.induct)
  case start
  then show ?case by (simp add: finalizations_ok_def initial_store_def)
next
  case (step s c)
  then show ?case
    using run_store_finalizations_ok[OF reachable_ok[OF step.hyps] step.IH]
    by (auto simp: attempt_def split: sum.splits)
qed

lemma reachable_attempts: "reachable w s \<Longrightarrow> reachable w (attempts (run_store w) cs s)"
  by (induction cs arbitrary: s) (auto intro: reachable.step)

lemma reachable_evolves: "reachable w s \<Longrightarrow> evolves s (attempts (run_store w) cs s)"
proof (induction cs arbitrary: s)
  case (Cons c cs)
  have "evolves s (attempt (run_store w) c s)"
    using run_store_evolves[OF reachable_ok[OF Cons.prems]] by (auto simp: attempt_def split: sum.splits)
  then show ?case
    using Cons.IH[OF reachable.step[OF Cons.prems]] evolves_trans by (simp only: attempts_simps)
qed simp

text \<open>
  An operation that is a sequence of such calls, whatever it decides in between: the stores
  it leads to are reachable again.
\<close>

definition stepwise :: "world \<Rightarrow> store \<Rightarrow> store \<Rightarrow> bool" where
  "stepwise w s s' \<longleftrightarrow> (\<exists>cs. s' = attempts (run_store w) cs s)"

lemma stepwise_refl [simp]: "stepwise w s s"
  unfolding stepwise_def by (rule exI[of _ "[]"]) simp

lemma stepwise_trans: "stepwise w s t \<Longrightarrow> stepwise w t u \<Longrightarrow> stepwise w s u"
  unfolding stepwise_def by (metis attempts_def fold_append comp_apply)

lemma stepwise_call: "run_store w c s = Inr (u, s') \<Longrightarrow> stepwise w s s'"
  unfolding stepwise_def by (rule exI[of _ "[c]"]) (simp add: attempt_def)

lemma stepwise_reachable: "stepwise w s s' \<Longrightarrow> reachable w s \<Longrightarrow> reachable w s'"
  unfolding stepwise_def using reachable_attempts by blast

lemma stepwise_evolves: "stepwise w s s' \<Longrightarrow> reachable w s \<Longrightarrow> evolves s s'"
  unfolding stepwise_def using reachable_evolves by blast

end
