(* ===== verification/ActiveMemory.thy ===== *)
theory ActiveMemory
  imports System
begin

text \<open>
  The protected active memory of a branch as an abstract map, and what a write, a step that
  writes no block, and a fork do to it.
\<close>

text \<open>
  The abstract active memory of a branch: a finite map from names to texts that holds at
  most 3000 bytes, written by replacing one text.
\<close>

definition active_memory :: "store \<Rightarrow> string \<Rightarrow> string \<Rightarrow> string option" where
  "active_memory s b n =
     (case get_active_blocks s b of Inl _ \<Rightarrow> None | Inr bs \<Rightarrow> map_option bl_content (dget bs n))"

text \<open>What a branch reads, in terms of the rows it sees.\<close>

lemma active_memory_heads:
  assumes ok: "blocks_ok s" and log: "log_ok w s" and b: "b \<in> branch_ids s" and lin: "lineage s b = Inr lin"
  shows "active_memory s b n = Some c \<longleftrightarrow>
    (\<exists>p \<in> set (heads (view bl_branch bl_cursor (st_blocks s) lin (int (length (st_events s))))).
       bl_name p = n \<and> bl_content p = c)"
proof -
  let ?v = "view bl_branch bl_cursor (st_blocks s) lin (int (length (st_events s)))"
  obtain lin' where l: "lineage s b = Inr lin'"
    "get_active_blocks s b = Inr (map (\<lambda>b. (bl_name b, b)) (heads (visible_blocks s lin')))"
    "mset (visible_blocks s lin') = mset (view bl_branch bl_cursor (st_blocks s) lin' (int (length (st_events s))))"
    "block_view_ok (visible_blocks s lin')"
    using active_blocks_spec[OF ok log b] by blast
  have lin': "lin' = lin" using l(1) lin by simp
  have d: "distinct (map bl_name (heads (visible_blocks s lin)))"
    using l(4) lin' by (simp add: block_view_ok_def)
  have hs: "set (heads (visible_blocks s lin)) = set (heads ?v)"
    using heads_mset[OF l(3)] mset_eq_setD lin' by blast
  have "dget (map (\<lambda>b. (bl_name b, b)) (heads (visible_blocks s lin))) n = Some p \<longleftrightarrow>
      p \<in> set (heads (visible_blocks s lin)) \<and> bl_name p = n" for p
    using d by (subst map_of_eq_Some_iff) (auto simp: comp_def)
  then show ?thesis unfolding active_memory_def l(2) lin' hs[symmetric] by auto
qed

lemma active_memory_total:
  assumes "store_ok w s" "b \<in> branch_ids s"
  obtains bs where "get_active_blocks s b = Inr bs" "distinct (dkeys bs)"
    "(\<Sum>(n, x)\<leftarrow>bs. utf8_len (bl_content x)) \<le> 3000"
proof -
  obtain lin where l: "get_active_blocks s b = Inr (map (\<lambda>b. (bl_name b, b)) (heads (visible_blocks s lin)))"
      "block_view_ok (visible_blocks s lin)"
    using active_blocks_spec[OF store_okD(2,1)[OF assms(1)] assms(2)] by metis
  show thesis
    by (rule that[OF l(1)]) (use l(2) in \<open>simp_all add: block_view_ok_def block_bytes_def MAX_ACTIVE_BYTES_def comp_def\<close>)
qed

text \<open>After a write: the new row is seen on its own branch, and by no other.\<close>

lemma written_block:
  assumes ok: "store_ok w s" and run: "set_active_block w name content b ses srcs s = Inr (blk, s')"
  shows "bl_name blk = name" "bl_content blk = fst (redact_text (w_rules w) True content)" "bl_branch blk = b"
    "bl_cursor blk = int (length (st_events s'))" "st_branches s' = st_branches s"
    "bl_cursor blk = int (length (st_events s)) + 1" "st_blocks s' = st_blocks s @ [blk]"
proof -
  note log = store_okD(1)[OF ok]
  have "bl_name blk = name \<and> bl_content blk = fst (redact_text (w_rules w) True content) \<and> bl_branch blk = b
    \<and> bl_cursor blk = int (length (st_events s')) \<and> st_branches s' = st_branches s
    \<and> bl_cursor blk = int (length (st_events s)) + 1 \<and> st_blocks s' = st_blocks s @ [blk]"
  proof (rule set_active_block_cases[OF run], goal_cases)
    case (1 current e s1)
    note app = append_event_in_tx_appended[OF 1(3)]
    have log1: "log_ok w s1" by (rule append_event_in_tx_log_ok[OF log 1(3)]) (simp add: block_event_def)
    show ?case
      using appended_seq[OF log1 app] append_event_in_tx_fields(7)[OF 1(3)] appends_fields(2)[OF app]
      by (simp add: 1(5,7) block_event_def)
  qed
  then show "bl_name blk = name" "bl_content blk = fst (redact_text (w_rules w) True content)" "bl_branch blk = b"
    "bl_cursor blk = int (length (st_events s'))" "st_branches s' = st_branches s"
    "bl_cursor blk = int (length (st_events s)) + 1" "st_blocks s' = st_blocks s @ [blk]"
    by simp_all
qed

lemma option_eqI: "(\<And>x. a = Some x \<longleftrightarrow> b = Some x) \<Longrightarrow> a = b"
  by (cases a; cases b) auto

lemma write_leaves_others:
  assumes ok: "store_ok w s" and run: "set_active_block w name content b ses srcs s = Inr (blk, s')"
    and c: "c \<in> branch_ids s" "c \<noteq> b"
  shows "active_memory s' c = active_memory s c"
proof
  fix n
  note log = store_okD(1)[OF ok] and blk = written_block[OF ok run]
  have ok': "blocks_ok s'" "log_ok w s'"
    using set_active_block_step[OF store_okD(2,1)[OF ok] run] by simp_all
  obtain lin where lin: "lineage s c = Inr lin" "lineage_of (st_branches s) c lin"
    using lineage_total[OF log_okD(1)[OF log] c(1)] by blast
  have "\<not> reaches lin b (bl_cursor blk)"
    using reaches_new[OF lin(2) log_okD(2)[OF log], of "bl_cursor blk" b] c(2) blk(6) by simp
  moreover have "bl_cursor x \<le> int (length (st_events s))" if "x \<in> set (st_blocks s)" for x
    using store_okD(2)[OF ok] that by (simp add: blocks_ok_def views_ok_def cursors_ok_def)
  ultimately have "view bl_branch bl_cursor (st_blocks s') lin (int (length (st_events s')))
      = view bl_branch bl_cursor (st_blocks s) lin (int (length (st_events s)))"
    using blk(3,4,6,7) by (force simp: view_def intro!: filter_cong)
  moreover have "c \<in> branch_ids s'" "lineage s' c = Inr lin"
    using c lin blk(5) by (simp_all add: branch_ids_cong[OF blk(5)] lineage_cong[OF blk(5)])
  ultimately show "active_memory s' c n = active_memory s c n"
    by (intro option_eqI)
      (simp add: active_memory_heads[OF ok'] active_memory_heads[OF store_okD(2)[OF ok] log c(1) lin(1)])
qed

lemma write_updates:
  assumes ok: "store_ok w s" and run: "set_active_block w name content b ses srcs s = Inr (blk, s')"
  shows "b \<in> branch_ids s"
    "active_memory s' b = (active_memory s b)(name \<mapsto> fst (redact_text (w_rules w) True content))"
proof -
  note log = store_okD(1)[OF ok] and blk = written_block[OF ok run]
  let ?c = "fst (redact_text (w_rules w) True content)"
  obtain lin where l: "lineage s b = Inr lin" "b \<in> branch_ids s" "blocks_ok s'" "log_ok w s'"
      "heads (view bl_branch bl_cursor (st_blocks s') lin (bl_cursor blk)) =
        filter (\<lambda>r. bl_name r \<noteq> name)
          (heads (view bl_branch bl_cursor (st_blocks s) lin (int (length (st_events s))))) @ [blk]"
    using set_active_block_step[OF store_okD(2,1)[OF ok] run] by blast
  then show "b \<in> branch_ids s" by simp
  have b': "b \<in> branch_ids s'" "lineage s' b = Inr lin"
    using l blk(5) by (simp_all add: branch_ids_cong[OF blk(5)] lineage_cong[OF blk(5)])
  show "active_memory s' b = (active_memory s b)(name \<mapsto> ?c)"
  proof
    fix n
    have "active_memory s' b n = Some x \<longleftrightarrow> ((active_memory s b)(name \<mapsto> ?c)) n = Some x" for x
      unfolding active_memory_heads[OF l(3,4) b'] blk(4)[symmetric] l(5)
      using active_memory_heads[OF store_okD(2)[OF ok] log l(2,1), of n x] blk(1,2) by auto
    then show "active_memory s' b n = ((active_memory s b)(name \<mapsto> ?c)) n" by (rule option_eqI)
  qed
qed

end
