(* ===== verification/SystemProps.thy ===== *)
theory SystemProps
  imports ActiveMemory
begin

text \<open>
  The properties of the store as a whole: what holds after every sequence of calls, failed
  ones included, and what one successful call does.
\<close>

definition system_store :: "world \<Rightarrow> store_call list \<Rightarrow> store" where
  "system_store w calls = attempts (run_store w) calls (initial_store w)"

lemma system_store_reachable: "reachable w (system_store w calls)"
  unfolding system_store_def by (rule reachable_attempts[OF reachable.start])

lemmas system_store_ok = reachable_ok[OF system_store_reachable]

lemma system_store_append:
  "system_store w (calls @ further) = attempts (run_store w) further (system_store w calls)"
  by (simp add: system_store_def attempts_def)

lemma system_store_evolves: "evolves (system_store w calls) (system_store w (calls @ further))"
  unfolding system_store_append by (rule reachable_evolves[OF system_store_reachable])

section \<open>Active memory\<close>

definition memory_bytes :: "(string \<Rightarrow> string option) \<Rightarrow> nat" where
  "memory_bytes m = (\<Sum>n \<in> dom m. utf8_len (the (m n)))"

definition write_block_spec :: "string \<Rightarrow> string \<Rightarrow> (string \<Rightarrow> string option) \<Rightarrow> (string \<Rightarrow> string option) option" where
  "write_block_spec n content m =
     (let m' = m(n \<mapsto> content) in if memory_bytes m' \<le> 3000 then Some m' else None)"

lemma bytes_of_dict:
  assumes "distinct (dkeys bs)"
  shows "memory_bytes (\<lambda>n. map_option f (dget bs n)) = (\<Sum>(n, x)\<leftarrow>bs. utf8_len (f x))"
  using assms
proof (induction bs)
  case Nil
  then show ?case by (simp add: memory_bytes_def)
next
  case (Cons p bs)
  obtain n x where p: "p = (n, x)" by fastforce
  let ?m = "\<lambda>k. map_option f (dget bs k)" and ?m' = "\<lambda>k. map_option f (dget (p # bs) k)"
  have n: "n \<notin> dom ?m" using Cons.prems p by (auto simp: map_of_eq_None_iff dom_def)
  have dom': "dom ?m' = insert n (dom ?m)" by (auto simp: p dom_def)
  have fin: "finite (dom ?m)"
    by (rule finite_subset[OF _ finite_dom_map_of[of bs]]) (auto simp: dom_def)
  have "(\<Sum>k \<in> dom ?m. utf8_len (the (?m' k))) = (\<Sum>k \<in> dom ?m. utf8_len (the (?m k)))"
    by (rule sum.cong) (use n p in auto)
  then have "memory_bytes ?m' = utf8_len (f x) + memory_bytes ?m"
    unfolding memory_bytes_def dom' using n fin by (simp add: p)
  then show ?case using Cons p by simp
qed

lemma active_bytes_spec:
  assumes "distinct (dkeys bs)"
  shows "active_bytes n content bs = memory_bytes ((\<lambda>k. map_option bl_content (dget bs k))(n \<mapsto> content))"
proof -
  define c where "c = AList.update n content (map (\<lambda>(k, x). (k, bl_content x)) bs)"
  have d: "distinct (dkeys c)"
    using assms unfolding c_def by (intro distinct_update) (simp add: comp_def split_beta)
  have mo: "map_of (map (\<lambda>(k, x). (k, bl_content x)) bs) = (\<lambda>k. map_option bl_content (dget bs k))"
    by (rule ext) (induction bs, auto)
  have "(\<lambda>k. map_option (\<lambda>x. x) (dget c k)) = (\<lambda>k. map_option bl_content (dget bs k))(n \<mapsto> content)"
    by (rule ext) (simp add: c_def mo option.map_ident)
  moreover have absent: "(\<Sum>x\<leftarrow>xs. utf8_len (if fst x = n then content else bl_content (snd x)))
      = (\<Sum>x\<leftarrow>xs. utf8_len (bl_content (snd x)))" if "n \<notin> fst ` set xs" for xs
    using that by (induction xs) auto
  have "(\<Sum>(k, x)\<leftarrow>c. utf8_len x) = active_bytes n content bs"
    using assms unfolding c_def active_bytes_def
    by (induction bs) (auto simp: comp_def case_prod_unfold absent)
  ultimately show ?thesis using bytes_of_dict[OF d, of "\<lambda>x. x"] by simp
qed

text \<open>
  C14: active memory refines its specification.  A successful write of a block is the update
  of the branch's abstract map with the redacted text, within the byte budget; the maps of
  all other branches, ancestors and forks included, stay as they were.
\<close>

theorem active_memory_refines:
  assumes "reachable w s" and run: "set_active_block w name content b ses srcs s = Inr (blk, s')"
  shows "write_block_spec name (fst (redact_text (w_rules w) True content)) (active_memory s b) = Some (active_memory s' b)
    \<and> (\<forall>c \<in> branch_ids s - {b}. active_memory s' c = active_memory s c)"
proof -
  note ok = reachable_ok[OF assms(1)] and upd = write_updates[OF reachable_ok[OF assms(1)] run]
  let ?c = "fst (redact_text (w_rules w) True content)"
  obtain bs where bs: "get_active_blocks s b = Inr bs" "distinct (dkeys bs)"
    using active_memory_total[OF ok upd(1)] by blast
  have "active_bytes name ?c bs \<le> 3000"
    by (rule set_active_block_cases[OF run]) (use bs(1) in \<open>simp add: MAX_ACTIVE_BYTES_def\<close>)
  then have "memory_bytes ((active_memory s b)(name \<mapsto> ?c)) \<le> 3000"
    using active_bytes_spec[OF bs(2), of name ?c] bs(1) unfolding active_memory_def by simp
  then show ?thesis
    using upd(2) write_leaves_others[OF ok run] by (simp add: write_block_spec_def)
qed

text \<open>No later step of a write raises the error of the budget.\<close>

definition budget_error :: exn where
  "budget_error = ValueError ''protected active memory exceeds 3000 UTF-8 bytes''"

lemma bindr_error: "bindr r f = Inl e \<longleftrightarrow> r = Inl e \<or> (\<exists>x. r = Inr x \<and> f x = Inl e)"
  by (cases r) auto

lemma budget_not_append: "append_event_in_tx w d s \<noteq> Inl budget_error"
  unfolding append_event_in_tx_def bindr_error check_session_def stamp_adapter_def insert_event_def unknown_branch_def
  by (simp add: budget_error_def fresh_uuid_def read_clock_def split: if_splits option.splits)

lemma budget_not_sources: "lineage s b = Inr lin \<Longrightarrow> assert_source_events s ids b \<noteq> Inl budget_error"
  by (auto simp: assert_source_events_def budget_error_def Let_def split: if_splits)

lemma budget_not_insert: "insert_block r s \<noteq> Inl budget_error"
  by (auto simp: insert_block_def bindr_error insert_keyed_def foreign_key_def guardr_def budget_error_def
      split: if_splits)

lemma budget_only_first:
  assumes bs: "get_active_blocks s b = Inr bs"
  shows "set_active_block w name content b ses srcs s = Inl budget_error \<longleftrightarrow>
    active_bytes name (fst (redact_text (w_rules w) True content)) bs > 3000"
proof (cases "active_bytes name (fst (redact_text (w_rules w) True content)) bs > 3000")
  case True
  then show ?thesis using bs by (simp add: set_active_block_def MAX_ACTIVE_BYTES_def budget_error_def)
next
  case False
  let ?d = "block_event name content b ses (dget bs name)"
  obtain lin where lin: "lineage s b = Inr lin" using bs by (cases "lineage s b") (auto simp: get_active_blocks_def)
  have "set_active_block w name content b ses srcs s \<noteq> Inl budget_error"
  proof (cases "append_event_in_tx w ?d s")
    case (Inl e)
    then show ?thesis using False bs Inl budget_not_append[of w ?d s] by (auto simp add: set_active_block_def MAX_ACTIVE_BYTES_def)
  next
    case (Inr r)
    obtain e s1 where r: "r = (e, s1)" by fastforce
    have "lineage s1 b = Inr lin"
      using lin appends_fields(2)[OF append_event_in_tx_appended[OF Inr[unfolded r]]] by (simp add: lineage_def)
    then show ?thesis
      using False bs Inr r
      by (simp add: set_active_block_def MAX_ACTIVE_BYTES_def fresh_uuid_def read_clock_def bindr_error Let_def
          budget_not_sources budget_not_insert)
  qed
  then show ?thesis using False by simp
qed

definition fresh_store :: store where
  "fresh_store = system_store demo_world []"

lemma fresh_store_reachable: "reachable demo_world fresh_store"
  unfolding fresh_store_def by (rule system_store_reachable)

lemma fresh_write: "is_ok (set_active_block demo_world ''p'' ''x'' ''main'' None [] fresh_store)"
  by code_simp

theorem active_memory_refines_witness:
  "\<exists>blk s'. set_active_block demo_world ''p'' ''x'' ''main'' None [] fresh_store = Inr (blk, s')
     \<and> write_block_spec ''p'' (fst (redact_text (w_rules demo_world) True ''x'')) (active_memory fresh_store ''main'')
         = Some (active_memory s' ''main'')"
proof -
  obtain blk s' where r: "set_active_block demo_world ''p'' ''x'' ''main'' None [] fresh_store = Inr (blk, s')"
    using fresh_write by (auto simp: is_ok_iff)
  show ?thesis using active_memory_refines[OF fresh_store_reachable r] r by blast
qed

text \<open>
  C15: the byte budget is enforced.  A write that would take a branch's active memory above
  3000 bytes is refused with an error; and on every branch of every reachable store the
  blocks are read without an error, one for each name, within the budget.
\<close>

theorem active_memory_bounded:
  "branch_ids (system_store w calls) \<subseteq>
     {b. \<exists>bs. get_active_blocks (system_store w calls) b = Inr bs \<and> distinct (dkeys bs)
          \<and> (\<Sum>(n, x)\<leftarrow>bs. utf8_len (bl_content x)) \<le> 3000
          \<and> {(name, content, ses, srcs). write_block_spec name (fst (redact_text (w_rules w) True content))
                 (active_memory (system_store w calls) b) = None}
             = {(name, content, ses, srcs). set_active_block w name content b ses srcs (system_store w calls)
                 = Inl (ValueError ''protected active memory exceeds 3000 UTF-8 bytes'')}}"
proof
  let ?s = "system_store w calls"
  fix b assume b: "b \<in> branch_ids ?s"
  obtain bs where bs: "get_active_blocks ?s b = Inr bs" "distinct (dkeys bs)"
      "(\<Sum>(n, x)\<leftarrow>bs. utf8_len (bl_content x)) \<le> 3000"
    using active_memory_total[OF system_store_ok b] by blast
  have m: "active_memory ?s b = (\<lambda>k. map_option bl_content (dget bs k))"
    by (rule ext) (simp add: active_memory_def bs(1))
  have "write_block_spec name c (active_memory ?s b) = None \<longleftrightarrow> active_bytes name c bs > 3000" for name c
    unfolding active_bytes_spec[OF bs(2)] m by (simp add: write_block_spec_def Let_def not_le)
  then show "b \<in> {b. \<exists>bs. get_active_blocks ?s b = Inr bs \<and> distinct (dkeys bs)
          \<and> (\<Sum>(n, x)\<leftarrow>bs. utf8_len (bl_content x)) \<le> 3000
          \<and> {(name, content, ses, srcs). write_block_spec name (fst (redact_text (w_rules w) True content))
                 (active_memory ?s b) = None}
             = {(name, content, ses, srcs). set_active_block w name content b ses srcs ?s
                 = Inl (ValueError ''protected active memory exceeds 3000 UTF-8 bytes'')}}"
    using bs budget_only_first[OF bs(1), of w] by (auto simp: budget_error_def)
qed

section \<open>Memory records\<close>

text \<open>
  C16: memory records are typed.  In every store that calls can lead to, a record carries one
  of the eight memory types, a risk between 0 and 1, a cost that is not negative, a version
  from 1 on, and at least one source, none twice.
\<close>

theorem memory_records_typed:
  "set (st_memories (system_store w calls)) \<subseteq>
     {r. me_type r \<in> {''fact'', ''decision'', ''task'', ''preference'', ''failure'', ''lesson'', ''summary'', ''index''}
        \<and> 0 \<le> fl_value (me_risk r) \<and> fl_value (me_risk r) \<le> 1 \<and> 0 \<le> fl_value (me_cost r)
        \<and> 1 \<le> me_version r \<and> me_sources r \<noteq> [] \<and> distinct (me_sources r)
        \<and> me_branch r \<in> branch_ids (system_store w calls)}"
  using store_okD(3)[OF system_store_ok[of w calls]] memory_branch
  by (auto simp: memories_ok_def memory_row_ok_def allowed_types_def)

lemma mapr_sources:
  assumes "\<forall>i \<in> set ids. \<exists>e. find_event s i = Some e"
  shows "mapr (get_event s) ids = Inr (map (\<lambda>i. the (find_event s i)) ids)"
  using assms by (induction ids) (auto simp: get_event_def)

text \<open>
  C17: provenance is total.  Every record answers with its source events, in the order in
  which it names them; each of them is seen by the record's branch and was in the log before
  the record was admitted.
\<close>

theorem provenance_total:
  "set (st_memories (system_store w calls)) \<subseteq>
     {r. \<exists>es lin. provenance (system_store w calls) (me_id r) = Inr es \<and> es \<noteq> [] \<and> map ev_id es = me_sources r
        \<and> lineage (system_store w calls) (me_branch r) = Inr lin
        \<and> set es \<subseteq> {e. reaches lin (ev_branch e) (ev_seq e) \<and> ev_seq e < me_cursor r}}"
proof
  let ?s = "system_store w calls"
  fix r assume r: "r \<in> set (st_memories ?s)"
  note ok = store_okD(3)[OF system_store_ok[of w calls]] and log = store_okD(1)[OF system_store_ok[of w calls]]
  have row: "memory_row_ok ?s r" and d: "distinct (map me_id (st_memories ?s))"
    using ok r by (simp_all add: memories_ok_def)
  obtain lin where lin: "lineage ?s (me_branch r) = Inr lin" "lineage_of (st_branches ?s) (me_branch r) lin"
    using lineage_total[OF log_okD(1)[OF log] memory_branch[OF ok r]] by blast
  have vis: "\<exists>e. find_event ?s i = Some e \<and> ev_id e = i \<and> reaches lin (ev_branch e) (ev_seq e)
      \<and> ev_seq e < me_cursor r" if "i \<in> set (me_sources r)" for i
    using row that lin(1) find_event_Some by (fastforce simp: memory_row_ok_def visible_source_def)
  let ?es = "map (\<lambda>i. the (find_event ?s i)) (me_sources r)"
  have "get_memory ?s (me_id r) = Inr r" using find_unique[OF d r] by (simp add: get_memory_def)
  moreover have "mapr (get_event ?s) (me_sources r) = Inr ?es" by (rule mapr_sources) (use vis in blast)
  moreover have inl: "\<forall>e \<in> set ?es. reaches lin (ev_branch e) (ev_seq e) \<and> ev_seq e < me_cursor r"
    using vis by fastforce
  ultimately have "provenance ?s (me_id r) = Inr ?es"
    using lin(1) inside_reaches[OF lineage_of_distinct[OF lin(2)]] by (auto simp: provenance_def)
  moreover have "map ev_id ?es = me_sources r" using vis by (fastforce intro!: map_idI)
  moreover have "?es \<noteq> []" using row by (simp add: memory_row_ok_def)
  ultimately show "r \<in> {r. \<exists>es lin. provenance ?s (me_id r) = Inr es \<and> es \<noteq> [] \<and> map ev_id es = me_sources r
        \<and> lineage ?s (me_branch r) = Inr lin
        \<and> set es \<subseteq> {e. reaches lin (ev_branch e) (ev_seq e) \<and> ev_seq e < me_cursor r}}"
    using lin(1) inl by (intro CollectI exI[of _ ?es] exI[of _ lin]) (auto simp: image_iff)
qed

text \<open>
  C18: who may speak for the agent.  A record that claims the authority of an agent's
  finalization rests on exactly one event, and that event is a trusted assistant Stop event;
  no untrusted text, whatever it claims, produces such a record.
\<close>

theorem agent_finalized_is_earned:
  "{r \<in> set (st_memories (system_store w calls)). jget (me_metadata r) ''authority_level'' = JStr ''agent_finalized''} \<subseteq>
     {r. \<exists>e. me_sources r = [ev_id e] \<and> e \<in> set (st_events (system_store w calls))
        \<and> ev_channel e = HOST_HOOK \<and> origin_evidence_type e = HOST_ASSISTANT_FINALIZATION}"
proof
  let ?s = "system_store w calls"
  fix r assume r: "r \<in> {r \<in> set (st_memories ?s). jget (me_metadata r) ''authority_level'' = JStr ''agent_finalized''}"
  then have "finalized_by_stop ?s r"
    using store_okD(3)[OF system_store_ok[of w calls]] by (simp add: memories_ok_def memory_row_ok_def agent_finalized_def)
  then obtain e where e: "me_sources r = [ev_id e]" "e \<in> set (st_events ?s)"
      "origin_evidence_type e = HOST_ASSISTANT_FINALIZATION"
    using find_event_Some unfolding finalized_by_stop_def by metis
  moreover have "ev_channel e = HOST_HOOK" using e(3) by (auto simp: origin_evidence_type_def split: if_splits)
  ultimately show "r \<in> {r. \<exists>e. me_sources r = [ev_id e] \<and> e \<in> set (st_events ?s)
        \<and> ev_channel e = HOST_HOOK \<and> origin_evidence_type e = HOST_ASSISTANT_FINALIZATION}" by blast
qed

text \<open>
  C19: supersession is a chain.  What a branch lists as its memories always contains, for a
  record that supersedes another one, that other record, one version lower and admitted
  earlier.
\<close>

theorem supersession_chain:
  "branch_ids (system_store w calls) \<subseteq>
     {b. \<exists>rs. list_memories (system_store w calls) b all_memories = Inr rs
        \<and> {r \<in> set rs. given (me_supersedes r)} \<subseteq>
            {r. \<exists>p \<in> set rs. me_id p = the (me_supersedes r) \<and> me_version r = me_version p + 1 \<and> me_cursor p < me_cursor r}}"
proof
  let ?s = "system_store w calls"
  fix b assume b: "b \<in> branch_ids ?s"
  note ok = store_okD(3)[OF system_store_ok[of w calls]] and log = store_okD(1)[OF system_store_ok[of w calls]]
  obtain lin where lin: "lineage ?s b = Inr lin" using lineage_total[OF log_okD(1)[OF log] b] by blast
  obtain rs where rs: "list_memories ?s b all_memories = Inr rs"
      "set rs = {r \<in> set (st_memories ?s). reaches lin (me_branch r) (me_cursor r)}"
    using list_memories_all[OF lin] by blast
  let ?v = "view me_branch me_cursor (st_memories ?s) lin (int (length (st_events ?s)))"
  have "chain_closed ?v" by (rule views_okD[OF _ b lin]) (use ok in \<open>simp add: memories_ok_def\<close>)
  moreover have "set ?v = set rs"
    using ok rs(2) by (auto simp: view_def memories_ok_def views_ok_def cursors_ok_def)
  ultimately have "{r \<in> set rs. given (me_supersedes r)} \<subseteq>
      {r. \<exists>p \<in> set rs. me_id p = the (me_supersedes r) \<and> me_version r = me_version p + 1 \<and> me_cursor p < me_cursor r}"
    unfolding chain_closed_def by blast
  then show "b \<in> {b. \<exists>rs. list_memories ?s b all_memories = Inr rs
        \<and> {r \<in> set rs. given (me_supersedes r)} \<subseteq>
            {r. \<exists>p \<in> set rs. me_id p = the (me_supersedes r) \<and> me_version r = me_version p + 1 \<and> me_cursor p < me_cursor r}}"
    using rs(1) by blast
qed

end
