(* ===== verification/AuthorityProps.thy ===== *)
theory AuthorityProps
  imports SystemProps
begin

text \<open>
  The properties of the ledgers: who may settle what, that settled is settled, that the past
  of the memory table does not change, and what confirming and activating do.
\<close>

section \<open>Candidates\<close>

text \<open>The origins that may settle a candidate, by the status it moves to.\<close>

definition settling_origins :: "string \<Rightarrow> origin set" where
  "settling_origins t =
     (if t \<in> {''confirmed'', ''rejected'', ''superseded''}
      then {HOST_LOGICAL_USER, LOCAL_OPERATOR, DELEGATED_AGENT}
      else {HOST_LOGICAL_USER, LOCAL_OPERATOR, DELEGATED_AGENT, BOOTSTRAP_TOFU})"

lemma settling_origin:
  assumes legal: "candidate_move_legal m f" and "\<not> exempt_move m"
    and t: "mv_to m \<in> {''confirmed'', ''rejected'', ''superseded'', ''applied'', ''reverted'', ''contested''}"
  shows "mv_origin m \<in> settling_origins (mv_to m)"
proof -
  have flow: "mv_to m \<in> set (concat (map snd (tr_flow (rule_of_move m))))"
    by (rule flow_target[of _ f]) (use legal in \<open>simp add: candidate_move_legal_def move_legal_def\<close>)
  have trusted: "mv_to m \<in> set (tr_trusted_targets (rule_of_move m)) \<Longrightarrow>
      mv_origin m \<in> set (tr_trusted_origins (rule_of_move m))"
    using assms(1,2) by (simp add: candidate_move_legal_def move_legal_def)
  show ?thesis
  proof (cases "rule_of_move m = CANDIDATE_RULE")
    case True
    then show ?thesis using t flow trusted by (auto simp: rule_defs flow_defs settling_origins_def)
  next
    case False
    then have "rule_of_move m = SETTLEMENT_RULE" by (simp add: rule_of_move_def split: if_splits)
    then show ?thesis using t flow trusted by (auto simp: rule_defs flow_defs settling_origins_def)
  qed
qed

text \<open>Only the rule of memory candidates leads to \<open>confirmed\<close>.\<close>

lemma confirming_origin:
  assumes "candidate_move_legal m f" "mv_to m = ''confirmed''"
  shows "mv_origin m \<in> {HOST_LOGICAL_USER, LOCAL_OPERATOR, DELEGATED_AGENT}"
proof -
  have "\<not> flow_allows SETTLEMENT_FLOW f ''confirmed''"
  proof
    assume "flow_allows SETTLEMENT_FLOW f ''confirmed''"
    then have "''confirmed'' \<in> set (concat (map snd SETTLEMENT_FLOW))" by (rule flow_target)
    then show False by (simp add: SETTLEMENT_FLOW_def)
  qed
  then have "rule_of_move m = CANDIDATE_RULE"
    using assms by (auto simp: candidate_move_legal_def move_legal_def rule_of_move_def SETTLEMENT_RULE_def split: if_splits)
  then show ?thesis
    using assms rules_distinct
    by (auto simp: candidate_move_legal_def move_legal_def exempt_move_def CANDIDATE_RULE_def USER_OPERATOR_OR_DELEGATE_def)
qed

text \<open>
  C20: settling takes the authority of its ledger.  Take any calls from the initial store and
  any recorded move of a candidate from one status to a settled one that is not the system's
  own on the settlement ledger.  The move cites an event of the log, records that event's true
  origin, and the event is visible to the branch on which the candidate arose.  A memory
  candidate was confirmed, rejected or superseded by the logged user, the local operator or a
  delegate; a settlement was applied, reverted or contested by one of these or by the
  bootstrap of the policy.  No other origin ever occurs.
\<close>

theorem settling_takes_authority:
  "{m \<in> set (st_moves (system_store w calls)). mv_from m \<noteq> None \<and> \<not> exempt_move m
      \<and> mv_to m \<in> {''confirmed'', ''rejected'', ''superseded'', ''applied'', ''reverted'', ''contested''}} \<subseteq>
   {m. \<exists>e c t lin. find_event (system_store w calls) (mv_event m) = Some e
      \<and> mv_origin m = origin_evidence_type e
      \<and> origin_evidence_type e \<in> settling_origins (mv_to m)
      \<and> candidate_event (system_store w calls) (mv_candidate m) = Some (c, t)
      \<and> lineage (system_store w calls) (ev_branch t) = Inr lin \<and> reaches lin (ev_branch e) (ev_seq e)}"
proof
  let ?s = "system_store w calls"
  fix m assume m: "m \<in> {m \<in> set (st_moves ?s). mv_from m \<noteq> None \<and> \<not> exempt_move m
      \<and> mv_to m \<in> {''confirmed'', ''rejected'', ''superseded'', ''applied'', ''reverted'', ''contested''}}"
  note ok = store_okD(4)[OF system_store_ok[of w calls]]
  have "history_ok mv_candidate mv_from mv_to candidate_move_legal (st_moves ?s)"
    using ok by (simp add: candidates_ok_def)
  then have "mv_from m = None \<or> (\<exists>f. mv_from m = Some f \<and> candidate_move_legal m f)"
    by (rule history_row) (use m in simp)
  then obtain f where f: "candidate_move_legal m f" using m by blast
  have "mv_origin m \<in> settling_origins (mv_to m)"
    by (rule settling_origin[OF f]) (use m in simp_all)
  moreover have "cites_visible ?s m" using ok m by (simp add: candidates_ok_def)
  ultimately show "m \<in> {m. \<exists>e c t lin. find_event ?s (mv_event m) = Some e
      \<and> mv_origin m = origin_evidence_type e
      \<and> origin_evidence_type e \<in> settling_origins (mv_to m)
      \<and> candidate_event ?s (mv_candidate m) = Some (c, t)
      \<and> lineage ?s (ev_branch t) = Inr lin \<and> reaches lin (ev_branch e) (ev_seq e)}"
    unfolding cites_visible_def by (fastforce simp del: settling_origins_def)
qed

text \<open>
  C21: the final states are final.  A memory candidate that was rejected or superseded, a
  settlement that was reverted or contested, and a security finding that was acknowledged keep
  that status whatever calls follow.  (\<open>confirmed\<close> and \<open>applied\<close> are settled
  but not final: they may still be superseded, reverted or contested.)
\<close>

theorem settled_is_final:
  "{(i, t). candidate_status (system_store w calls) i = Some t \<and> t \<in> {''rejected'', ''superseded'', ''reverted'', ''contested''}}
     \<subseteq> {(i, t). candidate_status (system_store w (calls @ further)) i = Some t}
   \<and> {i. map_option fm_to (last_finding_move (system_store w calls) i) = Some ''acknowledged''}
     \<subseteq> {i. map_option fm_to (last_finding_move (system_store w (calls @ further)) i) = Some ''acknowledged''}"
proof -
  let ?s = "system_store w calls" and ?t = "system_store w (calls @ further)"
  note ok = system_store_ok[of w "calls @ further"]
  obtain ms fs where g: "st_moves ?t = st_moves ?s @ ms" "st_finding_moves ?t = st_finding_moves ?s @ fs"
    using evolves_fields(4,5)[OF system_store_evolves[of w calls further]] by (auto simp: prefix_def)
  have h: "history_ok mv_candidate mv_from mv_to candidate_move_legal (st_moves ?s @ ms)"
    using store_okD(4)[OF ok] g(1) by (simp add: candidates_ok_def)
  have k: "history_ok fm_finding fm_from fm_to finding_move_legal (st_finding_moves ?s @ fs)"
    using store_okD(6)[OF ok] g(2) by (simp add: findings_ok_def)
  have "candidate_status ?t i = Some t"
    if "candidate_status ?s i = Some t" "t \<in> {''rejected'', ''superseded'', ''reverted'', ''contested''}" for i t
    using cand.terminal_stays[OF h, of i t] that g(1)
    by (simp add: candidate_terminal_def cand.status_def candidate_status_def last_move_def)
  moreover have "map_option fm_to (last_finding_move ?t i) = Some ''acknowledged''"
    if "map_option fm_to (last_finding_move ?s i) = Some ''acknowledged''" for i
    using find.terminal_stays[OF k, of i "''acknowledged''"] that g(2)
    by (simp add: find.status_def last_finding_move_def)
  ultimately show ?thesis by blast
qed

text \<open>
  a confirmation is complete and earned.  When a repeated marker confirms a candidate, the
  candidate's status is \<open>confirmed\<close> afterwards, the event it cites is in the log with a
  trusted origin, and no invariant of the store is broken.
\<close>

theorem confirmation_is_earned:
  assumes "reachable w s" and run: "confirm_candidate_match w cid mid src s = Inr (r, s')"
  shows "store_ok w s' \<and> candidate_status s' cid = Some ''confirmed'' \<and> advances s s'
    \<and> (candidate_status s cid = Some ''confirmed''
       \<or> (\<exists>e. find_event s src = Some e
            \<and> origin_evidence_type e \<in> {HOST_LOGICAL_USER, LOCAL_OPERATOR, DELEGATED_AGENT}))"
proof -
  note ok = reachable_ok[OF assms(1)]
  have ci: "confirm_inv w s" using store_okD[OF ok] by (simp add: confirm_inv_def)
  obtain c ru x1 s1 x2 s2 s4 x5 where h:
      "request_confirmation w cid src s = Inr (x1, s1)"
      "transition_candidate w cid ''confirmed'' src ''explicit_marker'' ''normalized_explicit_match''
         None None s1 = Inr (x2, s2)"
    using run by (auto simp: confirm_candidate_match_def split: option.splits)
  have s1: "st_events s1 = st_events s" "candidate_status s1 cid = Some ''confirmation_requested'' \<or> s1 = s"
    using h(1) transition_candidate_step[OF store_okD(4)[OF ok]] only_moves_fields(2)
    by (auto simp: request_confirmation_def split: if_splits)
  have "candidate_status s cid = Some ''confirmed''
       \<or> (\<exists>e. find_event s src = Some e \<and> origin_evidence_type e \<in> {HOST_LOGICAL_USER, LOCAL_OPERATOR, DELEGATED_AGENT})"
    using h(2)
  proof (cases rule: transition_candidate_cases)
    case same
    then show ?thesis using s1(2) by auto
  next
    case (moved f c t e m)
    have m: "mv_to m = ''confirmed''" "mv_actor m = ''explicit_marker''" "mv_origin m = origin_evidence_type e"
      unfolding moved(5) by (simp_all add: candidate_row_move_def)
    have "mv_origin m \<in> {HOST_LOGICAL_USER, LOCAL_OPERATOR, DELEGATED_AGENT}"
      by (rule confirming_origin[OF moved(6) m(1)])
    then show ?thesis using moved(3) m(3) s1(1) find_event_cong[OF s1(1)] by auto
  qed
  then show ?thesis
    using confirm_candidate_match_step[OF ci run] confirm_call_ok[OF ok] grown_confirm[OF run] by blast
qed

end
