(* ===== verification/Transactions.thy ===== *)
theory Transactions
  imports SystemProps
begin

text \<open>
  Re-entrant transactions (\<open>transactions.py\<close>): a connection with a depth counter, a failure
  flag that inner blocks set, and callbacks that wait for the commit.  What a program does
  inside nested blocks is written as the datatype \<open>prog\<close>; its meaning with the counters
  (\<open>exec\<close>) refines a meaning without them (\<open>plan\<close>), which commits everything or nothing.
\<close>

section \<open>The connection\<close>

text \<open>\<open>tx_saved\<close> is what a rollback returns to; \<open>tx_ran\<close> are the callbacks that have been called.\<close>

record ('d, 'c) tx =
  tx_db :: 'd
  tx_saved :: "'d option"
  tx_depth :: nat
  tx_failed :: bool
  tx_pending :: "'c list"
  tx_ran :: "'c list"

definition init_transactions :: "'d \<Rightarrow> ('d, 'c) tx" where
  "init_transactions d =
     \<lparr>tx_db = d, tx_saved = None, tx_depth = 0, tx_failed = False, tx_pending = [], tx_ran = []\<rparr>"

text \<open>What calling a callback does besides being called: it may raise.\<close>

type_synonym 'c outcome = "'c \<Rightarrow> exn option"

fun run_callbacks :: "'c outcome \<Rightarrow> 'c list \<Rightarrow> ('d, 'c) tx \<Rightarrow> exn option \<times> ('d, 'c) tx" where
  "run_callbacks oc [] t = (None, t)"
| "run_callbacks oc (c # cs) t =
     (let t' = t\<lparr>tx_ran := tx_ran t @ [c]\<rparr>
      in case oc c of None \<Rightarrow> run_callbacks oc cs t' | Some e \<Rightarrow> (Some e, t'))"

definition rollback :: "('d, 'c) tx \<Rightarrow> ('d, 'c) tx" where
  "rollback t = t\<lparr>tx_db := (case tx_saved t of None \<Rightarrow> tx_db t | Some d \<Rightarrow> d), tx_saved := None, tx_pending := []\<rparr>"

text \<open>The \<open>finally\<close> of the block.\<close>

definition leave :: "bool \<Rightarrow> ('d, 'c) tx \<Rightarrow> ('d, 'c) tx" where
  "leave outermost t = t\<lparr>tx_depth := tx_depth t - 1, tx_failed := tx_failed t \<and> \<not> outermost\<rparr>"

definition transaction ::
  "'c outcome \<Rightarrow> (('d, 'c) tx \<Rightarrow> exn option \<times> ('d, 'c) tx) \<Rightarrow> ('d, 'c) tx \<Rightarrow> exn option \<times> ('d, 'c) tx" where
  "transaction oc body t =
     (let outermost = (tx_depth t = 0);
          t1 = (if outermost then t\<lparr>tx_saved := Some (tx_db t), tx_failed := False, tx_pending := []\<rparr> else t);
          (raised, t2) = body (t1\<lparr>tx_depth := tx_depth t1 + 1\<rparr>)
      in case raised of
           Some e \<Rightarrow>
             (let t3 = t2\<lparr>tx_failed := True\<rparr>
              in (Some e, leave outermost (if outermost then rollback t3 else t3)))
         | None \<Rightarrow>
             if \<not> outermost then (None, leave outermost t2)
             else if tx_failed t2
             then (Some (RuntimeError ''nested transaction failed''), leave outermost (rollback t2))
             else run_callbacks oc (tx_pending t2) (leave outermost (t2\<lparr>tx_saved := None, tx_pending := []\<rparr>)))"

definition after_commit :: "'c outcome \<Rightarrow> 'c \<Rightarrow> ('d, 'c) tx \<Rightarrow> exn option \<times> ('d, 'c) tx" where
  "after_commit oc c t =
     (if tx_depth t > 0 then (None, t\<lparr>tx_pending := tx_pending t @ [c]\<rparr>) else run_callbacks oc [c] t)"

section \<open>Programs\<close>

text \<open>
  A statement that may raise, a callback for later, sequencing, a \<open>with self._transaction()\<close>
  block, and \<open>try: p except: q\<close>.
\<close>

datatype ('d, 'c) prog =
    Stmt "'d \<Rightarrow> 'd result"
  | Later 'c
  | Seq "('d, 'c) prog" "('d, 'c) prog"
  | Block "('d, 'c) prog"
  | Try "('d, 'c) prog" "('d, 'c) prog"

fun exec :: "'c outcome \<Rightarrow> ('d, 'c) prog \<Rightarrow> ('d, 'c) tx \<Rightarrow> exn option \<times> ('d, 'c) tx" where
  "exec oc (Stmt f) t = (case f (tx_db t) of Inl e \<Rightarrow> (Some e, t) | Inr d \<Rightarrow> (None, t\<lparr>tx_db := d\<rparr>))"
| "exec oc (Later c) t = after_commit oc c t"
| "exec oc (Seq p q) t = (let (r, t') = exec oc p t in if r = None then exec oc q t' else (r, t'))"
| "exec oc (Block p) t = transaction oc (exec oc p) t"
| "exec oc (Try p q) t = (let (r, t') = exec oc p t in if r = None then (r, t') else exec oc q t')"

text \<open>\<open>atomic_service_write\<close>: a method of the service as one block.\<close>

definition atomic_service_write :: "('d, 'c) prog \<Rightarrow> ('d, 'c) prog" where
  "atomic_service_write p = Block p"

section \<open>The meaning without counters\<close>

text \<open>
  The exception that leaves the program, the data it wrote, whether some inner block failed
  on the way, and the callbacks it registered.
\<close>

fun plan :: "('d, 'c) prog \<Rightarrow> 'd \<Rightarrow> exn option \<times> 'd \<times> bool \<times> 'c list" where
  "plan (Stmt f) d = (case f d of Inl e \<Rightarrow> (Some e, d, False, []) | Inr d' \<Rightarrow> (None, d', False, []))"
| "plan (Later c) d = (None, d, False, [c])"
| "plan (Seq p q) d =
     (let (r, d1, b1, c1) = plan p d
      in if r \<noteq> None then (r, d1, b1, c1)
         else let (r2, d2, b2, c2) = plan q d1 in (r2, d2, b1 \<or> b2, c1 @ c2))"
| "plan (Block p) d = (let (r, d1, b, c) = plan p d in (r, d1, b \<or> r \<noteq> None, c))"
| "plan (Try p q) d =
     (let (r, d1, b1, c1) = plan p d
      in if r = None then (r, d1, b1, c1)
         else let (r2, d2, b2, c2) = plan q d1 in (r2, d2, b1 \<or> b2, c1 @ c2))"

text \<open>The prefix of the callbacks that gets called: up to the first one that raises.\<close>

fun called :: "'c outcome \<Rightarrow> 'c list \<Rightarrow> exn option \<times> 'c list" where
  "called oc [] = (None, [])"
| "called oc (c # cs) =
     (case oc c of Some e \<Rightarrow> (Some e, [c]) | None \<Rightarrow> let (r, ds) = called oc cs in (r, c # ds))"

text \<open>A whole block seen from outside: all of its writes or none of them.\<close>

definition atomically :: "'c outcome \<Rightarrow> ('d, 'c) prog \<Rightarrow> 'd \<Rightarrow> exn option \<times> 'd \<times> 'c list" where
  "atomically oc p d =
     (let (r, d', bad, cs) = plan p d
      in case r of
           Some e \<Rightarrow> (Some e, d, [])
         | None \<Rightarrow>
             if bad then (Some (RuntimeError ''nested transaction failed''), d, [])
             else let (r', cs') = called oc cs in (r', d', cs'))"

section \<open>Refinement\<close>

lemma run_callbacks_called:
  "run_callbacks oc cs t = (let (r, cs') = called oc cs in (r, t\<lparr>tx_ran := tx_ran t @ cs'\<rparr>))"
  by (induction cs arbitrary: t) (auto split: option.splits prod.splits)

lemma exec_inside:
  assumes "tx_depth t > 0"
  shows "exec oc p t = (let (r, d, b, c) = plan p (tx_db t)
     in (r, t\<lparr>tx_db := d, tx_failed := tx_failed t \<or> b, tx_pending := tx_pending t @ c\<rparr>))"
  using assms
proof (induction p arbitrary: t)
  case (Seq p q)
  then show ?case by (auto simp: Let_def split: prod.splits)
next
  case (Block p)
  then show ?case by (auto simp: transaction_def leave_def Let_def split: prod.splits option.splits)
next
  case (Try p q)
  then show ?case by (auto simp: Let_def split: prod.splits)
qed (auto simp: after_commit_def split: sum.splits)

lemma init_fields [simp]:
  "tx_db (init_transactions d) = d" "tx_saved (init_transactions d) = None" "tx_depth (init_transactions d) = 0"
  "tx_failed (init_transactions d) = False" "tx_pending (init_transactions d) = []" "tx_ran (init_transactions d) = []"
  by (simp_all add: init_transactions_def)

lemma exec_block:
  "exec oc (Block p) ((init_transactions d)\<lparr>tx_ran := before\<rparr>) = (let (r, d', cs) = atomically oc p d
     in (r, (init_transactions d')\<lparr>tx_ran := before @ cs\<rparr>))"
  by (auto simp: transaction_def exec_inside atomically_def rollback_def leave_def run_callbacks_called
      init_transactions_def Let_def split: prod.splits option.splits)

section \<open>Properties\<close>

text \<open>
  C27: nested transactions refine one atomic step.  Whatever a program does inside a block (nested
  blocks, failing statements, exceptions that are caught and swallowed, callbacks), the
  connection is idle again afterwards, and the outcome is that of the meaning without
  counters: the exception and no write and no callback, or every write and then the
  callbacks in the order in which they were registered, up to the first one that raises.
\<close>

theorem transaction_refines_atomic:
  "exec oc (Block p) (init_transactions d) = (let (r, d', cs) = atomically oc p d
     in (r, (init_transactions d')\<lparr>tx_ran := cs\<rparr>))"
  using exec_block[of oc p "[]" d] by (simp add: init_transactions_def Let_def)

text \<open>A service method that makes several calls of the store, one after the other.\<close>

definition store_stmt :: "world \<Rightarrow> store_call \<Rightarrow> (store, 'c) prog" where
  "store_stmt w c = Stmt (\<lambda>s. map_sum id snd (run_store w c s))"

fun service_method :: "world \<Rightarrow> store_call list \<Rightarrow> (store, 'c) prog" where
  "service_method w [] = Stmt Inr"
| "service_method w (c # cs) = Seq (Block (store_stmt w c)) (service_method w cs)"

lemma plan_service_method:
  "plan (service_method w cs) s = (None, s', bad, c) \<Longrightarrow> \<not> bad \<and> s' = attempts (run_store w) cs s"
  by (induction cs arbitrary: s s' bad c)
    (auto simp: store_stmt_def attempt_def Let_def split: sum.splits prod.splits if_splits)

text \<open>
  A service write is all or nothing.  A method of the service that makes any sequence of
  calls of the store inside one block leaves either the store it found or the store in which
  every single call has taken effect; it never leaves a part of them behind.
\<close>

theorem service_write_all_or_nothing:
  "tx_db (snd (exec oc (atomic_service_write (service_method w cs)) (init_transactions (system_store w calls))))
     \<in> {system_store w calls, system_store w (calls @ cs)}"
proof -
  have "system_store w (calls @ cs) = attempts (run_store w) cs (system_store w calls)"
    by (simp add: system_store_def attempts_def)
  moreover have "fst (snd (atomically oc (service_method w cs) s)) \<in> {s, attempts (run_store w) cs s}" for s
    using plan_service_method[of w cs s]
    by (auto simp: atomically_def split: prod.splits option.splits)
  ultimately show ?thesis
    using exec_block[of oc "service_method w cs" "[]" "system_store w calls"]
    by (simp add: atomic_service_write_def init_transactions_def Let_def split: prod.splits) (metis fst_conv snd_conv)
qed

end
