(* ===== verification/FinalizationProps.thy ===== *)
theory FinalizationProps
  imports SystemProps
begin

text \<open>
  The properties of finalization, for the stores that any sequence of calls leads to.
\<close>

text \<open>Materialising is a sequence of calls of the store.\<close>

lemma quarantine_all_stepwise: "quarantine_all w e rs s = Inr (qs, s') \<Longrightarrow> stepwise w s s'"
proof (induction w e rs s arbitrary: qs s' rule: quarantine_all.induct)
  case (2 w e reason raw rs s)
  then obtain i s1 "is" where h: "quarantine_finalization w (ev_id e) reason raw s = Inr (i, s1)"
      "quarantine_all w e rs s1 = Inr (is, s')" by auto
  have "stepwise w s s1"
    by (rule stepwise_call[of w "QuarantineFinalization (ev_id e) reason raw" s "()" s1]) (simp add: h(1))
  then show ?case using 2(1)[OF h(2)] by (rule stepwise_trans)
qed simp

lemma derive_stepwise: "derive_memory w d s = Inr (r, s') \<Longrightarrow> stepwise w s s'"
  by (rule stepwise_call[of w "DeriveMemory d" s "()" s']) simp

lemma record_stepwise: "record_finalization w i b ft st ct m s = Inr (q, s') \<Longrightarrow> stepwise w s s'"
  by (rule stepwise_call[of w "RecordFinalization i b ft st ct m" s "()" s']) simp

lemma confirmed_tag_stepwise: "confirmed_tag_memory w e t s = Inr (m, s') \<Longrightarrow> stepwise w s s'"
  by (auto simp: confirmed_tag_memory_def split: if_splits option.splits intro: derive_stepwise)

lemma materialize_tags_stepwise: "materialize_tags w e ex ts s = Inr (r, s') \<Longrightarrow> stepwise w s s'"
proof (induction ts arbitrary: s r)
  case (Cons t ts)
  then show ?case
    by (auto split: option.splits dest!: Cons.IH confirmed_tag_stepwise record_stepwise intro: stepwise_trans)
qed simp

lemma materialize_event_stepwise: "materialize_event w e s = Inr (r, s') \<Longrightarrow> stepwise w s s'"
  by (auto simp: materialize_event_def Let_def split: if_splits
      dest!: quarantine_all_stepwise materialize_tags_stepwise intro: stepwise_trans)

lemma materialize_stepwise: "materialize_finalizations w es s = Inr (rs, s') \<Longrightarrow> stepwise w s s'"
proof (induction es arbitrary: s rs)
  case (Cons e es)
  then show ?case by (auto dest!: Cons.IH materialize_event_stepwise intro: stepwise_trans)
qed simp

section \<open>Properties\<close>

text \<open>
  C25: redelivery changes nothing.  When the assistant's final messages have been materialised
  in a reachable store, delivering the same events again gives the same audit rows, the same
  memory records and the same quarantine entries, and leaves the store exactly as it was; the
  store stays reachable, so every invariant of the system still holds.
\<close>

theorem materialize_idempotent:
  assumes "reachable w s" "materialize_finalizations w es s = Inr (rs, s')"
  shows "materialize_finalizations w es s' = Inr (rs, s') \<and> reachable w s' \<and> evolves s s'"
proof -
  have step: "stepwise w s s'" by (rule materialize_stepwise[OF assms(2)])
  note again = materialize_step[OF reachable_finalizations_ok[OF assms(1)] assms(2)]
  have "audit_step s' s'" by (rule audit_step_refl[OF audit_stepD(2)[OF conjunct1[OF again]]])
  then show ?thesis using again stepwise_reachable[OF step assms(1)] stepwise_evolves[OF step assms(1)] by blast
qed

definition stop_world :: world where
  "stop_world = \<lparr>w_uuid = show_nat, w_now = (\<lambda>_. ''t''), w_time = (\<lambda>_. 0), w_sha256 = (\<lambda>_. ''h''), w_rules = []\<rparr>"

text \<open>A Stop event with one malformed tag, which goes into quarantine.\<close>

definition stop_store :: store where
  "stop_store = system_store stop_world
     [LogCall (CallAppendHost ''x'' ''message'' ''[TODO]'' ''main'' None (Some ''assistant'')
        [(''hook_event_name'', JStr ''Stop'')] [])]"

lemma stop_events:
  "map (\<lambda>e. (origin_evidence_type e, ev_content e)) (st_events stop_store) = [(HOST_ASSISTANT_FINALIZATION, ''[TODO]'')]"
  by code_simp

definition stop_event :: event where
  "stop_event = hd (st_events stop_store)"

lemma stop_event_facts:
  "find_event stop_store (ev_id stop_event) = Some stop_event"
  "origin_evidence_type stop_event = HOST_ASSISTANT_FINALIZATION" "ev_content stop_event = ''[TODO]''"
proof -
  obtain e where e: "st_events stop_store = [e]" "origin_evidence_type e = HOST_ASSISTANT_FINALIZATION" "ev_content e = ''[TODO]''"
    using stop_events by (auto simp: map_eq_Cons_conv)
  then have "stop_event = e" by (simp add: stop_event_def)
  then show "origin_evidence_type stop_event = HOST_ASSISTANT_FINALIZATION" "ev_content stop_event = ''[TODO]''" using e by simp_all
  have "log_ok stop_world stop_store" unfolding stop_store_def by (rule store_okD(1)[OF system_store_ok])
  then show "find_event stop_store (ev_id stop_event) = Some stop_event"
    using find_event_unique[of stop_world stop_store e] e(1) \<open>stop_event = e\<close> by simp
qed

lemma stop_classified: "classify_finalization_text ''[TODO]'' = \<lparr>cl_valid = [], cl_malformed = [''[TODO]''], cl_excluded = []\<rparr>"
  by code_simp

lemma stop_materialized: "is_ok (materialize_finalizations stop_world [stop_event] stop_store)"
proof -
  have "st_quarantine stop_store = []" by code_simp
  then show ?thesis
    by (simp add: is_ok_def materialize_event_def stop_event_facts stop_classified contradictory_def quarantine_finalization_def
        fresh_uuid_def read_clock_def insert_keyed_def)
qed

theorem materialize_idempotent_witness:
  "\<exists>rs s'. materialize_finalizations stop_world [stop_event] stop_store = Inr (rs, s')
     \<and> materialize_finalizations stop_world [stop_event] s' = Inr (rs, s')"
proof -
  obtain rs s' where r: "materialize_finalizations stop_world [stop_event] stop_store = Inr (rs, s')"
    using stop_materialized by (auto simp: is_ok_iff simp del: materialize_finalizations.simps)
  have "reachable stop_world stop_store" unfolding stop_store_def by (rule system_store_reachable)
  note again = materialize_idempotent[OF this r]
  show ?thesis by (intro exI conjI) (rule r, rule conjunct1[OF again])
qed

text \<open>
  C26: audit rows are earned.  After any sequence of calls every finalization row cites an event of
  the log whose provenance proves an assistant's Stop on the row's own branch, and the memory
  record it names exists on that branch; no two rows have the same event, type, status and text.
\<close>

theorem finalizations_are_earned:
  "set (st_finalizations (system_store w calls)) \<subseteq>
     {r. (\<exists>e. find_event (system_store w calls) (fz_event r) = Some e
            \<and> origin_evidence_type e = HOST_ASSISTANT_FINALIZATION \<and> fz_branch r = ev_branch e)
       \<and> set_option (fz_memory r) \<subseteq>
           me_id ` {m \<in> set (st_memories (system_store w calls)). me_branch m = fz_branch r}}
   \<and> distinct (map finalization_key (st_finalizations (system_store w calls)))"
  using reachable_finalizations_ok[OF system_store_reachable[of w calls]]
  by (fastforce simp: finalizations_ok_def finalization_row_ok_def)

end
