(* ===== verification/Transcript.thy ===== *)
theory Transcript
  imports Store
begin

text \<open>
  Atomic units of a transcript (\<open>transcript.py\<close>): every tool output is paired with its call, by
  a correlation id or else with the last call that is still open.  The code joins the pair in
  a union-find structure with path halving; the reference definition keeps a stack of open
  calls.
\<close>

section \<open>The code\<close>

definition TRANSCRIPT_KINDS :: "string list" where
  "TRANSCRIPT_KINDS = [''message'', ''tool_call'', ''tool_output'', ''artifact'']"

text \<open>\<open>payload.get\<close> of the private id, else of the first public one that is not \<open>None\<close>.\<close>

definition tool_call_id :: "event \<Rightarrow> string option" where
  "tool_call_id e =
     map_option py_str (List.find (\<lambda>v. v \<noteq> JNull)
       (map (jget (ev_payload e)) [''_memory_call_id'', ''tool_call_id'', ''tool_use_id'', ''call_id'']))"

text \<open>The loop \<open>find\<close> with path halving: \<open>None\<close> would mean that it does not return.\<close>

partial_function (option) find_root :: "nat list \<Rightarrow> nat \<Rightarrow> (nat \<times> nat list) option" where
  "find_root ps i =
     (if ps ! i = i then Some (i, ps)
      else let ps' = ps[i := ps ! (ps ! i)] in find_root ps' (ps' ! i))"

declare find_root.simps [code]

definition union_roots :: "nat list \<Rightarrow> nat \<Rightarrow> nat \<Rightarrow> nat list option" where
  "union_roots ps left right =
     (case find_root ps left of
        None \<Rightarrow> None
      | Some (l, ps1) \<Rightarrow>
          (case find_root ps1 right of
             None \<Rightarrow> None
           | Some (r, ps2) \<Rightarrow> Some (if l \<noteq> r then ps2[r := l] else ps2)))"

record pairing =
  pa_parents :: "nat list"
  pa_calls :: "(string, nat list) dict"
  pa_unmatched :: "nat list"
  pa_matched :: "nat list"
  pa_consumed :: "nat list"

definition open_index :: "nat list \<Rightarrow> nat list \<Rightarrow> nat option" where
  "open_index consumed xs = List.find (\<lambda>i. i \<notin> set consumed) (rev xs)"

definition calls_of :: "pairing \<Rightarrow> string \<Rightarrow> nat list" where
  "calls_of st c = (case dget (pa_calls st) c of None \<Rightarrow> [] | Some xs \<Rightarrow> xs)"

definition choose_call :: "pairing \<Rightarrow> string option \<Rightarrow> nat option" where
  "choose_call st correlation =
     (case (if given correlation then open_index (pa_consumed st) (calls_of st (the correlation)) else None) of
        Some i \<Rightarrow> Some i
      | None \<Rightarrow> open_index (pa_consumed st) (pa_unmatched st))"

definition pair_event :: "nat \<times> event \<Rightarrow> pairing \<Rightarrow> pairing option" where
  "pair_event = (\<lambda>(index, e) st.
     let correlation = tool_call_id e in
     if ev_kind e = ''tool_call''
     then Some (st\<lparr>pa_calls := (if given correlation
                        then dset (the correlation) (calls_of st (the correlation) @ [index]) (pa_calls st)
                        else pa_calls st),
                   pa_unmatched := pa_unmatched st @ [index]\<rparr>)
     else if ev_kind e \<noteq> ''tool_output'' then Some st
     else (case choose_call st correlation of
             None \<Rightarrow> Some st
           | Some call \<Rightarrow>
               (case union_roots (pa_parents st) call index of
                  None \<Rightarrow> None
                | Some ps \<Rightarrow> Some (st\<lparr>pa_parents := ps, pa_matched := pa_matched st @ [index],
                                    pa_consumed := pa_consumed st @ [call]\<rparr>))))"

fun pair_events :: "(nat \<times> event) list \<Rightarrow> pairing \<Rightarrow> pairing option" where
  "pair_events [] st = Some st"
| "pair_events (x # xs) st = (case pair_event x st of None \<Rightarrow> None | Some st' \<Rightarrow> pair_events xs st')"

definition no_pairs :: "nat \<Rightarrow> pairing" where
  "no_pairs n = \<lparr>pa_parents = [0..<n], pa_calls = [], pa_unmatched = [], pa_matched = [], pa_consumed = []\<rparr>"

text \<open>The second loop: the events by the root of their index.\<close>

fun group_events ::
  "nat list \<Rightarrow> (nat \<times> event) list \<Rightarrow> nat list \<Rightarrow> (nat, event list) dict \<Rightarrow> (nat, event list) dict option" where
  "group_events matched [] ps grouped = Some grouped"
| "group_events matched ((index, e) # xs) ps grouped =
     (if ev_kind e = ''tool_output'' \<and> index \<notin> set matched then group_events matched xs ps grouped
      else (case find_root ps index of
              None \<Rightarrow> None
            | Some (r, ps') \<Rightarrow>
                group_events matched xs ps'
                  (dset r ((case dget grouped r of None \<Rightarrow> [] | Some g \<Rightarrow> g) @ [e]) grouped)))"

definition transcript_of :: "event list \<Rightarrow> event list" where
  "transcript_of es = filter (\<lambda>e. ev_kind e \<in> set TRANSCRIPT_KINDS) es"

definition interaction_groups :: "event list \<Rightarrow> event list list option" where
  "interaction_groups es =
     (let ts = transcript_of es; indexed = enumerate 0 ts in
      case pair_events indexed (no_pairs (length ts)) of
        None \<Rightarrow> None
      | Some st \<Rightarrow>
          (case group_events (pa_matched st) indexed (pa_parents st) [] of
             None \<Rightarrow> None
           | Some grouped \<Rightarrow>
               Some (sort_key (\<lambda>g. Min (set (map ev_seq g))) (map (sort_key ev_seq) (map snd grouped)))))"

definition recent_complete_events :: "event list \<Rightarrow> int \<Rightarrow> event list option" where
  "recent_complete_events es group_limit =
     (if group_limit \<le> 0 then Some []
      else (case interaction_groups es of
              None \<Rightarrow> None
            | Some groups \<Rightarrow> Some (sort_key ev_seq (concat (take_last (nat group_limit) groups)))))"

section \<open>The reference\<close>

text \<open>A stack of open calls, the latest first, and the pairs found so far.\<close>

definition same_id :: "event \<Rightarrow> event \<Rightarrow> bool" where
  "same_id e c \<longleftrightarrow> given (tool_call_id e) \<and> tool_call_id c = tool_call_id e"

definition pair_step :: "event \<Rightarrow> event list \<times> (event \<times> event) list \<Rightarrow> event list \<times> (event \<times> event) list" where
  "pair_step e = (\<lambda>(opened, pairs).
     if ev_kind e = ''tool_call'' then (e # opened, pairs)
     else if ev_kind e \<noteq> ''tool_output'' then (opened, pairs)
     else (case List.find (same_id e) opened of
             Some c \<Rightarrow> (remove1 c opened, pairs @ [(c, e)])
           | None \<Rightarrow> (case opened of [] \<Rightarrow> (opened, pairs) | c # cs \<Rightarrow> (cs, pairs @ [(c, e)]))))"

definition paired :: "event list \<Rightarrow> (event \<times> event) list" where
  "paired ts = snd (fold pair_step ts ([], []))"

definition groups_spec :: "event list \<Rightarrow> event list list" where
  "groups_spec es =
     (let ts = transcript_of es in
      map (\<lambda>e. e # map snd (filter (\<lambda>p. fst p = e) (paired ts)))
        (filter (\<lambda>e. ev_kind e \<noteq> ''tool_output'') ts))"

end
