(* ===== verification/TranscriptFacts.thy ===== *)
theory TranscriptFacts
  imports Transcript
begin

text \<open>
  The union-find loops of the transcript return, and what they return is the stack reference.
\<close>

section \<open>Searching lists\<close>

lemma find_filter: "List.find Q xs = (case filter Q xs of [] \<Rightarrow> None | x # _ \<Rightarrow> Some x)"
  by (induction xs) auto

lemma find_map: "List.find Q (map f xs) = map_option f (List.find (Q \<circ> f) xs)"
  by (induction xs) auto

lemma remove1_map: "inj_on f (insert x (set xs)) \<Longrightarrow> remove1 (f x) (map f xs) = map f (remove1 x xs)"
  by (induction xs) (auto simp: inj_on_def)

lemma remove1_filter_rev:
  "distinct xs \<Longrightarrow> remove1 x (rev (filter Q xs)) = rev (filter (\<lambda>y. Q y \<and> y \<noteq> x) xs)"
  by (simp add: distinct_remove1_removeAll removeAll_filter_not_eq rev_filter conj_commute eq_commute)

section \<open>Roots\<close>

text \<open>The parent array that a list of pairs (call, output) stands for.\<close>

definition root_of :: "(nat \<times> nat) list \<Rightarrow> nat \<Rightarrow> nat" where
  "root_of P i = (case List.find (\<lambda>p. snd p = i) P of None \<Rightarrow> i | Some p \<Rightarrow> fst p)"

definition parents_of :: "nat \<Rightarrow> (nat \<times> nat) list \<Rightarrow> nat list" where
  "parents_of N P = map (root_of P) [0..<N]"

definition pairs_ok :: "event list \<Rightarrow> nat \<Rightarrow> (nat \<times> nat) list \<Rightarrow> bool" where
  "pairs_ok ts n P \<longleftrightarrow> (\<forall>p \<in> set P. fst p < snd p \<and> snd p < n \<and> ev_kind (ts ! fst p) = ''tool_call''
       \<and> ev_kind (ts ! snd p) = ''tool_output'')
     \<and> distinct (map fst P) \<and> distinct (map snd P)"

lemma root_unpaired: "i \<notin> snd ` set P \<Longrightarrow> root_of P i = i"
proof -
  assume "i \<notin> snd ` set P"
  then have "List.find (\<lambda>p. snd p = i) P = None" by (force simp: find_None_iff)
  then show ?thesis by (simp add: root_of_def)
qed

lemma root_paired:
  assumes "pairs_ok ts n P" "(c, r) \<in> set P"
  shows "root_of P r = c"
proof -
  obtain p where p: "List.find (\<lambda>p. snd p = r) P = Some p"
    using assms(2) by (cases "List.find (\<lambda>p. snd p = r) P") (auto simp: find_None_iff)
  then have "p \<in> set P" "snd p = r" by (auto simp: find_Some_iff)
  then have "p = (c, r)" using assms by (auto simp: pairs_ok_def distinct_map inj_on_def)
  then show ?thesis using p by (simp add: root_of_def)
qed

lemma root_call: "pairs_ok ts n P \<Longrightarrow> (c, r) \<in> set P \<Longrightarrow> root_of P c = c"
proof (rule root_unpaired, rule notI)
  assume ok: "pairs_ok ts n P" "(c, r) \<in> set P" and "c \<in> snd ` set P"
  then obtain p where "p \<in> set P" "snd p = c" by blast
  then have "ev_kind (ts ! c) = ''tool_output''" using ok(1) unfolding pairs_ok_def by blast
  moreover have "ev_kind (ts ! c) = ''tool_call''" using ok unfolding pairs_ok_def by fastforce
  ultimately show False by simp
qed

lemma root_below: "pairs_ok ts n P \<Longrightarrow> root_of P i \<le> i \<and> root_of P (root_of P i) = root_of P i"
  using root_unpaired[of i P] root_paired[of ts n P] root_call[of ts n P]
  by (cases "i \<in> snd ` set P") (fastforce simp: pairs_ok_def)+

lemma root_snoc: "r \<notin> snd ` set P \<Longrightarrow> root_of (P @ [(c, r)]) i = (if i = r then c else root_of P i)"
proof -
  assume r: "r \<notin> snd ` set P"
  have app: "List.find (\<lambda>p. snd p = i) (P @ [(c, r)]) =
      (case List.find (\<lambda>p. snd p = i) P of None \<Rightarrow> if r = i then Some (c, r) else None | Some p \<Rightarrow> Some p)"
    by (induction P) auto
  have none: "List.find (\<lambda>p. snd p = r) P = None" using r by (force simp: find_None_iff)
  show ?thesis using app none by (cases "i = r") (auto simp: root_of_def split: option.splits)
qed

text \<open>\<open>find\<close> returns after at most one step, and path halving changes nothing.\<close>

lemma find_root_parents:
  assumes ok: "pairs_ok ts n P" and "i < N"
  shows "find_root (parents_of N P) i = Some (root_of P i, parents_of N P)"
proof -
  let ?ps = "parents_of N P" and ?r = "root_of P i"
  have r: "?r < N" "root_of P ?r = ?r" using root_below[OF ok, of i] assms(2) by auto
  have nth: "?ps ! i = ?r" "?ps ! ?r = ?r" using r assms(2) by (simp_all add: parents_of_def)
  have "?ps[i := ?ps ! (?ps ! i)] = ?ps" using nth by (metis list_update_id)
  then show ?thesis
    using nth by (cases "?r = i") (simp_all add: find_root.simps[of ?ps i] find_root.simps[of ?ps ?r] Let_def)
qed

lemma parents_snoc:
  assumes "r \<notin> snd ` set P" "r < N"
  shows "(parents_of N P)[r := c] = parents_of N (P @ [(c, r)])"
  by (rule nth_equalityI) (auto simp: parents_of_def nth_list_update root_snoc[OF assms(1)])

lemma union_pair:
  assumes ok: "pairs_ok ts n P" and "c < n" "n < N" "c \<notin> snd ` set P"
  shows "union_roots (parents_of N P) c n = Some (parents_of N (P @ [(c, n)]))"
proof -
  have n: "n \<notin> snd ` set P" using ok by (auto simp: pairs_ok_def)
  have "root_of P c = c" "root_of P n = n" using assms(4) n by (simp_all add: root_unpaired)
  then show ?thesis
    using assms(2,3) find_root_parents[OF ok, of c N] find_root_parents[OF ok, of n N] parents_snoc[OF n assms(3)]
    by (simp add: union_roots_def)
qed

section \<open>The pairing loop\<close>

definition call_idx :: "event list \<Rightarrow> nat \<Rightarrow> nat list" where
  "call_idx ts n = filter (\<lambda>i. ev_kind (ts ! i) = ''tool_call'') [0..<n]"

lemma call_idx_Suc: "call_idx ts (Suc n) = call_idx ts n @ (if ev_kind (ts ! n) = ''tool_call'' then [n] else [])"
  by (simp add: call_idx_def)

definition open_calls :: "event list \<Rightarrow> nat \<Rightarrow> (nat \<times> nat) list \<Rightarrow> nat list" where
  "open_calls ts n P = rev (filter (\<lambda>i. i \<notin> fst ` set P) (call_idx ts n))"

definition at_pair :: "event list \<Rightarrow> nat \<times> nat \<Rightarrow> event \<times> event" where
  "at_pair ts p = (ts ! fst p, ts ! snd p)"

text \<open>After \<open>n\<close> events: the state of the loop, the state of the reference, and the pairs of both.\<close>

definition pairing_inv :: "event list \<Rightarrow> nat \<Rightarrow> pairing \<Rightarrow> (nat \<times> nat) list \<Rightarrow> bool" where
  "pairing_inv ts n st P \<longleftrightarrow> pairs_ok ts n P
     \<and> pa_parents st = parents_of (length ts) P \<and> pa_matched st = map snd P \<and> pa_consumed st = map fst P
     \<and> pa_unmatched st = call_idx ts n
     \<and> (\<forall>c. c \<noteq> [] \<longrightarrow> calls_of st c = filter (\<lambda>i. tool_call_id (ts ! i) = Some c) (call_idx ts n))
     \<and> fold pair_step (take n ts) ([], []) = (map ((!) ts) (open_calls ts n P), map (at_pair ts) P)"

lemma open_index_find: "open_index (map fst P) xs = List.find (\<lambda>i. i \<notin> fst ` set P) (rev xs)"
  by (simp add: open_index_def)

lemma find_in_filter: "List.find Q (filter R xs) = List.find (\<lambda>x. R x \<and> Q x) xs"
  by (induction xs) auto

definition pick :: "event \<Rightarrow> event list \<Rightarrow> event option" where
  "pick e opened = (case List.find (same_id e) opened of Some c \<Rightarrow> Some c
     | None \<Rightarrow> (case opened of [] \<Rightarrow> None | c # _ \<Rightarrow> Some c))"

lemma pair_step_output:
  "ev_kind e = ''tool_output'' \<Longrightarrow> pair_step e (opened, pairs) =
     (case pick e opened of None \<Rightarrow> (opened, pairs) | Some c \<Rightarrow> (remove1 c opened, pairs @ [(c, e)]))"
  by (auto simp: pair_step_def pick_def split: option.splits list.splits)

lemma choose_picks:
  assumes inv: "pairing_inv ts n st P"
  shows "pick e (map ((!) ts) (open_calls ts n P)) = map_option ((!) ts) (choose_call st (tool_call_id e))"
    and "choose_call st (tool_call_id e) = Some i \<Longrightarrow> i \<in> set (open_calls ts n P)"
proof -
  let ?O = "open_calls ts n P" and ?Q = "\<lambda>i. i \<notin> fst ` set P"
  have cons: "pa_consumed st = map fst P" "pa_unmatched st = call_idx ts n" using inv by (simp_all add: pairing_inv_def)
  have any: "open_index (pa_consumed st) (pa_unmatched st) = (case ?O of [] \<Rightarrow> None | i # _ \<Rightarrow> Some i)"
    unfolding cons open_index_find by (simp add: find_filter open_calls_def rev_filter)
  have same: "open_index (pa_consumed st) (calls_of st c) = List.find (\<lambda>i. tool_call_id (ts ! i) = Some c) ?O"
    if "c \<noteq> []" for c
  proof -
    have "calls_of st c = filter (\<lambda>i. tool_call_id (ts ! i) = Some c) (call_idx ts n)"
      using inv that by (simp add: pairing_inv_def)
    then show ?thesis
      unfolding cons open_index_find by (simp add: open_calls_def rev_filter find_in_filter conj_commute)
  qed
  have *: "choose_call st (tool_call_id e) =
      (case (if given (tool_call_id e) then List.find (\<lambda>i. tool_call_id (ts ! i) = tool_call_id e) ?O else None) of
         Some i \<Rightarrow> Some i | None \<Rightarrow> (case ?O of [] \<Rightarrow> None | i # _ \<Rightarrow> Some i))"
    by (cases "tool_call_id e") (auto simp: choose_call_def any same given_def split: option.split)
  have f: "List.find (same_id e) (map ((!) ts) ?O) =
      map_option ((!) ts) (if given (tool_call_id e) then List.find (\<lambda>i. tool_call_id (ts ! i) = tool_call_id e) ?O else None)"
    by (auto simp: find_map comp_def same_id_def find_None_iff)
  show "pick e (map ((!) ts) ?O) = map_option ((!) ts) (choose_call st (tool_call_id e))"
    unfolding pick_def f * by (auto split: option.splits list.splits)
  show "i \<in> set ?O" if "choose_call st (tool_call_id e) = Some i"
    using that unfolding * by (auto split: option.splits list.splits if_splits simp: find_Some_iff)
qed

lemma pair_event_inv:
  assumes inv: "pairing_inv ts n st P" and n: "n < length ts" and dist: "distinct ts"
  shows "\<exists>st' P'. pair_event (n, ts ! n) st = Some st' \<and> pairing_inv ts (Suc n) st' P'"
proof -
  let ?e = "ts ! n" and ?O = "open_calls ts n P"
  have ok: "pairs_ok ts n P" and par: "pa_parents st = parents_of (length ts) P"
    and spec: "fold pair_step (take n ts) ([], []) = (map ((!) ts) ?O, map (at_pair ts) P)"
    using inv by (simp_all add: pairing_inv_def)
  have fold: "fold pair_step (take (Suc n) ts) ([], []) = pair_step ?e (map ((!) ts) ?O, map (at_pair ts) P)"
    using n by (simp add: take_Suc_conv_app_nth spec)
  have ok': "pairs_ok ts (Suc n) P" using ok by (fastforce simp: pairs_ok_def)
  have consumed: "n \<notin> fst ` set P" using ok by (fastforce simp: pairs_ok_def)
  consider (call) "ev_kind ?e = ''tool_call''" | (other) "ev_kind ?e \<noteq> ''tool_call''" "ev_kind ?e \<noteq> ''tool_output''"
    | (out) "ev_kind ?e = ''tool_output''" by blast
  then show ?thesis
  proof cases
    case call
    let ?st = "st\<lparr>pa_calls := (if given (tool_call_id ?e)
                        then dset (the (tool_call_id ?e)) (calls_of st (the (tool_call_id ?e)) @ [n]) (pa_calls st)
                        else pa_calls st), pa_unmatched := pa_unmatched st @ [n]\<rparr>"
    have "calls_of ?st c = filter (\<lambda>i. tool_call_id (ts ! i) = Some c) (call_idx ts (Suc n))" if "c \<noteq> []" for c
      using inv that call
      by (cases "tool_call_id ?e") (auto simp: pairing_inv_def calls_of_def call_idx_Suc given_def)
    moreover have "fold pair_step (take (Suc n) ts) ([], []) = (map ((!) ts) (open_calls ts (Suc n) P), map (at_pair ts) P)"
      unfolding fold using call consumed by (simp add: pair_step_def open_calls_def call_idx_Suc)
    ultimately have "pairing_inv ts (Suc n) ?st P"
      using inv ok' call by (simp add: pairing_inv_def call_idx_Suc)
    then show ?thesis using call by (intro exI[of _ ?st] exI[of _ P]) (simp add: pair_event_def Let_def)
  next
    case other
    have idx: "call_idx ts (Suc n) = call_idx ts n" using other by (simp add: call_idx_Suc)
    have "pairing_inv ts (Suc n) st P"
      using inv ok' other fold unfolding pairing_inv_def open_calls_def idx by (simp add: pair_step_def)
    then show ?thesis using other by (auto simp: pair_event_def)
  next
    case out
    have idx: "call_idx ts (Suc n) = call_idx ts n" using out by (simp add: call_idx_Suc)
    note picks = choose_picks[OF inv, of ?e]
    show ?thesis
    proof (cases "choose_call st (tool_call_id ?e)")
      case None
      then have "pairing_inv ts (Suc n) st P"
        using inv ok' fold picks(1) unfolding pairing_inv_def open_calls_def idx by (simp add: pair_step_output[OF out])
      then show ?thesis using out None by (auto simp: pair_event_def)
    next
      case (Some c)
      have c: "c \<in> set ?O" by (rule picks(2)[OF Some])
      then have c': "c < n" "ev_kind (ts ! c) = ''tool_call''" "c \<notin> fst ` set P"
        by (auto simp: open_calls_def call_idx_def)
      have "c \<notin> snd ` set P" using ok c'(2) by (fastforce simp: pairs_ok_def)
      then have u: "union_roots (pa_parents st) c n = Some (parents_of (length ts) (P @ [(c, n)]))"
        unfolding par by (rule union_pair[OF ok c'(1) n])
      let ?P = "P @ [(c, n)]"
      let ?st = "st\<lparr>pa_parents := parents_of (length ts) ?P, pa_matched := pa_matched st @ [n],
                    pa_consumed := pa_consumed st @ [c]\<rparr>"
      have run: "pair_event (n, ?e) st = Some ?st" using out Some u by (simp add: pair_event_def)
      have okP: "pairs_ok ts (Suc n) ?P" using ok' ok c' out by (fastforce simp: pairs_ok_def)
      have inj: "inj_on ((!) ts) (insert c (set ?O))"
      proof (rule inj_onI)
        fix x y assume "x \<in> insert c (set ?O)" "y \<in> insert c (set ?O)" "ts ! x = ts ! y"
        moreover have "z < length ts" if "z \<in> insert c (set ?O)" for z
          using that n c'(1) by (auto simp: open_calls_def call_idx_def)
        ultimately show "x = y" using dist by (simp add: nth_eq_iff_index_eq)
      qed
      have "remove1 (ts ! c) (map ((!) ts) ?O) = map ((!) ts) (remove1 c ?O)" by (rule remove1_map[OF inj])
      also have "remove1 c ?O = open_calls ts (Suc n) ?P"
        unfolding open_calls_def idx
        by (subst remove1_filter_rev) (auto simp: call_idx_def intro: filter_cong)
      finally have "fold pair_step (take (Suc n) ts) ([], []) = (map ((!) ts) (open_calls ts (Suc n) ?P), map (at_pair ts) ?P)"
        unfolding fold using picks(1) Some by (simp add: pair_step_output[OF out] at_pair_def)
      moreover have "calls_of ?st k = calls_of st k" for k by (simp add: calls_of_def)
      ultimately have "pairing_inv ts (Suc n) ?st ?P"
        using inv okP by (simp add: pairing_inv_def idx)
      then show ?thesis using run by blast
    qed
  qed
qed

lemma pair_events_inv:
  assumes dist: "distinct ts"
  shows "n \<le> length ts \<Longrightarrow> pairing_inv ts n st P \<Longrightarrow>
     \<exists>st' P'. pair_events (enumerate n (drop n ts)) st = Some st' \<and> pairing_inv ts (length ts) st' P'"
proof (induction "length ts - n" arbitrary: n st P)
  case 0
  then show ?case by auto
next
  case (Suc k)
  then have n: "n < length ts" by simp
  obtain st1 P1 where 1: "pair_event (n, ts ! n) st = Some st1" "pairing_inv ts (Suc n) st1 P1"
    using pair_event_inv[OF Suc.prems(2) n dist] by blast
  have cons: "enumerate n (drop n ts) = (n, ts ! n) # enumerate (Suc n) (drop (Suc n) ts)"
    by (simp add: Cons_nth_drop_Suc[OF n, symmetric])
  then show ?case using 1 Suc.hyps(1)[of "Suc n" st1 P1] Suc.hyps(2) n by simp
qed

section \<open>The grouping loop\<close>

definition units :: "event list \<Rightarrow> nat list" where
  "units ts = filter (\<lambda>i. ev_kind (ts ! i) \<noteq> ''tool_output'') [0..<length ts]"

text \<open>The group of the unit \<open>i\<close> after \<open>n\<close> events.\<close>

definition group_of :: "event list \<Rightarrow> (nat \<times> nat) list \<Rightarrow> nat \<Rightarrow> nat \<Rightarrow> event list" where
  "group_of ts P n i = ts ! i # map (\<lambda>p. ts ! snd p) (filter (\<lambda>p. fst p = i \<and> snd p < n) P)"

definition grouped_upto :: "event list \<Rightarrow> (nat \<times> nat) list \<Rightarrow> nat \<Rightarrow> (nat, event list) dict" where
  "grouped_upto ts P n = map (\<lambda>i. (i, group_of ts P n i)) (filter (\<lambda>i. i < n) (units ts))"

lemma dset_map:
  assumes "distinct xs"
  shows "dset k v (map (\<lambda>i. (i, f i)) xs) =
     (if k \<in> set xs then map (\<lambda>i. (i, if i = k then v else f i)) xs else map (\<lambda>i. (i, f i)) xs @ [(k, v)])"
  using assms by (induction xs) auto

lemma dget_map: "dget (map (\<lambda>i. (i, f i)) xs) k = (if k \<in> set xs then Some (f k) else None)"
  by (induction xs) auto

lemma units_Suc:
  "n < length ts \<Longrightarrow> filter (\<lambda>i. i < Suc n) (units ts) =
     filter (\<lambda>i. i < n) (units ts) @ (if ev_kind (ts ! n) \<noteq> ''tool_output'' then [n] else [])"
proof -
  assume n: "n < length ts"
  have below: "filter (\<lambda>i. i < m) (units ts) = filter (\<lambda>i. ev_kind (ts ! i) \<noteq> ''tool_output'') [0..<m]" if "m \<le> length ts" for m
  proof -
    have "[0..<length ts] = [0..<m] @ [m..<length ts]" using that upt_add_eq_append[of 0 m "length ts - m"] by simp
    then show ?thesis by (simp add: units_def filter_id_conv) (auto intro: filter_cong simp: filter_empty_conv)
  qed
  show ?thesis using below[of n] below[of "Suc n"] n by simp
qed

lemma filter_unique:
  "distinct xs \<Longrightarrow> c \<in> set xs \<Longrightarrow> (\<And>x. x \<in> set xs \<Longrightarrow> Q x \<longleftrightarrow> x = c) \<Longrightarrow> filter Q xs = [c]"
  by (induction xs) (auto simp: filter_empty_conv)

lemma group_step:
  assumes ok: "pairs_ok ts (length ts) P" and n: "n < length ts"
  shows "(if ev_kind (ts ! n) = ''tool_output'' \<and> n \<notin> set (map snd P) then grouped_upto ts P n
     else dset (root_of P n) ((case dget (grouped_upto ts P n) (root_of P n) of None \<Rightarrow> [] | Some g \<Rightarrow> g) @ [ts ! n])
            (grouped_upto ts P n)) = grouped_upto ts P (Suc n)"
proof -
  let ?U = "filter (\<lambda>i. i < n) (units ts)"
  have dist: "distinct ?U" by (simp add: units_def)
  have split: "snd p < Suc n \<longleftrightarrow> snd p < n \<or> snd p = n" for p :: "nat \<times> nat" by auto
  have none: "filter (\<lambda>p. fst p = i \<and> snd p < Suc n) P = filter (\<lambda>p. fst p = i \<and> snd p < n) P"
    if "(i, n) \<notin> set P" for i
    using that by (intro filter_cong) (auto simp: less_Suc_eq)
  have at: "grouped_upto ts P n = map (\<lambda>i. (i, group_of ts P n i)) ?U" by (simp add: grouped_upto_def)
  consider (unit) "ev_kind (ts ! n) \<noteq> ''tool_output''" | (orphan) "ev_kind (ts ! n) = ''tool_output''" "n \<notin> set (map snd P)"
    | (paired) "ev_kind (ts ! n) = ''tool_output''" "n \<in> set (map snd P)" by blast
  then show ?thesis
  proof cases
    case unit
    have out: "n \<notin> snd ` set P" using ok unit by (auto simp: pairs_ok_def)
    then have same: "group_of ts P (Suc n) i = group_of ts P n i" for i
      using none[of i] by (force simp: group_of_def)
    have empty: "filter (\<lambda>p. fst p = n \<and> snd p < n) P = []" using ok by (auto simp: pairs_ok_def filter_empty_conv)
    have "n \<notin> set ?U" by simp
    then show ?thesis
      using unit n root_unpaired[OF out] dset_map[OF dist, of n "[ts ! n]" "group_of ts P n"]
      by (simp add: at dget_map units_Suc grouped_upto_def same) (simp add: group_of_def empty)
  next
    case orphan
    then have "n \<notin> snd ` set P" by simp
    then have same: "group_of ts P (Suc n) i = group_of ts P n i" for i
      using none[of i] by (force simp: group_of_def)
    show ?thesis using orphan n by (simp add: units_Suc grouped_upto_def same)
  next
    case paired
    then obtain c where c: "(c, n) \<in> set P" by auto
    have root: "root_of P n = c" by (rule root_paired[OF ok c])
    have cU: "c \<in> set ?U" using ok c n by (fastforce simp: pairs_ok_def units_def)
    have others: "group_of ts P (Suc n) i = group_of ts P n i" if "i \<noteq> c" for i
    proof -
      have "(i, n) \<notin> set P" using ok c that root_paired by metis
      then show ?thesis using none by (simp add: group_of_def)
    qed
    have own: "group_of ts P (Suc n) c = group_of ts P n c @ [ts ! n]"
    proof -
      have only: "p = (c, n)" if "p \<in> set P" "fst p = c" for p
        using ok c that by (auto simp: pairs_ok_def distinct_map inj_on_def)
      have "distinct P" using ok by (auto simp: pairs_ok_def distinct_map)
      then have one: "filter (\<lambda>p. fst p = c) P = [(c, n)]"
        by (rule filter_unique[OF _ c]) (metis only fst_conv)
      have "filter (\<lambda>p. fst p = c \<and> snd p < m) P = filter (\<lambda>p. snd p < m) (filter (\<lambda>p. fst p = c) P)" for m
        by (simp add: conj_commute)
      then have "filter (\<lambda>p. fst p = c \<and> snd p < Suc n) P = [(c, n)]" "filter (\<lambda>p. fst p = c \<and> snd p < n) P = []"
        by (simp_all add: one)
      then show ?thesis by (simp add: group_of_def)
    qed
    have "dset c (group_of ts P n c @ [ts ! n]) (map (\<lambda>i. (i, group_of ts P n i)) ?U)
        = map (\<lambda>i. (i, if i = c then group_of ts P n c @ [ts ! n] else group_of ts P n i)) ?U"
      by (simp only: dset_map[OF dist] cU if_True)
    also have "\<dots> = map (\<lambda>i. (i, group_of ts P (Suc n) i)) ?U"
      by (intro map_cong refl) (simp add: own others)
    finally have stored: "dset c (group_of ts P n c @ [ts ! n]) (map (\<lambda>i. (i, group_of ts P n i)) ?U)
        = map (\<lambda>i. (i, group_of ts P (Suc n) i)) ?U" .
    have U: "filter (\<lambda>i. i < Suc n) (units ts) = ?U"
      using units_Suc[OF n] paired by simp
    have later: "grouped_upto ts P (Suc n) = map (\<lambda>i. (i, group_of ts P (Suc n) i)) ?U"
      unfolding grouped_upto_def U ..
    have "dset c (group_of ts P n c @ [ts ! n]) (grouped_upto ts P n) = grouped_upto ts P (Suc n)"
      unfolding at later by (rule stored)
    moreover have "dget (grouped_upto ts P n) c = Some (group_of ts P n c)"
      by (simp only: at dget_map cU if_True)
    moreover have "\<not> (ev_kind (ts ! n) = ''tool_output'' \<and> n \<notin> set (map snd P))" using paired by simp
    ultimately show ?thesis by (simp only: root if_False option.case)
  qed
qed

lemma group_events_spec:
  assumes ok: "pairs_ok ts (length ts) P"
  shows "n \<le> length ts \<Longrightarrow>
     group_events (map snd P) (enumerate n (drop n ts)) (parents_of (length ts) P) (grouped_upto ts P n)
       = Some (grouped_upto ts P (length ts))"
proof (induction "length ts - n" arbitrary: n)
  case 0
  then show ?case by simp
next
  case (Suc k)
  then have n: "n < length ts" by simp
  have cons: "enumerate n (drop n ts) = (n, ts ! n) # enumerate (Suc n) (drop (Suc n) ts)"
    by (simp add: Cons_nth_drop_Suc[OF n, symmetric])
  have rest: "group_events (map snd P) (enumerate (Suc n) (drop (Suc n) ts)) (parents_of (length ts) P)
      (grouped_upto ts P (Suc n)) = Some (grouped_upto ts P (length ts))"
    using Suc.hyps(1)[of "Suc n"] Suc.hyps(2) n by simp
  note root = find_root_parents[OF ok n] and step = group_step[OF ok n]
  show ?case
  proof (cases "ev_kind (ts ! n) = ''tool_output'' \<and> n \<notin> set (map snd P)")
    case True
    then have "grouped_upto ts P (Suc n) = grouped_upto ts P n" using step by (simp only: simp_thms if_True)
    then show ?thesis using True cons rest by (simp only: group_events.simps if_True simp_thms)
  next
    case False
    then show ?thesis using step cons rest root
      by (simp only: group_events.simps if_False option.case prod.case)
  qed
qed

section \<open>Both definitions agree\<close>

lemma group_sorted:
  assumes ok: "pairs_ok ts (length ts) P" and sorted: "sorted_wrt (\<lambda>a b. ev_seq a < ev_seq b) ts" and i: "i < length ts"
  shows "sorted (map ev_seq (group_of ts P (length ts) i))" "Min (set (map ev_seq (group_of ts P (length ts) i))) = ev_seq (ts ! i)"
proof -
  let ?F = "filter (\<lambda>p. fst p = i \<and> snd p < length ts) P"
  have later: "ev_seq (ts ! i) < ev_seq (ts ! snd p)" if "p \<in> set ?F" for p
  proof -
    have "i < snd p" using ok that by (auto simp: pairs_ok_def)
    then show ?thesis using sorted_wrt_nth_less[OF sorted, of i "snd p"] that by simp
  qed
  have "length ?F \<le> 1"
  proof (rule ccontr)
    assume "\<not> length ?F \<le> 1"
    then obtain p q r where "?F = p # q # r" by (cases ?F; cases "tl ?F") auto
    moreover have "distinct (map fst ?F)" using ok by (simp add: pairs_ok_def distinct_map_filter)
    moreover have "fst p = i" "fst q = i" using calculation(1) by (metis (mono_tags, lifting) filter_eq_Cons_iff list.set_intros(1,2) mem_Collect_eq set_filter)+
    ultimately show False by simp
  qed
  then have short: "?F = [] \<or> (\<exists>p. ?F = [p])" by (cases ?F) auto
  show "sorted (map ev_seq (group_of ts P (length ts) i))"
    using short later by (auto simp: group_of_def less_imp_le)
  have "ev_seq (ts ! i) \<le> x" if "x \<in> set (map ev_seq (group_of ts P (length ts) i))" for x
    using that later unfolding group_of_def by fastforce
  then show "Min (set (map ev_seq (group_of ts P (length ts) i))) = ev_seq (ts ! i)"
    by (intro Min_eqI) (simp_all add: group_of_def)
qed

lemma units_events: "map ((!) ts) (units ts) = filter (\<lambda>e. ev_kind e \<noteq> ''tool_output'') ts"
proof -
  have "filter (\<lambda>e. ev_kind e \<noteq> ''tool_output'') (map ((!) ts) [0..<length ts]) = map ((!) ts) (units ts)"
    by (simp add: filter_map units_def comp_def)
  then show ?thesis by (simp add: map_nth)
qed

lemma groups_of_units:
  assumes ok: "pairs_ok ts (length ts) P" and dist: "distinct ts"
  shows "map (\<lambda>e. e # map snd (filter (\<lambda>p. fst p = e) (map (at_pair ts) P))) (filter (\<lambda>e. ev_kind e \<noteq> ''tool_output'') ts)
    = map (group_of ts P (length ts)) (units ts)"
proof -
  have "ts ! i # map snd (filter (\<lambda>p. fst p = ts ! i) (map (at_pair ts) P)) = group_of ts P (length ts) i"
    if "i < length ts" for i
  proof -
    have "fst (at_pair ts p) = ts ! i \<longleftrightarrow> fst p = i \<and> snd p < length ts" if "p \<in> set P" for p
      using ok dist that \<open>i < length ts\<close> by (fastforce simp: pairs_ok_def at_pair_def nth_eq_iff_index_eq)
    then have "filter (\<lambda>p. fst p = ts ! i) (map (at_pair ts) P) = map (at_pair ts) (filter (\<lambda>p. fst p = i \<and> snd p < length ts) P)"
      by (simp add: filter_map comp_def cong: filter_cong)
    then show ?thesis by (simp add: group_of_def at_pair_def)
  qed
  then show ?thesis
    unfolding units_events[symmetric] by (simp add: units_def)
qed

lemma interaction_groups_transcript:
  assumes sorted: "sorted_wrt (\<lambda>a b. ev_seq a < ev_seq b) (transcript_of es)"
  shows "interaction_groups es = Some (groups_spec es)"
proof -
  define ts where "ts = transcript_of es"
  have s: "sorted_wrt (\<lambda>a b. ev_seq a < ev_seq b) ts" using sorted by (simp add: ts_def)
  have "distinct (map ev_seq ts)" using s strict_sorted_iff[of "map ev_seq ts"] by (simp add: sorted_wrt_map)
  then have dist: "distinct ts" by (simp add: distinct_map)
  have "pairing_inv ts 0 (no_pairs (length ts)) []"
    by (auto simp: pairing_inv_def pairs_ok_def no_pairs_def parents_of_def root_of_def call_idx_def open_calls_def calls_of_def
        intro: nth_equalityI)
  then obtain st P where st: "pair_events (enumerate 0 ts) (no_pairs (length ts)) = Some st" "pairing_inv ts (length ts) st P"
    using pair_events_inv[OF dist, of 0 "no_pairs (length ts)" "[]"] by auto
  have ok: "pairs_ok ts (length ts) P" and fields: "pa_matched st = map snd P" "pa_parents st = parents_of (length ts) P"
    and spec: "paired ts = map (at_pair ts) P"
    using st(2) by (simp_all add: pairing_inv_def paired_def)
  have "grouped_upto ts P 0 = []" by (simp add: grouped_upto_def)
  then have g: "group_events (pa_matched st) (enumerate 0 ts) (pa_parents st) [] = Some (grouped_upto ts P (length ts))"
    using group_events_spec[OF ok, of 0] by (simp add: fields)
  have upto: "map snd (grouped_upto ts P (length ts)) = map (group_of ts P (length ts)) (units ts)"
    by (simp add: grouped_upto_def units_def comp_def conj_commute cong: filter_cong)
      (auto intro!: arg_cong[of _ _ "map _"] filter_cong)
  have inner: "map (sort_key ev_seq) (map (group_of ts P (length ts)) (units ts)) = map (group_of ts P (length ts)) (units ts)"
    using group_sorted(1)[OF ok s] by (auto simp: units_def intro!: sort_key_id_if_sorted)
  have "sorted (map (\<lambda>g. Min (set (map ev_seq g))) (map (group_of ts P (length ts)) (units ts)))"
  proof -
    have "map (\<lambda>g. Min (set (map ev_seq g))) (map (group_of ts P (length ts)) (units ts)) = map ev_seq (map ((!) ts) (units ts))"
      using group_sorted(2)[OF ok s] by (simp add: units_def)
    moreover have "sorted (map ev_seq ts)" using s strict_sorted_iff[of "map ev_seq ts"] by (simp add: sorted_wrt_map)
    ultimately show ?thesis unfolding units_events by (simp add: sorted_filter)
  qed
  then have outer: "sort_key (\<lambda>g. Min (set (map ev_seq g))) (map (group_of ts P (length ts)) (units ts))
      = map (group_of ts P (length ts)) (units ts)" by (rule sort_key_id_if_sorted)
  have "groups_spec es = map (group_of ts P (length ts)) (units ts)"
    unfolding groups_spec_def ts_def[symmetric] Let_def spec by (rule groups_of_units[OF ok dist])
  moreover have "interaction_groups es = Some (sort_key (\<lambda>g. Min (set (map ev_seq g)))
      (map (sort_key ev_seq) (map snd (grouped_upto ts P (length ts)))))"
    using st(1) g by (simp add: interaction_groups_def ts_def[symmetric])
  ultimately show ?thesis by (simp only: upto inner outer)
qed

section \<open>The property\<close>

text \<open>C28: on a transcript in log order \<open>interaction_groups\<close> returns - path halving always reaches a
  root - and yields the same groups, in the same order, as the stack of open calls: every call
  or message with the one output that answers it, outputs without a call left out.\<close>

theorem transcript_groups_exact:
  assumes "sorted_wrt (\<lambda>a b. ev_seq a < ev_seq b) es"
  shows "interaction_groups es = Some (groups_spec es)"
  by (rule interaction_groups_transcript)
     (simp add: transcript_of_def sorted_wrt_filter assms)

text \<open>A transcript with two calls, an output by id, one without an id and a stray one.\<close>

definition example_event :: "int \<Rightarrow> string \<Rightarrow> (string, json) dict \<Rightarrow> event" where
  "example_event n k payload = \<lparr>ev_seq = n, ev_id = [], ev_branch = ''main'', ev_session = None, ev_kind = k, ev_role = None,
     ev_channel = ''host'', ev_adapter = None, ev_content = [], ev_payload = payload, ev_files = [], ev_created = [],
     ev_prev = None, ev_chash = [], ev_chain = []\<rparr>"

definition example_transcript :: "event list" where
  "example_transcript =
     [example_event 1 ''tool_call'' [(''call_id'', JStr ''a'')], example_event 2 ''tool_call'' [(''call_id'', JStr ''b'')],
      example_event 3 ''message'' [], example_event 4 ''tool_output'' [(''tool_use_id'', JStr ''a'')],
      example_event 5 ''tool_output'' [], example_event 6 ''tool_output'' []]"

theorem transcript_groups_exact_witness:
  "map_option (map (map ev_seq)) (interaction_groups example_transcript) = Some [[1, 4], [2, 5], [3]]"
proof -
  have "interaction_groups example_transcript = Some (groups_spec example_transcript)"
    by (rule transcript_groups_exact) (simp add: example_transcript_def example_event_def)
  moreover have "map (map ev_seq) (groups_spec example_transcript) = [[1, 4], [2, 5], [3]]" by code_simp
  ultimately show ?thesis by simp
qed

end
