(* ===== verification/PyJson.thy ===== *)
theory PyJson
  imports PyText
begin

text \<open>
  \<open>json.loads\<close>, and that it reads back what \<open>json_text\<close> (\<open>storage_support.py\<close>) writes.  A number
  with a fraction or an exponent goes through \<open>float\<close>: the parameter \<open>rf\<close> is \<open>repr(float(text))\<close>.
  An escape that denotes a character outside Latin-1 is outside the model; the parser stops
  there as it does at a malformed text.
\<close>

section \<open>Tokens\<close>

definition json_ws :: "char \<Rightarrow> bool" where
  "json_ws c \<longleftrightarrow> code c \<in> {32, 9, 10, 13}"

definition skip_ws :: "string \<Rightarrow> string" where
  "skip_ws s = dropWhile json_ws s"

definition hex_value :: "char \<Rightarrow> nat option" where
  "hex_value c =
     (if is_digit c then Some (code c - 48)
      else if 97 \<le> code c \<and> code c \<le> 102 then Some (code c - 87)
      else if 65 \<le> code c \<and> code c \<le> 70 then Some (code c - 55) else None)"

fun hex_digits :: "nat \<Rightarrow> string \<Rightarrow> nat option" where
  "hex_digits n [] = Some n"
| "hex_digits n (c # s) = (case hex_value c of None \<Rightarrow> None | Some d \<Rightarrow> hex_digits (16 * n + d) s)"

text \<open>The character after a backslash, the \<open>u\<close> of four digits aside.\<close>

definition simple_escapes :: "(char, char) dict" where
  "simple_escapes =
     [(CHR 0x22, CHR 0x22), (CHR 0x5C, CHR 0x5C), (CHR ''/'', CHR ''/''), (CHR ''b'', CHR 0x08), (CHR ''f'', CHR 0x0C),
      (CHR ''n'', CHR 0x0A), (CHR ''r'', CHR 0x0D), (CHR ''t'', CHR 0x09)]"

definition scan_escape :: "string \<Rightarrow> (char \<times> string) option" where
  "scan_escape s =
     (case s of
        [] \<Rightarrow> None
      | e # r \<Rightarrow>
          (case dget simple_escapes e of
             Some d \<Rightarrow> Some (d, r)
           | None \<Rightarrow>
               if e = CHR ''u'' \<and> length r \<ge> 4
               then (case hex_digits 0 (take 4 r) of
                       Some n \<Rightarrow> if n < 256 then Some (char_of n, drop 4 r) else None
                     | None \<Rightarrow> None)
               else None))"

lemma scan_escape_shorter: "scan_escape s = Some (d, r) \<Longrightarrow> length r < length s"
  by (auto simp: scan_escape_def split: list.splits option.splits if_splits)

text \<open>A text after its opening quote.\<close>

function scan_string :: "string \<Rightarrow> (string \<times> string) option" where
  "scan_string s =
     (case s of
        [] \<Rightarrow> None
      | c # r \<Rightarrow>
          if c = CHR 0x22 then Some ([], r)
          else if c = CHR 0x5C
          then (case scan_escape r of
                  None \<Rightarrow> None
                | Some (d, r') \<Rightarrow> map_option (apfst (Cons d)) (scan_string r'))
          else if code c < 32 then None
          else map_option (apfst (Cons c)) (scan_string r))"
  by pat_completeness auto
termination
  by (relation "measure length") (auto dest: scan_escape_shorter)

declare scan_string.simps [simp del]

lemma scan_string_shorter: "scan_string s = Some (t, r) \<Longrightarrow> length r < length s"
proof (induction s arbitrary: t r rule: scan_string.induct)
  case (1 s)
  obtain c u where s: "s = c # u" using "1.prems" by (cases s) (simp_all add: scan_string.simps)
  consider (quote) "c = CHR 0x22" | (escape) "c = CHR 0x5C" | (plain) "c \<noteq> CHR 0x22" "c \<noteq> CHR 0x5C" by blast
  then show ?case
  proof cases
    case quote
    then show ?thesis using "1.prems" s by (simp add: scan_string.simps)
  next
    case escape
    then obtain d r' t' where e: "scan_escape u = Some (d, r')" "scan_string r' = Some (t', r)"
      using "1.prems" s by (subst (asm) scan_string.simps) (auto split: option.splits)
    have "length r < length r'" by (rule "1.IH"(1)[OF s _ escape e(1) refl e(2)]) (simp add: escape)
    then show ?thesis using scan_escape_shorter[OF e(1)] s by simp
  next
    case plain
    then obtain t' where e: "\<not> code c < 32" "scan_string u = Some (t', r)"
      using "1.prems" s by (subst (asm) scan_string.simps) (auto split: if_splits)
    have "length r < length u" by (rule "1.IH"(2)[OF s plain e])
    then show ?thesis using s by simp
  qed
qed

text \<open>
  The pattern \<open>(-?(?:0|[1-9][0-9]*))(\.[0-9]+)?([eE][-+]?[0-9]+)?\<close>: the three groups and the rest.
\<close>

definition scan_digits :: "string \<Rightarrow> string \<times> string" where
  "scan_digits s = (takeWhile is_digit s, dropWhile is_digit s)"

definition scan_sign :: "char set \<Rightarrow> string \<Rightarrow> string \<times> string" where
  "scan_sign signs s = (case s of c # r \<Rightarrow> if c \<in> signs then ([c], r) else ([], s) | [] \<Rightarrow> ([], s))"

definition scan_whole :: "string \<Rightarrow> (string \<times> string) option" where
  "scan_whole s =
     (case s of
        [] \<Rightarrow> None
      | c # r \<Rightarrow> if c = CHR ''0'' then Some ([c], r)
                 else if is_digit c then Some (scan_digits s) else None)"

definition scan_fraction :: "string \<Rightarrow> string \<times> string" where
  "scan_fraction s =
     (case s of
        c # r \<Rightarrow> if c = CHR ''.'' \<and> fst (scan_digits r) \<noteq> [] then (c # fst (scan_digits r), snd (scan_digits r)) else ([], s)
      | [] \<Rightarrow> ([], s))"

definition scan_exponent :: "string \<Rightarrow> string \<times> string" where
  "scan_exponent s =
     (case s of
        c # r \<Rightarrow>
          if c \<in> {CHR ''e'', CHR ''E''}
          then (let (sign, r1) = scan_sign {CHR ''+'', CHR ''-''} r; (ds, r2) = scan_digits r1
                in if ds \<noteq> [] then (c # sign @ ds, r2) else ([], s))
          else ([], s)
      | [] \<Rightarrow> ([], s))"

definition scan_number :: "(string \<Rightarrow> string) \<Rightarrow> string \<Rightarrow> (json \<times> string) option" where
  "scan_number rf s =
     (let (sign, r) = scan_sign {CHR ''-''} s in
      case scan_whole r of
        None \<Rightarrow> None
      | Some (i, r1) \<Rightarrow>
          let (f, r2) = scan_fraction r1; (e, r3) = scan_exponent r2
          in if f = [] \<and> e = []
             then Some (JInt (if sign = [] then the (read_num i) else - the (read_num i)), r3)
             else Some (JFloat (rf (sign @ i @ f @ e)), r3))"

section \<open>Values\<close>

text \<open>The words of \<open>json.loads\<close>, the numbers that JSON does not know included.\<close>

definition json_words :: "(string \<times> json) list" where
  "json_words =
     [(''null'', JNull), (''true'', JBool True), (''false'', JBool False), (''NaN'', JFloat ''nan''),
      (''Infinity'', JFloat ''inf''), (''-Infinity'', JFloat ''-inf'')]"

definition scan_word :: "string \<Rightarrow> (json \<times> string) option" where
  "scan_word s =
     (case List.find (\<lambda>(k, v). starts_with k s) json_words of
        None \<Rightarrow> None
      | Some (k, v) \<Rightarrow> Some (v, drop (length k) s))"

definition shorter_than :: "string \<Rightarrow> ('a \<times> string) option \<Rightarrow> ('a \<times> string) option" where
  "shorter_than s r = (case r of Some (v, t) \<Rightarrow> if length t < length s then r else None | None \<Rightarrow> None)"

text \<open>
  A member's key and colon; the value follows.  Lists of values and of members end with
  their bracket; \<open>shorter_than\<close> only tells the recursion that a value takes some characters.
\<close>

definition scan_key :: "string \<Rightarrow> (string \<times> string) option" where
  "scan_key s =
     (case skip_ws s of
        [] \<Rightarrow> None
      | q # r \<Rightarrow>
          if q \<noteq> CHR 0x22 then None
          else (case scan_string r of
                  None \<Rightarrow> None
                | Some (k, r1) \<Rightarrow>
                    (case skip_ws r1 of
                       [] \<Rightarrow> None
                     | c # r2 \<Rightarrow> if c = CHR '':'' then Some (k, r2) else None)))"

lemma skip_ws_length: "length (skip_ws s) \<le> length s"
  unfolding skip_ws_def by (rule length_dropWhile_le)

lemma scan_key_shorter: "scan_key s = Some (k, r) \<Longrightarrow> length r < length s"
  using skip_ws_length[of s]
  by (auto simp: scan_key_def split: list.splits if_splits option.splits dest!: scan_string_shorter)
    (metis Suc_lessD length_Cons less_trans_Suc not_less_eq order_less_le_trans skip_ws_length)

lemma shorter_than_Some [simp]:
  "shorter_than s r = Some (v, t) \<longleftrightarrow> r = Some (v, t) \<and> length t < length s"
  by (auto simp: shorter_than_def split: option.splits if_splits)

function parse_value :: "(string \<Rightarrow> string) \<Rightarrow> string \<Rightarrow> (json \<times> string) option"
  and parse_items :: "(string \<Rightarrow> string) \<Rightarrow> string \<Rightarrow> (json list \<times> string) option"
  and parse_members :: "(string \<Rightarrow> string) \<Rightarrow> string \<Rightarrow> ((string \<times> json) list \<times> string) option" where
  "parse_value rf s =
     (case skip_ws s of
        [] \<Rightarrow> None
      | c # r \<Rightarrow>
          if c = CHR 0x22 then map_option (apfst JStr) (scan_string r)
          else if c = CHR ''['' then
            (case skip_ws r of
               [] \<Rightarrow> None
             | d # r' \<Rightarrow> if d = CHR '']'' then Some (JArr [], r') else map_option (apfst JArr) (parse_items rf r))
          else if c = CHR ''{'' then
            (case skip_ws r of
               [] \<Rightarrow> None
             | d # r' \<Rightarrow> if d = CHR ''}'' then Some (JObj [], r')
                         else map_option (apfst (\<lambda>ms. JObj (dupdate [] ms))) (parse_members rf r))
          else (case scan_word (c # r) of Some x \<Rightarrow> Some x | None \<Rightarrow> scan_number rf (c # r)))"
| "parse_items rf s =
     (case shorter_than s (parse_value rf s) of
        None \<Rightarrow> None
      | Some (v, r) \<Rightarrow>
          (case skip_ws r of
             [] \<Rightarrow> None
           | c # r' \<Rightarrow>
               if c = CHR '']'' then Some ([v], r')
               else if c = CHR '','' then map_option (apfst (Cons v)) (parse_items rf r') else None))"
| "parse_members rf s =
     (case scan_key s of
        None \<Rightarrow> None
      | Some (k, r0) \<Rightarrow>
          (case shorter_than s (parse_value rf r0) of
             None \<Rightarrow> None
           | Some (v, r) \<Rightarrow>
               (case skip_ws r of
                  [] \<Rightarrow> None
                | c # r' \<Rightarrow>
                    if c = CHR ''}'' then Some ([(k, v)], r')
                    else if c = CHR '','' then map_option (apfst (Cons (k, v))) (parse_members rf r') else None)))"
  by pat_completeness auto
termination
proof (relation "measure (\<lambda>x. case x of Inl (_, s) \<Rightarrow> 2 * length s | Inr (Inl (_, s)) \<Rightarrow> 2 * length s + 1
     | Inr (Inr (_, s)) \<Rightarrow> 2 * length s + 1)", goal_cases)
  case (2 rf s c r d r')
  then show ?case using skip_ws_length[of s] by simp
next
  case (3 rf s c r d r')
  then show ?case using skip_ws_length[of s] by simp
next
  case (5 rf s x v r c r')
  then have "shorter_than s (parse_value rf s) = Some (v, r)" by simp
  then have "length r < length s" by simp
  then show ?case using skip_ws_length[of r] 5 by simp
next
  case (6 rf s x k r0)
  then show ?case using scan_key_shorter[of s k r0] by simp
next
  case (7 rf s x k r0 y v r c r')
  then have "shorter_than s (parse_value rf r0) = Some (v, r)" by simp
  then have "length r < length s" by simp
  then show ?case using skip_ws_length[of r] 7 by simp
qed simp_all

declare parse_value.simps [simp del] parse_items.simps [simp del] parse_members.simps [simp del]

text \<open>\<open>json.loads\<close>: one value, with blanks around it; \<open>None\<close> is the exception.\<close>

definition json_loads :: "(string \<Rightarrow> string) \<Rightarrow> string \<Rightarrow> json option" where
  "json_loads rf s =
     (case parse_value rf s of Some (v, r) \<Rightarrow> if skip_ws r = [] then Some v else None | None \<Rightarrow> None)"

section \<open>Round trip\<close>

text \<open>A value whose objects have their keys in order, as the written text has them.\<close>

fun json_sorted :: "json \<Rightarrow> json" where
  "json_sorted (JArr xs) = JArr (map json_sorted xs)"
| "json_sorted (JObj kvs) = JObj (sort_key fst (map (\<lambda>(k, v). (k, json_sorted v)) kvs))"
| "json_sorted v = v"

text \<open>Distinct keys, and fractions in the text that \<open>repr\<close> gives them; no \<open>nan\<close> and no infinity.\<close>

fun json_ok :: "(string \<Rightarrow> string) \<Rightarrow> json \<Rightarrow> bool" where
  "json_ok rf (JFloat s) = (scan_number rf s = Some (JFloat s, []))"
| "json_ok rf (JArr xs) = (\<forall>v \<in> set xs. json_ok rf v)"
| "json_ok rf (JObj kvs) = (distinct (map fst kvs) \<and> (\<forall>(k, v) \<in> set kvs. json_ok rf v))"
| "json_ok rf v = True"

definition delim :: "string \<Rightarrow> bool" where
  "delim s \<longleftrightarrow> s = [] \<or> hd s \<in> {CHR '','', CHR '']'', CHR ''}''}"

lemma delim_Cons [simp]: "delim (c # s) \<longleftrightarrow> c \<in> {CHR '','', CHR '']'', CHR ''}''}"
  by (simp add: delim_def)

lemma delim_Nil [simp]: "delim []"
  by (simp add: delim_def)

lemma delim_digits: "delim s \<Longrightarrow> takeWhile is_digit s = [] \<and> dropWhile is_digit s = s"
  by (cases s) (auto simp: is_digit_def code_def)

lemma takeWhile_app: "takeWhile P t = [] \<Longrightarrow> takeWhile P (s @ t) = takeWhile P s"
  by (induction s) auto

lemma dropWhile_app: "dropWhile P t = t \<Longrightarrow> dropWhile P (s @ t) = dropWhile P s @ t"
  by (induction s) auto

lemma scan_digits_app: "delim t \<Longrightarrow> scan_digits (s @ t) = (fst (scan_digits s), snd (scan_digits s) @ t)"
  by (simp add: scan_digits_def delim_digits takeWhile_app dropWhile_app)

lemma scan_digits_delim [simp]: "delim t \<Longrightarrow> scan_digits t = ([], t)"
  using scan_digits_app[of t "[]"] by (simp add: scan_digits_def)

lemma scan_whole_app: "delim t \<Longrightarrow> scan_whole s = Some (i, r) \<Longrightarrow> scan_whole (s @ t) = Some (i, r @ t)"
  using scan_digits_app[of t s] by (cases s) (auto simp: scan_whole_def split: if_splits)

lemma scan_fraction_app: "delim t \<Longrightarrow> scan_fraction s = (f, r) \<Longrightarrow> scan_fraction (s @ t) = (f, r @ t)"
proof (cases s)
  case Nil
  assume "delim t" "scan_fraction s = (f, r)"
  then show ?thesis using Nil by (cases t) (auto simp: scan_fraction_def)
next
  case (Cons c u)
  assume "delim t" "scan_fraction s = (f, r)"
  then show ?thesis using Cons scan_digits_app[of t u] by (auto simp: scan_fraction_def split: if_splits)
qed

lemma scan_sign_app: "delim t \<Longrightarrow> signs \<subseteq> {CHR ''+'', CHR ''-''} \<Longrightarrow> scan_sign signs s = (g, r) \<Longrightarrow>
    scan_sign signs (s @ t) = (g, r @ t)"
  by (cases s; cases t) (auto simp: scan_sign_def split: if_splits)

lemma scan_exponent_app: "delim t \<Longrightarrow> scan_exponent s = (e, r) \<Longrightarrow> scan_exponent (s @ t) = (e, r @ t)"
proof (cases s)
  case Nil
  assume "delim t" "scan_exponent s = (e, r)"
  then show ?thesis using Nil by (cases t) (auto simp: scan_exponent_def)
next
  case (Cons c u)
  assume d: "delim t" and e: "scan_exponent s = (e, r)"
  obtain g u' where g: "scan_sign {CHR ''+'', CHR ''-''} u = (g, u')" by fastforce
  then show ?thesis
    using Cons e scan_sign_app[OF d _ g] scan_digits_app[OF d, of u']
    by (auto simp: scan_exponent_def split: if_splits prod.splits)
qed

lemma scan_number_app:
  assumes d: "delim t" and n: "scan_number rf s = Some (v, r)"
  shows "scan_number rf (s @ t) = Some (v, r @ t)"
proof -
  obtain g s1 where 1: "scan_sign {CHR ''-''} s = (g, s1)" by fastforce
  obtain i s2 where 2: "scan_whole s1 = Some (i, s2)"
    using n 1 by (auto simp: scan_number_def split: option.splits)
  obtain f s3 where 3: "scan_fraction s2 = (f, s3)" by fastforce
  obtain e s4 where 4: "scan_exponent s3 = (e, s4)" by fastforce
  show ?thesis
    using n 1 2 3 4 scan_sign_app[OF d _ 1] scan_whole_app[OF d 2] scan_fraction_app[OF d 3] scan_exponent_app[OF d 4]
    by (auto simp: scan_number_def)
qed

text \<open>Integers.\<close>

lemma show_nat_digits: "\<forall>c \<in> set (show_nat n). is_digit c"
proof (induction n rule: show_nat.induct)
  case (1 n)
  have "is_digit (char_of (48 + d))" if "d < 10" for d :: nat
    using that by (simp add: is_digit_def code_digit)
  then show ?case using 1 by (subst show_nat.simps) auto
qed

lemma read_num_show: "read_num_acc 0 (show_nat n) = Some (int n)"
proof (induction n rule: show_nat.induct)
  case (1 n)
  have dig: "is_digit (char_of (48 + d)) \<and> code (char_of (48 + d)) = 48 + d" if "d < 10" for d :: nat
    using that by (simp add: is_digit_def code_digit)
  show ?case
  proof (cases "n < 10")
    case True
    then show ?thesis using dig[of n] by (subst show_nat.simps) simp
  next
    case False
    have "10 * int (n div 10) + int (n mod 10) = int n" by presburger
    then show ?thesis
      using False 1 dig[of "n mod 10"] by (subst show_nat.simps) (simp add: read_num_acc_append)
  qed
qed

lemma show_nat_head: "n > 0 \<Longrightarrow> hd (show_nat n) \<noteq> CHR ''0''"
proof (induction n rule: show_nat.induct)
  case (1 n)
  show ?case
  proof (cases "n < 10")
    case True
    have "code (char_of (48 + n)) \<noteq> code (CHR ''0'')" using True 1(2) by (simp add: code_digit) (simp add: code_def)
    then show ?thesis using True by (subst show_nat.simps) auto
  next
    case False
    then show ?thesis using 1 by (subst show_nat.simps) simp
  qed
qed

lemma scan_whole_nat: "scan_whole (show_nat n) = Some (show_nat n, [])"
proof (cases "n = 0")
  case True
  moreover have "char_of (48 :: nat) = CHR ''0''" by code_simp
  ultimately show ?thesis by (simp add: show_nat.simps scan_whole_def)
next
  case False
  obtain c u where c: "show_nat n = c # u" by (cases "show_nat n") simp_all
  then have "is_digit c" "c \<noteq> CHR ''0''" using show_nat_digits[of n] show_nat_head[of n] False by simp_all
  moreover have "scan_digits (show_nat n) = (show_nat n, [])"
    using show_nat_digits[of n] by (simp add: scan_digits_def takeWhile_eq_all_conv dropWhile_eq_Nil_conv)
  ultimately show ?thesis by (simp add: scan_whole_def c)
qed

lemma scan_sign_digit: "is_digit c \<Longrightarrow> scan_sign {CHR ''-''} (c # u) = ([], c # u)"
  by (auto simp: scan_sign_def is_digit_def code_def)

lemma scan_number_int: "scan_number rf (show_int i) = Some (JInt i, [])"
proof -
  have read: "read_num (show_nat n) = Some (int n)" for n by (simp add: read_num_def read_num_show)
  have tail: "scan_fraction [] = ([], [])" "scan_exponent [] = ([], [])" by (simp_all add: scan_fraction_def scan_exponent_def)
  show ?thesis
  proof (cases "i < 0")
    case True
    then show ?thesis by (simp add: show_int_def scan_number_def scan_sign_def scan_whole_nat tail read)
  next
    case False
    obtain c u where c: "show_nat (nat i) = c # u" by (cases "show_nat (nat i)") simp_all
    then have "scan_sign {CHR ''-''} (show_nat (nat i)) = ([], show_nat (nat i))"
      using show_nat_digits[of "nat i"] scan_sign_digit by simp
    then show ?thesis using False by (simp add: show_int_def scan_number_def scan_whole_nat tail read)
  qed
qed

text \<open>A number starts with a digit or a minus and a digit; so no word and no bracket is mistaken for it.\<close>

lemma scan_number_head:
  assumes "scan_number rf s = Some x"
  shows "\<exists>c u. s = c # u \<and> (is_digit c \<or> (c = CHR ''-'' \<and> (\<exists>d v. u = d # v \<and> is_digit d)))"
proof -
  obtain c u where s: "s = c # u" using assms by (cases s) (auto simp: scan_number_def scan_sign_def scan_whole_def)
  have digit: "is_digit d" if "scan_whole (d # v) = Some y" for d v y
    using that by (auto simp: scan_whole_def is_digit_def code_def split: if_splits)
  show ?thesis
  proof (cases "c = CHR ''-''")
    case True
    obtain y where "scan_whole u = Some y"
      using assms True by (auto simp: s scan_number_def scan_sign_def split: option.splits)
    then obtain d v where "u = d # v" by (cases u) (simp_all add: scan_whole_def)
    then show ?thesis using s True digit[of d v y] \<open>scan_whole u = Some y\<close> by simp
  next
    case False
    then obtain y where "scan_whole s = Some y"
      using assms by (auto simp: s scan_number_def scan_sign_def split: option.splits)
    then show ?thesis using s digit[of c u y] by simp
  qed
qed

lemma starts_with_Cons: "starts_with (a # p) (b # s) \<longleftrightarrow> a = b \<and> starts_with p s"
  by (auto simp: starts_with_def)

lemma parse_number:
  assumes "scan_number rf s = Some x"
  shows "parse_value rf s = Some x"
proof -
  obtain c u where s: "s = c # u" and h: "is_digit c \<or> (c = CHR ''-'' \<and> (\<exists>d v. u = d # v \<and> is_digit d))"
    using scan_number_head[OF assms] by blast
  have c: "\<not> json_ws c" "c \<noteq> CHR 0x22" "c \<noteq> CHR ''[''" "c \<noteq> CHR ''{''"
    and w: "c \<noteq> CHR ''n''" "c \<noteq> CHR ''t''" "c \<noteq> CHR ''f''" "c \<noteq> CHR ''N''" "c \<noteq> CHR ''I''"
    using h by (auto simp: json_ws_def is_digit_def code_def)
  have minus: "\<not> starts_with ''-Infinity'' (c # u)"
    using h by (auto simp: is_digit_def code_def starts_with_Cons)
  have "scan_word s = None"
    using minus by (simp add: scan_word_def json_words_def s starts_with_Cons w[symmetric])
  then show ?thesis using c assms by (subst parse_value.simps) (simp add: s skip_ws_def)
qed

text \<open>Texts.\<close>

lemma hex_value_digit: "n < 16 \<Longrightarrow> hex_value (hex_digit n) = Some n"
  by (auto simp: hex_value_def hex_digit_def is_digit_def code_def)

lemma control_escape:
  "code c < 32 \<Longrightarrow>
     scan_escape ([CHR ''u'', CHR ''0'', CHR ''0'', hex_digit (code c div 16), hex_digit (code c mod 16)] @ r) = Some (c, r)"
proof -
  assume c: "code c < 32"
  have zero: "hex_value (CHR ''0'') = Some 0" by (simp add: hex_value_def is_digit_def code_def)
  have "code c div 16 < 16" "code c mod 16 < 16" using c by auto
  then have "hex_digits 0 [CHR ''0'', CHR ''0'', hex_digit (code c div 16), hex_digit (code c mod 16)] = Some (code c)"
    by (simp add: zero hex_value_digit)
  then show ?thesis using c by (simp add: scan_escape_def simple_escapes_def code_def)
qed

lemma json_escape_cases:
  obtains (simple) e where "json_escape c = [CHR 0x5C, e]" "dget simple_escapes e = Some c"
    | (control) "code c < 32" "json_escape c = CHR 0x5C # [CHR ''u'', CHR ''0'', CHR ''0'', hex_digit (code c div 16), hex_digit (code c mod 16)]"
    | (same) "json_escape c = [c]" "c \<noteq> CHR 0x22" "c \<noteq> CHR 0x5C" "\<not> code c < 32"
proof (cases "c \<in> {CHR 0x22, CHR 0x5C, CHR 0x0A, CHR 0x0D, CHR 0x09, CHR 0x0C, CHR 0x08}")
  case True
  then have "\<exists>e. json_escape c = [CHR 0x5C, e] \<and> dget simple_escapes e = Some c"
    by (auto simp: json_escape_def simple_escapes_def)
  then show ?thesis using simple by blast
next
  case False
  then have neq: "c \<noteq> CHR 0x22" "c \<noteq> CHR 0x5C" "c \<noteq> CHR 0x0A" "c \<noteq> CHR 0x0D" "c \<noteq> CHR 0x09" "c \<noteq> CHR 0x0C" "c \<noteq> CHR 0x08"
    by blast+
  show ?thesis
  proof (cases "code c < 32")
    case True
    then show ?thesis using control by (simp add: json_escape_def neq)
  next
    case False
    then show ?thesis using same neq by (simp add: json_escape_def)
  qed
qed

lemma scan_string_escaped:
  "scan_string (json_escape c @ r) = map_option (apfst (Cons c)) (scan_string r)"
proof -
  have plain: "scan_string (d # u) = map_option (apfst (Cons d)) (scan_string u)"
    if "d \<noteq> CHR 0x22" "d \<noteq> CHR 0x5C" "\<not> code d < 32" for d u
    using that by (subst scan_string.simps) simp
  have esc: "scan_string (CHR 0x5C # u) = (case scan_escape u of None \<Rightarrow> None
      | Some (d, r') \<Rightarrow> map_option (apfst (Cons d)) (scan_string r'))" for u
    by (subst scan_string.simps) simp
  show ?thesis
  proof (cases c rule: json_escape_cases)
    case simple
    then show ?thesis by (simp add: esc scan_escape_def)
  next
    case control
    have "json_escape c @ r = CHR 0x5C # ([CHR ''u'', CHR ''0'', CHR ''0'', hex_digit (code c div 16), hex_digit (code c mod 16)] @ r)"
      using control by simp
    then show ?thesis by (simp only: esc control_escape[OF control(1)] option.case prod.case)
  next
    case same
    then show ?thesis by (simp add: plain)
  qed
qed

lemma scan_json_string: "scan_string (concat (map json_escape s) @ CHR 0x22 # r) = Some (s, r)"
proof (induction s)
  case Nil
  then show ?case by (simp add: scan_string.simps)
next
  case (Cons c s)
  then show ?case by (simp add: scan_string_escaped)
qed

text \<open>Arrays and objects.\<close>

lemma parse_value_bracket: "skip_ws s = CHR '']'' # r \<Longrightarrow> parse_value rf s = None"
  by (subst parse_value.simps)
    (simp add: scan_word_def json_words_def starts_with_Cons scan_number_def scan_sign_def scan_whole_def is_digit_def code_def)

lemma skip_ws_Cons: "\<not> json_ws c \<Longrightarrow> skip_ws (c # s) = c # s"
  by (simp add: skip_ws_def)

lemma not_ws [simp]:
  "\<not> json_ws (CHR '','')" "\<not> json_ws (CHR '']'')" "\<not> json_ws (CHR ''}'')" "\<not> json_ws (CHR '':'')" "\<not> json_ws (CHR 0x22)"
  "\<not> json_ws (CHR ''['')" "\<not> json_ws (CHR ''{'')"
  by (simp_all add: json_ws_def code_def)

lemma parse_items_texts:
  assumes "xs \<noteq> []" "\<And>v r. v \<in> set xs \<Longrightarrow> delim r \<Longrightarrow> parse_value rf (t v @ r) = Some (g v, r)" "\<And>v. v \<in> set xs \<Longrightarrow> t v \<noteq> []"
  shows "parse_items rf (join '','' (map t xs) @ CHR '']'' # r) = Some (map g xs, r)"
  using assms
proof (induction xs rule: list_nonempty_induct)
  case (single x)
  then show ?case by (subst parse_items.simps) (simp add: skip_ws_Cons shorter_than_def)
next
  case (cons x xs)
  obtain y ys where xs: "xs = y # ys" using cons.hyps by (cases xs) auto
  have "parse_items rf (join '','' (map t xs) @ CHR '']'' # r) = Some (map g xs, r)"
    by (rule cons.IH) (simp_all add: cons.prems)
  moreover have "parse_value rf (t x @ CHR '','' # join '','' (map t xs) @ CHR '']'' # r) = Some (g x, CHR '','' # join '','' (map t xs) @ CHR '']'' # r)"
    by (rule cons.prems(1)) simp_all
  moreover have "t x \<noteq> []" by (rule cons.prems(2)) simp
  ultimately show ?case
    using cons.hyps by (subst parse_items.simps) (simp add: join_Cons skip_ws_Cons shorter_than_def)
qed

lemma scan_key_text: "scan_key (json_string k @ CHR '':'' # u) = Some (k, u)"
  by (simp add: scan_key_def json_string_def skip_ws_Cons scan_json_string)

lemma parse_members_texts:
  assumes "kvs \<noteq> []" "\<And>k v r. (k, v) \<in> set kvs \<Longrightarrow> delim r \<Longrightarrow> parse_value rf (t v @ r) = Some (g v, r)"
  shows "parse_members rf (join '','' (map (\<lambda>(k, v). json_string k @ CHR '':'' # t v) kvs) @ CHR ''}'' # r)
    = Some (map (\<lambda>(k, v). (k, g v)) kvs, r)"
  using assms
proof (induction kvs rule: list_nonempty_induct)
  case (single x)
  obtain k v where x: "x = (k, v)" by force
  have "parse_value rf (t v @ CHR ''}'' # r) = Some (g v, CHR ''}'' # r)" by (rule single(1)) (simp_all add: x)
  then show ?case
    by (subst parse_members.simps) (simp add: x scan_key_text skip_ws_Cons shorter_than_def)
next
  case (cons x kvs)
  obtain k v where x: "x = (k, v)" by force
  let ?u = "join '','' (map (\<lambda>(k, v). json_string k @ CHR '':'' # t v) kvs) @ CHR ''}'' # r"
  have "parse_members rf ?u = Some (map (\<lambda>(k, v). (k, g v)) kvs, r)"
    by (rule cons.IH) (meson cons.prems list.set_intros(2))
  moreover have "parse_value rf (t v @ CHR '','' # ?u) = Some (g v, CHR '','' # ?u)"
    by (rule cons.prems[of k]) (simp_all add: x)
  ultimately show ?case
    using cons.hyps scan_key_text[of k "t v @ CHR '','' # ?u"]
    by (subst parse_members.simps) (simp add: x join_Cons skip_ws_Cons shorter_than_def json_string_def)
qed

lemma insort_apsnd: "insort_key fst (k, f v) (map (\<lambda>(k, v). (k, f v)) kvs) = map (\<lambda>(k, v). (k, f v)) (insort_key fst (k, v) kvs)"
  by (induction kvs) auto

lemma sort_key_apsnd: "sort_key fst (map (\<lambda>(k, v). (k, f v)) kvs) = map (\<lambda>(k, v). (k, f v)) (sort_key fst kvs)"
  by (induction kvs) (auto simp: insort_apsnd)

lemma dupdate_distinct: "distinct (map fst (ms @ ns)) \<Longrightarrow> dupdate ms ns = ms @ ns"
proof (induction ns arbitrary: ms)
  case Nil
  then show ?case by (simp add: dupdate_def)
next
  case (Cons n ns)
  have fresh: "fst n \<notin> fst ` set ms \<Longrightarrow> dset (fst n) (snd n) ms = ms @ [n]" by (induction ms) auto
  have "dupdate ms (n # ns) = dupdate (dset (fst n) (snd n) ms) ns" by (simp add: dupdate_def split_beta)
  also have "dset (fst n) (snd n) ms = ms @ [n]" by (rule fresh) (use Cons.prems in simp)
  finally show ?case using Cons.IH[of "ms @ [n]"] Cons.prems by simp
qed

lemma json_text_ne: "json_ok rf v \<Longrightarrow> json_text v \<noteq> []"
  by (cases v) (auto simp: show_int_def json_string_def scan_number_def scan_sign_def scan_whole_def)

lemma parse_json_text:
  "json_ok rf v \<Longrightarrow> delim r \<Longrightarrow> parse_value rf (json_text v @ r) = Some (json_sorted v, r)"
proof (induction v arbitrary: r rule: json_text.induct)
  case 1
  show ?case by (subst parse_value.simps) (simp add: skip_ws_def json_ws_def code_def scan_word_def json_words_def starts_with_Cons)
next
  case (2 b)
  show ?case by (subst parse_value.simps) (cases b; simp add: skip_ws_def json_ws_def code_def scan_word_def json_words_def starts_with_Cons)
next
  case (3 i)
  show ?case using parse_number[OF scan_number_app[OF 3(2) scan_number_int]] by simp
next
  case (4 s)
  then show ?case using parse_number[OF scan_number_app[OF 4(2)]] by simp
next
  case (5 s)
  show ?case by (subst parse_value.simps) (simp add: json_string_def skip_ws_Cons scan_json_string)
next
  case (6 xs)
  have val: "parse_value rf (json_text v @ u) = Some (json_sorted v, u)" if "v \<in> set xs" "delim u" for v u
    using 6 that by simp
  show ?case
  proof (cases xs)
    case Nil
    then show ?thesis by (subst parse_value.simps) (simp add: skip_ws_Cons)
  next
    case (Cons x ys)
    let ?s = "join '','' (map json_text xs) @ CHR '']'' # r"
    have items: "parse_items rf ?s = Some (map json_sorted xs, r)"
      by (rule parse_items_texts) (use Cons val 6(2) json_text_ne in auto)
    have "\<exists>u. delim u \<and> ?s = json_text x @ u" using Cons by (cases ys) auto
    then obtain u where "delim u" "?s = json_text x @ u" by blast
    then have "parse_value rf ?s \<noteq> None" using val[of x u] Cons by simp
    then have "skip_ws ?s \<noteq> CHR '']'' # v" "skip_ws ?s \<noteq> []" for v
      using parse_value_bracket[of ?s v rf] parse_value.simps[of rf ?s] by force+
    then show ?thesis using items
      by (subst parse_value.simps) (auto simp: skip_ws_Cons split: list.splits)
  qed
next
  case (7 kvs)
  define ss where "ss = sort_key fst kvs"
  have mem: "set ss = set kvs" "distinct (map fst ss)"
    using 7(2) by (simp_all add: ss_def distinct_map inj_on_def)
  have val: "parse_value rf (json_text v @ u) = Some (json_sorted v, u)" if "(k, v) \<in> set ss" "delim u" for k v u
  proof -
    have "(k, v) \<in> set kvs" "json_ok rf v" using that(1) mem 7(2) by auto
    then show ?thesis using 7(1)[of "(k, v)" k v u] that(2) by auto
  qed
  have written: "json_text (JObj kvs) = ''{'' @ join '','' (map (\<lambda>(k, v). json_string k @ CHR '':'' # json_text v) ss) @ ''}''"
    unfolding json_text.simps sort_key_apsnd ss_def by (simp add: comp_def split_def)
  have sorted: "json_sorted (JObj kvs) = JObj (map (\<lambda>(k, v). (k, json_sorted v)) ss)"
    by (simp add: sort_key_apsnd ss_def)
  show ?case
  proof (cases "ss = []")
    case True
    then show ?thesis unfolding written sorted by (subst parse_value.simps) (simp add: skip_ws_Cons)
  next
    case False
    let ?s = "join '','' (map (\<lambda>(k, v). json_string k @ CHR '':'' # json_text v) ss) @ CHR ''}'' # r"
    have members: "parse_members rf ?s = Some (map (\<lambda>(k, v). (k, json_sorted v)) ss, r)"
      by (rule parse_members_texts[OF False val])
    have quote: "\<exists>u. ?s = CHR 0x22 # u" using False by (cases ss) (auto simp: join_Cons json_string_def)
    have "dupdate [] (map (\<lambda>(k, v). (k, json_sorted v)) ss) = map (\<lambda>(k, v). (k, json_sorted v)) ss"
      using dupdate_distinct[of "[]" "map (\<lambda>(k, v). (k, json_sorted v)) ss"] mem(2) by (simp add: comp_def split_beta)
    then show ?thesis using members quote unfolding written sorted
      by (subst parse_value.simps) (auto simp: skip_ws_Cons)
  qed
qed

lemma json_loads_text: "json_ok rf v \<Longrightarrow> json_loads rf (json_text v) = Some (json_sorted v)"
  using parse_json_text[of rf v "[]"] by (simp add: json_loads_def skip_ws_def)

lemma json_text_sorted: "json_text v = json_text v' \<Longrightarrow> json_ok rf v \<Longrightarrow> json_ok rf v' \<Longrightarrow> json_sorted v = json_sorted v'"
  using json_loads_text by (metis option.inject)

end
