(* ===== verification/Vault.thy ===== *)
theory Vault
  imports Ledger Settlement Tasks PyJson Transcript
begin

text \<open>
  Snapshots and usage (\<open>storage.py\<close>): the tables that hang off the log without being part of
  it, in a record around the store, and the operations that write snapshots.  \<open>zlib\<close> and
  \<open>float\<close> are parameters: \<open>md_pack\<close> gives the bytes of a compressed text, \<open>md_unpack\<close> the
  text of some bytes or what went wrong.
\<close>

section \<open>Rows\<close>

record snapshot_row =
  sn_id :: string
  sn_branch :: string
  sn_parent :: "string option"
  sn_cursor :: int
  sn_json :: string
  sn_format :: string
  sn_blob :: "string option"
  sn_sha :: "string option"
  sn_replay :: "string option"
  sn_project :: string
  sn_created :: string

record pruning =
  pr_id :: string
  pr_snapshot :: string
  pr_sha :: string
  pr_event :: string
  pr_created :: string

record usage_sample =
  us_id :: string
  us_receipt :: "string option"
  us_branch :: string
  us_session :: "string option"
  us_event :: "string option"
  us_source :: string
  us_operation :: string
  us_input :: int
  us_output :: int
  us_cache_read :: int
  us_cache_write :: int
  us_context :: int
  us_estimated :: bool
  us_cost :: "pyfloat option"
  us_latency :: "pyfloat option"
  us_raw :: int
  us_emitted :: int
  us_metadata :: "(string, json) dict"
  us_created :: string

record hook_counter =
  hk_receipt :: string
  hk_branch :: string
  hk_session :: string
  hk_event :: "string option"
  hk_name :: string
  hk_increment :: int
  hk_cumulative :: int
  hk_created :: string

record budget_policy =
  bp_id :: string
  bp_branch :: string
  bp_version :: int
  bp_window :: int
  bp_snapshot :: rat
  bp_compact :: rat
  bp_handoff :: rat
  bp_hard :: rat
  bp_interval :: int
  bp_created :: string
  bp_agent :: "string option"
  bp_profile :: "string option"
  bp_recommended :: "int option"
  bp_reserve :: int
  bp_source :: string

record governor_action =
  ga_id :: string
  ga_receipt :: string
  ga_branch :: string
  ga_session :: "string option"
  ga_event :: "string option"
  ga_action :: string
  ga_reason :: string
  ga_context :: int
  ga_threshold :: int
  ga_payload :: "(string, json) dict"
  ga_created :: string

record vault =
  va_store :: store
  va_snapshots :: "snapshot_row list"
  va_prunings :: "pruning list"
  va_usage :: "usage_sample list"
  va_hooks :: "hook_counter list"
  va_policies :: "budget_policy list"
  va_actions :: "governor_action list"

definition initial_vault :: "world \<Rightarrow> vault" where
  "initial_vault w =
     \<lparr>va_store = initial_store w, va_snapshots = [], va_prunings = [], va_usage = [], va_hooks = [],
      va_policies = [], va_actions = []\<rparr>"

datatype unpacked = Unpacked string | Unreadable | Damaged string

record media =
  md_pack :: "string \<Rightarrow> string"
  md_unpack :: "string \<Rightarrow> unpacked"
  md_float :: "string \<Rightarrow> string"

text \<open>\<open>Snapshot\<close> of \<open>models.py\<close>.\<close>

record snapshot =
  sp_id :: string
  sp_branch :: string
  sp_parent :: "string option"
  sp_cursor :: int
  sp_state :: "(string, json) dict"
  sp_project :: "(string, json) dict"
  sp_created :: string
  sp_format :: string
  sp_sha :: "string option"
  sp_replay :: "string option"
  sp_available :: bool

definition FULL_FORMAT :: string where
  "FULL_FORMAT = ''full-zlib-v1''"

definition SNAPSHOT_REPLAY_CODE_VERSION :: string where
  "SNAPSHOT_REPLAY_CODE_VERSION = ''snapshot-materializer-v2''"

section \<open>Materialising\<close>

text \<open>
  Deltas of older versions.  A delta that such a version cannot have written (a list of
  operations that is no list, a path of anything but texts) raises; which exception is not
  distinguished.
\<close>

definition malformed_delta :: exn where
  "malformed_delta = TypeError ''malformed snapshot delta''"

definition text_of :: "json \<Rightarrow> string result" where
  "text_of v = (case v of JStr s \<Rightarrow> Inr s | _ \<Rightarrow> Inl malformed_delta)"

definition list_of :: "json option \<Rightarrow> json list result" where
  "list_of v = (case v of None \<Rightarrow> Inr [] | Some (JArr xs) \<Rightarrow> Inr xs | _ \<Rightarrow> Inl malformed_delta)"

definition dict_of :: "json option \<Rightarrow> (string, json) dict result" where
  "dict_of v = (case v of None \<Rightarrow> Inr [] | Some (JObj d) \<Rightarrow> Inr d | _ \<Rightarrow> Inl malformed_delta)"

text \<open>Down a path, with an empty object for whatever is not an object on the way.\<close>

fun at_path :: "string list \<Rightarrow> (string \<Rightarrow> (string, json) dict \<Rightarrow> (string, json) dict) \<Rightarrow> (string, json) dict \<Rightarrow> (string, json) dict" where
  "at_path [] f target = target"
| "at_path [k] f target = f k target"
| "at_path (k # ks) f target =
     (let child = (case dget target k of Some (JObj c) \<Rightarrow> c | _ \<Rightarrow> [])
      in dset k (JObj (at_path ks f child)) target)"

definition patch_operation :: "json \<Rightarrow> (string, json) dict \<Rightarrow> (string, json) dict result" where
  "patch_operation operation state =
     (case operation of
        JObj d \<Rightarrow>
          bindr (list_of (dget d ''path'')) (\<lambda>steps.
          bindr (mapr text_of steps) (\<lambda>path.
            let f = (if jget d ''op'' = JStr ''remove'' then (\<lambda>k. dpop k)
                     else if jget d ''op'' = JStr ''set'' then (\<lambda>k. dset k (jget d ''value''))
                     else (\<lambda>k t. t))
            in if path \<noteq> [] then Inr (at_path path f state)
               else if jget d ''op'' = JStr ''set'' then dict_of (dget d ''value'')
               else if jget d ''op'' = JStr ''remove'' then Inr [] else Inr state))
      | _ \<Rightarrow> Inl malformed_delta)"

fun patch_operations :: "json list \<Rightarrow> (string, json) dict \<Rightarrow> (string, json) dict result" where
  "patch_operations [] state = Inr state"
| "patch_operations (x # xs) state = bindr (patch_operation x state) (patch_operations xs)"

definition apply_snapshot_delta :: "(string, json) dict \<Rightarrow> (string, json) dict \<Rightarrow> (string, json) dict result" where
  "apply_snapshot_delta parent delta =
     (if jget delta ''format'' = JStr ''incremental-v1''
      then bindr (list_of (dget delta ''remove'')) (\<lambda>keys.
           bindr (mapr text_of keys) (\<lambda>ks.
           bindr (dict_of (dget delta ''set'')) (\<lambda>new. Inr (dupdate (fold dpop ks parent) new))))
      else if jget delta ''format'' \<noteq> JStr ''json-patch-v2'' then Inr delta
      else bindr (list_of (dget delta ''operations'')) (\<lambda>operations. patch_operations operations parent))"

definition find_snapshot :: "vault \<Rightarrow> string \<Rightarrow> snapshot_row option" where
  "find_snapshot v i = List.find (\<lambda>r. sn_id r = i) (va_snapshots v)"

lemma find_snapshot_Some: "find_snapshot v i = Some r \<Longrightarrow> r \<in> set (va_snapshots v) \<and> sn_id r = i"
  unfolding find_snapshot_def by (rule find_Some_iff2)

definition format_of :: "snapshot_row \<Rightarrow> string" where
  "format_of row = (if sn_format row = [] then ''json-patch-v2'' else sn_format row)"

definition expected_hash :: "snapshot_row \<Rightarrow> string" where
  "expected_hash row = (if given (sn_sha row) then the (sn_sha row) else ''missing'')"

text \<open>The state as the caller gets it, once its text has the digest of the row.\<close>

definition verified_state ::
  "world \<Rightarrow> bool \<Rightarrow> snapshot_row \<Rightarrow> string \<Rightarrow> (string, json) dict \<Rightarrow> (snapshot_row \<times> (string, json) dict) result" where
  "verified_state w verify_hash row written state =
     (if verify_hash \<and> sn_sha row \<noteq> Some (hash_text w written)
      then Inl (SnapshotIntegrityError (sn_id row) (expected_hash row) (hash_text w written))
      else Inr (row, state))"

definition materialize_full ::
  "world \<Rightarrow> media \<Rightarrow> bool \<Rightarrow> snapshot_row \<Rightarrow> (snapshot_row \<times> (string, json) dict) result" where
  "materialize_full w md verify_hash row =
     (case sn_blob row of
        None \<Rightarrow> Inl (RuntimeError (''snapshot blob was pruned: '' @ sn_id row))
      | Some blob \<Rightarrow>
          (case md_unpack md blob of
             Damaged what \<Rightarrow> Inl (ZlibError what)
           | Unreadable \<Rightarrow> Inl (SnapshotIntegrityError (sn_id row) (expected_hash row) ''unreadable-full-zlib-v1'')
           | Unpacked decoded \<Rightarrow>
               (case json_loads (md_float md) decoded of
                  None \<Rightarrow> Inl (SnapshotIntegrityError (sn_id row) (expected_hash row) ''unreadable-full-zlib-v1'')
                | Some (JObj state) \<Rightarrow> verified_state w verify_hash row decoded state
                | Some _ \<Rightarrow> Inl (SnapshotIntegrityError (sn_id row) (expected_hash row) (hash_text w decoded)))))"

function materialize_snapshot ::
  "world \<Rightarrow> media \<Rightarrow> bool \<Rightarrow> vault \<Rightarrow> string list \<Rightarrow> string \<Rightarrow> (snapshot_row \<times> (string, json) dict) result" where
  "materialize_snapshot w md verify_hash v seen i =
     (if i \<in> set seen then Inl (RuntimeError ''snapshot lineage cycle detected'')
      else (case find_snapshot v i of
              None \<Rightarrow> Inl (KeyError (''unknown snapshot: '' @ i))
            | Some row \<Rightarrow>
                if format_of row = FULL_FORMAT then materialize_full w md verify_hash row
                else bindr (if given (sn_parent row)
                            then bindr (materialize_snapshot w md verify_hash v (i # seen) (the (sn_parent row)))
                                   (\<lambda>x. Inr (snd x))
                            else Inr []) (\<lambda>parent.
                  case json_loads (md_float md) (sn_json row) of
                    None \<Rightarrow> Inl (SnapshotIntegrityError i (expected_hash row) ''unreadable-legacy-json'')
                  | Some (JObj delta) \<Rightarrow>
                      bindr (apply_snapshot_delta parent delta) (\<lambda>state.
                        verified_state w verify_hash row (json_text (JObj state)) state)
                  | Some _ \<Rightarrow> Inl (AttributeError ''get''))))"
  by pat_completeness auto
termination
proof (relation "measure (\<lambda>(w, md, h, v, seen, i). card (sn_id ` set (va_snapshots v) - set seen))", goal_cases)
  case (2 w md h v seen i row)
  have "sn_id ` set (va_snapshots v) - set (i # seen) \<subset> sn_id ` set (va_snapshots v) - set seen"
    using 2(1,2) find_snapshot_Some[of v i row] by fastforce
  then show ?case by (simp add: psubset_card_mono)
qed simp

declare materialize_snapshot.simps [simp del]

section \<open>Operations\<close>

text \<open>
  A call may raise and still have written: the finding about a damaged snapshot stays.  So
  the result comes next to the vault, not instead of it.
\<close>

definition raise_snapshot_finding :: "world \<Rightarrow> string \<Rightarrow> string \<Rightarrow> string \<Rightarrow> vault \<Rightarrow> 'a result \<times> vault" where
  "raise_snapshot_finding w i expected actual v =
     (case record_security_finding w ''snapshot_state_hash_mismatch''
             (''snapshot_state_hash_mismatch:'' @ i @ '':'' @ expected @ '':'' @ actual)
             [(''snapshot_id'', JStr i), (''expected_state_sha256'', JStr expected), (''actual_state_sha256'', JStr actual)]
             (va_store v) of
        Inl e \<Rightarrow> (Inl e, v)
      | Inr (f, s) \<Rightarrow> (Inl (StoreIntegrityError (''snapshot '' @ i @ '' state hash mismatch'')), v\<lparr>va_store := s\<rparr>))"

text \<open>\<open>except SnapshotIntegrityError\<close> around a transaction: everything else it wrote is rolled back.\<close>

definition guarded_by_finding :: "world \<Rightarrow> vault \<Rightarrow> ('a \<times> vault) result \<Rightarrow> 'a result \<times> vault" where
  "guarded_by_finding w v r =
     (case r of
        Inr (x, v') \<Rightarrow> (Inr x, v')
      | Inl (SnapshotIntegrityError i expected actual) \<Rightarrow> raise_snapshot_finding w i expected actual v
      | Inl e \<Rightarrow> (Inl e, v))"

definition snapshot_visible :: "string \<Rightarrow> int option \<Rightarrow> snapshot_row \<Rightarrow> bool" where
  "snapshot_visible b cutoff r \<longleftrightarrow>
     sn_branch r = b \<and> below cutoff (sn_cursor r) \<and> (sn_format r \<noteq> FULL_FORMAT \<or> sn_blob r \<noteq> None)"

definition latest_visible_snapshot_row :: "vault \<Rightarrow> string \<Rightarrow> snapshot_row option result" where
  "latest_visible_snapshot_row v branch_id =
     bindr (lineage (va_store v) branch_id) (\<lambda>lin.
       Inr (case concat (map (\<lambda>(b, cutoff). filter (snapshot_visible b cutoff) (va_snapshots v)) lin) of
              [] \<Rightarrow> None
            | r # rs \<Rightarrow> Some (max_key (\<lambda>r. (sn_cursor r, sn_created r)) r rs)))"

definition insert_snapshot :: "snapshot_row \<Rightarrow> vault \<Rightarrow> vault result" where
  "insert_snapshot r v =
     (if sn_sha r = None \<or> length (the (sn_sha r)) \<noteq> 64 \<or> sn_replay r = None \<or> (sn_format r = FULL_FORMAT \<and> sn_blob r = None)
      then Inl (IntegrityError ''snapshots require hash, replay version and state blob'')
      else bindr (insert_keyed sn_id ''snapshots.id'' r (va_snapshots v)) (\<lambda>rows.
           bindr (foreign_key (sn_branch r \<in> br_id ` set (st_branches (va_store v)))) (\<lambda>_.
           bindr (foreign_key (case sn_parent r of None \<Rightarrow> True | Some p \<Rightarrow> p \<in> sn_id ` set rows)) (\<lambda>_.
             Inr (v\<lparr>va_snapshots := rows\<rparr>)))))"

text \<open>The parent: the one that was named, else the latest visible one; it must be readable.\<close>

definition check_parent ::
  "world \<Rightarrow> media \<Rightarrow> vault \<Rightarrow> (string \<times> int option) list \<Rightarrow> string \<Rightarrow> string option \<Rightarrow> string option result" where
  "check_parent w md v lin branch_id parent_snapshot_id =
     bindr (case parent_snapshot_id of
              Some p \<Rightarrow> Inr (Some p)
            | None \<Rightarrow> bindr (latest_visible_snapshot_row v branch_id) (\<lambda>row. Inr (map_option sn_id row))) (\<lambda>parent.
       if \<not> given parent then Inr parent
       else bindr (materialize_snapshot w md True v [] (the parent)) (\<lambda>(row, _).
         case map_of (rev lin) (sn_branch row) of
           None \<Rightarrow> Inl (ValueError ''parent snapshot is outside the branch lineage'')
         | Some cutoff \<Rightarrow>
             if below cutoff (sn_cursor row) then Inr parent
             else Inl (ValueError ''parent snapshot was created beyond the branch fork'')))"

definition new_snapshot_row ::
  "world \<Rightarrow> media \<Rightarrow> string \<Rightarrow> string \<Rightarrow> string \<Rightarrow> (string, json) dict \<Rightarrow> string option \<Rightarrow> int \<Rightarrow> string \<Rightarrow> snapshot_row" where
  "new_snapshot_row w md snapshot_id created_at written project parent cursor branch_id =
     \<lparr>sn_id = snapshot_id, sn_branch = branch_id, sn_parent = parent, sn_cursor = cursor,
      sn_json = json_text (JObj [(''format'', JStr FULL_FORMAT)]), sn_format = FULL_FORMAT,
      sn_blob = Some (md_pack md written), sn_sha = Some (hash_text w written),
      sn_replay = Some SNAPSHOT_REPLAY_CODE_VERSION, sn_project = json_text (JObj project), sn_created = created_at\<rparr>"

text \<open>Inside the transaction, with the identity and the time that were taken before it.\<close>

definition take_snapshot ::
  "world \<Rightarrow> media \<Rightarrow> (string, json) dict \<Rightarrow> (string, json) dict \<Rightarrow> string \<Rightarrow> string option \<Rightarrow> string \<Rightarrow> string
    \<Rightarrow> vault \<Rightarrow> (snapshot \<times> vault) result" where
  "take_snapshot w md state project branch_id parent_snapshot_id snapshot_id created_at v =
     (let written = json_text (JObj state) in
      case json_loads (md_float md) written of
        Some (JObj materialized) \<Rightarrow>
          bindr (lineage (va_store v) branch_id) (\<lambda>lin.
          bindr (check_parent w md v lin branch_id parent_snapshot_id) (\<lambda>parent.
          bindr (query_events (va_store v) branch_id all_events) (\<lambda>visible_events.
            let cursor = (if visible_events = [] then 0 else ev_seq (last visible_events))
            in bindr (insert_snapshot (new_snapshot_row w md snapshot_id created_at written project parent cursor branch_id) v)
                 (\<lambda>v'. Inr (\<lparr>sp_id = snapshot_id, sp_branch = branch_id, sp_parent = parent, sp_cursor = cursor,
                            sp_state = materialized, sp_project = project, sp_created = created_at,
                            sp_format = FULL_FORMAT, sp_sha = Some (hash_text w written),
                            sp_replay = Some SNAPSHOT_REPLAY_CODE_VERSION, sp_available = True\<rparr>, v')))))
      | _ \<Rightarrow> Inl (ValueError ''snapshot state must serialize to a JSON object''))"

definition create_snapshot ::
  "world \<Rightarrow> media \<Rightarrow> (string, json) dict \<Rightarrow> (string, json) dict \<Rightarrow> string \<Rightarrow> string option \<Rightarrow> vault
    \<Rightarrow> snapshot result \<times> vault" where
  "create_snapshot w md state project branch_id parent_snapshot_id v =
     (let (hex, s1) = fresh_uuid w (va_store v);
          (created_at, s2) = read_clock w s1;
          v' = v\<lparr>va_store := s2\<rparr>
      in guarded_by_finding w v' (take_snapshot w md state project branch_id parent_snapshot_id (''snp_'' @ hex) created_at v'))"

definition read_snapshot :: "world \<Rightarrow> media \<Rightarrow> string \<Rightarrow> vault \<Rightarrow> snapshot result" where
  "read_snapshot w md i v =
     bindr (materialize_snapshot w md True v [] i) (\<lambda>(row, state).
       case json_loads (md_float md) (sn_project row) of
         Some (JObj project) \<Rightarrow>
           Inr \<lparr>sp_id = sn_id row, sp_branch = sn_branch row, sp_parent = sn_parent row, sp_cursor = sn_cursor row,
                sp_state = state, sp_project = project, sp_created = sn_created row, sp_format = sn_format row,
                sp_sha = sn_sha row, sp_replay = sn_replay row,
                sp_available = (sn_blob row \<noteq> None \<or> sn_format row \<noteq> FULL_FORMAT)\<rparr>
       | _ \<Rightarrow> Inl (ValueError ''project_json''))"

definition get_snapshot :: "world \<Rightarrow> media \<Rightarrow> string \<Rightarrow> vault \<Rightarrow> snapshot result \<times> vault" where
  "get_snapshot w md i v = guarded_by_finding w v (bindr (read_snapshot w md i v) (\<lambda>snap. Inr (snap, v)))"

definition latest_snapshot :: "world \<Rightarrow> media \<Rightarrow> string \<Rightarrow> vault \<Rightarrow> snapshot option result \<times> vault" where
  "latest_snapshot w md branch_id v =
     (case latest_visible_snapshot_row v branch_id of
        Inl e \<Rightarrow> (Inl e, v)
      | Inr None \<Rightarrow> (Inr None, v)
      | Inr (Some row) \<Rightarrow> (let (r, v') = get_snapshot w md (sn_id row) v in (bindr r (\<lambda>x. Inr (Some x)), v')))"

definition snapshot_tail :: "store \<Rightarrow> snapshot \<Rightarrow> string option \<Rightarrow> event list result" where
  "snapshot_tail s snap target_branch_id =
     (let target = (if given target_branch_id then the target_branch_id else sp_branch snap)
      in bindr (lineage s target) (\<lambda>lin.
           case map_of (rev lin) (sp_branch snap) of
             None \<Rightarrow> Inl (ValueError ''snapshot is outside the target branch lineage'')
           | Some cutoff \<Rightarrow>
               if \<not> below cutoff (sp_cursor snap)
               then Inl (ValueError ''snapshot was created beyond the target branch fork'')
               else query_events s target (all_events\<lparr>q_after := sp_cursor snap\<rparr>)))"

text \<open>\<open>event.to_dict()\<close>.\<close>

definition event_dict :: "event \<Rightarrow> (string, json) dict" where
  "event_dict e =
     [(''seq'', JInt (ev_seq e)), (''id'', JStr (ev_id e)), (''branch_id'', JStr (ev_branch e)),
      (''session_id'', opt_str (ev_session e)), (''kind'', JStr (ev_kind e)), (''role'', opt_str (ev_role e)),
      (''origin_channel'', JStr (ev_channel e)), (''origin_adapter'', opt_str (ev_adapter e)),
      (''content'', JStr (ev_content e)), (''payload'', JObj (ev_payload e)), (''files'', JArr (map JStr (ev_files e))),
      (''created_at'', JStr (ev_created e)), (''previous_hash'', opt_str (ev_prev e)),
      (''content_hash'', JStr (ev_chash e)), (''chain_hash'', JStr (ev_chain e))]"

definition snapshot_replay_tail_size :: "vault \<Rightarrow> string \<Rightarrow> nat result" where
  "snapshot_replay_tail_size v branch_id =
     bindr (latest_visible_snapshot_row v branch_id) (\<lambda>row.
     bindr (query_events (va_store v) branch_id (all_events\<lparr>q_after := (case row of None \<Rightarrow> 0 | Some r \<Rightarrow> sn_cursor r)\<rparr>))
       (\<lambda>events. Inr (sum_list (map (\<lambda>e. utf8_len (json_text (JObj (event_dict e)))) events))))"

section \<open>Pruning\<close>

text \<open>The first pass: every snapshot asked for exists, is prunable, and its blob is readable.\<close>

fun prune_preflight :: "world \<Rightarrow> media \<Rightarrow> string list \<Rightarrow> vault \<Rightarrow> unit result \<times> vault" where
  "prune_preflight w md [] v = (Inr (), v)"
| "prune_preflight w md (i # is) v =
     (case find_snapshot v i of
        None \<Rightarrow> (Inl (KeyError (''unknown snapshot: '' @ i)), v)
      | Some row \<Rightarrow>
          if sn_format row \<noteq> FULL_FORMAT then (Inl (ValueError (''legacy snapshot blobs are not prunable: '' @ i)), v)
          else if sn_blob row = None then prune_preflight w md is v
          else (case get_snapshot w md i v of
                  (Inl e, v') \<Rightarrow> (Inl e, v')
                | (Inr _, v') \<Rightarrow> prune_preflight w md is v'))"

text \<open>Snapshots that a usage sample names, or the latest version of an open workstream.\<close>

definition used_snapshots :: "usage_sample list \<Rightarrow> (string \<times> string) list" where
  "used_snapshots samples =
     List.map_filter (\<lambda>u. if truthy (jget (us_metadata u) ''snapshot_id'')
                          then Some (py_str (jget (us_metadata u) ''snapshot_id''), ''usage:'' @ us_operation u) else None) samples"

definition open_task_snapshots :: "task_version list \<Rightarrow> (string \<times> string) list" where
  "open_task_snapshots rows =
     List.map_filter (\<lambda>t. if tk_status t \<in> {''active'', ''blocked''} \<and> tk_snapshot t \<noteq> None
          \<and> (\<forall>t' \<in> set rows. tk_key t' = tk_key t \<longrightarrow> tk_version t' \<le> tk_version t)
        then Some (the (tk_snapshot t), ''active_task:'' @ tk_key t) else None) rows"

definition protected_snapshots :: "vault \<Rightarrow> (string, string) dict" where
  "protected_snapshots v =
     dupdate (dupdate [] (used_snapshots (va_usage v))) (open_task_snapshots (st_tasks (va_store v)))"

fun insert_prunings :: "world \<Rightarrow> string \<Rightarrow> (string \<times> string) list \<Rightarrow> vault \<Rightarrow> vault result" where
  "insert_prunings w event_id [] v = Inr v"
| "insert_prunings w event_id ((i, sha) # items) v =
     (let (hex, s1) = fresh_uuid w (va_store v);
          (now, s2) = read_clock w s1;
          row = \<lparr>pr_id = ''spr_'' @ hex, pr_snapshot = i, pr_sha = sha, pr_event = event_id, pr_created = now\<rparr>
      in bindr (insert_keyed pr_id ''snapshot_prunings.id'' row (va_prunings v)) (\<lambda>_.
         bindr (insert_keyed pr_snapshot ''snapshot_prunings.snapshot_id'' row (va_prunings v)) (\<lambda>rows.
           insert_prunings w event_id items
             (v\<lparr>va_store := s2, va_prunings := rows,
                va_snapshots := map (\<lambda>r. if sn_id r = i then r\<lparr>sn_blob := None\<rparr> else r) (va_snapshots v)\<rparr>))))"

definition prune_event :: "string \<Rightarrow> (string \<times> string) list \<Rightarrow> event_draft" where
  "prune_event branch_id items =
     \<lparr>dr_branch = branch_id, dr_session = None, dr_kind = ''state'', dr_role = None,
      dr_content = ''pruned '' @ show_nat (length items) @ '' snapshot blob(s)'', dr_channel = INTERNAL,
      dr_adapter = Some ''snapshot_pruner'',
      dr_payload = [(''operation'', JStr ''snapshots_pruned''),
        (''snapshots'', JArr (map (\<lambda>(i, sha). JObj [(''snapshot_id'', JStr i), (''state_sha256'', JStr sha)]) items))],
      dr_files = []\<rparr>"

definition prune_rows ::
  "world \<Rightarrow> string list \<Rightarrow> string \<Rightarrow> vault \<Rightarrow> ((string option \<times> (string \<times> string) list) \<times> vault) result" where
  "prune_rows w requested branch_id v =
     (let rows = List.map_filter (\<lambda>i. case find_snapshot v i of
                   Some r \<Rightarrow> if sn_blob r \<noteq> None then Some r else None | None \<Rightarrow> None) requested;
          protected = protected_snapshots v;
          blocked = List.map_filter (\<lambda>r. map_option (\<lambda>reason. (sn_id r, reason)) (dget protected (sn_id r))) rows;
          items = map (\<lambda>r. (sn_id r, case sn_sha r of None \<Rightarrow> ''None'' | Some h \<Rightarrow> h)) rows
      in if rows = [] then Inr ((None, []), v)
         else if blocked \<noteq> []
         then Inl (ValueError (''protected snapshots cannot be pruned: ''
                @ join '', '' (map (\<lambda>(i, reason). i @ '' ('' @ reason @ '')'') (sort blocked))))
         else bindr (append_event_in_tx w (prune_event branch_id items) (va_store v)) (\<lambda>(e, s1).
              bindr (insert_prunings w (ev_id e) items (v\<lparr>va_store := s1\<rparr>)) (\<lambda>v'.
                Inr ((Some (ev_id e), items), v'))))"

definition prune_snapshot_blobs ::
  "world \<Rightarrow> media \<Rightarrow> string list \<Rightarrow> string \<Rightarrow> vault \<Rightarrow> (string option \<times> (string \<times> string) list) result \<times> vault" where
  "prune_snapshot_blobs w md snapshot_ids branch_id v =
     (let requested = uniq snapshot_ids
      in if requested = [] then (Inl (ValueError ''at least one snapshot ID is required''), v)
         else (case prune_preflight w md requested v of
                 (Inl e, v1) \<Rightarrow> (Inl e, v1)
               | (Inr _, v1) \<Rightarrow>
                   (case prune_rows w requested branch_id v1 of
                      Inl e \<Rightarrow> (Inl e, v1)
                    | Inr (r, v2) \<Rightarrow> (Inr r, v2))))"

end
