(* ===== verification/Replay.thy ===== *)
theory Replay
  imports Vault
begin

text \<open>
  The state behind a resume (\<open>snapshots.py\<close>): built from the tables, or restored from a snapshot
  by replaying the events after it.  Files and the git checkout are not read here: their
  fingerprint is an argument.  A restored state comes from a document, so its dictionaries
  have JSON values as keys; a key that Python cannot hash raises.  Entries that only a
  document of another make could hold (a version that is no integer, an event whose fields
  have other types) raise as well.
\<close>

section \<open>The state\<close>

record 'k live_state =
  ls_blocks :: "('k, json) dict"
  ls_memories :: "('k, json) dict"
  ls_index :: "('k, json) dict"
  ls_recent :: "('k, json) dict"
  ls_order :: "'k list"
  ls_timeline :: "('k, json) dict"
  ls_lexical :: "(string \<times> 'k list) list"

definition RECENT_GROUP_LIMIT :: int where
  "RECENT_GROUP_LIMIT = 32"

definition WORD :: rx where
  "WORD = rplus (RChar (\<lambda>c. is_word c \<or> c \<in> {CHR ''.'', CHR ''/'', CHR '':'', CHR ''-''}))"

text \<open>A set in the code; here without repetition, in the order of the text.\<close>

definition lexical_terms :: "string \<Rightarrow> string list" where
  "lexical_terms v = uniq (map casefold (filter (\<lambda>t. length t > 1) (map fst (re_findall WORD v))))"

definition block_dict :: "active_block \<Rightarrow> (string, json) dict" where
  "block_dict b =
     [(''id'', JStr (bl_id b)), (''branch_id'', JStr (bl_branch b)), (''name'', JStr (bl_name b)),
      (''content'', JStr (bl_content b)), (''version'', JInt (bl_version b)),
      (''source_event_ids'', JArr (map JStr (bl_sources b))), (''supersedes_id'', opt_str (bl_supersedes b)),
      (''created_at'', JStr (bl_created b))]"

definition memory_dict :: "memory_record \<Rightarrow> (string, json) dict" where
  "memory_dict r =
     [(''id'', JStr (me_id r)), (''branch_id'', JStr (me_branch r)), (''memory_type'', JStr (me_type r)),
      (''content'', JStr (me_content r)), (''summary'', JStr (me_summary r)), (''files'', JArr (map JStr (me_files r))),
      (''risk'', JFloat (fl_repr (me_risk r))), (''retrieval_cost'', JFloat (fl_repr (me_cost r))),
      (''version'', JInt (me_version r)), (''source_event_ids'', JArr (map JStr (me_sources r))),
      (''supersedes_id'', opt_str (me_supersedes r)), (''created_at'', JStr (me_created r)),
      (''metadata'', JObj (me_metadata r)), (''valid_from'', opt_str (me_from r)), (''valid_to'', opt_str (me_to r)),
      (''valid_from_precision'', opt_str (me_from_precision r)), (''valid_to_precision'', opt_str (me_to_precision r)),
      (''temporal_expression'', opt_str (me_expression r))]"

definition index_entry :: "memory_record \<Rightarrow> json" where
  "index_entry r =
     JObj [(''id'', JStr (me_id r)), (''type'', JStr (me_type r)), (''summary'', JStr (me_summary r)),
           (''files'', JArr (map JStr (me_files r))), (''source_event_ids'', JArr (map JStr (me_sources r)))]"

definition timeline_entry :: "event \<Rightarrow> json" where
  "timeline_entry e =
     JObj [(''seq'', JInt (ev_seq e)), (''id'', JStr (ev_id e)), (''time'', JStr (ev_created e)),
           (''kind'', JStr (ev_kind e)), (''role'', opt_str (ev_role e)),
           (''preview'', JStr (take 160 (join '' '' (split_ws (ev_content e))))),
           (''files'', JArr (map JStr (ev_files e)))]"

text \<open>Memory ids by the terms of their texts.\<close>

definition add_terms :: "string list \<Rightarrow> 'k \<Rightarrow> (string \<times> 'k list) list \<Rightarrow> (string \<times> 'k list) list" where
  "add_terms terms i index = fold (\<lambda>t d. dset t (dget_default d t [] @ [i]) d) terms index"

text \<open>\<open>interaction_groups\<close> always returns (theory TranscriptFacts); the other case of the option has no value.\<close>

definition returned :: "'a option \<Rightarrow> 'a result" where
  "returned r = (case r of Some x \<Rightarrow> Inr x | None \<Rightarrow> Inl (RuntimeError ''does not return''))"

fun filterr :: "('a \<Rightarrow> bool result) \<Rightarrow> 'a list \<Rightarrow> 'a list result" where
  "filterr f [] = Inr []"
| "filterr f (x # xs) = bindr (f x) (\<lambda>b. bindr (filterr f xs) (\<lambda>ys. Inr (if b then x # ys else ys)))"

definition build_state :: "store \<Rightarrow> string \<Rightarrow> string live_state result" where
  "build_state s branch_id =
     bindr (bindr (list_memories s branch_id (all_memories\<lparr>mq_superseded := False\<rparr>)) (filterr (\<lambda>r. automatic_memory_eligible s (me_id r)))) (\<lambda>records.
     bindr (query_events s branch_id all_events) (\<lambda>events.
     bindr (get_active_blocks s branch_id) (\<lambda>blocks.
     bindr (returned (recent_complete_events events RECENT_GROUP_LIMIT)) (\<lambda>recent.
       Inr \<lparr>ls_blocks = map (\<lambda>(n, b). (n, JObj (block_dict b))) blocks,
            ls_memories = dupdate [] (map (\<lambda>r. (me_id r, JObj (memory_dict r))) records),
            ls_index = dupdate [] (map (\<lambda>r. (me_id r, index_entry r)) records),
            ls_recent = dupdate [] (map (\<lambda>e. (ev_id e, JObj (event_dict e))) recent),
            ls_order = map ev_id recent,
            ls_timeline = dupdate [] (map (\<lambda>e. (ev_id e, timeline_entry e)) events),
            ls_lexical = map (\<lambda>(t, is). (t, sort is))
              (fold (\<lambda>r. add_terms (lexical_terms (me_summary r @ [CHR 0x0A] @ me_content r @ [CHR 0x0A] @ join '' '' (me_files r))) (me_id r))
                 records [])\<rparr>))))"

text \<open>The document that a snapshot keeps.\<close>

definition state_dict :: "string live_state \<Rightarrow> (string, json) dict" where
  "state_dict st =
     [(''blocks'', JObj (ls_blocks st)), (''memories'', JObj (ls_memories st)), (''index'', JObj (ls_index st)),
      (''recent_events'', JObj (ls_recent st)), (''recent_event_order'', JArr (map JStr (ls_order st))),
      (''timeline_index'', JObj (ls_timeline st)),
      (''lexical_index'', JObj (map (\<lambda>(t, is). (t, JArr (map JStr is))) (ls_lexical st)))]"

section \<open>Replay\<close>

definition hashable :: "json \<Rightarrow> json result" where
  "hashable v = (case v of JArr _ \<Rightarrow> Inl (TypeError ''unhashable type: list'') | JObj _ \<Rightarrow> Inl (TypeError ''unhashable type: dict'') | _ \<Rightarrow> Inr v)"

text \<open>\<open>dict(value)\<close> of a member of the state.\<close>

definition as_dict :: "json option \<Rightarrow> (json, json) dict result" where
  "as_dict v =
     (case v of None \<Rightarrow> Inr [] | Some (JObj d) \<Rightarrow> Inr (map (\<lambda>(k, x). (JStr k, x)) d) | Some (JArr []) \<Rightarrow> Inr []
      | _ \<Rightarrow> Inl (TypeError ''cannot convert dictionary update sequence''))"

text \<open>An index of older versions is a list.\<close>

fun index_of_items :: "json list \<Rightarrow> (json, json) dict \<Rightarrow> (json, json) dict result" where
  "index_of_items [] acc = Inr acc"
| "index_of_items (x # xs) acc =
     (case x of
        JObj d \<Rightarrow>
          (case dget d ''id'' of
             None \<Rightarrow> Inl (KeyError ''id'')
           | Some i \<Rightarrow> bindr (hashable i) (\<lambda>i. index_of_items xs (dset i x acc)))
      | _ \<Rightarrow> Inl (TypeError ''indices must be integers''))"

definition start_state :: "(string, json) dict \<Rightarrow> json live_state result" where
  "start_state state =
     bindr (case dget state ''index'' of Some (JArr items) \<Rightarrow> index_of_items items [] | v \<Rightarrow> as_dict v) (\<lambda>index.
     bindr (as_dict (dget state ''blocks'')) (\<lambda>blocks.
     bindr (as_dict (dget state ''memories'')) (\<lambda>memories.
     bindr (as_dict (dget state ''recent_events'')) (\<lambda>recent.
     bindr (case dget state ''recent_event_order'' of None \<Rightarrow> Inr [] | Some (JArr xs) \<Rightarrow> Inr xs
              | _ \<Rightarrow> Inl (TypeError ''not iterable'')) (\<lambda>order.
     bindr (as_dict (dget state ''timeline_index'')) (\<lambda>timeline.
       Inr \<lparr>ls_blocks = blocks, ls_memories = memories, ls_index = index, ls_recent = recent, ls_order = order,
            ls_timeline = timeline, ls_lexical = []\<rparr>))))))"

text \<open>A block of the tail takes the place of the block with its name.\<close>

definition replay_block :: "event \<Rightarrow> (json, json) dict \<Rightarrow> (json, json) dict result" where
  "replay_block e blocks =
     (let name = jget (ev_payload e) ''block'' in
      if \<not> truthy name then Inr blocks
      else bindr (hashable name) (\<lambda>name.
        case (case dget blocks name of None \<Rightarrow> JObj [] | Some b \<Rightarrow> b) of
          JObj previous \<Rightarrow>
            bindr (case dget previous ''version'' of None \<Rightarrow> Inr 0 | Some (JInt n) \<Rightarrow> Inr n
                     | _ \<Rightarrow> Inl (TypeError ''int()'')) (\<lambda>version.
              Inr (dset name (JObj
                [(''id'', JStr (''replay:'' @ ev_id e)), (''branch_id'', JStr (ev_branch e)), (''name'', name),
                 (''content'', JStr (ev_content e)), (''version'', JInt (version + 1)),
                 (''source_event_ids'', JArr [JStr (ev_id e)]), (''supersedes_id'', jget previous ''id''),
                 (''created_at'', JStr (ev_created e))]) blocks))
        | _ \<Rightarrow> Inl (AttributeError ''get'')))"

text \<open>A derivation of the tail adds its payload as a record and drops the one it supersedes.\<close>

definition replay_memory :: "event \<Rightarrow> json live_state \<Rightarrow> json live_state result" where
  "replay_memory e st =
     (let item = dset ''derivation_event_id'' (JStr (ev_id e)) (ev_payload e);
          supersedes = jget item ''supersedes_id''
      in bindr (hashable (dget_default item ''memory_id'' (JStr (''replay:'' @ ev_id e)))) (\<lambda>memory_id.
         bindr (if truthy supersedes then hashable supersedes else Inr supersedes) (\<lambda>_.
           let drop_old = (if truthy supersedes then dpop supersedes else (\<lambda>d. d));
               full = dsetdefault ''version'' (JInt 1) (dsetdefault ''created_at'' (JStr (ev_created e))
                        (dsetdefault ''branch_id'' (JStr (ev_branch e)) (dsetdefault ''id'' memory_id item)))
           in Inr (st\<lparr>ls_memories := dset memory_id (JObj full) (drop_old (ls_memories st)),
                     ls_index := dset memory_id (JObj
                       [(''id'', memory_id), (''type'', jget full ''memory_type''), (''summary'', jget full ''summary''),
                        (''files'', dget_default full ''files'' (JArr [])),
                        (''source_event_ids'', dget_default full ''source_event_ids'' (JArr []))]) (drop_old (ls_index st))\<rparr>))))"

definition replay_event :: "event \<Rightarrow> json live_state \<Rightarrow> json live_state result" where
  "replay_event e st0 =
     (let st1 = st0\<lparr>ls_timeline := dset (JStr (ev_id e)) (timeline_entry e) (ls_timeline st0)\<rparr>;
          st2 = (if ev_kind e \<in> set TRANSCRIPT_KINDS
                 then st1\<lparr>ls_recent := dset (JStr (ev_id e)) (JObj (event_dict e)) (ls_recent st1),
                         ls_order := (if JStr (ev_id e) \<in> set (ls_order st1) then ls_order st1 else ls_order st1 @ [JStr (ev_id e)])\<rparr>
                 else st1)
      in if ev_kind e = ''memory_block''
         then bindr (replay_block e (ls_blocks st2)) (\<lambda>blocks. Inr (st2\<lparr>ls_blocks := blocks\<rparr>))
         else if ev_kind e = ''state'' \<and> jget (ev_payload e) ''operation'' = JStr ''derive_memory'' then replay_memory e st2
         else Inr st2)"

fun replay_events :: "event list \<Rightarrow> json live_state \<Rightarrow> json live_state result" where
  "replay_events [] st = Inr st"
| "replay_events (e # es) st = bindr (replay_event e st) (replay_events es)"

text \<open>An \<open>Event\<close> from its dictionary.\<close>

definition field :: "(string, json) dict \<Rightarrow> string \<Rightarrow> json result" where
  "field d k = (case dget d k of None \<Rightarrow> Inl (KeyError k) | Some v \<Rightarrow> Inr v)"

definition a_text :: "json \<Rightarrow> string result" where
  "a_text v = (case v of JStr s \<Rightarrow> Inr s | _ \<Rightarrow> Inl (TypeError ''text''))"

definition an_optional :: "json \<Rightarrow> string option result" where
  "an_optional v = (case v of JStr s \<Rightarrow> Inr (Some s) | JNull \<Rightarrow> Inr None | _ \<Rightarrow> Inl (TypeError ''text''))"

definition event_of_dict :: "(string, json) dict \<Rightarrow> event result" where
  "event_of_dict d =
     bindr (bindr (field d ''seq'') (\<lambda>v. case v of JInt n \<Rightarrow> Inr n | _ \<Rightarrow> Inl (TypeError ''int()''))) (\<lambda>sq.
     bindr (bindr (field d ''id'') a_text) (\<lambda>i.
     bindr (bindr (field d ''branch_id'') a_text) (\<lambda>b.
     bindr (an_optional (jget d ''session_id'')) (\<lambda>ses.
     bindr (bindr (field d ''kind'') a_text) (\<lambda>kind.
     bindr (an_optional (jget d ''role'')) (\<lambda>role.
     bindr (a_text (dget_default d ''origin_channel'' (JStr ''legacy_untrusted''))) (\<lambda>channel.
     bindr (an_optional (jget d ''origin_adapter'')) (\<lambda>adapter.
     bindr (bindr (field d ''content'') a_text) (\<lambda>content.
     bindr (case dget d ''payload'' of None \<Rightarrow> Inr [] | Some (JObj p) \<Rightarrow> Inr p | _ \<Rightarrow> Inl (TypeError ''dict()'')) (\<lambda>payload.
     bindr (case dget d ''files'' of None \<Rightarrow> Inr [] | Some (JArr xs) \<Rightarrow> mapr a_text xs | _ \<Rightarrow> Inl (TypeError ''tuple()'')) (\<lambda>files.
     bindr (bindr (field d ''created_at'') a_text) (\<lambda>created.
     bindr (an_optional (jget d ''previous_hash'')) (\<lambda>prev.
     bindr (bindr (field d ''content_hash'') a_text) (\<lambda>chash.
     bindr (bindr (field d ''chain_hash'') a_text) (\<lambda>chain.
       Inr \<lparr>ev_seq = sq, ev_id = i, ev_branch = b, ev_session = ses, ev_kind = kind, ev_role = role, ev_channel = channel,
            ev_adapter = adapter, ev_content = content, ev_payload = payload, ev_files = files, ev_created = created,
            ev_prev = prev, ev_chash = chash, ev_chain = chain\<rparr>)))))))))))))))"

fun recent_objects :: "json list \<Rightarrow> (json, json) dict \<Rightarrow> event list result" where
  "recent_objects [] recent = Inr []"
| "recent_objects (i # is) recent =
     bindr (hashable i) (\<lambda>i.
       case dget recent i of
         None \<Rightarrow> recent_objects is recent
       | Some raw \<Rightarrow>
           if \<not> truthy raw then recent_objects is recent
           else (case raw of
                   JObj d \<Rightarrow> bindr (event_of_dict d) (\<lambda>e. bindr (recent_objects is recent) (\<lambda>es. Inr (e # es)))
                 | _ \<Rightarrow> Inl (TypeError ''indices must be integers'')))"

text \<open>\<open>' '.join(files)\<close>, and the text of a record for the index of terms.\<close>

definition joined_files :: "json \<Rightarrow> string result" where
  "joined_files v =
     (case v of
        JArr xs \<Rightarrow> bindr (mapr a_text xs) (\<lambda>fs. Inr (join '' '' fs))
      | JStr s \<Rightarrow> Inr (join '' '' (map (\<lambda>c. [c]) s))
      | JObj d \<Rightarrow> Inr (join '' '' (map fst d))
      | _ \<Rightarrow> Inl (TypeError ''can only join an iterable''))"

definition item_text :: "json \<Rightarrow> string result" where
  "item_text item =
     (case item of
        JObj d \<Rightarrow>
          bindr (joined_files (dget_default d ''files'' (JArr []))) (\<lambda>files.
            Inr (py_str (dget_default d ''summary'' (JStr [])) @ [CHR 0x0A]
                 @ py_str (dget_default d ''content'' (JStr [])) @ [CHR 0x0A] @ files))
      | _ \<Rightarrow> Inl (AttributeError ''get''))"

fun rebuilt_index :: "(json, json) dict \<Rightarrow> (string \<times> json list) list \<Rightarrow> (string \<times> json list) list result" where
  "rebuilt_index [] acc = Inr acc"
| "rebuilt_index ((i, item) # ms) acc =
     bindr (item_text item) (\<lambda>t. rebuilt_index ms (add_terms (lexical_terms t) i acc))"

text \<open>\<open>sorted\<close> on ids; ids of other types cannot be compared with texts.\<close>

definition sorted_ids :: "json list \<Rightarrow> json list result" where
  "sorted_ids is =
     (if length is \<le> 1 then Inr is else bindr (mapr a_text is) (\<lambda>ts. Inr (map JStr (sort ts))))"

definition replay :: "(string, json) dict \<Rightarrow> event list \<Rightarrow> json live_state result" where
  "replay state events =
     bindr (start_state state) (\<lambda>st0.
     bindr (replay_events events st0) (\<lambda>st.
     bindr (recent_objects (ls_order st) (ls_recent st)) (\<lambda>objects.
     bindr (returned (recent_complete_events objects RECENT_GROUP_LIMIT)) (\<lambda>recent.
     bindr (rebuilt_index (ls_memories st) []) (\<lambda>index.
     bindr (mapr (\<lambda>(t, is). bindr (sorted_ids is) (\<lambda>js. Inr (t, js))) index) (\<lambda>lexical.
       Inr (st\<lparr>ls_recent := dupdate [] (map (\<lambda>e. (JStr (ev_id e), JObj (event_dict e))) recent),
              ls_order := map (\<lambda>e. JStr (ev_id e)) recent, ls_lexical := lexical\<rparr>)))))))"

section \<open>Fingerprints\<close>

text \<open>The files of a fingerprint; the values are digests.\<close>

definition fingerprint_files :: "(string, json) dict \<Rightarrow> (string, json) dict" where
  "fingerprint_files p = (case dget p ''files'' of Some (JObj d) \<Rightarrow> d | _ \<Rightarrow> [])"

definition compare_fingerprints :: "(string, json) dict \<Rightarrow> (string, json) dict \<Rightarrow> string list" where
  "compare_fingerprints previous current =
     (let old_files = fingerprint_files previous;
          new_files = fingerprint_files current;
          changed = filter (\<lambda>p. jget old_files p \<noteq> jget new_files p) (sort (remdups (dkeys old_files @ dkeys new_files)));
          preview = join '', '' (take 8 changed)
            @ (if length changed > 8 then '' (+'' @ show_nat (length changed - 8) @ '' more)'' else [])
      in (if jget previous ''root'' \<noteq> jget current ''root'' then [''project root changed''] else [])
         @ (if jget previous ''git_head'' \<noteq> jget current ''git_head'' then [''Git HEAD changed''] else [])
         @ (if changed \<noteq> [] then [''file hashes changed: '' @ preview] else []))"

section \<open>Snapshots of a project\<close>

definition create_state_snapshot ::
  "world \<Rightarrow> media \<Rightarrow> (string, json) dict \<Rightarrow> string \<Rightarrow> string option \<Rightarrow> vault \<Rightarrow> snapshot result \<times> vault" where
  "create_state_snapshot w md project branch_id parent_snapshot_id v =
     (case build_state (va_store v) branch_id of
        Inl e \<Rightarrow> (Inl e, v)
      | Inr st \<Rightarrow> create_snapshot w md (state_dict st) project branch_id parent_snapshot_id v)"

record restored =
  rs_snapshot :: snapshot
  rs_state :: "json live_state"
  rs_events :: "event list"
  rs_stale :: "string list"

text \<open>\<open>current\<close> is the fingerprint of the files that the snapshot's own fingerprint names.\<close>

definition restore_snapshot :: "store \<Rightarrow> snapshot \<Rightarrow> string option \<Rightarrow> (string, json) dict \<Rightarrow> restored result" where
  "restore_snapshot s snap branch_id current =
     bindr (snapshot_tail s snap branch_id) (\<lambda>tail.
     bindr (replay (sp_state snap) tail) (\<lambda>state.
       Inr \<lparr>rs_snapshot = snap, rs_state = state, rs_events = tail,
            rs_stale = compare_fingerprints (sp_project snap) current\<rparr>))"

definition restore ::
  "world \<Rightarrow> media \<Rightarrow> string \<Rightarrow> string option \<Rightarrow> (string, json) dict \<Rightarrow> vault \<Rightarrow> restored result \<times> vault" where
  "restore w md snapshot_id branch_id current v =
     (let (r, v') = get_snapshot w md snapshot_id v
      in (bindr r (\<lambda>snap. restore_snapshot (va_store v') snap branch_id current), v'))"

end
