(* ===== verification/Usage.thy ===== *)
theory Usage
  imports Vault Floats
begin

text \<open>
  Usage samples, hook context counters, budget policies and governor actions
  (\<open>storage.py\<close>), the resolution of a policy (\<open>service.py\<close>, \<open>context_limits.py\<close>) and the
  thresholds and decisions of the governor (\<open>governor.py\<close>).  A ratio is a float; products
  and quotients are rounded by \<open>fl\<close>.
\<close>

section \<open>Samples\<close>

definition session_known :: "store \<Rightarrow> string option \<Rightarrow> bool" where
  "session_known s session_id = (case session_id of None \<Rightarrow> True | Some i \<Rightarrow> find_session s i \<noteq> None)"

definition event_known :: "store \<Rightarrow> string option \<Rightarrow> bool" where
  "event_known s event_id = (case event_id of None \<Rightarrow> True | Some i \<Rightarrow> find_event s i \<noteq> None)"

text \<open>The keys of a nullable UNIQUE column: a row without one never collides.\<close>

definition insert_usage :: "usage_sample \<Rightarrow> vault \<Rightarrow> vault result" where
  "insert_usage u v =
     bindr (insert_keyed us_id ''usage_samples.id'' u (va_usage v)) (\<lambda>rows.
     bindr (guardr (us_receipt u = None \<or> us_receipt u \<notin> us_receipt ` set (va_usage v))
              (IntegrityError ''UNIQUE constraint failed: usage_samples.receipt_key'')) (\<lambda>_.
     bindr (foreign_key (us_branch u \<in> br_id ` set (st_branches (va_store v)) \<and> session_known (va_store v) (us_session u)
                         \<and> event_known (va_store v) (us_event u))) (\<lambda>_.
       Inr (v\<lparr>va_usage := rows\<rparr>))))"

text \<open>The sample as the caller fills it in; identity, time and redacted metadata are the store's.\<close>

definition record_usage :: "world \<Rightarrow> usage_sample \<Rightarrow> vault \<Rightarrow> (usage_sample \<times> vault) result" where
  "record_usage w u v =
     (if \<exists>n \<in> {us_input u, us_output u, us_cache_read u, us_cache_write u, us_context u, us_raw u, us_emitted u}. n < 0
      then Inl (ValueError ''usage counters cannot be negative'')
      else if find_branch (st_branches (va_store v)) (us_branch u) = None then Inl (unknown_branch (us_branch u))
      else (case (if given (us_receipt u) then List.find (\<lambda>x. us_receipt x = us_receipt u) (va_usage v) else None) of
              Some existing \<Rightarrow> Inr (existing, v)
            | None \<Rightarrow>
                (let (hex, s1) = fresh_uuid w (va_store v);
                     (now, s2) = read_clock w s1;
                     row = u\<lparr>us_id := ''usage_'' @ hex, us_created := now,
                             us_metadata := fst (redact_object (w_rules w) (us_metadata u))\<rparr>
                 in bindr (insert_usage row (v\<lparr>va_store := s2\<rparr>)) (\<lambda>v'. Inr (row, v')))))"

definition list_usage_samples :: "vault \<Rightarrow> string \<Rightarrow> string option \<Rightarrow> string option \<Rightarrow> usage_sample list" where
  "list_usage_samples v branch_id session_id operation =
     sort_key us_created (filter (\<lambda>u. us_branch u = branch_id \<and> (session_id = None \<or> us_session u = session_id)
       \<and> (operation = None \<or> operation = Some (us_operation u))) (va_usage v))"

text \<open>\<open>ORDER BY created_at DESC LIMIT 1\<close>.\<close>

definition newest :: "usage_sample list \<Rightarrow> usage_sample option" where
  "newest rows = (case rows of [] \<Rightarrow> None | u # us \<Rightarrow> Some (max_key us_created u us))"

definition latest_context_usage :: "vault \<Rightarrow> string \<Rightarrow> string option \<Rightarrow> usage_sample option" where
  "latest_context_usage v branch_id session_id =
     newest (filter (\<lambda>u. us_branch u = branch_id \<and> us_context u > 0 \<and> (session_id = None \<or> us_session u = session_id))
       (va_usage v))"

definition latest_provider_context_usage :: "vault \<Rightarrow> string \<Rightarrow> string option \<Rightarrow> usage_sample option" where
  "latest_provider_context_usage v branch_id session_id =
     newest (filter (\<lambda>u. us_branch u = branch_id \<and> us_operation u = ''model_usage'' \<and> \<not> us_estimated u \<and> us_context u > 0
       \<and> (session_id = None \<or> us_session u = session_id)) (va_usage v))"

section \<open>Hook context counters\<close>

definition last_counter :: "vault \<Rightarrow> string \<Rightarrow> string \<Rightarrow> hook_counter option" where
  "last_counter v branch_id session_id =
     find_last (\<lambda>k. hk_branch k = branch_id \<and> hk_session k = session_id) (va_hooks v)"

definition insert_counter :: "hook_counter \<Rightarrow> vault \<Rightarrow> vault result" where
  "insert_counter k v =
     bindr (insert_keyed hk_receipt ''hook_context_counters.receipt_key'' k (va_hooks v)) (\<lambda>rows.
     bindr (foreign_key (hk_branch k \<in> br_id ` set (st_branches (va_store v)) \<and> session_known (va_store v) (Some (hk_session k))
                         \<and> event_known (va_store v) (hk_event k))) (\<lambda>_.
       Inr (v\<lparr>va_hooks := rows\<rparr>)))"

definition record_hook_context_increment ::
  "world \<Rightarrow> string \<Rightarrow> string \<Rightarrow> string \<Rightarrow> string option \<Rightarrow> string \<Rightarrow> int \<Rightarrow> vault \<Rightarrow> ((int \<times> int \<times> bool) \<times> vault) result" where
  "record_hook_context_increment w receipt_key branch_id session_id event_id event_name increment_tokens v =
     (if increment_tokens < 0 then Inl (ValueError ''hook context increment cannot be negative'')
      else (case List.find (\<lambda>k. hk_receipt k = receipt_key) (va_hooks v) of
              Some existing \<Rightarrow> Inr ((hk_increment existing, hk_cumulative existing, False), v)
            | None \<Rightarrow>
                (let cumulative = (case last_counter v branch_id session_id of None \<Rightarrow> 0 | Some p \<Rightarrow> hk_cumulative p) + increment_tokens;
                     (now, s1) = read_clock w (va_store v)
                 in bindr (insert_counter
                      \<lparr>hk_receipt = receipt_key, hk_branch = branch_id, hk_session = session_id, hk_event = event_id,
                       hk_name = event_name, hk_increment = increment_tokens, hk_cumulative = cumulative, hk_created = now\<rparr>
                      (v\<lparr>va_store := s1\<rparr>)) (\<lambda>v'.
                    Inr ((increment_tokens, cumulative, True), v')))))"

text \<open>The total of a session is its last row; without a session, the sum over the last rows of all of them.\<close>

definition hook_context_total :: "vault \<Rightarrow> string \<Rightarrow> string option \<Rightarrow> int" where
  "hook_context_total v branch_id session_id =
     (case session_id of
        Some i \<Rightarrow> (case last_counter v branch_id i of None \<Rightarrow> 0 | Some k \<Rightarrow> hk_cumulative k)
      | None \<Rightarrow>
          sum_list (map (\<lambda>i. case last_counter v branch_id i of None \<Rightarrow> 0 | Some k \<Rightarrow> hk_cumulative k)
            (remdups (map hk_session (filter (\<lambda>k. hk_branch k = branch_id) (va_hooks v))))))"

section \<open>Budget policies\<close>

definition insert_policy :: "budget_policy \<Rightarrow> vault \<Rightarrow> vault result" where
  "insert_policy p v =
     bindr (insert_keyed bp_id ''budget_policies.id'' p (va_policies v)) (\<lambda>_.
     bindr (insert_keyed (\<lambda>p. (bp_branch p, bp_version p)) ''budget_policies.branch_id, budget_policies.version'' p (va_policies v)) (\<lambda>rows.
       Inr (v\<lparr>va_policies := rows\<rparr>)))"

text \<open>Whether the ratios of a policy increase strictly from above 0 to at most 1.\<close>

definition ratios_ok :: "rat \<Rightarrow> rat \<Rightarrow> rat \<Rightarrow> rat \<Rightarrow> bool" where
  "ratios_ok snapshot compaction handoff hard \<longleftrightarrow> 0 < snapshot \<and> snapshot < compaction \<and> compaction < handoff \<and> handoff < hard \<and> hard \<le> 1"

definition set_budget_policy ::
  "world \<Rightarrow> string \<Rightarrow> int \<Rightarrow> rat \<Rightarrow> rat \<Rightarrow> rat \<Rightarrow> rat \<Rightarrow> int \<Rightarrow> vault \<Rightarrow> (budget_policy \<times> vault) result" where
  "set_budget_policy w branch_id window snapshot compaction handoff hard interval v =
     (if window \<le> 0 \<or> interval < 0 then Inl (ValueError ''budget sizes and intervals must be positive'')
      else if \<not> ratios_ok snapshot compaction handoff hard
      then Inl (ValueError ''budget ratios must be strictly increasing and at most 1'')
      else if find_branch (st_branches (va_store v)) branch_id = None then Inl (unknown_branch branch_id)
      else (let version = Max (insert 0 (bp_version ` {p \<in> set (va_policies v). bp_branch p = branch_id})) + 1;
                (hex, s1) = fresh_uuid w (va_store v);
                (now, s2) = read_clock w s1;
                row = \<lparr>bp_id = ''policy_'' @ hex, bp_branch = branch_id, bp_version = version, bp_window = window,
                       bp_snapshot = snapshot, bp_compact = compaction, bp_handoff = handoff, bp_hard = hard,
                       bp_interval = interval, bp_created = now, bp_agent = None, bp_profile = None,
                       bp_recommended = None, bp_reserve = 0, bp_source = ''database''\<rparr>
            in bindr (insert_policy row (v\<lparr>va_store := s2\<rparr>)) (\<lambda>v'. Inr (row, v'))))"

definition default_policy :: "string \<Rightarrow> budget_policy" where
  "default_policy branch_id =
     \<lparr>bp_id = ''default:'' @ branch_id, bp_branch = branch_id, bp_version = 0, bp_window = 200000,
      bp_snapshot = fl (45 / 100), bp_compact = fl (60 / 100), bp_handoff = fl (75 / 100), bp_hard = fl (90 / 100),
      bp_interval = 20, bp_created = ''1970-01-01T00:00:00+00:00'', bp_agent = None, bp_profile = None,
      bp_recommended = None, bp_reserve = 0, bp_source = ''database''\<rparr>"

definition get_budget_policy :: "vault \<Rightarrow> string \<Rightarrow> budget_policy" where
  "get_budget_policy v branch_id =
     (case filter (\<lambda>p. bp_branch p = branch_id) (va_policies v) of
        [] \<Rightarrow> default_policy branch_id
      | p # ps \<Rightarrow> max_key bp_version p ps)"

section \<open>Governor actions\<close>

definition insert_action :: "governor_action \<Rightarrow> vault \<Rightarrow> vault result" where
  "insert_action a v =
     bindr (insert_keyed ga_id ''governor_actions.id'' a (va_actions v)) (\<lambda>rows.
     bindr (foreign_key (ga_branch a \<in> br_id ` set (st_branches (va_store v)) \<and> session_known (va_store v) (ga_session a)
                         \<and> event_known (va_store v) (ga_event a))) (\<lambda>_.
       Inr (v\<lparr>va_actions := rows\<rparr>)))"

definition record_governor_action :: "world \<Rightarrow> governor_action \<Rightarrow> vault \<Rightarrow> (bool \<times> vault) result" where
  "record_governor_action w a v =
     (if ga_receipt a \<in> ga_receipt ` set (va_actions v) then Inr (False, v)
      else (let (hex, s1) = fresh_uuid w (va_store v);
                (now, s2) = read_clock w s1
            in bindr (insert_action (a\<lparr>ga_id := ''gov_'' @ hex, ga_created := now\<rparr>) (v\<lparr>va_store := s2\<rparr>))
                 (\<lambda>v'. Inr (True, v'))))"

definition governor_action_source :: "vault \<Rightarrow> string \<Rightarrow> string option" where
  "governor_action_source v receipt_key =
     (case List.find (\<lambda>a. ga_receipt a = receipt_key) (va_actions v) of
        None \<Rightarrow> None
      | Some a \<Rightarrow> if given (ga_event a) then ga_event a else None)"

definition last_governor_action_seq :: "vault \<Rightarrow> string \<Rightarrow> string \<Rightarrow> string option \<Rightarrow> int option" where
  "last_governor_action_seq v branch_id action policy_id =
     (case List.find (\<lambda>a. policy_id = None \<or> jget (ga_payload a) ''policy_id'' = JStr (the policy_id))
             (sorted_rev_key ga_created (filter (\<lambda>a. ga_branch a = branch_id \<and> ga_action a = action) (va_actions v))) of
        None \<Rightarrow> None
      | Some a \<Rightarrow> (case ga_event a of
                     None \<Rightarrow> None
                   | Some i \<Rightarrow> map_option ev_seq (find_event (va_store v) i)))"

section \<open>Estimates and thresholds\<close>

text \<open>\<open>math.ceil\<close> of a float, and the estimate of \<open>prompt.py\<close>; no tokenizer is installed.\<close>

definition float_times :: "int \<Rightarrow> rat \<Rightarrow> rat" where
  "float_times n x = fl (of_int n * x)"

definition conservative_token_estimate :: "string \<Rightarrow> int" where
  "conservative_token_estimate t =
     (if t = [] then 0
      else max (max 1 \<lceil>fl (of_int (int (utf8_len t)) / 3)\<rceil>)
             \<lceil>float_times (int (length (split_ws t))) (fl (135 / 100))\<rceil>)"

definition estimate_context :: "vault \<Rightarrow> string \<Rightarrow> string option \<Rightarrow> (int \<times> string) result" where
  "estimate_context v branch_id session_id =
     (let reported = latest_provider_context_usage v branch_id session_id;
          hook_total = (if session_id \<noteq> None then hook_context_total v branch_id session_id else 0);
          reported_tokens = (case reported of None \<Rightarrow> 0 | Some u \<Rightarrow> us_context u)
      in if reported \<noteq> None \<or> hook_total \<noteq> 0
         then Inr (if reported_tokens \<ge> hook_total then (reported_tokens, ''provider-reported'')
                   else (hook_total, ''hook-cumulative-raw-estimate''))
         else bindr (query_events (va_store v) branch_id all_events) (\<lambda>events.
                Inr (sum_list (map (\<lambda>e. conservative_token_estimate (ev_content e)) events), ''local-canonical-raw-estimate'')))"

record thresholds =
  th_snapshot :: int
  th_compact :: int
  th_handoff :: int
  th_hard :: int

definition governor_thresholds :: "budget_policy \<Rightarrow> thresholds result" where
  "governor_thresholds p =
     (let window = bp_window p;
          reserved = (\<lambda>n. if bp_reserve p \<noteq> 0 then min n (window - bp_reserve p) else n);
          physical_handoff = reserved \<lceil>float_times window (bp_handoff p)\<rceil>;
          handoff = (case bp_recommended p of None \<Rightarrow> physical_handoff | Some n \<Rightarrow> min physical_handoff n);
          scale = (if physical_handoff \<noteq> 0 then fl (of_int handoff / of_int physical_handoff) else 1);
          snapshot = max 1 \<lceil>fl (float_times window (bp_snapshot p) * scale)\<rceil>;
          compaction = max (snapshot + 1) \<lceil>fl (float_times window (bp_compact p) * scale)\<rceil>;
          handoff = max (compaction + 1) handoff;
          hard = reserved \<lceil>float_times window (bp_hard p)\<rceil>
      in if hard \<le> handoff
         then Inl (ValueError (''invalid policy '' @ bp_id p @ '': hard threshold '' @ show_int hard
                    @ '' must exceed handoff '' @ show_int handoff))
         else Inr \<lparr>th_snapshot = snapshot, th_compact = compaction, th_handoff = handoff, th_hard = hard\<rparr>)"

record decision =
  de_branch :: string
  de_context :: int
  de_ratio :: rat
  de_actions :: "string list"
  de_reasons :: "string list"
  de_policy :: string
  de_source :: string

definition labelled_thresholds :: "thresholds \<Rightarrow> (string \<times> string \<times> int) list" where
  "labelled_thresholds t =
     [(''snapshot'', ''snapshot'', th_snapshot t), (''compact'', ''compaction'', th_compact t),
      (''handoff'', ''recommended handoff'', th_handoff t), (''handoff_required'', ''hard handoff'', th_hard t)]"

text \<open>\<open>decide\<close>, with the policy that \<open>budget_policy\<close> resolved.\<close>

definition governor_decide :: "vault \<Rightarrow> budget_policy \<Rightarrow> string \<Rightarrow> string option \<Rightarrow> decision result" where
  "governor_decide v policy branch_id session_id =
     bindr (governor_thresholds policy) (\<lambda>thresholds.
     bindr (estimate_context v branch_id session_id) (\<lambda>(context_tokens, source).
       let due = filter (\<lambda>(action, label, threshold). context_tokens \<ge> threshold) (labelled_thresholds thresholds)
       in Inr \<lparr>de_branch = branch_id, de_context = context_tokens,
               de_ratio = fl (of_int context_tokens / of_int (bp_window policy)),
               de_actions = map fst due,
               de_reasons = map (\<lambda>(action, label, threshold). ''context '' @ show_int context_tokens @ '' reached '' @ label
                              @ '' threshold '' @ show_int threshold) due,
               de_policy = bp_id policy, de_source = source\<rparr>))"

section \<open>Counting what a hook saw\<close>

record counter_report =
  cn_event :: string
  cn_increment :: int
  cn_cumulative :: int
  cn_threshold :: int
  cn_window :: int
  cn_ratio :: rat
  cn_crossed :: bool

text \<open>\<open>json.dumps(value, ensure_ascii=False, sort_keys=True)\<close>, with a blank after commas and colons.\<close>

fun spaced_json :: "json \<Rightarrow> string" where
  "spaced_json (JArr xs) = ''['' @ join '', '' (map spaced_json xs) @ '']''"
| "spaced_json (JObj kvs) =
     ''{'' @ join '', '' (map (\<lambda>(k, t). json_string k @ '': '' @ t)
        (sort_key fst (map (\<lambda>(k, v). (k, spaced_json v)) kvs))) @ ''}''"
| "spaced_json v = json_text v"

definition context_parts :: "event \<Rightarrow> string list" where
  "context_parts e =
     (if ev_kind e = ''tool_call''
      then ev_content e # (case jget (ev_payload e) ''tool_input'' of JNull \<Rightarrow> [] | x \<Rightarrow> [spaced_json x])
      else [ev_content e])"

definition record_hook_context ::
  "world \<Rightarrow> event list \<Rightarrow> string \<Rightarrow> string \<Rightarrow> string \<Rightarrow> string \<Rightarrow> int \<Rightarrow> int \<Rightarrow> vault
    \<Rightarrow> (counter_report option \<times> vault) result" where
  "record_hook_context w events event_name branch_id session_id receipt_key window threshold v =
     (if event_name \<notin> {''UserPromptSubmit'', ''PostToolUse''} then Inr (None, v)
      else let increment = conservative_token_estimate (join [CHR 0x0A] (concat (map context_parts events)))
                 + 16 * int (length events)
           in bindr (record_hook_context_increment w (''hook-context:'' @ receipt_key) branch_id session_id
                       (if events = [] then None else Some (ev_id (last events))) event_name increment v)
                (\<lambda>((stored, cumulative, created), v').
                  Inr (Some \<lparr>cn_event = event_name, cn_increment = stored, cn_cumulative = cumulative,
                             cn_threshold = threshold, cn_window = window,
                             cn_ratio = fl (of_int cumulative / of_int window),
                             cn_crossed = (cumulative - stored < threshold \<and> threshold \<le> cumulative)\<rparr>, v')))"

definition checkpoint_action :: "counter_report \<Rightarrow> string \<Rightarrow> string \<Rightarrow> event \<Rightarrow> string option \<Rightarrow> budget_policy \<Rightarrow> string \<Rightarrow> governor_action" where
  "checkpoint_action c branch_id session_id source agent policy receipt =
     \<lparr>ga_id = [], ga_receipt = receipt, ga_branch = branch_id, ga_session = Some session_id, ga_event = Some (ev_id source),
      ga_action = ''context_checkpoint'',
      ga_reason = ''cumulative raw hook context '' @ show_int (cn_cumulative c) @ '' reached snapshot threshold '' @ show_int (cn_threshold c),
      ga_context = cn_cumulative c, ga_threshold = cn_threshold c,
      ga_payload = [(''policy_id'', JStr (bp_id policy)), (''agent'', opt_str agent), (''source'', JStr ''hook-cumulative-raw-estimate''),
        (''event_name'', JStr (cn_event c)), (''increment_tokens'', JInt (cn_increment c))],
      ga_created = []\<rparr>"

text \<open>\<open>register_context_checkpoint\<close>: once for a threshold of a session, when the replay tail is long enough.\<close>

definition register_context_checkpoint ::
  "world \<Rightarrow> counter_report \<Rightarrow> string \<Rightarrow> string \<Rightarrow> event \<Rightarrow> string option \<Rightarrow> budget_policy \<Rightarrow> vault \<Rightarrow> (bool \<times> vault) result" where
  "register_context_checkpoint w c branch_id session_id source agent policy v =
     (if cn_cumulative c < cn_threshold c then Inr (False, v)
      else let receipt = ''context-checkpoint:'' @ session_id @ '':'' @ bp_id policy @ '':'' @ show_int (cn_threshold c)
           in if governor_action_source v receipt = Some (ev_id source) then Inr (True, v)
              else bindr (snapshot_replay_tail_size v branch_id) (\<lambda>tail_bytes.
                if int tail_bytes < max 1 (cn_threshold c * 4) then Inr (False, v)
                else record_governor_action w (checkpoint_action c branch_id session_id source agent policy receipt) v))"

section \<open>Configured limits\<close>

text \<open>The limits of a configuration file, their values already converted to numbers.\<close>

record limits =
  li_window :: int
  li_snapshot :: pyfloat
  li_compact :: pyfloat
  li_handoff :: pyfloat
  li_hard :: pyfloat
  li_recommended :: int
  li_reserve :: int
  li_interval :: int

definition validate_limits :: "limits \<Rightarrow> limits result" where
  "validate_limits l =
     (let window = li_window l; reserve = li_reserve l;
          handoff = fl_value (li_handoff l); hard = fl_value (li_hard l)
      in if window \<le> 0 \<or> reserve < 0 \<or> reserve \<ge> window \<or> li_recommended l \<le> 0 \<or> li_interval l < 0
         then Inl (ValueError ''token limits must be positive and reserve must be smaller than the context window'')
         else if \<not> ratios_ok (fl_value (li_snapshot l)) (fl_value (li_compact l)) handoff hard
         then Inl (ValueError ''budget ratios must be strictly increasing and at most 1'')
         else if min (li_recommended l) (min \<lceil>float_times window handoff\<rceil> (window - reserve))
                 \<ge> min \<lceil>float_times window hard\<rceil> (window - reserve)
         then Inl (ValueError ''recommended handoff must leave room before the hard limit'')
         else Inr l)"

definition limits_dict :: "limits \<Rightarrow> (string, json) dict" where
  "limits_dict l =
     [(''context_window_tokens'', JInt (li_window l)), (''snapshot_ratio'', JFloat (fl_repr (li_snapshot l))),
      (''compact_ratio'', JFloat (fl_repr (li_compact l))), (''handoff_ratio'', JFloat (fl_repr (li_handoff l))),
      (''hard_limit_ratio'', JFloat (fl_repr (li_hard l))), (''recommended_handoff_tokens'', JInt (li_recommended l)),
      (''reserve_tokens'', JInt (li_reserve l)), (''min_action_interval_events'', JInt (li_interval l))]"

definition config_policy :: "world \<Rightarrow> string \<Rightarrow> string \<Rightarrow> limits \<Rightarrow> string \<Rightarrow> string \<Rightarrow> budget_policy" where
  "config_policy w agent profile l branch_id source =
     \<lparr>bp_id = ''config:'' @ agent @ '':'' @ take 20 (hash_text w (profile @ '':'' @ json_text (JObj (limits_dict l)))),
      bp_branch = branch_id, bp_version = 1, bp_window = li_window l, bp_snapshot = fl_value (li_snapshot l),
      bp_compact = fl_value (li_compact l), bp_handoff = fl_value (li_handoff l), bp_hard = fl_value (li_hard l),
      bp_interval = li_interval l, bp_created = ''config'', bp_agent = Some agent, bp_profile = Some profile,
      bp_recommended = Some (li_recommended l), bp_reserve = li_reserve l, bp_source = source\<rparr>"

end
