(* ===== verification/VaultSystem.thy ===== *)
theory VaultSystem
  imports System Replay Usage
begin

text \<open>
  Snapshots, usage and the store as one system: the calls, what every call keeps of the
  snapshots that were taken and of the counters, and that a kept snapshot reads as it was
  written.
\<close>

section \<open>Calls\<close>

datatype vault_call =
    StoreCall store_call
  | TakeSnapshot "(string \<times> json) list" string "string option"
  | CreateSnapshot "(string \<times> json) list" "(string \<times> json) list" string "string option"
  | ReadSnapshot string
  | ReadLatest string
  | PruneSnapshots "string list" string
  | RecordUsage usage_sample
  | CountHook string string string "string option" string int
  | SetBudget string int rat rat rat rat int
  | RecordAction governor_action

definition kept :: "vault \<Rightarrow> ('a \<times> vault) result \<Rightarrow> vault" where
  "kept v r = (case r of Inl _ \<Rightarrow> v | Inr (_, v') \<Rightarrow> v')"

fun run_vault :: "world \<Rightarrow> media \<Rightarrow> vault_call \<Rightarrow> vault \<Rightarrow> vault" where
  "run_vault w md (StoreCall c) v = v\<lparr>va_store := attempt (run_store w) c (va_store v)\<rparr>"
| "run_vault w md (TakeSnapshot project b parent) v = snd (create_state_snapshot w md project b parent v)"
| "run_vault w md (CreateSnapshot state project b parent) v = snd (create_snapshot w md state project b parent v)"
| "run_vault w md (ReadSnapshot i) v = snd (get_snapshot w md i v)"
| "run_vault w md (ReadLatest b) v = snd (latest_snapshot w md b v)"
| "run_vault w md (PruneSnapshots is b) v = snd (prune_snapshot_blobs w md is b v)"
| "run_vault w md (RecordUsage u) v = kept v (record_usage w u v)"
| "run_vault w md (CountHook key b ses ev name n) v = kept v (record_hook_context_increment w key b ses ev name n v)"
| "run_vault w md (SetBudget b n p q r h k) v = kept v (set_budget_policy w b n p q r h k v)"
| "run_vault w md (RecordAction a) v = kept v (record_governor_action w a v)"

definition vault_after :: "world \<Rightarrow> media \<Rightarrow> vault_call list \<Rightarrow> vault \<Rightarrow> vault" where
  "vault_after w md calls v = fold (run_vault w md) calls v"

lemma vault_after_simps [simp]:
  "vault_after w md [] v = v" "vault_after w md (c # cs) v = vault_after w md cs (run_vault w md c v)"
  by (simp_all add: vault_after_def)

section \<open>What a call leaves alone\<close>

text \<open>The snapshots that are there stay, up to a blob whose pruning is on record.\<close>

definition keeps :: "vault \<Rightarrow> vault \<Rightarrow> bool" where
  "keeps v v' \<longleftrightarrow>
     (\<forall>i r. find_snapshot v i = Some r \<longrightarrow> find_snapshot v' i = Some r
        \<or> find_snapshot v' i = Some (r\<lparr>sn_blob := None\<rparr>) \<and> i \<in> pr_snapshot ` set (va_prunings v'))
     \<and> pr_snapshot ` set (va_prunings v) \<subseteq> pr_snapshot ` set (va_prunings v')"

lemma keeps_refl [simp]: "keeps v v"
  by (simp add: keeps_def)

lemma keeps_same: "va_snapshots v' = va_snapshots v \<Longrightarrow> va_prunings v' = va_prunings v \<Longrightarrow> keeps v v'"
  by (simp add: keeps_def find_snapshot_def)

lemma keeps_trans:
  assumes a: "keeps v v'" and b: "keeps v' v''"
  shows "keeps v v''"
  unfolding keeps_def
proof (intro conjI allI impI)
  show "pr_snapshot ` set (va_prunings v) \<subseteq> pr_snapshot ` set (va_prunings v'')"
    using conjunct2[OF a[unfolded keeps_def]] conjunct2[OF b[unfolded keeps_def]] by (rule subset_trans)
  fix i r assume r: "find_snapshot v i = Some r"
  consider "find_snapshot v' i = Some r"
    | "find_snapshot v' i = Some (r\<lparr>sn_blob := None\<rparr>)" "i \<in> pr_snapshot ` set (va_prunings v')"
    using a r unfolding keeps_def by blast
  then show "find_snapshot v'' i = Some r
      \<or> find_snapshot v'' i = Some (r\<lparr>sn_blob := None\<rparr>) \<and> i \<in> pr_snapshot ` set (va_prunings v'')"
  proof cases
    case 1
    then show ?thesis using b unfolding keeps_def by blast
  next
    case 2
    moreover have "pr_snapshot ` set (va_prunings v') \<subseteq> pr_snapshot ` set (va_prunings v'')" using b by (simp add: keeps_def)
    moreover have "find_snapshot v'' i = Some (r\<lparr>sn_blob := None\<rparr>)"
      using b 2(1) unfolding keeps_def by fastforce
    ultimately show ?thesis by blast
  qed
qed

text \<open>A step of the store that keeps its invariant and only lets it grow.\<close>

definition grown_store :: "world \<Rightarrow> store \<Rightarrow> store \<Rightarrow> bool" where
  "grown_store w s s' \<longleftrightarrow> (store_ok w s \<longrightarrow> store_ok w s' \<and> evolves s s')"

lemma grown_store_refl [simp]: "grown_store w s s"
  by (simp add: grown_store_def)

lemma grown_store_trans: "grown_store w s s' \<Longrightarrow> grown_store w s' s'' \<Longrightarrow> grown_store w s s''"
  unfolding grown_store_def using evolves_trans by blast

lemma grown_store_call: "run_store w c s = Inr (u, s') \<Longrightarrow> grown_store w s s'"
  unfolding grown_store_def using run_store_ok run_store_evolves by blast

lemma grown_store_attempt: "grown_store w s (attempt (run_store w) c s)"
  by (auto simp: attempt_def split: sum.splits intro: grown_store_call)

lemma grown_store_counters: "same_tables s s' \<Longrightarrow> grown_store w s s'"
  unfolding grown_store_def using audit_call_ok grown_same advances_evolves by (auto simp: same_tables_def)

lemma grown_store_ticks [simp]: "grown_store w s (s\<lparr>st_uuid := n, st_tick := m\<rparr>)" "grown_store w s (s\<lparr>st_tick := m\<rparr>)"
  by (rule grown_store_counters, simp add: same_tables_def only_audits_def)+

lemma grown_store_event:
  assumes "append_event_in_tx w d s = Inr (e, s')" "dr_channel d = INTERNAL"
  shows "grown_store w s s'"
proof -
  note app = append_event_in_tx_appended[OF assms(1)]
  have "store_ok w s \<Longrightarrow> store_ok w s'"
    using only_log_ok[OF _ append_event_in_tx_log_ok[OF store_okD(1) assms(1)] only_log_append[OF app]] assms(2) by simp
  moreover have "evolves s s'" by (rule advances_evolves[OF advances_append[OF app]])
  ultimately show ?thesis by (simp add: grown_store_def)
qed

text \<open>Operations that write no other table of the vault than the store.\<close>

definition same_vault :: "world \<Rightarrow> vault \<Rightarrow> vault \<Rightarrow> bool" where
  "same_vault w v v' \<longleftrightarrow> (\<exists>s. v' = v\<lparr>va_store := s\<rparr> \<and> grown_store w (va_store v) s)"

lemma same_vault_fields:
  assumes "same_vault w v v'"
  shows "va_snapshots v' = va_snapshots v" "va_prunings v' = va_prunings v" "va_usage v' = va_usage v"
    "va_hooks v' = va_hooks v" "va_policies v' = va_policies v" "va_actions v' = va_actions v"
    "grown_store w (va_store v) (va_store v')"
  using assms by (auto simp: same_vault_def)

lemma same_vault_refl [simp]: "same_vault w v v"
  unfolding same_vault_def by (rule exI[of _ "va_store v"]) simp

lemma same_vault_store: "grown_store w (va_store v) s \<Longrightarrow> same_vault w v (v\<lparr>va_store := s\<rparr>)"
  by (auto simp: same_vault_def)

lemma same_vault_trans: "same_vault w v v' \<Longrightarrow> same_vault w v' v'' \<Longrightarrow> same_vault w v v''"
  unfolding same_vault_def using grown_store_trans by fastforce

lemma raise_finding_same: "same_vault w v (snd (raise_snapshot_finding w i expected actual v))"
proof -
  have "grown_store w s s'" if "record_security_finding w ft key details s = Inr (f, s')" for ft key details s f s'
    by (rule grown_store_call[of w "RecordFinding ft key details" s "()" s']) (simp add: that)
  then show ?thesis by (auto simp: raise_snapshot_finding_def split: sum.splits intro!: same_vault_store)
qed

lemma raise_finding_raises: "fst (raise_snapshot_finding w i expected actual v) \<in> range Inl"
  by (simp add: raise_snapshot_finding_def split: sum.splits)

lemma guarded_cases:
  assumes "guarded_by_finding w v r = (x, v')"
  obtains (ok) y where "r = Inr (y, v')" "x = Inr y" | (error) e where "r = Inl e" "x \<in> range Inl" "same_vault w v v'"
proof (cases r)
  case (Inl e)
  have "(x, v') = (Inl e, v) \<or> (\<exists>i expected actual. raise_snapshot_finding w i expected actual v = (x, v'))"
    using assms Inl by (cases e) (auto simp: guarded_by_finding_def)
  moreover have "x \<in> range Inl \<and> same_vault w v v'" if "raise_snapshot_finding w i expected actual v = (x, v')" for i expected actual
    using that raise_finding_same raise_finding_raises by (metis fst_conv snd_conv)
  ultimately have "x \<in> range Inl \<and> same_vault w v v'" by auto
  then show ?thesis using error[OF Inl] by blast
next
  case (Inr p)
  then show ?thesis using assms ok[of "fst p"] by (cases p) (simp add: guarded_by_finding_def)
qed

lemma get_snapshot_same: "same_vault w v (snd (get_snapshot w md i v))"
proof -
  obtain x v' where r: "guarded_by_finding w v (bindr (read_snapshot w md i v) (\<lambda>snap. Inr (snap, v))) = (x, v')" by fastforce
  then have "same_vault w v v'" by (rule guarded_cases) (auto simp: bindr_eq_Inr)
  then show ?thesis using r by (simp add: get_snapshot_def)
qed

lemma latest_snapshot_same: "same_vault w v (snd (latest_snapshot w md b v))"
  using get_snapshot_same[of w v md] by (auto simp: latest_snapshot_def split_beta split: sum.splits option.splits)

lemma preflight_same: "prune_preflight w md is v = (x, v') \<Longrightarrow> same_vault w v v'"
proof (induction "is" arbitrary: v)
  case (Cons i "is")
  obtain y v1 where g: "get_snapshot w md i v = (y, v1)" by fastforce
  have "same_vault w v v1" using get_snapshot_same[of w v md i] g by simp
  then show ?case
    using Cons.prems Cons.IH[of v] Cons.IH[of v1] g same_vault_trans
    by (auto split: option.splits if_splits sum.splits)
qed simp

section \<open>Taking a snapshot\<close>

lemma insert_snapshot_Inr:
  assumes "insert_snapshot r v = Inr v'"
  shows "v' = v\<lparr>va_snapshots := va_snapshots v @ [r]\<rparr>" "sn_id r \<notin> sn_id ` set (va_snapshots v)"
  using assms by (auto simp: insert_snapshot_def bindr_eq_Inr split: if_splits)

text \<open>What a snapshot that was taken has, and the row that was written for it.\<close>

definition snapshot_taken ::
  "world \<Rightarrow> media \<Rightarrow> (string, json) dict \<Rightarrow> (string, json) dict \<Rightarrow> string \<Rightarrow> store \<Rightarrow> snapshot \<Rightarrow> snapshot_row \<Rightarrow> bool" where
  "snapshot_taken w md state project b s snap row \<longleftrightarrow>
     json_loads (md_float md) (json_text (JObj state)) = Some (JObj (sp_state snap))
     \<and> row = new_snapshot_row w md (sp_id snap) (sp_created snap) (json_text (JObj state)) project (sp_parent snap) (sp_cursor snap) b
     \<and> sp_branch snap = b \<and> sp_project snap = project \<and> sp_format snap = FULL_FORMAT
     \<and> sp_sha snap = Some (hash_text w (json_text (JObj state))) \<and> sp_replay snap = Some SNAPSHOT_REPLAY_CODE_VERSION
     \<and> sp_available snap
     \<and> (\<exists>es. query_events s b all_events = Inr es \<and> sp_cursor snap = (if es = [] then 0 else ev_seq (last es)))"

definition counted :: "store \<Rightarrow> store" where
  "counted s = s\<lparr>st_uuid := st_uuid s + 1, st_tick := st_tick s + 1\<rparr>"

lemma take_snapshot_Inr:
  assumes run: "take_snapshot w md state project b parent i now v = Inr (snap, v')"
  shows "\<exists>row. snapshot_taken w md state project b (va_store v) snap row \<and> insert_snapshot row v = Inr v'"
proof -
  let ?written = "json_text (JObj state)"
  obtain m where m: "json_loads (md_float md) ?written = Some (JObj m)"
    using run by (auto simp: take_snapshot_def Let_def split: option.splits json.splits)
  obtain lin p es where "lineage (va_store v) b = Inr lin" "check_parent w md v lin b parent = Inr p"
      and es: "query_events (va_store v) b all_events = Inr es"
      and row: "insert_snapshot (new_snapshot_row w md i now ?written project p (if es = [] then 0 else ev_seq (last es)) b) v = Inr v'"
      and snap: "snap = \<lparr>sp_id = i, sp_branch = b, sp_parent = p, sp_cursor = (if es = [] then 0 else ev_seq (last es)),
        sp_state = m, sp_project = project, sp_created = now, sp_format = FULL_FORMAT, sp_sha = Some (hash_text w ?written),
        sp_replay = Some SNAPSHOT_REPLAY_CODE_VERSION, sp_available = True\<rparr>"
    using run unfolding take_snapshot_def Let_def m option.case json.case bindr_eq_Inr by auto
  then show ?thesis using m by (intro exI conjI) (simp_all add: snapshot_taken_def)
qed

lemma create_snapshot_cases:
  assumes run: "create_snapshot w md state project b parent v = (x, v')"
  obtains (taken) snap row where "x = Inr snap" "snapshot_taken w md state project b (counted (va_store v)) snap row"
      "v' = v\<lparr>va_store := counted (va_store v), va_snapshots := va_snapshots v @ [row]\<rparr>"
      "sn_id row \<notin> sn_id ` set (va_snapshots v)"
  | (failed) "x \<in> range Inl" "same_vault w v v'"
proof -
  have "guarded_by_finding w (v\<lparr>va_store := counted (va_store v)\<rparr>)
      (take_snapshot w md state project b parent (''snp_'' @ w_uuid w (st_uuid (va_store v))) (w_now w (st_tick (va_store v)))
         (v\<lparr>va_store := counted (va_store v)\<rparr>)) = (x, v')"
    using run by (simp add: create_snapshot_def fresh_uuid_def read_clock_def counted_def Let_def)
  then show thesis
  proof (cases rule: guarded_cases)
    case (ok y)
    obtain row where row: "snapshot_taken w md state project b (counted (va_store v)) y row"
        "insert_snapshot row (v\<lparr>va_store := counted (va_store v)\<rparr>) = Inr v'"
      using take_snapshot_Inr[OF ok(1)] by auto
    show thesis by (rule taken[OF ok(2) row(1)]) (use insert_snapshot_Inr[OF row(2)] in simp_all)
  next
    case (error e)
    have "same_vault w v (v\<lparr>va_store := counted (va_store v)\<rparr>)" by (rule same_vault_store) (simp add: counted_def)
    then show thesis using failed[OF error(2)] same_vault_trans error(3) by blast
  qed
qed

section \<open>Pruning\<close>

lemma find_map_key: "(\<And>r. key (f r) = key r) \<Longrightarrow> List.find (\<lambda>r. key r = i) (map f rows) = map_option f (List.find (\<lambda>r. key r = i) rows)"
  by (induction rows) auto

lemma insert_prunings_keeps:
  "insert_prunings w e items v = Inr v' \<Longrightarrow> keeps v v' \<and> grown_store w (va_store v) (va_store v')
     \<and> va_hooks v' = va_hooks v \<and> va_usage v' = va_usage v \<and> va_policies v' = va_policies v \<and> va_actions v' = va_actions v"
proof (induction items arbitrary: v)
  case Nil
  then show ?case by simp
next
  case (Cons item items)
  obtain i sha where item: "item = (i, sha)" by fastforce
  obtain row s where row: "pr_snapshot row = i" "grown_store w (va_store v) s" and
    rest: "insert_prunings w e items (v\<lparr>va_store := s, va_prunings := va_prunings v @ [row],
       va_snapshots := map (\<lambda>r. if sn_id r = i then r\<lparr>sn_blob := None\<rparr> else r) (va_snapshots v)\<rparr>) = Inr v'"
    using Cons.prems
    by (auto simp: item fresh_uuid_def read_clock_def Let_def bindr_eq_Inr intro: that[rotated 2])
  let ?v = "v\<lparr>va_store := s, va_prunings := va_prunings v @ [row],
       va_snapshots := map (\<lambda>r. if sn_id r = i then r\<lparr>sn_blob := None\<rparr> else r) (va_snapshots v)\<rparr>"
  have find: "find_snapshot ?v j = map_option (\<lambda>r. if sn_id r = i then r\<lparr>sn_blob := None\<rparr> else r) (find_snapshot v j)" for j
    unfolding find_snapshot_def by (simp add: find_map_key)
  have "keeps v ?v"
    using find_snapshot_Some[of v] row(1) unfolding keeps_def find by auto
  then show ?case using Cons.IH[OF rest] keeps_trans grown_store_trans[OF row(2)] by auto
qed

lemma prune_keeps:
  assumes "prune_snapshot_blobs w md is b v = (x, v')"
  shows "keeps v v' \<and> grown_store w (va_store v) (va_store v') \<and> va_hooks v' = va_hooks v"
proof -
  have same: "keeps v v1 \<and> grown_store w (va_store v) (va_store v1) \<and> va_hooks v1 = va_hooks v" if "same_vault w v v1" for v1
    using same_vault_fields[OF that] keeps_same by simp
  have rows: "keeps v1 v2 \<and> grown_store w (va_store v1) (va_store v2) \<and> va_hooks v2 = va_hooks v1"
    if rows: "prune_rows w req b v1 = Inr (r, v2)" for req v1 r v2
  proof (cases "v2 = v1")
    case False
    then obtain items e s1 where "append_event_in_tx w (prune_event b items) (va_store v1) = Inr (e, s1)"
        and ins: "insert_prunings w (ev_id e) items (v1\<lparr>va_store := s1\<rparr>) = Inr v2"
      using rows unfolding prune_rows_def Let_def by (auto simp: bindr_eq_Inr split: if_splits)
    then have "grown_store w (va_store v1) s1" using grown_store_event by (simp add: prune_event_def)
    then show ?thesis
      using insert_prunings_keeps[OF ins] keeps_trans[OF keeps_same[of "v1\<lparr>va_store := s1\<rparr>" v1]] grown_store_trans by auto
  qed simp
  show ?thesis
  proof (cases "prune_preflight w md (uniq is) v")
    case (Pair y v1)
    note v1 = same[OF preflight_same[OF Pair]]
    have "v' = v \<or> v' = v1 \<or> (\<exists>r. prune_rows w (uniq is) b v1 = Inr (r, v'))"
      using assms Pair by (auto simp: prune_snapshot_blobs_def Let_def split: if_splits sum.splits)
    then consider "v' = v" | "v' = v1" | r where "prune_rows w (uniq is) b v1 = Inr (r, v')" by blast
    then show ?thesis
    proof cases
      case 3
      note two = rows[OF 3]
      show ?thesis
        using keeps_trans[of v v1 v'] grown_store_trans[of w "va_store v" "va_store v1" "va_store v'"] v1 two by simp
    qed (use v1 in simp_all)
  qed
qed

section \<open>Every call\<close>

lemma taken_keeps:
  assumes "create_snapshot w md state project b parent v = (x, v')"
  shows "keeps v v' \<and> grown_store w (va_store v) (va_store v') \<and> va_hooks v' = va_hooks v"
proof (rule create_snapshot_cases[OF assms], goal_cases)
  case (1 snap row)
  have "find_snapshot v' i = Some r" if "find_snapshot v i = Some r" for i r
    using that by (auto simp: find_snapshot_def 1(3) find_append[of "\<lambda>r. sn_id r = i" "va_snapshots v" r])
  then show ?case by (simp add: keeps_def 1(3) counted_def)
next
  case 2
  then show ?case using same_vault_fields[OF 2(2)] keeps_same by simp
qed

lemma usage_frames:
  "keeps v (kept v (record_usage w u v)) \<and> grown_store w (va_store v) (va_store (kept v (record_usage w u v)))
     \<and> va_hooks (kept v (record_usage w u v)) = va_hooks v"
  "keeps v (kept v (set_budget_policy w b n p q h k m v))
     \<and> grown_store w (va_store v) (va_store (kept v (set_budget_policy w b n p q h k m v)))
     \<and> va_hooks (kept v (set_budget_policy w b n p q h k m v)) = va_hooks v"
  "keeps v (kept v (record_governor_action w a v))
     \<and> grown_store w (va_store v) (va_store (kept v (record_governor_action w a v)))
     \<and> va_hooks (kept v (record_governor_action w a v)) = va_hooks v"
  by (auto simp: kept_def record_usage_def insert_usage_def set_budget_policy_def insert_policy_def
      record_governor_action_def insert_action_def fresh_uuid_def read_clock_def Let_def bindr_eq_Inr
      split: sum.splits option.splits if_splits intro!: keeps_same)

lemma count_hook_cases:
  assumes "record_hook_context_increment w key b ses ev name n v = Inr (x, v')"
  obtains (known) k where "List.find (\<lambda>k. hk_receipt k = key) (va_hooks v) = Some k" "v' = v" "x = (hk_increment k, hk_cumulative k, False)"
  | (new) k m where "key \<notin> hk_receipt ` set (va_hooks v)" "hk_receipt k = key" "hk_branch k = b" "hk_session k = ses"
      "hk_increment k = n" "n \<ge> 0" "hk_cumulative k = hook_context_total v b (Some ses) + n"
      "v' = v\<lparr>va_store := va_store v\<lparr>st_tick := m\<rparr>, va_hooks := va_hooks v @ [k]\<rparr>" "x = (n, hk_cumulative k, True)"
proof (cases "List.find (\<lambda>k. hk_receipt k = key) (va_hooks v)")
  case (Some k)
  then show thesis using known[of k] assms by (simp add: record_hook_context_increment_def split: if_splits)
next
  case None
  let ?k = "\<lparr>hk_receipt = key, hk_branch = b, hk_session = ses, hk_event = ev, hk_name = name, hk_increment = n,
    hk_cumulative = hook_context_total v b (Some ses) + n, hk_created = w_now w (st_tick (va_store v))\<rparr>"
  have fresh: "key \<notin> hk_receipt ` set (va_hooks v)" using None by (auto simp: find_None_iff)
  have made: "n \<ge> 0" "v' = v\<lparr>va_store := va_store v\<lparr>st_tick := st_tick (va_store v) + 1\<rparr>, va_hooks := va_hooks v @ [?k]\<rparr>"
      "x = (n, hk_cumulative ?k, True)"
    using assms None
    by (auto simp: record_hook_context_increment_def insert_counter_def read_clock_def hook_context_total_def bindr_eq_Inr Let_def
        split: if_splits)
  show thesis by (rule new[OF fresh, of ?k, OF _ _ _ _ made(1) _ made(2,3)]) simp_all
qed

lemma count_hook_frame:
  "keeps v (kept v (record_hook_context_increment w key b ses ev name n v))
     \<and> grown_store w (va_store v) (va_store (kept v (record_hook_context_increment w key b ses ev name n v)))"
proof (cases "record_hook_context_increment w key b ses ev name n v")
  case (Inr p)
  obtain x v' where p: "p = (x, v')" by fastforce
  then have "kept v (record_hook_context_increment w key b ses ev name n v) = v'" using Inr by (simp add: kept_def)
  moreover have "keeps v v' \<and> grown_store w (va_store v) (va_store v')"
  proof (rule count_hook_cases[OF Inr[unfolded p]], goal_cases)
    case (1 k)
    show ?case unfolding 1(2) by simp
  next
    case (2 k m)
    show ?case unfolding 2(8) by (simp add: keeps_same)
  qed
  ultimately show ?thesis by simp
qed (simp add: kept_def)

lemma run_vault_step:
  "keeps v (run_vault w md c v) \<and> grown_store w (va_store v) (va_store (run_vault w md c v))
     \<and> ((\<exists>key b ses ev name n. c = CountHook key b ses ev name n) \<or> va_hooks (run_vault w md c v) = va_hooks v)"
proof -
  have same: "keeps v v' \<and> grown_store w (va_store v) (va_store v') \<and> va_hooks v' = va_hooks v" if "same_vault w v v'" for v'
    using same_vault_fields[OF that] keeps_same by simp
  have taken: "keeps v (snd r) \<and> grown_store w (va_store v) (va_store (snd r)) \<and> va_hooks (snd r) = va_hooks v"
    if "r = create_snapshot w md state project b parent v" for r state project b parent
    using taken_keeps[of w md state project b parent v "fst r" "snd r"] that by simp
  show ?thesis
  proof (cases c)
    case (StoreCall sc)
    then show ?thesis using grown_store_attempt by (simp add: keeps_same)
  next
    case (TakeSnapshot project b parent)
    then show ?thesis using taken[OF refl] by (auto simp: create_state_snapshot_def split: sum.splits)
  next
    case (CreateSnapshot state project b parent)
    then show ?thesis using taken[OF refl] by simp
  next
    case (ReadSnapshot i)
    then show ?thesis using same[OF get_snapshot_same] by simp
  next
    case (ReadLatest b)
    then show ?thesis using same[OF latest_snapshot_same] by simp
  next
    case (PruneSnapshots "is" b)
    then show ?thesis using prune_keeps[of w md "is" b v "fst (prune_snapshot_blobs w md is b v)" "snd (prune_snapshot_blobs w md is b v)"] by simp
  next
    case (CountHook key b ses ev name n)
    then show ?thesis using count_hook_frame by simp
  qed (use usage_frames in simp_all)
qed

lemma vault_after_keeps: "keeps v (vault_after w md calls v) \<and> grown_store w (va_store v) (va_store (vault_after w md calls v))"
proof (induction calls arbitrary: v)
  case (Cons c cs)
  then show ?case using run_vault_step[of v w md c] keeps_trans grown_store_trans by fastforce
qed simp

lemma vault_store_ok: "store_ok w (va_store (vault_after w md calls (initial_vault w)))"
  using vault_after_keeps[of "initial_vault w" w md calls] initial_store_ok[of w]
  by (simp add: grown_store_def initial_vault_def)

section \<open>Reading back\<close>

lemma read_taken:
  assumes zip: "md_unpack md (md_pack md (json_text (JObj state))) = Unpacked (json_text (JObj state))"
    and project: "json_loads (md_float md) (json_text (JObj project)) = Some (JObj project')"
    and taken: "snapshot_taken w md state project b s snap row" and there: "find_snapshot v (sp_id snap) = Some row"
  shows "get_snapshot w md (sp_id snap) v = (Inr (snap\<lparr>sp_project := project'\<rparr>), v)"
proof -
  have row: "row = new_snapshot_row w md (sp_id snap) (sp_created snap) (json_text (JObj state)) project (sp_parent snap) (sp_cursor snap) b"
    and loads: "json_loads (md_float md) (json_text (JObj state)) = Some (JObj (sp_state snap))"
    and rest: "sp_branch snap = b" "sp_project snap = project" "sp_format snap = FULL_FORMAT"
      "sp_sha snap = Some (hash_text w (json_text (JObj state)))" "sp_replay snap = Some SNAPSHOT_REPLAY_CODE_VERSION" "sp_available snap"
    using taken by (simp_all add: snapshot_taken_def)
  have "format_of row = FULL_FORMAT" by (simp add: row new_snapshot_row_def format_of_def FULL_FORMAT_def)
  moreover have "materialize_full w md True row = Inr (row, sp_state snap)"
    by (simp add: materialize_full_def row new_snapshot_row_def zip loads verified_state_def del: json_text.simps)
  ultimately have "materialize_snapshot w md True v [] (sp_id snap) = Inr (row, sp_state snap)"
    using there by (simp add: materialize_snapshot.simps)
  then show ?thesis
    using project rest by (simp add: get_snapshot_def read_snapshot_def guarded_by_finding_def row new_snapshot_row_def del: json_text.simps)
qed

lemma read_pruned:
  assumes "find_snapshot v i = Some row" "sn_format row = FULL_FORMAT" "sn_blob row = None" "sn_id row = i"
  shows "get_snapshot w md i v = (Inl (RuntimeError (''snapshot blob was pruned: '' @ i)), v)"
  using assms by (simp add: get_snapshot_def read_snapshot_def guarded_by_finding_def materialize_snapshot.simps materialize_full_def
      format_of_def FULL_FORMAT_def)

end
