(* ===== verification/ReplayFacts.thy ===== *)
theory ReplayFacts
  imports Replay TranscriptFacts ActiveMemory
begin

text \<open>
  The replay of a snapshot: that the transcript loops return on every list of events, that a
  state built from the tables and written as a document is one that the replay can start from,
  and what one event of the tail does to it.
\<close>

section \<open>The loops of the transcript return\<close>

text \<open>Pairing looks at kinds and payloads only, so events may be numbered by their position.\<close>

definition numbered :: "event list \<Rightarrow> event list" where
  "numbered es = map (\<lambda>(i, e). e\<lparr>ev_seq := int i\<rparr>) (enumerate 0 es)"

lemma pair_event_number: "pair_event (i, e\<lparr>ev_seq := n\<rparr>) st = pair_event (i, e) st"
  by (simp add: pair_event_def tool_call_id_def)

lemma pair_events_number:
  "pair_events (map (\<lambda>(i, e). (i, e\<lparr>ev_seq := f i\<rparr>)) xs) st = pair_events xs st"
  by (induction xs arbitrary: st) (auto simp: pair_event_number split: option.splits)

lemma group_events_number:
  "group_events ms (map (\<lambda>(i, e). (i, e\<lparr>ev_seq := f i\<rparr>)) xs) ps g' = None \<longleftrightarrow> group_events ms xs ps g = None"
proof (induction xs arbitrary: ps g g')
  case (Cons x xs)
  obtain i e where x: "x = (i, e)" by fastforce
  show ?case
  proof (cases "find_root ps i")
    case None
    then show ?thesis unfolding x by simp (intro conjI impI; rule Cons.IH)
  next
    case (Some a)
    then obtain r ps' where "find_root ps i = Some (r, ps')" by (cases a) auto
    then show ?thesis unfolding x by simp (intro conjI impI; rule Cons.IH)
  qed
qed simp

lemma enumerate_numbered: "enumerate 0 (numbered es) = map (\<lambda>(i, e). (i, e\<lparr>ev_seq := int i\<rparr>)) (enumerate 0 es)"
  by (rule nth_equalityI) (auto simp: numbered_def nth_enumerate_eq)

lemma length_numbered: "length (numbered es) = length es"
  by (simp add: numbered_def)

lemma interaction_groups_return: "\<exists>gs. interaction_groups es = Some gs"
proof -
  define ts where "ts = transcript_of es"
  have kinds: "transcript_of (numbered ts) = numbered ts"
    unfolding transcript_of_def filter_id_conv
  proof
    fix e assume "e \<in> set (numbered ts)"
    then obtain i where "i < length ts" "e = (ts ! i)\<lparr>ev_seq := int i\<rparr>"
      by (auto simp: numbered_def in_set_enumerate_eq)
    then show "ev_kind e \<in> set TRANSCRIPT_KINDS" using nth_mem[of i ts] by (simp add: ts_def transcript_of_def)
  qed
  have "sorted_wrt (\<lambda>a b. ev_seq a < ev_seq b) (numbered ts)"
    by (auto simp: sorted_wrt_iff_nth_less numbered_def nth_enumerate_eq)
  then have "interaction_groups (numbered ts) \<noteq> None"
    using interaction_groups_transcript[of "numbered ts"] kinds by simp
  then obtain st where st: "pair_events (enumerate 0 (numbered ts)) (no_pairs (length ts)) = Some st"
      "group_events (pa_matched st) (enumerate 0 (numbered ts)) (pa_parents st) [] \<noteq> None"
    by (auto simp: interaction_groups_def kinds Let_def length_numbered split: option.splits)
  have "pair_events (enumerate 0 ts) (no_pairs (length ts)) = Some st"
    using st(1) unfolding enumerate_numbered pair_events_number .
  moreover have "group_events (pa_matched st) (enumerate 0 ts) (pa_parents st) [] \<noteq> None"
    using st(2) unfolding enumerate_numbered group_events_number[where g = "[]"] .
  ultimately show ?thesis by (auto simp: interaction_groups_def ts_def[symmetric])
qed

lemma recent_complete_events_return: "\<exists>es'. recent_complete_events es n = Some es'"
  using interaction_groups_return[of es] by (auto simp: recent_complete_events_def)

section \<open>Documents\<close>

text \<open>What \<open>json.loads\<close> makes of a document that was written with sorted keys.\<close>

definition sorted_dict :: "(string, json) dict \<Rightarrow> (string, json) dict" where
  "sorted_dict d = sort_key fst (map (\<lambda>(k, v). (k, json_sorted v)) d)"

lemma json_loads_dict: "json_ok rf (JObj d) \<Longrightarrow> json_loads rf (json_text (JObj d)) = Some (JObj (sorted_dict d))"
  using json_loads_text[of rf "JObj d"] by (simp add: sorted_dict_def del: json_text.simps json_ok.simps)

lemma json_sorted_obj: "json_sorted (JObj d) = JObj (sorted_dict d)"
  by (simp add: sorted_dict_def)

lemma set_sorted_dict: "set (sorted_dict d) = (\<lambda>(k, v). (k, json_sorted v)) ` set d"
  by (simp add: sorted_dict_def)

lemma map_of_sort_key: "distinct (map fst xs) \<Longrightarrow> map_of (sort_key fst xs) = map_of xs"
  by (rule map_of_inject_set[THEN iffD2]) (simp_all add: distinct_map)

lemma dget_sorted_dict [simp]: "distinct (map fst d) \<Longrightarrow> dget (sorted_dict d) k = map_option json_sorted (dget d k)"
  by (simp add: sorted_dict_def map_of_sort_key comp_def case_prod_unfold map_of_map[unfolded case_prod_unfold])

lemma json_sorted_plain [simp]: "json_sorted (opt_str v) = opt_str v"
  by (cases v) (simp_all add: opt_str_def)

lemma mapr_a_text [simp]: "mapr a_text (map JStr xs) = Inr xs"
  by (induction xs) (simp_all add: a_text_def)

lemma an_optional_str [simp]: "an_optional (opt_str v) = Inr v"
  by (cases v) (simp_all add: opt_str_def an_optional_def)

lemma set_dset: "set (dset k v d) \<subseteq> insert (k, v) (set d)"
  by (induction d) auto

lemma set_dpop: "set (dpop k d) \<subseteq> set d"
  by (induction d) auto

lemma set_dupdate: "set (dupdate d xs) \<subseteq> set d \<union> set xs"
proof (induction xs arbitrary: d)
  case (Cons x xs)
  then show ?case using Cons.IH[of "dset (fst x) (snd x) d"] set_dset[of "fst x" "snd x" d]
    by (force simp: dupdate_def case_prod_unfold)
qed (simp add: dupdate_def)

section \<open>States that can be replayed\<close>

definition versioned :: "json \<Rightarrow> bool" where
  "versioned v \<longleftrightarrow> (\<exists>d. v = JObj d \<and> (dget d ''version'' = None \<or> (\<exists>n. dget d ''version'' = Some (JInt n))))"

definition files_ok :: "(string, json) dict \<Rightarrow> bool" where
  "files_ok d \<longleftrightarrow> dget d ''files'' = None \<or> (\<exists>fs. dget d ''files'' = Some (JArr (map JStr fs)))"

definition memory_doc :: "json \<Rightarrow> bool" where
  "memory_doc v \<longleftrightarrow> (\<exists>d. v = JObj d \<and> files_ok d)"

definition event_doc :: "json \<Rightarrow> bool" where
  "event_doc v \<longleftrightarrow> (\<exists>d e. v = JObj d \<and> event_of_dict d = Inr e)"

definition live_ok :: "json live_state \<Rightarrow> bool" where
  "live_ok st \<longleftrightarrow> (\<forall>(k, v) \<in> set (ls_blocks st). versioned v)
     \<and> (\<forall>(k, v) \<in> set (ls_memories st). k \<in> range JStr \<and> memory_doc v)
     \<and> (\<forall>(k, v) \<in> set (ls_recent st). event_doc v) \<and> set (ls_order st) \<subseteq> range JStr"

text \<open>The texts of the blocks.\<close>

definition block_value :: "json \<Rightarrow> string option" where
  "block_value v = (case v of JObj d \<Rightarrow> (case dget d ''content'' of Some (JStr c) \<Rightarrow> Some c | _ \<Rightarrow> None) | _ \<Rightarrow> None)"

definition block_text :: "json live_state \<Rightarrow> string \<Rightarrow> string option" where
  "block_text st n = Option.bind (dget (ls_blocks st) (JStr n)) block_value"

lemma event_dict_doc: "event_of_dict (event_dict e) = Inr e"
  by (simp add: event_of_dict_def event_dict_def field_def jget_def dget_default_def a_text_def)

lemma event_dict_sorted_doc: "event_of_dict (sorted_dict (event_dict e)) = Inr (e\<lparr>ev_payload := sorted_dict (ev_payload e)\<rparr>)"
proof -
  have "distinct (map fst (event_dict e))" by (simp add: event_dict_def)
  note get = dget_sorted_dict[OF this]
  have "json_sorted \<circ> JStr = JStr" by (rule ext) simp
  then show ?thesis
    by (simp add: event_of_dict_def field_def jget_def dget_default_def a_text_def get)
      (simp add: event_dict_def json_sorted_obj a_text_def del: json_sorted.simps(2))
qed

section \<open>Starting\<close>

lemma start_state_sorted:
  "start_state (sorted_dict (state_dict st)) =
     Inr \<lparr>ls_blocks = map (\<lambda>(k, x). (JStr k, x)) (sorted_dict (ls_blocks st)),
          ls_memories = map (\<lambda>(k, x). (JStr k, x)) (sorted_dict (ls_memories st)),
          ls_index = map (\<lambda>(k, x). (JStr k, x)) (sorted_dict (ls_index st)),
          ls_recent = map (\<lambda>(k, x). (JStr k, x)) (sorted_dict (ls_recent st)),
          ls_order = map JStr (ls_order st),
          ls_timeline = map (\<lambda>(k, x). (JStr k, x)) (sorted_dict (ls_timeline st)), ls_lexical = []\<rparr>"
proof -
  have "distinct (map fst (state_dict st))" by (simp add: state_dict_def)
  note get = dget_sorted_dict[OF this]
  show ?thesis
    by (simp add: start_state_def get) (simp add: state_dict_def json_sorted_obj as_dict_def comp_def del: json_sorted.simps(2))
qed

section \<open>One event of the tail\<close>

definition tame :: "event \<Rightarrow> bool" where
  "tame e \<longleftrightarrow> ev_kind e \<noteq> ''memory_block''
     \<and> (ev_kind e = ''state'' \<and> jget (ev_payload e) ''operation'' = JStr ''derive_memory'' \<longrightarrow>
          (dget (ev_payload e) ''memory_id'' = None \<or> (\<exists>i. dget (ev_payload e) ''memory_id'' = Some (JStr i)))
          \<and> jget (ev_payload e) ''supersedes_id'' \<in> insert JNull (range JStr) \<and> files_ok (ev_payload e))"

lemma live_ok_fields:
  "ls_blocks st' = ls_blocks st \<Longrightarrow> ls_memories st' = ls_memories st \<Longrightarrow> ls_recent st' = ls_recent st \<Longrightarrow>
   ls_order st' = ls_order st \<Longrightarrow> live_ok st' = live_ok st"
  by (simp add: live_ok_def)

text \<open>The timeline and the recent events come first.\<close>

definition noted :: "event \<Rightarrow> json live_state \<Rightarrow> json live_state" where
  "noted e st0 =
     (let st1 = st0\<lparr>ls_timeline := dset (JStr (ev_id e)) (timeline_entry e) (ls_timeline st0)\<rparr>
      in if ev_kind e \<in> set TRANSCRIPT_KINDS
         then st1\<lparr>ls_recent := dset (JStr (ev_id e)) (JObj (event_dict e)) (ls_recent st1),
                 ls_order := (if JStr (ev_id e) \<in> set (ls_order st1) then ls_order st1 else ls_order st1 @ [JStr (ev_id e)])\<rparr>
         else st1)"

lemma noted_ok: "live_ok st \<Longrightarrow> live_ok (noted e st)"
proof -
  assume ok: "live_ok st"
  have "event_doc (JObj (event_dict e))" using event_dict_doc by (auto simp: event_doc_def)
  then have "\<forall>(k, v) \<in> set (dset (JStr (ev_id e)) (JObj (event_dict e)) (ls_recent st)). event_doc v"
    using ok set_dset[of "JStr (ev_id e)" "JObj (event_dict e)" "ls_recent st"] unfolding live_ok_def by blast
  then show ?thesis using ok by (simp add: live_ok_def noted_def Let_def)
qed

lemma noted_fields: "ls_blocks (noted e st) = ls_blocks st" "ls_memories (noted e st) = ls_memories st"
  by (simp_all add: noted_def Let_def)

lemma replay_event_noted:
  "replay_event e st =
     (if ev_kind e = ''memory_block''
      then bindr (replay_block e (ls_blocks (noted e st))) (\<lambda>blocks. Inr (noted e st\<lparr>ls_blocks := blocks\<rparr>))
      else if ev_kind e = ''state'' \<and> jget (ev_payload e) ''operation'' = JStr ''derive_memory'' then replay_memory e (noted e st)
      else Inr (noted e st))"
  by (simp only: replay_event_def noted_def Let_def)

lemma replay_memory_tame:
  assumes ok: "live_ok st" and i: "dget (ev_payload e) ''memory_id'' = None \<or> (\<exists>i. dget (ev_payload e) ''memory_id'' = Some (JStr i))"
    and old: "jget (ev_payload e) ''supersedes_id'' \<in> insert JNull (range JStr)" and files: "files_ok (ev_payload e)"
  shows "\<exists>st'. replay_memory e st = Inr st' \<and> live_ok st' \<and> ls_blocks st' = ls_blocks st"
proof -
  obtain k where k: "dget_default (ev_payload e) ''memory_id'' (JStr (''replay:'' @ ev_id e)) = JStr k"
    using i by (auto simp: dget_default_def)
  define item where "item = dset ''derivation_event_id'' (JStr (ev_id e)) (ev_payload e)"
  define drop_old :: "(json, json) dict \<Rightarrow> (json, json) dict"
    where "drop_old = (if truthy (jget item ''supersedes_id'') then dpop (jget item ''supersedes_id'') else (\<lambda>d. d))"
  define full where "full = dsetdefault ''version'' (JInt 1) (dsetdefault ''created_at'' (JStr (ev_created e))
        (dsetdefault ''branch_id'' (JStr (ev_branch e)) (dsetdefault ''id'' (JStr k) item)))"
  have item: "dget_default item ''memory_id'' (JStr (''replay:'' @ ev_id e)) = JStr k"
    "jget item ''supersedes_id'' = jget (ev_payload e) ''supersedes_id''"
    using k by (simp_all add: item_def dget_default_def)
  have hash: "(if truthy (jget item ''supersedes_id'') then hashable (jget item ''supersedes_id'') else Inr (jget item ''supersedes_id''))
      = Inr (jget item ''supersedes_id'')"
    using old by (auto simp: item(2) hashable_def)
  have hk: "hashable (JStr k) = Inr (JStr k)" by (simp add: hashable_def)
  have "memory_doc (JObj full)"
    using files by (auto simp: memory_doc_def files_ok_def full_def item_def)
  moreover have "set (drop_old (ls_memories st)) \<subseteq> set (ls_memories st)"
    unfolding drop_old_def using set_dpop[of "jget item ''supersedes_id''" "ls_memories st"] by simp
  ultimately have "\<forall>(k, v) \<in> set (dset (JStr k) (JObj full) (drop_old (ls_memories st))). k \<in> range JStr \<and> memory_doc v"
    using ok set_dset[of "JStr k" "JObj full" "drop_old (ls_memories st)"] unfolding live_ok_def by blast
  then have "live_ok (st\<lparr>ls_memories := dset (JStr k) (JObj full) (drop_old (ls_memories st)), ls_index := idx\<rparr>)" for idx
    using ok by (simp add: live_ok_def)
  then show ?thesis
    unfolding replay_memory_def Let_def item_def[symmetric] item(1) hash hk bindr_Inr
      drop_old_def[symmetric] full_def[symmetric] by simp
qed

lemma replay_event_tame:
  assumes "live_ok st" "tame e"
  shows "\<exists>st'. replay_event e st = Inr st' \<and> live_ok st' \<and> ls_blocks st' = ls_blocks st"
  using assms(2) noted_ok[OF assms(1), of e] replay_memory_tame[OF noted_ok[OF assms(1), of e], of e]
  by (auto simp: replay_event_noted tame_def noted_fields)

lemma replay_event_block:
  assumes ok: "live_ok st" and e: "ev_kind e = ''memory_block''" "jget (ev_payload e) ''block'' = JStr n" "n \<noteq> []"
  shows "\<exists>st'. replay_event e st = Inr st' \<and> live_ok st' \<and> block_text st' = (block_text st)(n \<mapsto> ev_content e)"
proof -
  let ?old = "case dget (ls_blocks st) (JStr n) of None \<Rightarrow> JObj [] | Some b \<Rightarrow> b"
  have "versioned ?old"
    using ok by (auto simp: live_ok_def versioned_def split: option.splits dest!: map_of_SomeD)
  then obtain d v where d: "?old = JObj d"
      "(case dget d ''version'' of None \<Rightarrow> Inr 0 | Some (JInt n) \<Rightarrow> Inr n | _ \<Rightarrow> Inl (TypeError ''int()'')) = (Inr v :: int result)"
    by (auto simp: versioned_def)
  define b where "b = JObj [(''id'', JStr (''replay:'' @ ev_id e)), (''branch_id'', JStr (ev_branch e)), (''name'', JStr n),
      (''content'', JStr (ev_content e)), (''version'', JInt (v + 1)),
      (''source_event_ids'', JArr [JStr (ev_id e)]), (''supersedes_id'', jget d ''id''), (''created_at'', JStr (ev_created e))]"
  have run: "replay_block e (ls_blocks st) = Inr (dset (JStr n) b (ls_blocks st))"
    using e(3) by (simp add: replay_block_def e(2) Let_def hashable_def d b_def)
  have b: "versioned b" "block_value b = Some (ev_content e)" by (simp_all add: versioned_def block_value_def b_def)
  let ?st = "noted e st\<lparr>ls_blocks := dset (JStr n) b (ls_blocks st)\<rparr>"
  have "live_ok ?st"
    using noted_ok[OF ok, of e] b(1) set_dset[of "JStr n" b "ls_blocks st"] unfolding live_ok_def by (fastforce simp: noted_fields)
  moreover have "block_text ?st = (block_text st)(n \<mapsto> ev_content e)"
    by (rule ext) (simp add: block_text_def b(2))
  ultimately show ?thesis by (simp add: replay_event_noted e(1) noted_fields run)
qed

lemma replay_events_append: "replay_events (xs @ ys) st = bindr (replay_events xs st) (replay_events ys)"
proof (induction xs arbitrary: st)
  case (Cons x xs)
  then have "replay_events (xs @ ys) = (\<lambda>st. bindr (replay_events xs st) (replay_events ys))" by (rule ext)
  then show ?case by (simp add: bindr_assoc)
qed simp

lemma replay_events_tame:
  "live_ok st \<Longrightarrow> \<forall>e \<in> set es. tame e \<Longrightarrow>
     \<exists>st'. replay_events es st = Inr st' \<and> live_ok st' \<and> ls_blocks st' = ls_blocks st"
proof (induction es arbitrary: st)
  case (Cons e es)
  then obtain st1 where 1: "replay_event e st = Inr st1" "live_ok st1" "ls_blocks st1 = ls_blocks st"
    using replay_event_tame[of st e] by auto
  then show ?case using Cons.IH[OF 1(2)] Cons.prems(2) by simp
qed simp

section \<open>The end of a replay\<close>

lemma recent_objects_return:
  "set is \<subseteq> range JStr \<Longrightarrow> \<forall>(k, v) \<in> set recent. event_doc v \<Longrightarrow> \<exists>es. recent_objects is recent = Inr es"
proof (induction "is")
  case (Cons i ids)
  then obtain es where es: "recent_objects ids recent = Inr es" by auto
  have i: "hashable i = Inr i" using Cons.prems(1) by (auto simp: hashable_def)
  show ?case
  proof (cases "dget recent i")
    case None
    then show ?thesis using es by (simp add: i)
  next
    case (Some raw)
    then have "event_doc raw" using Cons.prems(2) map_of_SomeD by fastforce
    then show ?thesis using es Some by (auto simp: i event_doc_def)
  qed
qed simp

lemma add_terms_ids:
  assumes "\<forall>(t, is) \<in> set index. set is \<subseteq> X" "i \<in> X"
  shows "\<forall>(t, is) \<in> set (add_terms terms i index). set is \<subseteq> X"
  unfolding add_terms_def using assms
proof (induction terms arbitrary: index)
  case (Cons t ts)
  have "set (dget_default index t []) \<subseteq> X"
    using Cons.prems(1) map_of_SomeD by (force simp: dget_default_def split: option.splits)
  then have "\<forall>(t, is) \<in> insert (t, dget_default index t [] @ [i]) (set index). set is \<subseteq> X"
    using Cons.prems by simp
  then have "\<forall>(t, is) \<in> set (dset t (dget_default index t [] @ [i]) index). set is \<subseteq> X"
    using set_dset[of t "dget_default index t [] @ [i]" index] by blast
  then show ?case using Cons.IH Cons.prems(2) by simp
qed simp

lemma rebuilt_index_return:
  "\<forall>(k, v) \<in> set ms. k \<in> range JStr \<and> memory_doc v \<Longrightarrow> \<forall>(t, is) \<in> set acc. set is \<subseteq> range JStr \<Longrightarrow>
     \<exists>index. rebuilt_index ms acc = Inr index \<and> (\<forall>(t, is) \<in> set index. set is \<subseteq> range JStr)"
proof (induction ms arbitrary: acc)
  case (Cons m ms)
  obtain k v where m: "m = (k, v)" by fastforce
  obtain t where "item_text v = Inr t"
    using Cons.prems(1) by (auto simp: m memory_doc_def files_ok_def item_text_def joined_files_def dget_default_def)
  then show ?case
    using Cons.IH[of "add_terms (lexical_terms t) k acc"] Cons.prems add_terms_ids[of acc "range JStr" k "lexical_terms t"]
    by (simp add: m)
qed auto

lemma texts_of_ids: "set is \<subseteq> range JStr \<Longrightarrow> \<exists>ts. is = map JStr ts"
  by (induction "is") (auto, metis list.simps(9))

lemma sorted_ids_return: "set is \<subseteq> range JStr \<Longrightarrow> \<exists>js. sorted_ids is = Inr js"
  using texts_of_ids[of "is"] by (auto simp: sorted_ids_def)

lemma mapr_return: "\<forall>x \<in> set xs. \<exists>y. f x = Inr y \<Longrightarrow> \<exists>ys. mapr f xs = Inr ys"
  by (induction xs) auto

lemma replay_returns:
  assumes "start_state state = Inr st0" "replay_events es st0 = Inr st" "live_ok st"
  shows "\<exists>r. replay state es = Inr r \<and> ls_blocks r = ls_blocks st"
proof -
  obtain objects where o: "recent_objects (ls_order st) (ls_recent st) = Inr objects"
    using recent_objects_return[of "ls_order st" "ls_recent st"] assms(3) by (auto simp: live_ok_def)
  obtain recent where r: "returned (recent_complete_events objects RECENT_GROUP_LIMIT) = Inr recent"
    using recent_complete_events_return[of objects RECENT_GROUP_LIMIT] by (auto simp: returned_def)
  obtain index where i: "rebuilt_index (ls_memories st) [] = Inr index" "\<forall>(t, is) \<in> set index. set is \<subseteq> range JStr"
    using rebuilt_index_return[of "ls_memories st" "[]"] assms(3) by (auto simp: live_ok_def)
  have "\<exists>l. mapr (\<lambda>(t, is). bindr (sorted_ids is) (\<lambda>js. Inr (t, js))) index = Inr l"
    by (rule mapr_return) (use i(2) sorted_ids_return in fastforce)
  then show ?thesis using o r i(1) by (auto simp: replay_def assms(1,2))
qed

section \<open>The document of a built state\<close>

lemma build_stateE:
  assumes "build_state s b = Inr st"
  obtains blocks records recent where "get_active_blocks s b = Inr blocks"
    "ls_blocks st = map (\<lambda>(n, b). (n, JObj (block_dict b))) blocks"
    "ls_memories st = dupdate [] (map (\<lambda>r. (me_id r, JObj (memory_dict r))) records)"
    "ls_recent st = dupdate [] (map (\<lambda>e. (ev_id e, JObj (event_dict e))) recent)"
  using assms by (auto simp: build_state_def)

lemma block_dict_sorted: "versioned (json_sorted (JObj (block_dict b)))" "block_value (json_sorted (JObj (block_dict b))) = Some (bl_content b)"
proof -
  have "distinct (map fst (block_dict b))" by (simp add: block_dict_def)
  note get = dget_sorted_dict[OF this]
  show "versioned (json_sorted (JObj (block_dict b)))" "block_value (json_sorted (JObj (block_dict b))) = Some (bl_content b)"
    unfolding json_sorted_obj versioned_def block_value_def json.inject json.case get by (simp_all add: block_dict_def)
qed

lemma memory_dict_sorted: "memory_doc (json_sorted (JObj (memory_dict r)))"
proof -
  have "distinct (map fst (memory_dict r))" by (simp add: memory_dict_def)
  note get = dget_sorted_dict[OF this]
  have "json_sorted \<circ> JStr = JStr" by (rule ext) simp
  then show ?thesis
    unfolding json_sorted_obj memory_doc_def json.inject files_ok_def by (auto simp: get memory_dict_def)
qed

lemma event_dict_sorted: "event_doc (json_sorted (JObj (event_dict e)))"
  unfolding json_sorted_obj event_doc_def json.inject using event_dict_sorted_doc by blast

lemma sorted_dupdate_values:
  assumes "\<And>x. P (json_sorted (f x))"
  shows "\<forall>(k, v) \<in> set (sorted_dict (dupdate [] (map (\<lambda>x. (g x, f x)) xs))). P v"
proof (clarsimp simp: set_sorted_dict simp del: json_sorted.simps)
  fix k v assume "(k, v) \<in> set (dupdate [] (map (\<lambda>x. (g x, f x)) xs))"
  then have "(k, v) \<in> set (map (\<lambda>x. (g x, f x)) xs)" using set_dupdate by fastforce
  then show "P (json_sorted v)" using assms by auto
qed

lemma start_of_built:
  assumes st: "build_state s b = Inr st" and blocks: "get_active_blocks s b = Inr bs" "distinct (dkeys bs)"
  obtains st0 where "start_state (sorted_dict (state_dict st)) = Inr st0" "live_ok st0"
    "block_text st0 = (\<lambda>n. map_option bl_content (dget bs n))"
proof -
  obtain blks records recent where built: "get_active_blocks s b = Inr blks"
    "ls_blocks st = map (\<lambda>(n, b). (n, JObj (block_dict b))) blks"
    "ls_memories st = dupdate [] (map (\<lambda>r. (me_id r, JObj (memory_dict r))) records)"
    "ls_recent st = dupdate [] (map (\<lambda>e. (ev_id e, JObj (event_dict e))) recent)"
    by (rule build_stateE[OF st])
  then have lb: "ls_blocks st = map (\<lambda>(n, b). (n, JObj (block_dict b))) bs" using blocks(1) by simp
  have key: "dget (map (\<lambda>(k, x). (JStr k, x)) d) (JStr n) = dget d n" for d :: "(string, json) dict" and n
    by (induction d) auto
  have d: "distinct (map fst (ls_blocks st))" using blocks(2) by (simp add: lb comp_def case_prod_unfold)
  have mem: "\<forall>(k, v) \<in> set (sorted_dict (ls_memories st)). memory_doc v"
    unfolding built(3) by (rule sorted_dupdate_values, rule memory_dict_sorted)
  have rec: "\<forall>(k, v) \<in> set (sorted_dict (ls_recent st)). event_doc v"
    unfolding built(4) by (rule sorted_dupdate_values, rule event_dict_sorted)
  have blk: "\<forall>(k, v) \<in> set (sorted_dict (ls_blocks st)). versioned v"
    using block_dict_sorted(1) by (auto simp: set_sorted_dict lb simp del: json_sorted.simps)
  show thesis
  proof (rule that[OF start_state_sorted])
    show "live_ok \<lparr>ls_blocks = map (\<lambda>(k, x). (JStr k, x)) (sorted_dict (ls_blocks st)),
          ls_memories = map (\<lambda>(k, x). (JStr k, x)) (sorted_dict (ls_memories st)),
          ls_index = map (\<lambda>(k, x). (JStr k, x)) (sorted_dict (ls_index st)),
          ls_recent = map (\<lambda>(k, x). (JStr k, x)) (sorted_dict (ls_recent st)),
          ls_order = map JStr (ls_order st),
          ls_timeline = map (\<lambda>(k, x). (JStr k, x)) (sorted_dict (ls_timeline st)), ls_lexical = []\<rparr>"
      using mem rec blk by (force simp: live_ok_def)
    have "Option.bind (map_option json_sorted (dget (ls_blocks st) n)) block_value = map_option bl_content (dget bs n)" for n
      unfolding lb using block_dict_sorted(2) by (induction bs) (auto simp del: json_sorted.simps)
    then show "block_text \<lparr>ls_blocks = map (\<lambda>(k, x). (JStr k, x)) (sorted_dict (ls_blocks st)),
          ls_memories = map (\<lambda>(k, x). (JStr k, x)) (sorted_dict (ls_memories st)),
          ls_index = map (\<lambda>(k, x). (JStr k, x)) (sorted_dict (ls_index st)),
          ls_recent = map (\<lambda>(k, x). (JStr k, x)) (sorted_dict (ls_recent st)),
          ls_order = map JStr (ls_order st),
          ls_timeline = map (\<lambda>(k, x). (JStr k, x)) (sorted_dict (ls_timeline st)), ls_lexical = []\<rparr>
        = (\<lambda>n. map_option bl_content (dget bs n))"
      by (intro ext) (simp add: block_text_def key dget_sorted_dict[OF d])
  qed
qed

end
