(* ===== verification/VaultProps.thy ===== *)
theory VaultProps
  imports VaultSystem ReplayFacts
begin

text \<open>
  The properties of snapshots as documents, of the hook counters, and of the thresholds.
\<close>

section \<open>Snapshots\<close>

text \<open>
  C29: a snapshot is immutable.  Let a snapshot be taken after any calls, with \<open>zlib\<close> inverting
  itself and a state of proper JSON.  Its state is the given document with sorted keys.
  And after any further calls, reads, failures and other snapshots included, reading it
  returns that very snapshot; or its pruning is on record and reading it says so.
\<close>

theorem snapshot_immutable:
  assumes zip: "\<And>t. md_unpack md (md_pack md t) = Unpacked t"
    and ok: "json_ok (md_float md) (JObj state)" "json_ok (md_float md) (JObj project)"
    and run: "create_snapshot w md state project b parent (vault_after w md before (initial_vault w)) = (Inr snap, v)"
  shows "sp_state snap = sorted_dict state
    \<and> (get_snapshot w md (sp_id snap) (vault_after w md further v)
           = (Inr (snap\<lparr>sp_project := sorted_dict project\<rparr>), vault_after w md further v)
       \<or> sp_id snap \<in> pr_snapshot ` set (va_prunings (vault_after w md further v))
         \<and> get_snapshot w md (sp_id snap) (vault_after w md further v)
             = (Inl (RuntimeError (''snapshot blob was pruned: '' @ sp_id snap)), vault_after w md further v))"
proof -
  let ?v = "vault_after w md before (initial_vault w)" and ?v' = "vault_after w md further v"
  from run obtain row where taken: "snapshot_taken w md state project b (counted (va_store ?v)) snap row"
      and v: "v = ?v\<lparr>va_store := counted (va_store ?v), va_snapshots := va_snapshots ?v @ [row]\<rparr>"
      and fresh: "sn_id row \<notin> sn_id ` set (va_snapshots ?v)"
    by (rule create_snapshot_cases) auto
  have row: "sn_id row = sp_id snap" "sn_format row = FULL_FORMAT"
    and state: "sp_state snap = sorted_dict state"
    using taken json_loads_dict[OF ok(1)] by (auto simp: snapshot_taken_def new_snapshot_row_def simp del: json_text.simps)
  have "List.find (\<lambda>r. sn_id r = sp_id snap) (va_snapshots ?v) = None"
    using fresh row(1) by (force simp: find_None_iff)
  then have "find_snapshot v (sp_id snap) = Some row"
    using row(1) find_append_last by (simp add: v find_snapshot_def find_append_last)
  then consider "find_snapshot ?v' (sp_id snap) = Some row"
    | "find_snapshot ?v' (sp_id snap) = Some (row\<lparr>sn_blob := None\<rparr>)" "sp_id snap \<in> pr_snapshot ` set (va_prunings ?v')"
    using vault_after_keeps[of v w md further] unfolding keeps_def by blast
  then show ?thesis
  proof cases
    case 1
    then show ?thesis using read_taken[OF zip json_loads_dict[OF ok(2)] taken] state by blast
  next
    case 2
    then show ?thesis using read_pruned[OF 2(1), of w md] row state by simp
  qed
qed

definition plain_media :: media where
  "plain_media = \<lparr>md_pack = id, md_unpack = Unpacked, md_float = id\<rparr>"

definition snapshot_world :: world where
  "snapshot_world = \<lparr>w_uuid = show_nat, w_now = (\<lambda>_. ''t''), w_time = (\<lambda>_. 0), w_sha256 = (\<lambda>_. replicate 64 CHR ''a''), w_rules = []\<rparr>"

lemma demo_snapshot:
  "map_sum (\<lambda>_. ()) sp_id (fst (create_snapshot snapshot_world plain_media [(''blocks'', JObj [])] [] ''main'' None (initial_vault snapshot_world)))
     = Inr ''snp_0''"
  by code_simp

theorem snapshot_immutable_witness:
  "\<exists>snap v. create_snapshot snapshot_world plain_media [(''blocks'', JObj [])] [] ''main'' None (initial_vault snapshot_world) = (Inr snap, v)
     \<and> sp_state snap = [(''blocks'', JObj [])]
     \<and> (get_snapshot snapshot_world plain_media ''snp_0'' v = (Inr snap, v)
        \<or> ''snp_0'' \<in> pr_snapshot ` set (va_prunings v))"
proof -
  obtain snap v where run: "create_snapshot snapshot_world plain_media [(''blocks'', JObj [])] [] ''main'' None (initial_vault snapshot_world) = (Inr snap, v)"
      and i: "sp_id snap = ''snp_0''"
    using demo_snapshot by (cases "create_snapshot snapshot_world plain_media [(''blocks'', JObj [])] [] ''main'' None (initial_vault snapshot_world)")
      (auto simp: map_sum_def split: sum.splits)
  have project: "snap\<lparr>sp_project := []\<rparr> = snap"
    by (rule create_snapshot_cases[OF run]) (auto simp: snapshot_taken_def)
  have "sp_state snap = sorted_dict [(''blocks'', JObj [])]
    \<and> (get_snapshot snapshot_world plain_media (sp_id snap) (vault_after snapshot_world plain_media [] v)
           = (Inr (snap\<lparr>sp_project := sorted_dict []\<rparr>), vault_after snapshot_world plain_media [] v)
       \<or> sp_id snap \<in> pr_snapshot ` set (va_prunings (vault_after snapshot_world plain_media [] v))
         \<and> get_snapshot snapshot_world plain_media (sp_id snap) (vault_after snapshot_world plain_media [] v)
             = (Inl (RuntimeError (''snapshot blob was pruned: '' @ sp_id snap)), vault_after snapshot_world plain_media [] v))"
    by (rule snapshot_immutable[where before = "[]"]) (use run in \<open>simp_all add: plain_media_def\<close>)
  then show ?thesis using run i project by (auto simp: sorted_dict_def)
qed

section \<open>Hook counters\<close>

definition counters_ok :: "hook_counter list \<Rightarrow> bool" where
  "counters_ok rows \<longleftrightarrow> distinct (map hk_receipt rows) \<and> (\<forall>k \<in> set rows. 0 \<le> hk_increment k)
     \<and> (\<forall>b ses. (case find_last (\<lambda>k. hk_branch k = b \<and> hk_session k = ses) rows of None \<Rightarrow> 0 | Some k \<Rightarrow> hk_cumulative k)
          = sum_list (map hk_increment (filter (\<lambda>k. hk_branch k = b \<and> hk_session k = ses) rows)))"

lemma total_counters: "counters_ok (va_hooks v) \<Longrightarrow>
    hook_context_total v b (Some ses) = sum_list (map hk_increment (filter (\<lambda>k. hk_branch k = b \<and> hk_session k = ses) (va_hooks v)))"
  by (simp add: counters_ok_def hook_context_total_def last_counter_def)

lemma counter_added:
  assumes "counters_ok rows" "hk_receipt k \<notin> hk_receipt ` set rows" "0 \<le> hk_increment k"
    "hk_cumulative k = sum_list (map hk_increment (filter (\<lambda>x. hk_branch x = hk_branch k \<and> hk_session x = hk_session k) rows)) + hk_increment k"
  shows "counters_ok (rows @ [k])"
  using assms by (auto simp: counters_ok_def)

lemma run_vault_counters:
  assumes "counters_ok (va_hooks v)"
  shows "counters_ok (va_hooks (run_vault w md c v))"
proof (cases "\<exists>key b ses ev name n. c = CountHook key b ses ev name n")
  case False
  then show ?thesis using run_vault_step[of v w md c] assms by metis
next
  case True
  then obtain key b ses ev name n where c: "c = CountHook key b ses ev name n" by blast
  show ?thesis
  proof (cases "record_hook_context_increment w key b ses ev name n v")
    case (Inl e)
    then show ?thesis using assms c by (simp add: kept_def)
  next
    case (Inr p)
    obtain x v' where p: "p = (x, v')" by fastforce
    have "counters_ok (va_hooks v')"
    proof (rule count_hook_cases[OF Inr[unfolded p]], goal_cases)
      case (1 k)
      then show ?case using assms by simp
    next
      case (2 k m)
      have "counters_ok (va_hooks v @ [k])"
        by (rule counter_added[OF assms]) (use 2 total_counters[OF assms] in simp_all)
      then show ?case by (simp add: 2(8))
    qed
    then show ?thesis using c Inr p by (simp add: kept_def)
  qed
qed

lemma vault_counters: "counters_ok (va_hooks v) \<Longrightarrow> counters_ok (va_hooks (vault_after w md calls v))"
  by (induction calls arbitrary: v) (simp_all add: run_vault_counters)

text \<open>Sums by group add up to the whole.\<close>

lemma sum_list_indicator: "distinct is \<Longrightarrow> j \<in> set is \<Longrightarrow> (\<Sum>i\<leftarrow>is. if j = i then (x :: int) else 0) = x"
  by (simp add: sum_list_distinct_conv_sum_set)

lemma sum_by_group:
  "distinct is \<Longrightarrow> g ` set xs \<subseteq> set is \<Longrightarrow>
     (\<Sum>i\<leftarrow>is. sum_list (map (f :: 'a \<Rightarrow> int) (filter (\<lambda>k. g k = i) xs))) = sum_list (map f xs)"
proof (induction xs)
  case (Cons x xs)
  have "(\<Sum>i\<leftarrow>is. sum_list (map f (filter (\<lambda>k. g k = i) (x # xs))))
      = (\<Sum>i\<leftarrow>is. (if g x = i then f x else 0) + sum_list (map f (filter (\<lambda>k. g k = i) xs)))"
    by (intro arg_cong[of _ _ sum_list] map_cong) auto
  also have "\<dots> = (\<Sum>i\<leftarrow>is. if g x = i then f x else 0) + sum_list (map f xs)"
    using Cons by (simp add: sum_list_addf)
  also have "(\<Sum>i\<leftarrow>is. if g x = i then f x else 0) = f x"
    by (rule sum_list_indicator) (use Cons.prems in auto)
  finally show ?case by simp
qed simp

text \<open>
  C30: hook context is counted exactly once.  After any calls a delivery's receipt has one row;
  the total of a session is the sum of the increments of its rows and is never negative; the
  total of a branch is the sum over all of its rows.
\<close>

theorem hook_context_exact:
  "let v = vault_after w md calls (initial_vault w) in
     distinct (map hk_receipt (va_hooks v))
     \<and> hook_context_total v b (Some ses) = (\<Sum>k\<leftarrow>filter (\<lambda>k. hk_branch k = b \<and> hk_session k = ses) (va_hooks v). hk_increment k)
     \<and> 0 \<le> hook_context_total v b (Some ses)
     \<and> hook_context_total v b None = (\<Sum>k\<leftarrow>filter (\<lambda>k. hk_branch k = b) (va_hooks v). hk_increment k)"
proof -
  define v where "v = vault_after w md calls (initial_vault w)"
  have ok: "counters_ok (va_hooks v)"
    unfolding v_def by (rule vault_counters) (simp add: counters_ok_def initial_vault_def)
  note total = total_counters[OF ok]
  have nonneg: "\<forall>k \<in> set (va_hooks v). 0 \<le> hk_increment k" using ok by (simp add: counters_ok_def)
  let ?rows = "filter (\<lambda>k. hk_branch k = b) (va_hooks v)"
  have "hook_context_total v b None
      = (\<Sum>i\<leftarrow>remdups (map hk_session ?rows). sum_list (map hk_increment (filter (\<lambda>k. hk_session k = i) ?rows)))"
    using total[of b] by (simp add: hook_context_total_def conj_commute)
  also have "\<dots> = (\<Sum>k\<leftarrow>?rows. hk_increment k)" by (rule sum_by_group) simp_all
  finally show ?thesis
    using ok total[of b ses] nonneg
    by (auto simp: v_def[symmetric] counters_ok_def intro!: sum_list_nonneg)
qed

section \<open>Thresholds\<close>

lemma made_thresholds:
  fixes a b h n m r :: int
  assumes "(if (if r \<noteq> 0 then min n m else n) \<le> max (max (max 1 a + 1) b + 1) h then Inl e
     else Inr \<lparr>th_snapshot = max 1 a, th_compact = max (max 1 a + 1) b, th_handoff = max (max (max 1 a + 1) b + 1) h,
       th_hard = (if r \<noteq> 0 then min n m else n)\<rparr>) = Inr t"
  shows "1 \<le> th_snapshot t" "th_snapshot t < th_compact t" "th_compact t < th_handoff t" "th_handoff t < th_hard t"
    "r = 0 \<or> th_hard t \<le> m"
proof -
  have guard: "\<not> c \<and> t = y" if "(if c then Inl e else Inr y) = Inr t" for c y
    using that by (cases c) simp_all
  from guard[OF assms]
  have lt: "max (max (max 1 a + 1) b + 1) h < (if r \<noteq> 0 then min n m else n)"
    and t: "t = \<lparr>th_snapshot = max 1 a, th_compact = max (max 1 a + 1) b, th_handoff = max (max (max 1 a + 1) b + 1) h,
      th_hard = (if r \<noteq> 0 then min n m else n)\<rparr>"
    unfolding not_le by (rule conjunct1, rule conjunct2)
  show "1 \<le> th_snapshot t" "th_snapshot t < th_compact t" "th_compact t < th_handoff t"
    unfolding t thresholds.simps by linarith+
  show "th_handoff t < th_hard t" unfolding t thresholds.simps by (rule lt)
  show "r = 0 \<or> th_hard t \<le> m" unfolding t thresholds.simps by simp
qed

lemma thresholds_ordered:
  assumes "governor_thresholds p = Inr t"
  shows "1 \<le> th_snapshot t" "th_snapshot t < th_compact t" "th_compact t < th_handoff t" "th_handoff t < th_hard t"
    "bp_reserve p = 0 \<or> th_hard t \<le> bp_window p - bp_reserve p"
  using made_thresholds[OF assms[unfolded governor_thresholds_def Let_def]] by this

lemma decide_due:
  assumes "governor_decide v p b ses = Inr d"
  obtains t where "governor_thresholds p = Inr t"
    "de_actions d = map fst (filter (\<lambda>(a, l, n). n \<le> de_context d) (labelled_thresholds t))"
  using assms by (auto simp: governor_decide_def bindr_eq_Inr Let_def)

text \<open>
  C31: the governor escalates.  Whenever it decides, its four thresholds increase strictly from
  1 on and leave the reserve of the window free; the actions are those whose threshold the
  context has reached, and always an initial part of snapshot, compaction, handoff, hard
  handoff.  Of two decisions under one policy the one with the larger context has at least the
  actions of the other, in the same order.
\<close>

theorem governor_escalates:
  assumes "governor_decide v p b ses = Inr d" "governor_decide v' p b' ses' = Inr d'" "de_context d \<le> de_context d'"
  shows "prefix (de_actions d) (de_actions d')
    \<and> prefix (de_actions d') [''snapshot'', ''compact'', ''handoff'', ''handoff_required'']
    \<and> (\<exists>t. governor_thresholds p = Inr t
         \<and> de_actions d = map fst (filter (\<lambda>(a, l, n). n \<le> de_context d) (labelled_thresholds t))
         \<and> 1 \<le> th_snapshot t \<and> th_snapshot t < th_compact t \<and> th_compact t < th_handoff t \<and> th_handoff t < th_hard t
         \<and> (bp_reserve p = 0 \<or> th_hard t \<le> bp_window p - bp_reserve p))"
proof -
  obtain t where t: "governor_thresholds p = Inr t"
      "de_actions d = map fst (filter (\<lambda>(a, l, n). n \<le> de_context d) (labelled_thresholds t))"
    by (rule decide_due[OF assms(1)])
  moreover obtain t' where "governor_thresholds p = Inr t'"
      "de_actions d' = map fst (filter (\<lambda>(a, l, n). n \<le> de_context d') (labelled_thresholds t'))"
    by (rule decide_due[OF assms(2)])
  ultimately show ?thesis
    using thresholds_ordered[OF t(1)] assms(3) by (auto simp: labelled_thresholds_def)
qed

definition small_policy :: budget_policy where
  "small_policy = (default_policy ''main'')\<lparr>bp_window := 100\<rparr>"

definition busy_vault :: vault where
  "busy_vault = (initial_vault snapshot_world)\<lparr>va_hooks :=
     [\<lparr>hk_receipt = ''r'', hk_branch = ''main'', hk_session = ''s'', hk_event = None, hk_name = ''PostToolUse'',
       hk_increment = 80, hk_cumulative = 80, hk_created = ''t''\<rparr>]\<rparr>"

lemma small_thresholds:
  "governor_thresholds small_policy = Inr \<lparr>th_snapshot = 45, th_compact = 60, th_handoff = 75, th_hard = 90\<rparr>"
  by code_simp

lemma small_estimates:
  "map_sum id fst (estimate_context (initial_vault snapshot_world) ''main'' None) = Inr 0
   \<and> map_sum id fst (estimate_context busy_vault ''main'' (Some ''s'')) = Inr 80"
  by code_simp

lemma busy_decisions:
  "map_sum id (\<lambda>d. (de_context d, de_actions d)) (governor_decide (initial_vault snapshot_world) small_policy ''main'' None) = Inr (0, [])"
  "map_sum id (\<lambda>d. (de_context d, de_actions d)) (governor_decide busy_vault small_policy ''main'' (Some ''s''))
     = Inr (80, [''snapshot'', ''compact'', ''handoff''])"
  using small_estimates
  by (auto simp: governor_decide_def small_thresholds labelled_thresholds_def map_sum_def split: sum.splits)

theorem governor_escalates_witness:
  "\<exists>d d'. governor_decide (initial_vault snapshot_world) small_policy ''main'' None = Inr d
     \<and> governor_decide busy_vault small_policy ''main'' (Some ''s'') = Inr d'
     \<and> de_actions d' = [''snapshot'', ''compact'', ''handoff''] \<and> prefix (de_actions d) (de_actions d')"
proof -
  obtain d d' where d: "governor_decide (initial_vault snapshot_world) small_policy ''main'' None = Inr d"
      "governor_decide busy_vault small_policy ''main'' (Some ''s'') = Inr d'"
      and vals: "de_context d = 0" "de_context d' = 80" "de_actions d' = [''snapshot'', ''compact'', ''handoff'']"
    using busy_decisions by (auto simp: map_sum_def split: sum.splits)
  then show ?thesis using governor_escalates[OF d] by auto
qed

text \<open>
  A policy that \<open>set_budget_policy\<close> accepts may have no thresholds: with a window of three
  tokens the hard limit does not exceed the handoff, and every decision raises.
\<close>

lemma accepted_policy_raises:
  "is_ok (set_budget_policy snapshot_world ''main'' 3 (fl (45 / 100)) (fl (60 / 100)) (fl (75 / 100)) (fl (90 / 100)) 20
     (initial_vault snapshot_world))
   \<and> \<not> is_ok (governor_thresholds ((default_policy ''main'')\<lparr>bp_window := 3\<rparr>))"
  by code_simp

end
