(* ===== verification/SnapshotProps.thy ===== *)
theory SnapshotProps
  imports VaultProps
begin

text \<open>
  A resume from a snapshot: the blocks of the state that is restored from a snapshot and the
  events after it are the active memory that the tables hold.
\<close>

section \<open>Calls that write no block\<close>

lemma run_store_blocks:
  assumes ok: "store_ok w s" and run: "run_store w c s = Inr (u, s')"
    and other: "\<And>name content b ses srcs. c \<noteq> SetBlock name content b ses srcs"
  shows "st_blocks s' = st_blocks s"
proof -
  note inv = store_okD[OF ok]
  have ci: "confirm_inv w s" using inv by (simp add: confirm_inv_def)
  show ?thesis
  proof (cases c)
    case (LogCall lc)
    then have "run_call w lc s = Inr (u, s')" using run by simp
    then consider "only_log s s'" | b p fork r where "create_branch w b p fork s = Inr (r, s')"
      using log_call_frame by blast
    then show ?thesis
    proof cases
      case 1
      then show ?thesis by (simp add: only_log_def)
    next
      case 2
      then show ?thesis by (rule create_branch_cases) simp
    qed
  next
    case (SetBlock name content b ses srcs)
    then show ?thesis using other by blast
  next
    case (DeriveMemory d)
    then obtain r where "derive_memory w d s = Inr (r, s')" using run by auto
    then show ?thesis using derive_memory_inv[OF ci] only_confirms_fields by blast
  next
    case (ActivatePolicy p src claimed op)
    then obtain r where "activate_policy w p src claimed op s = Inr (r, s')" using run by auto
    then show ?thesis using activate_policy_step[OF inv(5)] only_policies_fields by blast
  next
    case (RecordFinding ft key details)
    then obtain r where "record_security_finding w ft key details s = Inr (r, s')" using run by auto
    then show ?thesis using record_security_finding_step[OF inv(6,1)] only_findings_fields by blast
  next
    case (RequestAck fid b org)
    then obtain r where "append_finding_ack_request w fid b org s = Inr (r, s')" using run by auto
    then show ?thesis using append_finding_ack_request_step[OF inv(6,1)] only_findings_fields by blast
  next
    case (TransitionFinding fid target src actor)
    then obtain r where "transition_finding w fid target src actor s = Inr (r, s')" using run by auto
    then show ?thesis using transition_finding_step[OF inv(6)] only_findings_fields by blast
  next
    case (RequestCandidate cid req b action org rc rm)
    then obtain r where "append_candidate_request w cid req b action org rc rm s = Inr (r, s')" using run by auto
    then show ?thesis using append_candidate_request_step[OF inv(4,1)] only_requests_fields by blast
  next
    case (TransitionCandidate cid target src actor rule rc rm)
    then obtain r where "transition_candidate w cid target src actor rule rc rm s = Inr (r, s')" using run by auto
    then show ?thesis using transition_candidate_step[OF inv(4)] only_moves_fields by blast
  next
    case (CreateSettlement kind content src ev mt strength actor)
    then obtain r where "create_settlement_candidate w kind content src ev mt strength actor s = Inr (r, s')" using run by auto
    then show ?thesis using create_settlement_candidate_step[OF inv(4)] only_candidates_fields by blast
  next
    case (SettleCandidate cid target src actor rule)
    then obtain r where "settle_candidate w cid target src actor rule s = Inr (r, s')" using run by auto
    then show ?thesis using settle_candidate_step[OF inv(4)] only_moves_fields by blast
  next
    case (ConfirmMatch cid mid src)
    then obtain r where "confirm_candidate_match w cid mid src s = Inr (r, s')" using run by auto
    then show ?thesis using confirm_candidate_match_step[OF ci] only_confirms_fields by blast
  next
    case (WriteTask d)
    then obtain t where "create_task_version w d s = Inr (t, s')" using run by auto
    then show ?thesis using create_task_version_step[OF inv(7,1)] only_tasks_fields by blast
  next
    case (BindTask i k)
    then have "bind_task_session w i k s = Inr ((), s')" using run by auto
    then obtain t bs where "s' = s\<lparr>st_tick := t, st_bindings := bs\<rparr>" using bind_task_session_frame by blast
    then show ?thesis by simp
  next
    case (RegisterConfig h d)
    then obtain r where "register_extractor_config w h d s = Inr (r, s')" using run by auto
    then show ?thesis using register_frame only_audits_fields(7) by (auto simp: same_tables_def)
  next
    case (ProcessBacklog x limit retry)
    then show ?thesis
      using run only_extracts_fields(3)[OF extraction_stepD(2)[OF process_backlog_step[OF ci, of x limit retry]]] by simp
  next
    case (RecordFinalization i b ft st ct m)
    then obtain r where "record_finalization w i b ft st ct m s = Inr (r, s')" using run by auto
    then show ?thesis using only_audits_fields(7) record_evolves by blast
  next
    case (QuarantineFinalization i reason raw)
    then obtain r where "quarantine_finalization w i reason raw s = Inr (r, s')" using run by auto
    then show ?thesis using only_audits_fields(7) quarantine_evolves by blast
  next
    case (Worker h lc)
    then show ?thesis using run worker_frame[of s w h lc] only_audits_fields(7) by (auto simp: same_tables_def)
  qed
qed

lemma run_store_grows: "store_ok w s \<Longrightarrow> run_store w c s = Inr (u, s') \<Longrightarrow> grows s s'"
  using run_store_evolves[of w s c u s'] by (auto simp: evolves_def advances_def grows_def prefix_def)

lemma lineage_kept:
  assumes "store_ok w s" "log_ok w s'" "grows s s'" "b \<in> branch_ids s"
  obtains L where "lineage s b = Inr L" "lineage_of (st_branches s) b L" "lineage s' b = Inr L" "b \<in> branch_ids s'"
proof -
  obtain es bs where g: "st_events s' = st_events s @ es" "st_branches s' = st_branches s @ bs"
    using assms(3) by (auto simp: grows_def)
  obtain L where L: "lineage s b = Inr L" "lineage_of (st_branches s) b L" "lineage_answers (st_branches s) b L"
    using lineage_total[OF log_okD(1)[OF store_okD(1)[OF assms(1)]] assms(4)] by blast
  have "lineage s' b = Inr L"
    using lineage_answer[OF L(3) g(2)] branches_ok_distinct[OF log_okD(1)[OF assms(2)]] by blast
  moreover have "b \<in> branch_ids s'" using assms(4) g(2) by (auto simp: branch_ids_def)
  ultimately show thesis using that L by blast
qed

lemma active_memory_kept:
  assumes ok: "store_ok w s" "store_ok w s'" and g: "grows s s'" and same: "st_blocks s' = st_blocks s"
    and b: "b \<in> branch_ids s"
  shows "active_memory s' b = active_memory s b"
proof
  fix n
  obtain L where L: "lineage s b = Inr L" "lineage_of (st_branches s) b L" "lineage s' b = Inr L" "b \<in> branch_ids s'"
    by (rule lineage_kept[OF ok(1) store_okD(1)[OF ok(2)] g b])
  have "length (st_events s) \<le> length (st_events s')" using g by (auto simp: grows_def)
  moreover have "bl_cursor x \<le> int (length (st_events s))" if "x \<in> set (st_blocks s)" for x
    using store_okD(2)[OF ok(1)] that by (simp add: blocks_ok_def views_ok_def cursors_ok_def)
  ultimately have "view bl_branch bl_cursor (st_blocks s') L (int (length (st_events s')))
      = view bl_branch bl_cursor (st_blocks s) L (int (length (st_events s)))"
    unfolding same view_def by (force intro!: filter_cong)
  then show "active_memory s' b n = active_memory s b n"
    by (intro option_eqI)
      (simp add: active_memory_heads[OF store_okD(2,1)[OF ok(2)] L(4,3)] active_memory_heads[OF store_okD(2,1)[OF ok(1)] b L(1)])
qed

section \<open>Calls after the snapshot\<close>

text \<open>
  The calls that the replay follows: a write of a block under a name that redaction leaves
  alone; and every call whose events are no \<open>memory_block\<close> events and, when they are
  derivations, have the types that \<open>derive_memory\<close> writes.
\<close>

definition followed :: "world \<Rightarrow> store_call \<Rightarrow> store \<Rightarrow> bool" where
  "followed w c s =
     (case c of
        SetBlock name content b ses srcs \<Rightarrow> name \<noteq> [] \<and> fst (redact_text (w_rules w) True name) = name
      | _ \<Rightarrow> list_all tame (drop (length (st_events s)) (st_events (attempt (run_store w) c s))))"

fun all_followed :: "world \<Rightarrow> store_call list \<Rightarrow> store \<Rightarrow> bool" where
  "all_followed w [] s = True"
| "all_followed w (c # cs) s = (followed w c s \<and> all_followed w cs (attempt (run_store w) c s))"

lemma block_key_plain: "\<not> secret_key ''block''"
  by code_simp

lemma block_payload:
  "jget (fst (redact_object rules [(''block'', JStr n), (''supersedes'', v)])) ''block'' = JStr (fst (redact_text rules True n))"
  by (simp add: redact_object_def jget_def block_key_plain split_beta Let_def split: prod.splits if_splits)

lemma make_event_payload:
  "k \<noteq> ''_security_redactions'' \<Longrightarrow>
     jget (ev_payload (make_event w d payload hex now s)) k = jget (fst (redact_object (w_rules w) payload)) k"
  by (simp add: make_event_def Let_def split_beta)

lemma appended_block:
  assumes "append_event_in_tx w (block_event name content b ses prev) s = Inr (e, s1)"
  shows "st_events s1 = st_events s @ [e]" "ev_branch e = b" "ev_kind e = ''memory_block''"
    "jget (ev_payload e) ''block'' = JStr (fst (redact_text (w_rules w) True name))"
proof -
  obtain payload s2 where app: "stamp_adapter INTERNAL None [(''block'', JStr name), (''supersedes'', opt_str (map_option bl_id prev))] = Inr payload"
      "e = make_event w (block_event name content b ses prev) payload (w_uuid w (st_uuid s)) (w_now w (st_tick s)) s2"
      "st_events s1 = st_events s @ [e]"
    by (rule append_event_in_tx_cases[OF assms]) (simp add: block_event_def)
  note f = append_event_in_tx_fields[OF assms]
  show "st_events s1 = st_events s @ [e]" "ev_branch e = b" "ev_kind e = ''memory_block''"
    using app(3) f(1,3) by (simp_all add: block_event_def)
  have "payload = [(''block'', JStr name), (''supersedes'', opt_str (map_option bl_id prev))]"
    using app(1) by (simp add: stamp_adapter_def channel_defs)
  then show "jget (ev_payload e) ''block'' = JStr (fst (redact_text (w_rules w) True name))"
    by (simp add: app(2) make_event_payload block_payload)
qed

lemma written_event:
  assumes "set_active_block w name content b ses srcs s = Inr (blk, s')"
  obtains e where "st_events s' = st_events s @ [e]" "ev_branch e = b" "ev_kind e = ''memory_block''"
    "ev_content e = fst (redact_text (w_rules w) True content)"
    "jget (ev_payload e) ''block'' = JStr (fst (redact_text (w_rules w) True name))"
proof (rule set_active_block_cases[OF assms], goal_cases)
  case (1 current e s1)
  show ?case
    by (rule 1(1)[of e])
      (use appended_block[OF 1(4)] append_event_in_tx_fields(7)[OF 1(4)] 1(8) in \<open>simp_all add: block_event_def\<close>)
qed

text \<open>The events of the branch that are new from \<open>s\<close> to \<open>s'\<close>.\<close>

definition new_on :: "string \<Rightarrow> store \<Rightarrow> store \<Rightarrow> event list" where
  "new_on b s s' = filter (\<lambda>e. ev_branch e = b) (drop (length (st_events s)) (st_events s'))"

lemma new_on_trans:
  "st_events t = st_events s @ es \<Longrightarrow> st_events s' = st_events t @ fs \<Longrightarrow> new_on b s s' = new_on b s t @ new_on b t s'"
  by (simp add: new_on_def)

lemma followed_step:
  assumes ok: "store_ok w s" and b: "b \<in> branch_ids s" and f: "followed w c s"
    and live: "live_ok st" "block_text st = active_memory s b"
  defines "s' \<equiv> attempt (run_store w) c s"
  shows "\<exists>st'. replay_events (new_on b s s') st = Inr st' \<and> live_ok st' \<and> block_text st' = active_memory s' b"
proof (cases "run_store w c s")
  case (Inl x)
  then show ?thesis using live by (simp add: s'_def attempt_def new_on_def)
next
  case (Inr p)
  then obtain u where run: "run_store w c s = Inr (u, s')" by (cases p) (simp add: s'_def attempt_def)
  have ok': "store_ok w s'" by (rule run_store_ok[OF ok run])
  show ?thesis
  proof (cases "\<exists>name content d ses srcs. c = SetBlock name content d ses srcs")
    case True
    then obtain name content d ses srcs where c: "c = SetBlock name content d ses srcs" by blast
    then obtain blk where set_b: "set_active_block w name content d ses srcs s = Inr (blk, s')" using run by auto
    have name: "name \<noteq> []" "fst (redact_text (w_rules w) True name) = name" using f by (simp_all add: followed_def c)
    obtain e where e: "st_events s' = st_events s @ [e]" "ev_branch e = d" "ev_kind e = ''memory_block''"
        "ev_content e = fst (redact_text (w_rules w) True content)" "jget (ev_payload e) ''block'' = JStr name"
      by (rule written_event[OF set_b, unfolded name(2)])
    show ?thesis
    proof (cases "d = b")
      case True
      then have "new_on b s s' = [e]" using e(1,2) by (simp add: new_on_def)
      moreover have "active_memory s' b = (active_memory s b)(name \<mapsto> ev_content e)"
        using write_updates(2)[OF ok set_b] e(4) True by simp
      ultimately show ?thesis using replay_event_block[OF live(1) e(3,5) name(1)] live(2) by auto
    next
      case False
      then have "new_on b s s' = []" using e(1,2) by (simp add: new_on_def)
      then show ?thesis using write_leaves_others[OF ok set_b b] False live by simp
    qed
  next
    case False
    then have "list_all tame (drop (length (st_events s)) (st_events s'))"
      unfolding s'_def using f False by (auto simp: followed_def split: store_call.splits)
    then have "\<forall>e \<in> set (new_on b s s'). tame e" by (auto simp: new_on_def list_all_iff)
    then obtain st' where "replay_events (new_on b s s') st = Inr st'" "live_ok st'" "ls_blocks st' = ls_blocks st"
      using replay_events_tame[OF live(1)] by blast
    moreover have "active_memory s' b = active_memory s b"
      using active_memory_kept[OF ok ok' run_store_grows[OF ok run] _ b] run_store_blocks[OF ok run] False by blast
    ultimately show ?thesis using live(2) by (auto simp: block_text_def fun_eq_iff)
  qed
qed

lemma attempt_grown: "store_ok w s \<Longrightarrow> store_ok w (attempt (run_store w) c s) \<and> grows s (attempt (run_store w) c s)"
  using run_store_ok run_store_grows by (auto simp: attempt_def split: sum.splits)

lemma attempts_grown:
  "store_ok w s \<Longrightarrow> store_ok w (attempts (run_store w) cs s) \<and> grows s (attempts (run_store w) cs s)"
proof (induction cs arbitrary: s)
  case (Cons c cs)
  then show ?case using attempt_grown[OF Cons.prems, of c] grows_trans by (simp only: attempts_simps) blast
qed simp

lemma followed_calls:
  "store_ok w s \<Longrightarrow> b \<in> branch_ids s \<Longrightarrow> all_followed w cs s \<Longrightarrow> live_ok st \<Longrightarrow> block_text st = active_memory s b \<Longrightarrow>
     \<exists>st'. replay_events (new_on b s (attempts (run_store w) cs s)) st = Inr st' \<and> live_ok st'
        \<and> block_text st' = active_memory (attempts (run_store w) cs s) b"
proof (induction cs arbitrary: s st)
  case Nil
  then show ?case by (simp add: new_on_def)
next
  case (Cons c cs)
  let ?t = "attempt (run_store w) c s"
  obtain st1 where st1: "replay_events (new_on b s ?t) st = Inr st1" "live_ok st1" "block_text st1 = active_memory ?t b"
    using followed_step[OF Cons.prems(1,2) _ Cons.prems(4,5), of c] Cons.prems(3) by auto
  have t: "store_ok w ?t" "grows s ?t"
    using attempt_grown[OF Cons.prems(1)] by blast+
  then have b: "b \<in> branch_ids ?t" using Cons.prems(2) by (auto simp: grows_def branch_ids_def)
  have "grows ?t (attempts (run_store w) cs ?t)"
    using attempts_grown[OF t(1)] by blast
  then have new: "new_on b s (attempts (run_store w) cs ?t) = new_on b s ?t @ new_on b ?t (attempts (run_store w) cs ?t)"
    using t(2) unfolding grows_def by (elim exE conjE) (rule new_on_trans)
  have "all_followed w cs ?t" using Cons.prems(3) by simp
  then obtain st2 where "replay_events (new_on b ?t (attempts (run_store w) cs ?t)) st1 = Inr st2" "live_ok st2"
      "block_text st2 = active_memory (attempts (run_store w) cs ?t) b"
    using Cons.IH[OF t(1) b _ st1(2,3)] by blast
  then show ?case unfolding attempts_simps new replay_events_append st1(1) bindr_Inr by blast
qed

section \<open>The tail of a snapshot\<close>

lemma cursor_covers:
  assumes ok: "store_ok w s" and b: "b \<in> branch_ids s" and q: "query_events s b all_events = Inr es" and L: "lineage s b = Inr L" "lineage_of (st_branches s) b L"
    and e: "e \<in> set (st_events s)" "sees L e"
  shows "ev_seq e \<le> (if es = [] then 0 else ev_seq (last es))"
proof -
  note log = store_okD(1)[OF ok]
  have es: "es = filter (sees L) (st_events s)"
    using history_spec[OF log b] q L(1) unfolding history_def by (metis sum.inject(2))
  have "sorted (map ev_seq es)" using log_sorted(1)[OF log] by (simp add: es sorted_filter)
  moreover have "e \<in> set es" using e es by simp
  ultimately show ?thesis
    by (cases es rule: rev_cases) (auto simp: sorted_append)
qed

lemma tail_of_snapshot:
  assumes ok: "store_ok w s" "store_ok w s'" "grows s s'" and b: "b \<in> branch_ids s"
    and snap: "sp_branch snap = b" "query_events s b all_events = Inr es" "sp_cursor snap = (if es = [] then 0 else ev_seq (last es))"
  shows "snapshot_tail s' snap None = Inr (new_on b s s')"
proof -
  note log = store_okD(1)[OF ok(1)] and log' = store_okD(1)[OF ok(2)]
  obtain L where L: "lineage s b = Inr L" "lineage_of (st_branches s) b L" "lineage s' b = Inr L" "b \<in> branch_ids s'"
    by (rule lineage_kept[OF ok(1) log' ok(3) b])
  obtain fs where fs: "st_events s' = st_events s @ fs" using ok(3) by (auto simp: grows_def)
  obtain L0 where L0: "L = L0 @ [(b, None)]" using L(2) by (auto simp: lineage_of_def)
  have new: "ev_seq e > int (length (st_events s))" if e: "e \<in> set fs" for e
  proof -
    obtain i where "i < length fs" "fs ! i = e" using e by (auto simp: in_set_conv_nth)
    then have "e = st_events s' ! (length (st_events s) + i)" "length (st_events s) + i < length (st_events s')"
      by (simp_all add: fs)
    then show ?thesis using log_seq_nth[OF log'] by simp
  qed
  have old: "ev_seq e \<le> sp_cursor snap" if "e \<in> set (st_events s)" "sees L e" for e
    using cursor_covers[OF ok(1) b snap(2) L(1,2) that] snap(3) by simp
  have cur: "sp_cursor snap \<le> int (length (st_events s))"
  proof (cases "es = []")
    case False
    have "set es \<subseteq> set (st_events s)"
      using history_spec[OF log b] snap(2) unfolding history_def by (metis filter_is_subset sum.inject(2))
    then have "last es \<in> set (st_events s)" using False last_in_set by blast
    then show ?thesis using False log_seq_range[OF log, of "last es"] snap(3) by auto
  qed (simp add: snap(3))
  have "filter (query_spec (all_events\<lparr>q_after := sp_cursor snap\<rparr>) L) (st_events s') = new_on b s s'"
  proof -
    let ?q = "query_spec (all_events\<lparr>q_after := sp_cursor snap\<rparr>) L"
    have q: "?q e \<longleftrightarrow> sees L e \<and> ev_seq e > sp_cursor snap" for e
      by (simp add: query_spec_def all_events_def given_def)
    have "filter ?q (st_events s) = []" using old by (fastforce simp: filter_empty_conv q)
    moreover have "filter ?q fs = filter (\<lambda>e. ev_branch e = b) fs"
    proof (rule filter_cong[OF refl])
      fix e assume "e \<in> set fs"
      then show "?q e \<longleftrightarrow> ev_branch e = b"
        using sees_new[OF L(2) log_okD(2)[OF log] new, of e] new[of e] cur by (simp add: q)
    qed
    ultimately show ?thesis by (simp add: fs new_on_def)
  qed
  then have "query_events s' b (all_events\<lparr>q_after := sp_cursor snap\<rparr>) = Inr (new_on b s s')"
    using query_events_spec[OF log' L(3) lineage_of_distinct[OF L(2)]] by (simp add: all_events_def)
  moreover have "map_of (rev L) b = Some None" by (simp add: L0)
  ultimately show ?thesis by (simp add: snapshot_tail_def given_def snap(1) L(3))
qed

section \<open>The restored blocks\<close>

lemma lineage_branch: "lineage s b = Inr L \<Longrightarrow> b \<in> branch_ids s"
  using find_branch_None[of "st_branches s" b]
  by (cases "find_branch (st_branches s) b") (auto simp: lineage_def lineage_loop.simps branch_ids_def)

text \<open>
  C32: a resume shows the active memory.  A snapshot is taken of the state that is built from
  the tables of a reachable store.  After any further calls whose events the replay follows,
  restoring the snapshot on its branch does not raise, and the blocks of the restored state
  are the active memory that the tables then hold, name by name.
\<close>

theorem restored_blocks_agree:
  assumes start: "reachable w (va_store v)"
    and built: "build_state (va_store v) b = Inr st" "json_ok (md_float md) (JObj (state_dict st))"
    and taken: "create_state_snapshot w md project b parent v = (Inr snap, v')"
    and calls: "all_followed w cs (va_store v')"
  shows "\<exists>r. restore_snapshot (attempts (run_store w) cs (va_store v')) snap None current = Inr r
     \<and> block_text (rs_state r) = active_memory (attempts (run_store w) cs (va_store v')) b"
proof -
  let ?s = "va_store v" and ?t = "va_store v'" and ?u = "attempts (run_store w) cs (va_store v')"
  note ok = reachable_ok[OF start]
  have create: "create_snapshot w md (state_dict st) project b parent v = (Inr snap, v')"
    using taken built(1) by (simp add: create_state_snapshot_def)
  obtain row where row: "snapshot_taken w md (state_dict st) project b (counted ?s) snap row" and t: "?t = counted ?s"
    by (rule create_snapshot_cases[OF create]) auto
  have ok': "store_ok w ?t"
    using ok grown_store_ticks(1)[where w = w and s = ?s and n = "st_uuid ?s + 1" and m = "st_tick ?s + 1"] unfolding t counted_def grown_store_def by blast
  obtain bs where blocks: "get_active_blocks ?s b = Inr bs" using build_stateE[OF built(1)] by metis
  then have b: "b \<in> branch_ids ?s" using lineage_branch by (auto simp: get_active_blocks_def)
  then have bt: "b \<in> branch_ids ?t" by (simp add: t counted_def branch_ids_def)
  have same: "active_memory ?t b = active_memory ?s b"
    by (rule ext) (simp add: active_memory_def t counted_def get_active_blocks_def lineage_def visible_blocks_def)
  have "distinct (dkeys bs)" using active_memory_total[OF ok b] blocks by (metis sum.inject(2))
  then obtain st0 where st0: "start_state (sorted_dict (state_dict st)) = Inr st0" "live_ok st0"
      "block_text st0 = (\<lambda>n. map_option bl_content (dget bs n))"
    by (rule start_of_built[OF built(1) blocks])
  have "block_text st0 = active_memory ?t b" unfolding same st0(3) by (rule ext) (simp add: active_memory_def blocks)
  then obtain st1 where st1: "replay_events (new_on b ?t ?u) st0 = Inr st1" "live_ok st1" "block_text st1 = active_memory ?u b"
    using followed_calls[OF ok' bt calls st0(2)] by blast
  obtain r where r: "replay (sorted_dict (state_dict st)) (new_on b ?t ?u) = Inr r" "ls_blocks r = ls_blocks st1"
    using replay_returns[OF st0(1) st1(1,2)] by blast
  have snap: "sp_state snap = sorted_dict (state_dict st)" "sp_branch snap = b"
    using row json_loads_dict[OF built(2)] by (auto simp: snapshot_taken_def simp del: json_text.simps)
  obtain es where "query_events ?t b all_events = Inr es" "sp_cursor snap = (if es = [] then 0 else ev_seq (last es))"
    using row by (auto simp: snapshot_taken_def t)
  then have "snapshot_tail ?u snap None = Inr (new_on b ?t ?u)"
    using tail_of_snapshot[OF ok' _ _ bt snap(2)] attempts_grown[OF ok'] by blast
  then show ?thesis
    using r st1(3) by (simp add: restore_snapshot_def snap(1) block_text_def fun_eq_iff)
qed

lemma empty_built: "build_state (initial_store snapshot_world) ''main'' = Inr
    \<lparr>ls_blocks = [], ls_memories = [], ls_index = [], ls_recent = [], ls_order = [], ls_timeline = [], ls_lexical = []\<rparr>"
  by code_simp

lemma plain_name: "fst (redact_text (w_rules snapshot_world) True ''p'') = ''p''"
  by code_simp

lemma empty_snapshot: "is_ok (fst (create_state_snapshot snapshot_world plain_media [] ''main'' None (initial_vault snapshot_world)))"
  by code_simp

theorem restored_blocks_agree_witness:
  "\<exists>snap v' r. create_state_snapshot snapshot_world plain_media [] ''main'' None (initial_vault snapshot_world) = (Inr snap, v')
     \<and> restore_snapshot (attempts (run_store snapshot_world) [SetBlock ''p'' ''x'' ''main'' None []] (va_store v')) snap None [] = Inr r
     \<and> block_text (rs_state r)
         = active_memory (attempts (run_store snapshot_world) [SetBlock ''p'' ''x'' ''main'' None []] (va_store v')) ''main''"
proof -
  obtain snap v' where taken: "create_state_snapshot snapshot_world plain_media [] ''main'' None (initial_vault snapshot_world) = (Inr snap, v')"
    using empty_snapshot by (cases "create_state_snapshot snapshot_world plain_media [] ''main'' None (initial_vault snapshot_world)")
      (auto simp: is_ok_iff)
  have "va_store (initial_vault snapshot_world) = initial_store snapshot_world" by (simp add: initial_vault_def)
  moreover have "all_followed snapshot_world [SetBlock ''p'' ''x'' ''main'' None []] (va_store v')"
    by (simp add: followed_def plain_name)
  ultimately show ?thesis
    using restored_blocks_agree[OF _ _ _ taken, of _ "[SetBlock ''p'' ''x'' ''main'' None []]" "[]"] empty_built taken reachable.start
    by (fastforce simp: state_dict_def)
qed

section \<open>What the replay does not check\<close>

text \<open>
  The other side of \<open>followed\<close>: an event that a public caller appends with the kind of a block
  stands in the restored state as a block, while the tables hold no such block.
\<close>

lemma public_payload: "jget (fst (redact_object rules [(''block'', JStr n)])) ''block'' = JStr (fst (redact_text rules True n))"
  by (simp add: redact_object_def jget_def block_key_plain split_beta Let_def split: prod.splits if_splits)

lemma injected_block:
  assumes ok: "store_ok w s" and run: "append_event w ''memory_block'' content b ses role [(''block'', JStr n)] [] s = Inr (e, s')"
    and n: "n \<noteq> []" "fst (redact_text (w_rules w) True n) = n"
    and live: "live_ok st" "block_text st = active_memory s b"
  shows "active_memory s' b = active_memory s b
    \<and> (\<exists>st'. replay_events (new_on b s s') st = Inr st' \<and> block_text st' = (active_memory s b)(n \<mapsto> ev_content e))"
proof -
  note app = run[unfolded append_event_def]
  obtain payload s2 where e: "stamp_adapter PUBLIC_API None [(''block'', JStr n)] = Inr payload"
      "e = make_event w \<lparr>dr_branch = b, dr_session = ses, dr_kind = ''memory_block'', dr_role = role, dr_content = content,
         dr_channel = PUBLIC_API, dr_adapter = None, dr_payload = [(''block'', JStr n)], dr_files = []\<rparr>
         payload (w_uuid w (st_uuid s)) (w_now w (st_tick s)) s2"
      "st_events s' = st_events s @ [e]" "b \<in> branch_ids s"
    by (rule append_event_in_tx_cases[OF app]) simp
  note f = append_event_in_tx_fields[OF app]
  have "payload = [(''block'', JStr n)]" using e(1) by (simp add: stamp_adapter_def channel_defs)
  then have name: "jget (ev_payload e) ''block'' = JStr n" using n(2) by (simp add: e(2) make_event_payload public_payload)
  have new: "new_on b s s' = [e]" using e(3) f(1) by (simp add: new_on_def)
  have ok': "store_ok w s'" using log_call_ok[OF ok, of "CallAppend ''memory_block'' content b ses role [(''block'', JStr n)] []"] run by auto
  have "active_memory s' b = active_memory s b"
    using active_memory_kept[OF ok ok' _ _ e(4)] append_event_in_tx_appended[OF app] appends_grows appends_fields(9) by blast
  then show ?thesis
    using replay_event_block[OF live(1) _ name n(1)] f(3) live(2) by (auto simp: new)
qed

end
