(* ===== verification/Artifacts.thy ===== *)
theory Artifacts
  imports Ledger
begin

text \<open>
  Artifacts and the derived views of tool outputs (\<open>storage.py\<close>): what is written next to an
  event, under the same redaction, and what the integrity check says of it afterwards.  Bytes
  are characters; a text that an artifact's bytes decode to has code points up to U+00FF.
\<close>

section \<open>Bytes\<close>

text \<open>\<open>bytes.decode('utf-8')\<close>; \<open>UnicodeDecodeError\<close> is a \<open>ValueError\<close>.\<close>

fun utf8_decode :: "string \<Rightarrow> string result" where
  "utf8_decode [] = Inr []"
| "utf8_decode (b # bs) =
     (if code b < 128 then bindr (utf8_decode bs) (\<lambda>t. Inr (b # t))
      else case bs of
        [] \<Rightarrow> Inl (ValueError ''utf-8'')
      | c # cs \<Rightarrow>
          if code b \<in> {194, 195} \<and> 128 \<le> code c \<and> code c < 192
          then bindr (utf8_decode cs) (\<lambda>t. Inr (char_of ((code b - 192) * 64 + (code c - 128)) # t))
          else Inl (ValueError ''utf-8''))"

section \<open>Artifacts\<close>

datatype artifact_data = AText string | ABytes string

definition textual_mime :: "string \<Rightarrow> bool" where
  "textual_mime m \<longleftrightarrow> starts_with ''text/'' m \<or> ends_with ''json'' m"

definition artifact_payload ::
  "string \<Rightarrow> string \<Rightarrow> string \<Rightarrow> string \<Rightarrow> redaction list \<Rightarrow> (string, json) dict" where
  "artifact_payload artifact_id name mime content_hash redactions =
     [(''artifact_id'', JStr artifact_id), (''name'', JStr name), (''mime_type'', JStr mime), (''content_hash'', JStr content_hash)]
     @ (if redactions \<noteq> []
        then [(''_security_redactions'', JObj (map (\<lambda>(k, n). (k, JInt n)) (redaction_counts redactions)))] else [])"

definition insert_artifact :: "artifact \<Rightarrow> store \<Rightarrow> store result" where
  "insert_artifact a s =
     bindr (insert_keyed ar_id ''artifacts.id'' a (st_artifacts s)) (\<lambda>rows.
     bindr (foreign_key (find_event s (ar_event a) \<noteq> None)) (\<lambda>_. Inr (s\<lparr>st_artifacts := rows\<rparr>)))"

definition append_artifact ::
  "world \<Rightarrow> string \<Rightarrow> artifact_data \<Rightarrow> string \<Rightarrow> string \<Rightarrow> string option \<Rightarrow> string list \<Rightarrow> store \<Rightarrow> (artifact \<times> store) result" where
  "append_artifact w name data mime_type branch_id session_id files s =
     (let (safe_name, name_redactions) = redact_text (w_rules w) True name;
          (safe_mime, mime_redactions) = redact_text (w_rules w) True mime_type;
          textual = (case data of AText _ \<Rightarrow> True | ABytes _ \<Rightarrow> textual_mime safe_mime)
      in bindr (case data of AText t \<Rightarrow> Inr t | ABytes b \<Rightarrow> if textual then utf8_decode b else Inr b) (\<lambda>decoded.
         let (safe_text, data_redactions) = redact_text (w_rules w) textual decoded
         in if data_redactions \<noteq> [] \<and> \<not> textual
            then Inl (ValueError ''binary artifact appears to contain a secret; refusing durable write'')
            else (let safe_data = (if textual then utf8_encode safe_text else case data of AText t \<Rightarrow> t | ABytes b \<Rightarrow> b);
                      redactions = name_redactions @ mime_redactions @ data_redactions;
                      (hex, s1) = fresh_uuid w s;
                      (created_at, s2) = read_clock w s1;
                      artifact_id = ''art_'' @ hex;
                      content_hash = w_sha256 w safe_data
                  in bindr (append_event_in_tx w
                       \<lparr>dr_branch = branch_id, dr_session = session_id, dr_kind = ''artifact'', dr_role = None,
                        dr_content = ''artifact:'' @ safe_name, dr_channel = INTERNAL, dr_adapter = None,
                        dr_payload = artifact_payload artifact_id safe_name safe_mime content_hash redactions, dr_files = files\<rparr> s2)
                       (\<lambda>(e, s3).
                         let a = \<lparr>ar_id = artifact_id, ar_event = ev_id e, ar_name = safe_name, ar_mime = safe_mime,
                                  ar_hash = content_hash, ar_data = safe_data, ar_created = created_at\<rparr>
                         in bindr (insert_artifact a s3) (\<lambda>s4. Inr (a, s4))))))"

definition get_artifact :: "store \<Rightarrow> string \<Rightarrow> artifact result" where
  "get_artifact s i =
     (case List.find (\<lambda>a. ar_id a = i) (st_artifacts s) of
        None \<Rightarrow> Inl (KeyError (''unknown artifact: '' @ i)) | Some a \<Rightarrow> Inr a)"

section \<open>Views of tool outputs\<close>

text \<open>
  The values that \<open>save_tool_output_view\<close> is called with are the fields of a view without its
  identity and time; a call without one of them raises before anything else.
\<close>

definition same_view :: "tool_view \<Rightarrow> tool_view \<Rightarrow> bool" where
  "same_view a b \<longleftrightarrow> tv_event a = tv_event b \<and> tv_level a = tv_level b \<and> tv_reducer a = tv_reducer b \<and> tv_version a = tv_version b"

text \<open>\<open>INSERT OR IGNORE\<close>.\<close>

definition insert_view_or_ignore :: "tool_view \<Rightarrow> tool_view list \<Rightarrow> tool_view list" where
  "insert_view_or_ignore v rows =
     (if tv_id v \<in> tv_id ` set rows \<or> (\<exists>r \<in> set rows. same_view v r) then rows else rows @ [v])"

definition save_tool_output_view :: "world \<Rightarrow> tool_view \<Rightarrow> store \<Rightarrow> (tool_view \<times> store) result" where
  "save_tool_output_view w d s =
     (if tv_level d \<notin> set [''compact'', ''summary'']
      then Inl (ValueError ''tool output view level must be compact or summary'')
      else (let safe_content = fst (redact_text (w_rules w) True (tv_content d));
                safe_metadata = fst (redact_object (w_rules w) (tv_metadata d))
            in case find_event s (tv_event d) of
                 None \<Rightarrow> Inl (KeyError (''unknown event: '' @ tv_event d))
               | Some e \<Rightarrow>
                   if ev_kind e \<noteq> ''tool_output''
                   then Inl (ValueError ''derived output views require a tool_output source event'')
                   else if ev_chash e \<noteq> tv_source_hash d
                   then Inl (ValueError ''tool output view source hash does not match canonical event'')
                   else (let (hex, s1) = fresh_uuid w s;
                             (now, s2) = read_clock w s1;
                             rows = insert_view_or_ignore
                               (d\<lparr>tv_id := ''view_'' @ hex, tv_content := safe_content, tv_metadata := safe_metadata,
                                  tv_created := now\<rparr>) (st_views s2)
                         in case List.find (same_view d) rows of
                              None \<Rightarrow> Inl (AssertionError [])
                            | Some row \<Rightarrow> Inr (row, s2\<lparr>st_views := rows\<rparr>))))"

definition get_tool_output_view :: "store \<Rightarrow> string \<Rightarrow> string \<Rightarrow> tool_view option" where
  "get_tool_output_view s event_id level =
     (case filter (\<lambda>v. tv_event v = event_id \<and> tv_level v = level) (st_views s) of
        [] \<Rightarrow> None | v # vs \<Rightarrow> Some (max_key tv_created v vs))"

definition get_tool_output_view_by_id :: "store \<Rightarrow> string \<Rightarrow> tool_view result" where
  "get_tool_output_view_by_id s view_id =
     (case List.find (\<lambda>v. tv_id v = view_id) (st_views s) of
        None \<Rightarrow> Inl (KeyError (''unknown tool output view: '' @ view_id)) | Some v \<Rightarrow> Inr v)"

definition list_tool_output_views :: "store \<Rightarrow> string \<Rightarrow> tool_view list" where
  "list_tool_output_views s event_id =
     sorted_rev_key tv_view_tokens (filter (\<lambda>v. tv_event v = event_id) (st_views s))"

section \<open>The integrity check afterwards\<close>

lemma verify_views_append: "verify_views w s (vs @ us) = (case verify_views w s vs of None \<Rightarrow> verify_views w s us | Some x \<Rightarrow> Some x)"
  by (induction vs) (auto split: option.splits)

lemma verify_views_cong: "st_events s' = st_events s \<Longrightarrow> verify_views w s' vs = verify_views w s vs"
  by (induction vs) (auto simp: find_event_def split: option.splits)

lemma verify_artifacts_append:
  "verify_artifacts w (xs @ ys) = (case verify_artifacts w xs of None \<Rightarrow> verify_artifacts w ys | Some x \<Rightarrow> Some x)"
  by (induction xs) auto

lemma verify_chainD:
  assumes "verify_chain w s = None"
  shows "verify_events w None (st_events s) = None" "verify_artifacts w (st_artifacts s) = None" "verify_views w s (st_views s) = None"
  using assms by (auto simp: verify_chain_def split: option.splits)

lemma save_tool_output_view_cases:
  assumes "save_tool_output_view w d s = Inr (row, s')"
  obtains e v where "find_event s (tv_event d) = Some e" "ev_kind e = ''tool_output''" "tv_source_hash d = ev_chash e"
    "tv_event v = tv_event d" "tv_content v = fst (redact_text (w_rules w) True (tv_content d))"
    "tv_content_hash v = tv_content_hash d" "tv_source_hash v = tv_source_hash d"
    "s' = s\<lparr>st_uuid := st_uuid s + 1, st_tick := st_tick s + 1, st_views := insert_view_or_ignore v (st_views s)\<rparr>"
proof -
  let ?v = "d\<lparr>tv_id := ''view_'' @ w_uuid w (st_uuid s), tv_content := fst (redact_text (w_rules w) True (tv_content d)),
      tv_metadata := fst (redact_object (w_rules w) (tv_metadata d)), tv_created := w_now w (st_tick s)\<rparr>"
  obtain e where "find_event s (tv_event d) = Some e" "ev_kind e = ''tool_output''" "ev_chash e = tv_source_hash d"
    "s' = s\<lparr>st_uuid := st_uuid s + 1, st_tick := st_tick s + 1, st_views := insert_view_or_ignore ?v (st_views s)\<rparr>"
    using assms
    by (auto simp: save_tool_output_view_def fresh_uuid_def read_clock_def Let_def split: if_splits option.splits)
  then show thesis by (intro that[of e ?v]) simp_all
qed

text \<open>
  C36: a saved view and the integrity check.  A view is saved with the hash of its content, as
  the caller computes it, in a database that passes the check.  Then the database passes the
  check again exactly if no row was added, or redaction left the content's hash as it was: the
  row keeps the redacted content under the hash of the unredacted one.
\<close>

theorem saved_view_integrity:
  assumes intact: "verify_chain w s = None" and run: "save_tool_output_view w d s = Inr (row, s')"
    and hash: "tv_content_hash d = hash_text w (tv_content d)"
  shows "verify_chain w s' = None \<longleftrightarrow>
     st_views s' = st_views s \<or> hash_text w (fst (redact_text (w_rules w) True (tv_content d))) = hash_text w (tv_content d)"
proof (rule save_tool_output_view_cases[OF run], goal_cases)
  case (1 e v)
  have same: "st_events s' = st_events s" "st_artifacts s' = st_artifacts s" by (simp_all add: 1(8))
  have found: "find_event s' (tv_event v) = Some e" using 1(1,4) same(1) by (simp add: find_event_def)
  note old = verify_chainD[OF intact]
  have views: "verify_views w s' (st_views s) = None" using old(3) verify_views_cong[OF same(1)] by metis
  have "verify_views w s' [v] = None \<longleftrightarrow> hash_text w (fst (redact_text (w_rules w) True (tv_content d))) = hash_text w (tv_content d)"
    using found 1(3,5,6,7) hash by auto
  moreover have "verify_chain w s' = None \<longleftrightarrow> verify_views w s' (st_views s') = None"
    using old(1,2) by (simp add: verify_chain_def same)
  moreover have "st_views s' = st_views s \<or> st_views s' = st_views s @ [v]"
    by (simp add: 1(8) insert_view_or_ignore_def)
  ultimately show ?case using views by (auto simp: verify_views_append)
qed

definition view_world :: world where
  "view_world = \<lparr>w_uuid = show_nat, w_now = (\<lambda>_. ''t''), w_time = rat_of_nat, w_sha256 = (\<lambda>x. x), w_rules = []\<rparr>"

definition tool_store :: store where
  "tool_store = (case append_event_in_tx view_world
     \<lparr>dr_branch = ''main'', dr_session = None, dr_kind = ''tool_output'', dr_role = None, dr_content = ''o'',
      dr_channel = PUBLIC_API, dr_adapter = None, dr_payload = [], dr_files = []\<rparr> (initial_store view_world) of
     Inl e \<Rightarrow> initial_store view_world | Inr (e, s) \<Rightarrow> s)"

definition tool_event_view :: tool_view where
  "tool_event_view = \<lparr>tv_id = [], tv_event = ''evt_0'', tv_level = ''compact'', tv_reducer = ''r'', tv_version = ''1'',
     tv_content = ''c'', tv_source_hash = ev_chash (hd (st_events tool_store)), tv_content_hash = ''c'',
     tv_raw_bytes = 1, tv_view_bytes = 1, tv_raw_tokens = 1, tv_view_tokens = 1, tv_latency = 0, tv_metadata = [], tv_created = []\<rparr>"

lemma tool_facts:
  "verify_chain view_world tool_store = None \<and> is_ok (save_tool_output_view view_world tool_event_view tool_store)
     \<and> tv_content_hash tool_event_view = hash_text view_world (tv_content tool_event_view)
     \<and> fst (redact_text (w_rules view_world) True (tv_content tool_event_view)) = tv_content tool_event_view"
  by code_simp

lemmas tool_store_intact = tool_facts[THEN conjunct1]
lemmas tool_view_saved = tool_facts[THEN conjunct2, THEN conjunct1]
lemmas tool_view_hash = tool_facts[THEN conjunct2, THEN conjunct2, THEN conjunct1]
lemmas tool_view_plain = tool_facts[THEN conjunct2, THEN conjunct2, THEN conjunct2]

theorem saved_view_integrity_witness:
  "\<exists>row s'. save_tool_output_view view_world tool_event_view tool_store = Inr (row, s') \<and> verify_chain view_world s' = None"
proof -
  obtain row s' where r: "save_tool_output_view view_world tool_event_view tool_store = Inr (row, s')"
    using tool_view_saved by (auto simp: is_ok_iff)
  show ?thesis using saved_view_integrity[OF tool_store_intact r tool_view_hash] r tool_view_plain by simp
qed

end
