(* ===== verification/Reducers.thy ===== *)
theory Reducers
  imports Usage Artifacts Replay
begin

text \<open>
  The reduction of tool outputs (\<open>reducers.py\<close>) and its store calls in \<open>service.py\<close> and
  \<open>usage.py\<close>: families of commands, the views by family, the protection of lines, the frame
  around a view and the accounting.  The text of a float (\<open>ft\<close>, and \<open>rf\<close> for one read by
  \<open>json.loads\<close>) and the measured latency are parameters.
\<close>

section \<open>The patterns\<close>

definition rclass :: "char list \<Rightarrow> rx" where
  "rclass cs = RChar (\<lambda>c. c \<in> set cs)"

definition between :: "nat \<Rightarrow> nat \<Rightarrow> char \<Rightarrow> bool" where
  "between a b c \<longleftrightarrow> a \<le> code c \<and> code c \<le> b"

definition ANSI :: rx where
  "ANSI = RSeq (RChar (between 27 27))
     (RAlt (RChar (\<lambda>c. between 64 90 c \<or> between 92 95 c))
           (rseqs [rlit ''['', RStar (RChar (between 48 63)), RStar (RChar (between 32 47)), RChar (between 64 126)]))"

definition whole_word :: "rx \<Rightarrow> rx" where
  "whole_word r = RSeq RBound (RSeq r RBound)"

definition FAILURE :: rx where
  "FAILURE = ralts
     [whole_word (RSeq (rlit_i ''FAIL'') (ropt (RAlt (rlit_i ''ED'') (rlit_i ''URE'')))),
      whole_word (rlit_i ''ERROR''), whole_word (rlit_i ''FATAL''), whole_word (rlit_i ''PANIC''),
      rlit_i ''AssertionError'', rlit_i ''Traceback'', rlit_i ''Exception'', rlit_i ''segmentation fault'', rlit_i ''npm ERR!'']"

definition WARNING :: rx where
  "WARNING = ralts
     [whole_word (RSeq (rlit_i ''WARN'') (ropt (rlit_i ''ING''))), rlit_i ''deprecated'', rlit_i ''flaky'', rlit_i ''retry'']"

text \<open>The lines it is applied to have no line break, so \<open>$\<close> is the end of the text.\<close>

definition SUMMARY :: rx where
  "SUMMARY = ralts
     [rseqs [RBegin, rplus (rlit ''=''), RStar (RChar is_space), rplus (RChar is_digit), rplus (RChar is_space),
             ralts [rlit_i ''passed'', rlit_i ''failed'', rlit_i ''error'', rlit_i ''skipped'']],
      rseqs [RBegin, rplus (RChar is_digit), rplus (RChar is_space),
             ralts [rlit_i ''passed'', rlit_i ''failed'', rlit_i ''skipped'', RSeq (rlit_i ''error'') (ropt (rlit_i ''s''))],
             ralts [RChar is_space, rlit '','', REnd]],
      rseqs [RBegin, rlit_i ''test'', ropt (rlit_i ''s''), rplus (RChar is_space), ralts [rlit_i ''run'', rlit_i ''passed'', rlit_i ''failed'']],
      rlit_i ''test result:'', rlit_i ''finished in'']"

definition PATH_LINE :: rx where
  "PATH_LINE = rseqs
     [RAlt RBegin (RChar is_space),
      RGroup 1 (rseqs [rplus (RChar (\<lambda>c. \<not> is_space c \<and> c \<noteq> CHR '':'')), rlit ''.'',
        ralts (map rlit [''py'', ''js'', ''ts'', ''tsx'', ''rs'', ''go'', ''java'', ''cs'', ''cpp'', ''c'', ''h''])]),
      rlit '':'', RGroup 2 (rplus (RChar is_digit))]"

definition newlines :: "string \<Rightarrow> string" where
  "newlines t = replace_all [CHR 0x0D] [CHR 0x0A] (replace_all [CHR 0x0D, CHR 0x0A] [CHR 0x0A] t)"

definition plain_text :: "string \<Rightarrow> string" where
  "plain_text t = newlines (fst (re_subn ANSI (\<lambda>_ _. []) t))"

definition squeeze :: "string \<Rightarrow> string" where
  "squeeze line = join '' '' (split_ws line)"

definition first_failure_line :: "string \<Rightarrow> string option" where
  "first_failure_line t =
     map_option (take 240) (List.find (\<lambda>line. line \<noteq> [] \<and> re_found FAILURE line) (map squeeze (splitlines (plain_text t))))"

section \<open>Families\<close>

definition command_keys :: "string list" where
  "command_keys = [''command'', ''cmd'', ''script'', ''query'', ''path'', ''file_path'']"

definition event_names :: "event \<Rightarrow> string" where
  "event_names e =
     strip (join '' '' (map (\<lambda>k. case dget (ev_payload e) k of None \<Rightarrow> [] | Some v \<Rightarrow> py_str v) [''tool_name'', ''tool'', ''name'']))"

definition command_of :: "event \<Rightarrow> string" where
  "command_of e =
     (case dget_default (ev_payload e) ''tool_input'' (JObj []) of
        JObj d \<Rightarrow> (case List.find (\<lambda>k. truthy (jget d k)) command_keys of Some k \<Rightarrow> py_str (jget d k) | None \<Rightarrow> event_names e)
      | JStr t \<Rightarrow> t
      | _ \<Rightarrow> event_names e)"

definition FAMILIES :: "string list" where
  "FAMILIES = [''test'', ''diff'', ''status'', ''search'', ''source'', ''build'', ''generic'']"

definition command_family :: "string \<Rightarrow> string" where
  "command_family command =
     (let has = (\<lambda>items. \<exists>item \<in> set items. contains item command)
      in if has [''pytest'', ''unittest'', ''cargo test'', ''go test'', ''npm test'', ''pnpm test'', ''yarn test'', ''dotnet test'']
         then ''test''
         else if has [''git diff'', ''git show''] then ''diff''
         else if has [''git status''] then ''status''
         else if has [''rg '', ''grep '', ''findstr'', ''select-string''] then ''search''
         else if has [''cat '', ''get-content'', ''read_file'', ''read file''] then ''source''
         else if has [''npm install'', ''pnpm install'', ''cargo build'', ''cargo check'', ''compile'', ''docker build'', ''pip install'']
         then ''build'' else ''generic'')"

definition family :: "event \<Rightarrow> string result" where
  "family e =
     (case jget (ev_payload e) ''benchmark'' of
        JObj d \<Rightarrow> bindr (hashable (jget d ''family'')) (\<lambda>f.
          if f \<in> JStr ` set FAMILIES then Inr (py_str f) else Inr (command_family (casefold (command_of e))))
      | _ \<Rightarrow> Inr (command_family (casefold (command_of e))))"

section \<open>Signals and sections\<close>

definition clean :: "string \<Rightarrow> string" where
  "clean t = strip (join [CHR 0x0A] (map rstrip (splitlines (plain_text t))))"

definition reference_text :: "(nat \<times> string) list \<Rightarrow> (string \<Rightarrow> string) \<Rightarrow> string" where
  "reference_text g f = f (the (group 1 g)) @ '':'' @ the (group 2 g)"

definition line_signal :: "string \<Rightarrow> string \<Rightarrow> string option" where
  "line_signal fam line =
     (if line = [] then None
      else case (if fam \<in> {''search'', ''diff''} then re_search PATH_LINE line else None) of
        Some (_, _, q) \<Rightarrow> Some (reference_text (groups_of q) casefold)
      | None \<Rightarrow> if re_found FAILURE line \<or> re_found SUMMARY line then Some (casefold line) else None)"

definition critical_signals :: "string \<Rightarrow> string \<Rightarrow> string set" where
  "critical_signals t fam = set (List.map_filter (line_signal fam \<circ> squeeze) (splitlines t))"

text \<open>\<open>xs[i:]\<close> and \<open>xs[:i]\<close> for any integer.\<close>

definition slice_at :: "int \<Rightarrow> 'a list \<Rightarrow> nat" where
  "slice_at i xs = nat (if 0 \<le> i then i else int (length xs) + i)"

definition slice_from :: "int \<Rightarrow> 'a list \<Rightarrow> 'a list" where
  "slice_from i xs = drop (slice_at i xs) xs"

definition slice_to :: "int \<Rightarrow> 'a list \<Rightarrow> 'a list" where
  "slice_to i xs = take (slice_at i xs) xs"

definition selected_with_context :: "string list \<Rightarrow> (string \<Rightarrow> bool) \<Rightarrow> int \<Rightarrow> string list" where
  "selected_with_context lines P radius =
     (let selected = set (concat (map (\<lambda>i. if P (lines ! i)
            then [nat (int i - radius) ..< nat (min (int (length lines)) (int i + radius + 1))] else []) [0 ..< length lines]))
      in map (\<lambda>i. lines ! i) (filter (\<lambda>i. i \<in> selected) [0 ..< length lines]))"

section \<open>Views by family\<close>

record reducer =
  rd_minimum :: int
  rd_head :: int
  rd_tail :: int
  rd_context :: int
  rd_protected :: "rx list"
  rd_config_error :: "string option"

text \<open>\<open>__init__\<close>: one pattern that does not compile leaves none and an error.\<close>

fun compile_patterns :: "(string \<Rightarrow> (string, rx) sum) \<Rightarrow> string list \<Rightarrow> rx list \<Rightarrow> rx list \<times> string option" where
  "compile_patterns re_compile [] compiled = (compiled, None)"
| "compile_patterns re_compile (item # items) compiled =
     (case re_compile item of
        Inl message \<Rightarrow> ([], Some (repr_str item @ '': '' @ message))
      | Inr r \<Rightarrow> compile_patterns re_compile items (compiled @ [r]))"

definition new_reducer :: "(string \<Rightarrow> (string, rx) sum) \<Rightarrow> string list \<Rightarrow> reducer" where
  "new_reducer re_compile patterns =
     (let (compiled, error) = compile_patterns re_compile patterns []
      in \<lparr>rd_minimum = 160, rd_head = 24, rd_tail = 24, rd_context = 2, rd_protected = compiled, rd_config_error = error\<rparr>)"

type_synonym view_body = "string \<times> string \<times> (string, json) dict"

definition line_counts :: "string list \<Rightarrow> string list \<Rightarrow> (string, json) dict" where
  "line_counts lines selected =
     [(''raw_lines'', JInt (int (length lines))), (''kept_lines'', JInt (int (length selected)))]"

definition omitted :: "string list \<Rightarrow> string list \<Rightarrow> (string, json) dict" where
  "omitted lines selected = [(''omitted_lines'', JInt (max 0 (int (length lines) - int (length selected))))]"

definition salient_line :: "string \<Rightarrow> bool" where
  "salient_line line \<longleftrightarrow> re_found FAILURE line \<or> re_found WARNING line"

definition test_view :: "reducer \<Rightarrow> string list \<Rightarrow> view_body" where
  "test_view rd lines =
     (let failures = selected_with_context lines (re_found FAILURE) (rd_context rd);
          summaries = filter (re_found SUMMARY) lines;
          warnings = slice_from (- 12) (filter (re_found WARNING) lines);
          found = uniq (failures @ warnings @ summaries);
          selected = (if found = [] then slice_from (- rd_tail rd) lines else found)
      in (join [CHR 0x0A] selected, ''test-signal-extraction'', line_counts lines selected @ omitted lines selected))"

definition path_references :: "string \<Rightarrow> string list" where
  "path_references line = map (\<lambda>(m, g). reference_text g id) (re_findall PATH_LINE line)"

definition search_view :: "string list \<Rightarrow> view_body" where
  "search_view lines =
     (let references = uniq (concat (map path_references lines));
          unparsed = filter (\<lambda>line. path_references line = [] \<and> salient_line line) lines;
          selected = references @ unparsed
      in (join [CHR 0x0A] selected, ''search-reference-index'',
          line_counts lines selected @ [(''path_references'', JInt (int (length references)))] @ omitted lines selected))"

text \<open>Appending to a list what it does not have yet.\<close>

definition add_new :: "'a list \<Rightarrow> 'a list \<Rightarrow> 'a list" where
  "add_new xs ys = fold (\<lambda>y acc. if y \<in> set acc then acc else acc @ [y]) ys xs"

definition build_view :: "reducer \<Rightarrow> string list \<Rightarrow> view_body" where
  "build_view rd lines =
     (let selected = add_new (selected_with_context lines salient_line (rd_context rd)) (slice_from (- rd_tail rd) lines)
      in (join [CHR 0x0A] selected, ''build-signal-and-tail'', line_counts lines selected @ omitted lines selected))"

definition repeated :: "nat \<Rightarrow> string list" where
  "repeated n = (if n = 0 then [] else [''[previous line repeated '' @ show_nat n @ '' more times]''])"

text \<open>The deduplicated lines and the number of lines that collapsed; \<open>n\<close> counts repetitions of the last line.\<close>

fun collapse :: "string option \<Rightarrow> nat \<Rightarrow> string list \<Rightarrow> string list \<times> nat" where
  "collapse previous n [] = (repeated n, 0)"
| "collapse previous n (line # lines) =
     (if Some line = previous then apsnd Suc (collapse previous (Suc n) lines)
      else apfst (\<lambda>rest. repeated n @ line # rest) (collapse (Some line) 0 lines))"

definition generic_view :: "reducer \<Rightarrow> string list \<Rightarrow> view_body" where
  "generic_view rd lines =
     (let (deduplicated, duplicates) = collapse None 0 lines;
          selected =
            (if int (length deduplicated) \<le> rd_head rd + rd_tail rd then deduplicated
             else add_new (slice_to (rd_head rd) deduplicated
                    @ [''[... '' @ show_int (int (length deduplicated) - rd_head rd - rd_tail rd) @ '' middle lines omitted ...]''])
                    (selected_with_context deduplicated salient_line (rd_context rd))
                  @ slice_from (- rd_tail rd) deduplicated)
      in (join [CHR 0x0A] selected, ''deduplicate-salient-head-tail'',
          line_counts lines selected @ [(''duplicate_lines_collapsed'', JInt (int duplicates))] @ omitted lines selected))"

section \<open>Arrays of rows\<close>

type_synonym row = "(string, json) dict"

text \<open>\<open>json.dumps(value, ensure_ascii=False)\<close>: members in their own order.\<close>

fun plain_json :: "json \<Rightarrow> string" where
  "plain_json (JArr xs) = ''['' @ join '', '' (map plain_json xs) @ '']''"
| "plain_json (JObj kvs) = ''{'' @ join '', '' (map (\<lambda>(k, v). json_string k @ '': '' @ plain_json v) kvs) @ ''}''"
| "plain_json v = json_text v"

definition rows_of :: "json list \<Rightarrow> row list option" where
  "rows_of items = (if list_all (\<lambda>x. case x of JObj _ \<Rightarrow> True | _ \<Rightarrow> False) items
                    then Some (map (\<lambda>x. case x of JObj d \<Rightarrow> d | _ \<Rightarrow> []) items) else None)"

definition parse_json_rows :: "(string \<Rightarrow> string) \<Rightarrow> string \<Rightarrow> row list option" where
  "parse_json_rows rf raw =
     (let t = strip raw
      in if \<not> (starts_with ''['' t \<or> starts_with ''{'' t) then None
         else case json_loads rf t of
                Some (JArr items) \<Rightarrow> rows_of items
              | Some (JObj d) \<Rightarrow>
                  (case filter (\<lambda>v. case v of JArr _ \<Rightarrow> True | _ \<Rightarrow> False) (map snd d) of
                     [JArr items] \<Rightarrow> rows_of items | _ \<Rightarrow> None)
              | _ \<Rightarrow> None)"

definition row_text :: "row \<Rightarrow> string" where
  "row_text r = spaced_json (JObj r)"

definition row_protected :: "reducer \<Rightarrow> row \<Rightarrow> bool" where
  "row_protected rd r \<longleftrightarrow> (\<exists>p \<in> set (rd_protected rd). re_found p (row_text r))"

definition csv_cell :: "json \<Rightarrow> string" where
  "csv_cell v =
     (let cell = (case v of JStr t \<Rightarrow> t | _ \<Rightarrow> spaced_json v)
      in if \<exists>c \<in> set cell. c \<in> {CHR '','', CHR 0x22, CHR 0x0A}
         then [CHR 0x22] @ replace_all [CHR 0x22] [CHR 0x22, CHR 0x22] cell @ [CHR 0x22] else cell)"

definition lossless_csv :: "row list \<Rightarrow> string list \<Rightarrow> string option" where
  "lossless_csv rows core =
     (if \<exists>r \<in> set rows. set (dkeys r) \<noteq> set core then None
      else Some (join [CHR 0x0A] (join '','' core # map (\<lambda>r. join '','' (map (\<lambda>k. csv_cell (jget r k)) core)) rows)))"

text \<open>The first row of each text.\<close>

fun distinct_rows :: "string list \<Rightarrow> row list \<Rightarrow> row list" where
  "distinct_rows seen [] = []"
| "distinct_rows seen (r # rs) =
     (if row_text r \<in> set seen then distinct_rows seen rs else r # distinct_rows (row_text r # seen) rs)"

definition JSON_MIN_ROWS :: int where "JSON_MIN_ROWS = 5"
definition JSON_CAP :: int where "JSON_CAP = 15"
definition JSON_FIRST :: rat where "JSON_FIRST = fl (30 / 100)"
definition JSON_LAST :: rat where "JSON_LAST = fl (15 / 100)"
definition JSON_LOSSLESS_GATE :: rat where "JSON_LOSSLESS_GATE = fl (15 / 100)"
definition JSON_CORE_FIELD_FRACTION :: rat where "JSON_CORE_FIELD_FRACTION = fl (8 / 10)"

definition core_fields :: "row list \<Rightarrow> string list" where
  "core_fields rows =
     (let key_counts = fold (\<lambda>k d. dset k (dget_default d k 0 + 1) d) (concat (map dkeys rows)) []
      in map fst (filter (\<lambda>(k, n). fl (of_int n / of_int (max (int (length rows)) 1)) \<ge> JSON_CORE_FIELD_FRACTION) key_counts))"

text \<open>The schema change-points that fill the slack under the cap.\<close>

fun change_points :: "nat \<Rightarrow> int \<Rightarrow> string set option \<Rightarrow> row list \<Rightarrow> nat set \<Rightarrow> nat set" where
  "change_points i slack previous [] kept = kept"
| "change_points i slack previous (r # rs) kept =
     (let keys = set (dkeys r)
      in if previous \<noteq> None \<and> previous \<noteq> Some keys \<and> i \<notin> kept
         then (if slack - 1 = 0 then insert i kept else change_points (Suc i) (slack - 1) (Some keys) rs (insert i kept))
         else change_points (Suc i) slack (Some keys) rs kept)"

definition kept_indexes :: "reducer \<Rightarrow> row list \<Rightarrow> nat set" where
  "kept_indexes rd rows =
     (let count = int (length rows);
          first = min \<lceil>float_times count JSON_FIRST\<rceil> count;
          last = min \<lceil>float_times count JSON_LAST\<rceil> count;
          first_quota = min first \<lceil>float_times JSON_CAP (fl (6 / 10))\<rceil>;
          last_quota = min last (JSON_CAP - first_quota);
          kept = set [0 ..< nat first_quota] \<union> set [nat (max 0 (count - last_quota)) ..< length rows];
          slack = JSON_CAP - int (card kept)
      in (if slack > 0 then change_points 0 slack None rows kept else kept)
         \<union> set (filter (\<lambda>i. row_protected rd (rows ! i)) [0 ..< length rows]))"

definition row_counts :: "nat \<Rightarrow> nat \<Rightarrow> nat \<Rightarrow> nat \<Rightarrow> (string, json) dict" where
  "row_counts n_rows kept dropped duplicates =
     [(''rows_total'', JInt (int n_rows)), (''rows_kept'', JInt (int kept)), (''rows_dropped'', JInt (int dropped)),
      (''duplicates_collapsed'', JInt (int duplicates))]"

definition csv_savings :: "string \<Rightarrow> string \<Rightarrow> rat" where
  "csv_savings csv raw = fl (1 - fl (of_int (int (utf8_len csv)) / of_int (max (int (utf8_len raw)) 1)))"

definition lossless_view :: "(rat \<Rightarrow> string) \<Rightarrow> row list \<Rightarrow> nat \<Rightarrow> string \<Rightarrow> view_body option" where
  "lossless_view ft rows n_rows raw =
     (let core = core_fields rows
      in if core = [] \<or> length rows \<noteq> n_rows then None
         else case lossless_csv rows core of
                None \<Rightarrow> None
              | Some csv \<Rightarrow>
                  if csv_savings csv raw \<ge> JSON_LOSSLESS_GATE
                  then Some (csv, ''json-lossless-csv'',
                         [(''rows_total'', JInt (int n_rows)), (''rows_kept'', JInt (int n_rows)), (''rows_dropped'', JInt 0),
                          (''csv_savings'', JFloat (ft (fl (of_int (round_even (csv_savings csv raw * 10000)) / 10000))))])
                  else None)"

definition json_array_view :: "reducer \<Rightarrow> (rat \<Rightarrow> string) \<Rightarrow> row list \<Rightarrow> string \<Rightarrow> string \<Rightarrow> view_body option" where
  "json_array_view rd ft rows event_id raw =
     (let n_rows = length rows; deduplicated = distinct_rows [] rows; count = length deduplicated
      in case lossless_view ft deduplicated n_rows raw of
           Some v \<Rightarrow> Some v
         | None \<Rightarrow>
             if int count \<le> JSON_CAP
             then Some (plain_json (JArr (map JObj deduplicated)), ''json-array-crush'',
                        row_counts n_rows count (n_rows - count) (n_rows - count))
             else let kept = map (\<lambda>i. deduplicated ! i) (filter (\<lambda>i. i \<in> kept_indexes rd deduplicated) [0 ..< count]);
                      dropped = n_rows - length kept
                  in if \<exists>r \<in> set deduplicated. row_protected rd r \<and> r \<notin> set kept then None
                     else Some (plain_json (JArr (map JObj kept
                                  @ (if dropped > 0
                                     then [JObj [(''_dropped'', JStr (show_nat dropped @ '' rows omitted; exact source: memory_source '' @ event_id))]]
                                     else []))),
                            ''json-array-crush'', row_counts n_rows (length kept) dropped (n_rows - count)))"

section \<open>Protected lines, summaries and frames\<close>

definition line_protected :: "reducer \<Rightarrow> string \<Rightarrow> bool" where
  "line_protected rd line \<longleftrightarrow> line \<noteq> [] \<and> (\<exists>p \<in> set (rd_protected rd). re_found p line)"

definition enforce_protected_lines :: "reducer \<Rightarrow> string \<Rightarrow> string list \<Rightarrow> string option" where
  "enforce_protected_lines rd compact_body lines =
     (let required = filter (line_protected rd) lines
      in if required = [] then Some compact_body
         else let missing = filter (\<lambda>line. line \<notin> set (splitlines compact_body)) required;
                  body = (if missing = [] then compact_body else join [CHR 0x0A] (compact_body # ''[protected lines]'' # missing))
              in if \<exists>line \<in> set required. \<not> contains line body then None else Some body)"

definition meta_text :: "(string, json) dict \<Rightarrow> string \<Rightarrow> json \<Rightarrow> string" where
  "meta_text metadata k absent = py_str (dget_default metadata k absent)"

definition summary :: "string \<Rightarrow> string \<Rightarrow> (string, json) dict \<Rightarrow> string" where
  "summary compact_body fam metadata =
     (let lines = splitlines compact_body;
          found = filter (\<lambda>line. re_found FAILURE line \<or> re_found SUMMARY line) lines;
          salient = (if found = [] then take 8 lines @ (if length lines > 12 then take_last 4 lines else []) else found);
          n_lines = JInt (int (length lines))
      in join [CHR 0x0A]
           ((''family='' @ fam @ ''; raw_lines='' @ meta_text metadata ''raw_lines'' n_lines
             @ ''; kept_lines='' @ meta_text metadata ''kept_lines'' n_lines
             @ ''; omitted_lines='' @ meta_text metadata ''omitted_lines'' (JInt 0)) # take 24 salient))"

definition frame :: "string \<Rightarrow> string \<Rightarrow> string \<Rightarrow> int \<Rightarrow> string \<Rightarrow> string" where
  "frame event_id level strategy raw_tokens content =
     ''[tool-output-view source='' @ event_id @ '' level='' @ level @ '' strategy='' @ strategy @ '' raw_tokens='' @ show_int raw_tokens
     @ '']'' @ [CHR 0x0A] @ content @ [CHR 0x0A] @ ''[exact source available: '' @ event_id @ '']''"

section \<open>Reducing an event\<close>

record reduced_view =
  rv_level :: string
  rv_content :: string
  rv_strategy :: string
  rv_metadata :: "(string, json) dict"

record reduction =
  bn_event :: string
  bn_family :: string
  bn_raw_tokens :: int
  bn_raw_bytes :: int
  bn_latency :: int
  bn_views :: "reduced_view list"
  bn_critical :: int
  bn_recall :: rat

definition compact_of :: "reduction \<Rightarrow> reduced_view option" where
  "compact_of b = List.find (\<lambda>v. rv_level v = ''compact'') (bn_views b)"

definition recall_of :: "string set \<Rightarrow> string set \<Rightarrow> rat" where
  "recall_of critical retained =
     (if critical = {} then 1 else fl (of_int (int (card (critical \<inter> retained))) / of_int (int (card critical))))"

text \<open>The family, which rows turn into \<open>json\<close>, and the view of the body; \<open>None\<close> is fail closed.\<close>

definition body_view :: "reducer \<Rightarrow> (string \<Rightarrow> string) \<Rightarrow> (rat \<Rightarrow> string) \<Rightarrow> event \<Rightarrow> string \<Rightarrow> string list \<Rightarrow> string \<times> view_body option" where
  "body_view rd rf ft e fam lines =
     (case (if fam = ''generic'' then parse_json_rows rf (ev_content e) else None) of
        Some rows \<Rightarrow>
          if int (length rows) \<ge> JSON_MIN_ROWS then (''json'', json_array_view rd ft rows (ev_id e) (ev_content e))
          else (fam, Some (generic_view rd lines))
      | None \<Rightarrow>
          (fam, Some (if fam = ''test'' then test_view rd lines
                      else if fam = ''search'' then search_view lines
                      else if fam = ''build'' then build_view rd lines
                      else generic_view rd lines)))"

definition enforced_view :: "reducer \<Rightarrow> string list \<Rightarrow> string \<times> view_body option \<Rightarrow> string \<times> view_body option" where
  "enforced_view rd lines fv =
     (case fv of
        (fam, Some (body, strategy, metadata)) \<Rightarrow>
          if fam = ''json'' then fv
          else (fam, map_option (\<lambda>b. (b, strategy, metadata)) (enforce_protected_lines rd body lines))
      | (fam, None) \<Rightarrow> fv)"

definition emitted_views :: "(rat \<Rightarrow> string) \<Rightarrow> event \<Rightarrow> string \<Rightarrow> int \<Rightarrow> string set \<Rightarrow> view_body \<Rightarrow> reduced_view list" where
  "emitted_views ft e fam raw_tokens critical v =
     (case v of (body, strategy, counts) \<Rightarrow>
        let content = frame (ev_id e) ''compact'' strategy raw_tokens body;
            compact_tokens = conservative_token_estimate content;
            recall = recall_of critical (critical_signals body fam);
            metadata = dupdate counts [(''family'', JStr fam), (''critical_signal_count'', JInt (int (card critical))),
              (''critical_signal_recall'', JFloat (ft recall))];
            short = frame (ev_id e) ''summary'' strategy raw_tokens (summary body fam metadata)
        in if compact_tokens < raw_tokens
           then \<lparr>rv_level = ''compact'', rv_content = content, rv_strategy = strategy, rv_metadata = metadata\<rparr>
                # (if conservative_token_estimate short < compact_tokens
                   then [\<lparr>rv_level = ''summary'', rv_content = short, rv_strategy = strategy, rv_metadata = metadata\<rparr>] else [])
           else [])"

definition compact_recall :: "string set \<Rightarrow> string \<Rightarrow> reduced_view list \<Rightarrow> rat" where
  "compact_recall critical fam views =
     (case List.find (\<lambda>v. rv_level v = ''compact'') views of
        None \<Rightarrow> 1 | Some v \<Rightarrow> recall_of critical (critical_signals (rv_content v) fam))"

definition reduce :: "reducer \<Rightarrow> (string \<Rightarrow> string) \<Rightarrow> (rat \<Rightarrow> string) \<Rightarrow> int \<Rightarrow> event \<Rightarrow> reduction result" where
  "reduce rd rf ft latency e =
     (if ev_kind e \<noteq> ''tool_output'' then Inl (ValueError ''only tool_output events can be reduced'')
      else bindr (family e) (\<lambda>fam.
        let raw = ev_content e;
            raw_tokens = conservative_token_estimate raw;
            lines = splitlines (clean raw);
            critical = critical_signals raw fam;
            result = (\<lambda>fam views.
              \<lparr>bn_event = ev_id e, bn_family = fam, bn_raw_tokens = raw_tokens, bn_raw_bytes = int (utf8_len raw),
               bn_latency = latency, bn_views = views, bn_critical = int (card critical),
               bn_recall = compact_recall critical fam views\<rparr>)
        in if rd_config_error rd \<noteq> None \<or> raw_tokens < rd_minimum rd \<or> fam \<in> {''source'', ''diff'', ''status''}
           then Inr (result fam [])
           else case enforced_view rd lines (body_view rd rf ft e fam lines) of
                  (fam, None) \<Rightarrow> Inr (result fam [])
                | (fam, Some v) \<Rightarrow> Inr (result fam (emitted_views ft e fam raw_tokens critical v))))"

section \<open>Storing the views\<close>

definition materialize_view :: "world \<Rightarrow> event \<Rightarrow> reduction \<Rightarrow> reduced_view \<Rightarrow> tool_view" where
  "materialize_view w e b v =
     \<lparr>tv_id = [], tv_event = ev_id e, tv_level = rv_level v, tv_reducer = ''builtin-command-aware'', tv_version = ''1'',
      tv_content = rv_content v, tv_source_hash = ev_chash e, tv_content_hash = hash_text w (rv_content v),
      tv_raw_bytes = bn_raw_bytes b, tv_view_bytes = int (utf8_len (rv_content v)), tv_raw_tokens = bn_raw_tokens b,
      tv_view_tokens = conservative_token_estimate (rv_content v), tv_latency = bn_latency b,
      tv_metadata = rv_metadata v, tv_created = []\<rparr>"

fun save_views :: "world \<Rightarrow> event \<Rightarrow> reduction \<Rightarrow> reduced_view list \<Rightarrow> store \<Rightarrow> (tool_view list \<times> store) result" where
  "save_views w e b [] s = Inr ([], s)"
| "save_views w e b (v # vs) s =
     bindr (save_tool_output_view w (materialize_view w e b v) s) (\<lambda>(row, s1).
     bindr (save_views w e b vs s1) (\<lambda>(rows, s2). Inr (row # rows, s2)))"

definition reduction_sample :: "(rat \<Rightarrow> string) \<Rightarrow> event \<Rightarrow> reduction \<Rightarrow> int \<Rightarrow> int \<Rightarrow> usage_sample" where
  "reduction_sample ft e b emitted_tokens emitted_bytes =
     \<lparr>us_id = [], us_receipt = Some (''reduce:'' @ ev_id e @ '':v1''), us_branch = ev_branch e, us_session = ev_session e, us_event = Some (ev_id e), us_source = ''joiny-mnemonic'',
      us_operation = ''tool_output_reduce'', us_input = bn_raw_tokens b, us_output = emitted_tokens, us_cache_read = 0,
      us_cache_write = 0, us_context = 0, us_estimated = True, us_cost = None,
      us_latency = Some \<lparr>fl_value = fl (of_int (bn_latency b) / 1000000), fl_repr = ft (fl (of_int (bn_latency b) / 1000000))\<rparr>,
      us_raw = bn_raw_bytes b, us_emitted = emitted_bytes,
      us_metadata = [(''family'', JStr (bn_family b)), (''critical_signal_count'', JInt (bn_critical b)),
        (''critical_signal_recall'', JFloat (ft (bn_recall b))), (''token_savings'', JInt (max 0 (bn_raw_tokens b - emitted_tokens)))],
      us_created = []\<rparr>"

definition record_reduction :: "world \<Rightarrow> (rat \<Rightarrow> string) \<Rightarrow> event \<Rightarrow> reduction \<Rightarrow> int \<Rightarrow> int \<Rightarrow> vault \<Rightarrow> (usage_sample \<times> vault) result" where
  "record_reduction w ft e b emitted_tokens emitted_bytes v =
     record_usage w (reduction_sample ft e b emitted_tokens emitted_bytes) v"

definition reduce_tool_output ::
  "world \<Rightarrow> reducer \<Rightarrow> (string \<Rightarrow> string) \<Rightarrow> (rat \<Rightarrow> string) \<Rightarrow> int \<Rightarrow> event \<Rightarrow> vault \<Rightarrow> ((reduction \<times> tool_view list) \<times> vault) result" where
  "reduce_tool_output w rd rf ft latency e v =
     bindr (reduce rd rf ft latency e) (\<lambda>b.
     bindr (save_views w e b (bn_views b) (va_store v)) (\<lambda>(stored, s).
       let compact_row = List.find (\<lambda>t. tv_level t = ''compact'') stored;
           emitted_tokens = (case compact_row of None \<Rightarrow> bn_raw_tokens b | Some t \<Rightarrow> tv_view_tokens t);
           emitted_bytes = (case compact_row of None \<Rightarrow> bn_raw_bytes b | Some t \<Rightarrow> tv_view_bytes t)
       in bindr (record_reduction w ft e b emitted_tokens emitted_bytes (v\<lparr>va_store := s\<rparr>)) (\<lambda>(_, v').
            Inr ((b, stored), v'))))"

end
