(* ===== verification/Prompt.thy ===== *)
theory Prompt
  imports Reducers
begin

text \<open>
  The assembly of the prompt packet of a resumed session (\<open>prompt.py\<close>, \<open>failure_quality.py\<close>):
  protected memory, recent transcript, retrieved memory, the historical index, all under one
  token budget.  The token counter, the opening text of a packet (it has a character above
  U+00FF) and the hits of the search engine are arguments; telemetry and the recording of
  data flow write nothing that a later step reads.
\<close>

definition LF2 :: string where
  "LF2 = [CHR 0x0A, CHR 0x0A]"

definition paragraphs :: "string list \<Rightarrow> string" where
  "paragraphs parts = join LF2 parts"

section \<open>Failures without information\<close>

definition LOW_INFORMATION_FAILURE :: rx where
  "LOW_INFORMATION_FAILURE =
     (let any = RChar (\<lambda>c. c \<noteq> CHR 0x0A); ws = RChar is_space
      in rseqs [ropt (RSeq (rlit_i ''derived failure:'') (RStar ws)), any, RLazy any, rplus ws, rlit_i ''failed:'', RStar ws,
                RAlt (rlit_i ''exit code'') (rlit_i ''process exited with code''), rplus ws, rplus (RChar is_digit), RStar ws])"

definition is_low_information_failure :: "string \<Rightarrow> bool" where
  "is_low_information_failure t = (re_fullmatch LOW_INFORMATION_FAILURE (squeeze t) \<noteq> None)"

section \<open>What a packet is made of\<close>

record assembler =
  pa_tokens :: "string \<Rightarrow> int"
  pa_header :: string

record request =
  rq_budget :: int
  rq_branch :: string
  rq_query :: string
  rq_recent :: int
  rq_limit :: int
  rq_snapshot :: "string option"
  rq_stale :: "string list"
  rq_state :: "json live_state option"
  rq_instructions :: "string list"

record hit =
  ht_id :: string
  ht_type :: string
  ht_representation :: string
  ht_content :: string
  ht_sources :: "string list"
  ht_metadata :: "(string, json) dict"

record packet =
  pk_text :: string
  pk_tokens :: int
  pk_budget :: int
  pk_events :: "string list"
  pk_memories :: "string list"
  pk_snapshot :: "string option"
  pk_stale :: "string list"

definition FOLD_MIN_CHARS :: nat where "FOLD_MIN_CHARS = 240"
definition QUIESCE_GROUPS :: int where "QUIESCE_GROUPS = 5"
definition MAX_HOLD_GROUPS :: int where "MAX_HOLD_GROUPS = 40"

definition BLOCK_ORDER :: "string list" where
  "BLOCK_ORDER = [''instructions'', ''goal'', ''constraints'', ''decisions'', ''open_tasks'']"

section \<open>Events as text\<close>

definition normal_file :: "string \<Rightarrow> string" where
  "normal_file f = casefold (replace_all [CHR 0x5C] ''/'' f)"

definition event_body :: "store \<Rightarrow> string set \<Rightarrow> event \<Rightarrow> string \<times> string" where
  "event_body s active_files e =
     (if ev_kind e = ''tool_output'' \<and> \<not> (\<exists>f \<in> set (ev_files e). normal_file f \<in> active_files)
      then (case get_tool_output_view s (ev_id e) ''compact'' of
              Some v \<Rightarrow> (tv_content v, ''derived-'' @ tv_level v @ '':'' @ tv_id v)
            | None \<Rightarrow> (ev_content e, ''canonical-verbatim''))
      else (ev_content e, ''canonical-verbatim''))"

definition frame_event :: "event \<Rightarrow> string \<Rightarrow> string \<Rightarrow> string" where
  "frame_event e content shape =
     ''<event id='' @ ev_id e @ '' seq='' @ show_int (ev_seq e) @ '' kind='' @ ev_kind e
     @ '' role='' @ (if given (ev_role e) then the (ev_role e) else ''none'')
     @ (if ev_files e \<noteq> [] then '' files='' @ join '','' (ev_files e) else [])
     @ '' representation='' @ shape @ ''>'' @ [CHR 0x0A] @ content @ [CHR 0x0A] @ ''</event>''"

text \<open>A later body that repeats an earlier one verbatim points to it.\<close>

definition fold_body :: "(string \<times> string) list \<Rightarrow> string \<Rightarrow> string" where
  "fold_body corpus body =
     fold (\<lambda>(earlier_id, earlier_body) folded.
        if length earlier_body \<ge> FOLD_MIN_CHARS \<and> contains earlier_body folded
        then replace_all earlier_body (''<folded: identical to '' @ earlier_id @ ''>'') folded else folded) corpus body"

fun transcript_parts :: "store \<Rightarrow> string set \<Rightarrow> (string \<times> string) list \<Rightarrow> event list \<Rightarrow> string list" where
  "transcript_parts s active_files corpus [] = []"
| "transcript_parts s active_files corpus (e # es) =
     (let (body, shape) = event_body s active_files e;
          folded = fold_body corpus body
      in frame_event e folded (if folded \<noteq> body then shape @ ''+folded'' else shape)
         # transcript_parts s active_files (corpus @ [(ev_id e, body)]) es)"

definition render_transcript :: "store \<Rightarrow> string set \<Rightarrow> event list \<Rightarrow> string" where
  "render_transcript s active_files es = paragraphs (transcript_parts s active_files [] es)"

definition files_of_groups :: "event list list \<Rightarrow> string set" where
  "files_of_groups groups = set (map normal_file (concat (map ev_files (concat groups))))"

definition active_files :: "event list \<Rightarrow> string set result" where
  "active_files shown_events =
     bindr (returned (interaction_groups shown_events)) (\<lambda>groups.
       let held = files_of_groups (slice_from (- QUIESCE_GROUPS) groups)
       in Inr (files_of_groups (slice_from (- MAX_HOLD_GROUPS) groups) \<inter> held))"

definition retrieval_text :: "hit \<Rightarrow> string result" where
  "retrieval_text h =
     (let origin = dget_default (ht_metadata h) ''origin'' (JStr ''explicit'');
          authority = dget_default (ht_metadata h) ''authority_level'' (JStr ''confirmed'')
      in bindr (if origin = JStr ''auto'' then Inr ''[auto] ''
                else bindr (hashable authority) (\<lambda>a.
                  Inr (if a \<notin> {JStr ''confirmed'', JStr ''agent_finalized''} then ''[unconfirmed] '' else []))) (\<lambda>label.
         Inr (memory_as_untrusted_data (label @ ''id='' @ ht_id h @ '' type='' @ ht_type h @ '' representation=''
                @ ht_representation h @ '' sources='' @ join '','' (ht_sources h) @ [CHR 0x0A] @ ht_content h))))"

section \<open>Protected memory\<close>

record entry =
  en_name :: string
  en_version :: int
  en_sources :: "string list"
  en_content :: string

text \<open>\<open>tuple(value)\<close> of a member of a block; the texts of its items.\<close>

definition items_of :: "json \<Rightarrow> string list result" where
  "items_of v = (case v of JArr xs \<Rightarrow> Inr (map py_str xs) | JStr t \<Rightarrow> Inr (map (\<lambda>c. [c]) t) | JObj d \<Rightarrow> Inr (map fst d)
                 | _ \<Rightarrow> Inl (TypeError ''not iterable''))"

definition block_member :: "json \<Rightarrow> (string, json) dict result" where
  "block_member b = (case b of JObj d \<Rightarrow> Inr d | _ \<Rightarrow> Inl (AttributeError ''version''))"

definition block_sources :: "json \<Rightarrow> string list result" where
  "block_sources b = bindr (block_member b) (\<lambda>d. items_of (dget_default d ''source_event_ids'' (JArr [])))"

definition state_entry :: "json \<Rightarrow> string \<Rightarrow> entry result" where
  "state_entry b name =
     bindr (block_member b) (\<lambda>d.
     bindr (case dget_default d ''version'' (JInt 1) of JInt n \<Rightarrow> Inr n | _ \<Rightarrow> Inl (TypeError ''int()'')) (\<lambda>version.
     bindr (block_sources b) (\<lambda>sources.
       Inr \<lparr>en_name = name, en_version = version, en_sources = sources,
            en_content = py_str (dget_default d ''content'' (JStr []))\<rparr>)))"

definition state_entries :: "json live_state \<Rightarrow> entry list result" where
  "state_entries st =
     bindr (mapr (\<lambda>name. case dget (ls_blocks st) (JStr name) of
                     None \<Rightarrow> Inr []
                   | Some b \<Rightarrow> if truthy b then bindr (state_entry b name) (\<lambda>e. Inr [e]) else Inr []) BLOCK_ORDER) (\<lambda>es.
     bindr (mapr block_sources (map snd (ls_blocks st))) (\<lambda>_. Inr (concat es)))"

definition store_entries :: "store \<Rightarrow> string \<Rightarrow> entry list result" where
  "store_entries s branch_id =
     bindr (get_active_blocks s branch_id) (\<lambda>blocks.
       Inr (List.map_filter (\<lambda>name. map_option (\<lambda>b. \<lparr>en_name = name, en_version = bl_version b, en_sources = bl_sources b,
              en_content = bl_content b\<rparr>) (dget blocks name)) BLOCK_ORDER))"

definition entry_text :: "entry \<Rightarrow> string" where
  "entry_text e =
     ''<'' @ en_name e @ '' version='' @ show_int (en_version e) @ '' source_count='' @ show_nat (length (en_sources e))
     @ '' latest_source='' @ (if en_sources e \<noteq> [] then last (en_sources e) else ''-'') @ ''>'' @ [CHR 0x0A]
     @ en_content e @ [CHR 0x0A] @ ''</'' @ en_name e @ ''>''"

definition protected_parts :: "assembler \<Rightarrow> request \<Rightarrow> entry list \<Rightarrow> string list" where
  "protected_parts a q entries =
     [pa_header a @ (if given (rq_snapshot q) then [CHR 0x0A] @ ''snapshot='' @ the (rq_snapshot q) else [])]
     @ (if rq_stale q \<noteq> []
        then [''[SNAPSHOT STALENESS - LOCAL MEMORY WARNING]'' @ [CHR 0x0A] @ join [CHR 0x0A] (map ((@) ''- '') (rq_stale q))] else [])
     @ [paragraphs (''[ACTIVE MEMORY - LOCAL DURABLE NOTES]'' # rq_instructions q @ map entry_text entries)]"

definition digest_section :: "entry list \<Rightarrow> string option" where
  "digest_section entries =
     (if entries = [] then None
      else Some (paragraphs (''[ACTIVE MEMORY RESTATED - LOCAL DURABLE NOTES]''
             # map (\<lambda>e. ''<'' @ en_name e @ ''>'' @ [CHR 0x0A] @ en_content e @ [CHR 0x0A] @ ''</'' @ en_name e @ ''>'') entries)))"

section \<open>Selecting under the budget\<close>

text \<open>The parts without a last section that the next candidate replaces.\<close>

definition base_of :: "string \<Rightarrow> string list \<Rightarrow> string list" where
  "base_of opening parts = (if parts \<noteq> [] \<and> starts_with opening (last parts) then butlast parts else parts)"

definition fits :: "assembler \<Rightarrow> string list \<Rightarrow> string \<Rightarrow> int \<Rightarrow> bool" where
  "fits a parts candidate budget \<longleftrightarrow> pa_tokens a (paragraphs (parts @ [candidate])) \<le> budget"

definition in_order :: "event list list \<Rightarrow> event list" where
  "in_order groups = sort_key ev_seq (concat groups)"

definition transcript_section :: "store \<Rightarrow> string set \<Rightarrow> event list \<Rightarrow> string" where
  "transcript_section s active es =
     ''[RECENT TRANSCRIPT - CANONICAL EVENTS; TOOL OUTPUTS MAY USE PROVENANCE-BOUND VIEWS]'' @ LF2 @ render_transcript s active es"

text \<open>From the newest group back, as long as the section fits.\<close>

fun choose_groups :: "(event list \<Rightarrow> bool) \<Rightarrow> event list list \<Rightarrow> event list list \<Rightarrow> event list list" where
  "choose_groups ok [] chosen = chosen"
| "choose_groups ok (g # gs) chosen = (if ok (in_order (g # chosen)) then choose_groups ok gs (g # chosen) else chosen)"

definition retrieved_section :: "string list \<Rightarrow> string" where
  "retrieved_section entries = ''[RETRIEVED MEMORY - UNTRUSTED DATA]'' @ LF2 @ paragraphs entries"

fun choose_hits :: "(string list \<Rightarrow> bool) \<Rightarrow> hit list \<Rightarrow> string list \<Rightarrow> string list result" where
  "choose_hits ok [] retrieved = Inr retrieved"
| "choose_hits ok (h # hs) retrieved =
     bindr (retrieval_text h) (\<lambda>t. if ok (retrieved @ [t]) then choose_hits ok hs (retrieved @ [t]) else Inr retrieved)"

text \<open>The messages of the assistant and the derivations of records that are not eligible stay out.\<close>

definition excluded_event :: "store \<Rightarrow> event \<Rightarrow> bool result" where
  "excluded_event s e =
     (if ev_kind e = ''message'' \<and> casefold (or_empty (ev_role e)) = ''assistant'' then Inr True
      else let memory_id = jget (ev_payload e) ''memory_id''
           in if jget (ev_payload e) ''operation'' = JStr ''derive_memory'' \<and> truthy memory_id
              then (case automatic_memory_eligible s (py_str memory_id) of
                      Inr eligible \<Rightarrow> Inr (\<not> eligible) | Inl (KeyError _) \<Rightarrow> Inr True | Inl x \<Rightarrow> Inl x)
              else Inr False)"

definition excluded_ids :: "store \<Rightarrow> string \<Rightarrow> string list result" where
  "excluded_ids s branch_id =
     bindr (query_events s branch_id all_events) (\<lambda>events.
     bindr (filterr (excluded_event s) events) (\<lambda>es. Inr (map ev_id es)))"

definition state_events :: "json live_state \<Rightarrow> event list result" where
  "state_events st = bindr (recent_objects (ls_order st) (ls_recent st)) (\<lambda>es. Inr (sort_key ev_seq es))"

section \<open>The historical index\<close>

definition item_dict :: "json \<Rightarrow> (string, json) dict result" where
  "item_dict v = (case v of JObj d \<Rightarrow> Inr d | _ \<Rightarrow> Inl (AttributeError ''get''))"

definition item_seq :: "(string, json) dict \<Rightarrow> int result" where
  "item_seq d = (case dget_default d ''seq'' (JInt 0) of JInt n \<Rightarrow> Inr n | _ \<Rightarrow> Inl (TypeError ''int()''))"

definition state_timeline :: "json live_state \<Rightarrow> (string, json) dict list result" where
  "state_timeline st =
     bindr (mapr (\<lambda>v. bindr (item_dict v) (\<lambda>d. bindr (item_seq d) (\<lambda>n. Inr (n, d)))) (map snd (ls_timeline st))) (\<lambda>items.
       Inr (map snd (sorted_rev_key fst items)))"

definition store_timeline :: "event list \<Rightarrow> (string, json) dict list" where
  "store_timeline shown_events =
     map (\<lambda>e. [(''seq'', JInt (ev_seq e)), (''id'', JStr (ev_id e)), (''time'', JStr (ev_created e)), (''kind'', JStr (ev_kind e)),
               (''files'', JArr (map JStr (ev_files e))), (''preview'', JStr (take 140 (squeeze (ev_content e))))]) (rev shown_events)"

definition comma_joined :: "json \<Rightarrow> string result" where
  "comma_joined v =
     (case v of
        JArr xs \<Rightarrow> bindr (mapr a_text xs) (\<lambda>fs. Inr (join '','' fs))
      | JStr t \<Rightarrow> Inr (join '','' (map (\<lambda>c. [c]) t))
      | JObj d \<Rightarrow> Inr (join '','' (map fst d))
      | _ \<Rightarrow> Inl (TypeError ''can only join an iterable''))"

definition index_line :: "(string, json) dict \<Rightarrow> string \<Rightarrow> string result" where
  "index_line item preview =
     bindr (field item ''time'') (\<lambda>time.
     bindr (field item ''id'') (\<lambda>i.
     bindr (field item ''kind'') (\<lambda>kind.
     bindr (comma_joined (dget_default item ''files'' (JArr []))) (\<lambda>files.
       Inr (''- '' @ py_str time @ '' '' @ py_str i @ '' '' @ py_str kind @ '' files='' @ (if files = [] then ''-'' else files)
            @ '' :: '' @ preview)))))"

fun index_lines :: "(string list \<Rightarrow> bool) \<Rightarrow> string list \<Rightarrow> (string, json) dict list \<Rightarrow> string list \<Rightarrow> string list result" where
  "index_lines ok skipped [] lines = Inr lines"
| "index_lines ok skipped (item # items) lines =
     bindr (bindr (field item ''id'') hashable) (\<lambda>i.
       let preview = py_str (dget_default item ''preview'' (JStr []))
       in if i \<in> JStr ` set skipped \<or> is_low_information_failure preview then index_lines ok skipped items lines
          else bindr (index_line item preview) (\<lambda>line.
                 if ok (lines @ [line]) then index_lines ok skipped items (lines @ [line]) else Inr lines))"

section \<open>The packet\<close>

text \<open>The budgets that follow from the cost of the protected part and of its restatement.\<close>

record plan =
  pl_digest :: "string option"
  pl_effective :: int
  pl_transcript :: int

definition plan_budget :: "assembler \<Rightarrow> request \<Rightarrow> entry list \<Rightarrow> plan result" where
  "plan_budget a q entries =
     (let active_tokens = pa_tokens a (paragraphs (protected_parts a q entries))
      in if active_tokens > rq_budget q then Inl BudgetExceededError
         else (let cost = (\<lambda>d. case d of None \<Rightarrow> 0 | Some t \<Rightarrow> pa_tokens a (LF2 @ t));
                   digest = digest_section entries;
                   kept = (if digest \<noteq> None \<and> active_tokens + cost digest > rq_budget q then None else digest);
                   effective = rq_budget q - cost kept;
                   reserve = (if rq_query q \<noteq> [] \<and> rq_limit q \<noteq> 0 then min 400 (max 0 (effective - active_tokens) div 3) else 0)
               in Inr \<lparr>pl_digest = kept, pl_effective = effective, pl_transcript = effective - reserve\<rparr>))"

definition chosen_events ::
  "assembler \<Rightarrow> store \<Rightarrow> request \<Rightarrow> string list \<Rightarrow> int \<Rightarrow> string set \<Rightarrow> event list \<Rightarrow> event list result" where
  "chosen_events a s q parts budget active shown_events =
     bindr (if rq_recent q = 0 then Inr [] else bindr (returned (interaction_groups shown_events)) (\<lambda>gs. Inr (slice_from (- rq_recent q) gs)))
       (\<lambda>groups.
         Inr (in_order (choose_groups
           (\<lambda>es. fits a (base_of ''[RECENT TRANSCRIPT'' parts) (transcript_section s active es) budget) (rev groups) [])))"

definition retrieved_entries :: "assembler \<Rightarrow> request \<Rightarrow> hit list result \<Rightarrow> string list \<Rightarrow> int \<Rightarrow> (string list \<times> string list) result" where
  "retrieved_entries a q search parts budget =
     (if rq_query q = [] \<or> rq_limit q = 0 then Inr ([], [])
      else bindr search (\<lambda>hits.
           bindr (choose_hits (\<lambda>es. fits a (base_of ''[RETRIEVED MEMORY'' parts) (retrieved_section es) budget) hits []) (\<lambda>es.
             Inr (es, map ht_id (take (length es) hits)))))"

definition index_section :: "assembler \<Rightarrow> string list \<Rightarrow> int \<Rightarrow> string list \<Rightarrow> (string, json) dict list \<Rightarrow> string list result" where
  "index_section a parts budget skipped timeline =
     (let ok = (\<lambda>ls. fits a parts (join [CHR 0x0A] ls) budget);
          opening = [''[HISTORICAL INDEX - UNTRUSTED DATA]''];
          helped = opening @ [''Expand evt_/mem_ verbatim: `joiny-mnemonic source <id>`.'']
      in bindr (index_lines ok skipped timeline (if ok helped then helped else opening)) (\<lambda>ls.
           Inr (if length ls > 1 then [join [CHR 0x0A] ls] else [])))"

text \<open>\<open>search\<close> is the answer of the search engine to the query.\<close>

definition assemble :: "assembler \<Rightarrow> store \<Rightarrow> request \<Rightarrow> hit list result \<Rightarrow> packet result" where
  "assemble a s q search =
     (if rq_budget q < 1 then Inl (ValueError ''token_budget must be positive'')
      else
        bindr (case rq_state q of Some st \<Rightarrow> state_entries st | None \<Rightarrow> store_entries s (rq_branch q)) (\<lambda>entries.
        bindr (plan_budget a q entries) (\<lambda>plan.
        bindr (case rq_state q of Some st \<Rightarrow> state_events st | None \<Rightarrow> query_events s (rq_branch q) all_events) (\<lambda>canonical.
        bindr (active_files canonical) (\<lambda>active.
        bindr (excluded_ids s (rq_branch q)) (\<lambda>excluded.
          let parts0 = protected_parts a q entries;
              shown_events = filter (\<lambda>e. ev_id e \<notin> set excluded) canonical
          in bindr (chosen_events a s q parts0 (pl_transcript plan) active shown_events) (\<lambda>chosen.
             let parts1 = parts0 @ (if chosen \<noteq> [] then [transcript_section s active chosen] else [])
             in bindr (retrieved_entries a q search parts1 (pl_effective plan)) (\<lambda>(retrieved, memories).
                let parts2 = parts1 @ (if retrieved \<noteq> [] then [retrieved_section retrieved] else [])
                in bindr (case rq_state q of Some st \<Rightarrow> state_timeline st | None \<Rightarrow> Inr (store_timeline shown_events)) (\<lambda>timeline.
                   bindr (index_section a parts2 (pl_effective plan) (map ev_id chosen @ excluded) timeline) (\<lambda>index.
                     let parts3 = parts2 @ index;
                         data = (\<exists>p \<in> set parts3. starts_with ''[RECENT TRANSCRIPT'' p \<or> starts_with ''[RETRIEVED MEMORY'' p);
                         parts = parts3 @ (case pl_digest plan of None \<Rightarrow> [] | Some d \<Rightarrow> if data then [d] else []);
                         t = paragraphs parts
                     in if pa_tokens a t > rq_budget q
                        then Inl (AssertionError ''prompt budget governor emitted an oversized packet'')
                        else Inr \<lparr>pk_text = t, pk_tokens = pa_tokens a t, pk_budget = rq_budget q, pk_events = map ev_id chosen,
                                  pk_memories = memories, pk_snapshot = rq_snapshot q, pk_stale = rq_stale q\<rparr>))))))))))"

end
