(* ===== verification/ReducerProps.thy ===== *)
theory ReducerProps
  imports Reducers
begin

text \<open>
  What a reduction keeps and what a repeated reduction writes: protected lines and rows, the
  size of a view, the views and the usage sample of the second run.
\<close>

section \<open>Lines in a text\<close>

lemma contains_refl [simp]: "contains p p"
  unfolding contains_iff by (rule exI[of _ "[]"], rule exI[of _ "[]"]) simp

lemma contains_appendI: "contains p s \<Longrightarrow> contains p (u @ s @ v)"
  unfolding contains_iff by (metis append.assoc)

lemma contains_left: "contains p s \<Longrightarrow> contains p (s @ v)"
  using contains_appendI[of p s "[]" v] by simp

lemma contains_right: "contains p s \<Longrightarrow> contains p (u @ s)"
  using contains_appendI[of p s u "[]"] by simp

lemma contains_Cons: "contains p s \<Longrightarrow> contains p (c # s)"
  by simp

lemma contains_join: "x \<in> set xs \<Longrightarrow> contains x (join sep xs)"
  by (induction xs) (auto simp: join_Cons intro: contains_left contains_right)

lemma lines_acc_contains: "(l, b) \<in> set (lines_acc cur s) \<Longrightarrow> contains l (cur @ s)"
proof -
  assume "(l, b) \<in> set (lines_acc cur s)"
  then obtain xs ys where "lines_acc cur s = xs @ (l, b) # ys" by (auto simp: in_set_conv_decomp)
  then have "cur @ s = concat (map (\<lambda>(l, e). l @ e) xs) @ l @ b @ concat (map (\<lambda>(l, e). l @ e) ys)"
    using concat_lines_acc[of cur s] by simp
  then show ?thesis unfolding contains_iff by metis
qed

lemma splitlines_contains: "l \<in> set (splitlines s) \<Longrightarrow> contains l s"
  using lines_acc_contains[of l _ "[]" s] by (auto simp: splitlines_def)

section \<open>Protection\<close>

lemma enforce_keeps:
  "enforce_protected_lines rd body lines = Some b \<Longrightarrow> line \<in> set lines \<Longrightarrow> line_protected rd line \<Longrightarrow> contains line b"
  by (auto simp: enforce_protected_lines_def Let_def filter_empty_conv split: if_splits)

text \<open>The line-based enforcement never refuses a view.\<close>

lemma enforce_returns: "\<exists>b. enforce_protected_lines rd body lines = Some b"
proof -
  let ?req = "filter (line_protected rd) lines"
  let ?missing = "filter (\<lambda>line. line \<notin> set (splitlines body)) ?req"
  have "contains l (join [CHR 0x0A] (body # ''[protected lines]'' # ?missing))" if "l \<in> set ?req" for l
  proof (cases "l \<in> set (splitlines body)")
    case True
    then show ?thesis using splitlines_contains contains_left by (simp add: join_Cons)
  next
    case False
    then show ?thesis using that by (intro contains_join) auto
  qed
  moreover have "contains l body" if "l \<in> set ?req" "?missing = []" for l
    using that splitlines_contains by (auto simp: filter_empty_conv)
  ultimately have "\<not> (\<exists>l \<in> set ?req. \<not> contains l (if ?missing = [] then body else join [CHR 0x0A] (body # ''[protected lines]'' # ?missing)))"
    by (cases "?missing = []") (simp_all only: if_True if_False simp_thms, blast+)
  then show ?thesis unfolding enforce_protected_lines_def Let_def by simp
qed

lemma distinct_rows_keep:
  "r \<in> set rows \<Longrightarrow> row_text r \<in> set seen \<or> (\<exists>r' \<in> set (distinct_rows seen rows). row_text r' = row_text r)"
proof (induction seen rows rule: distinct_rows.induct)
  case (2 seen x rs)
  then show ?case by (cases "row_text x \<in> set seen") auto
qed simp

text \<open>A row is shown as an object of the array, or as a line of the table over its fields.\<close>

definition row_shown :: "row \<Rightarrow> string \<Rightarrow> bool" where
  "row_shown r t \<longleftrightarrow> (\<exists>r'. row_text r' = row_text r \<and>
     (contains (plain_json (JObj r')) t
      \<or> (\<exists>core. set core = set (dkeys r') \<and> contains (join '','' (map (\<lambda>k. csv_cell (jget r' k)) core)) t)))"

lemma row_shownI: "contains s t \<Longrightarrow> row_shown r s \<Longrightarrow> row_shown r t"
  unfolding row_shown_def contains_iff by (metis append.assoc)

lemma array_shows: "r' \<in> set rs \<Longrightarrow> row_text r' = row_text r \<Longrightarrow> row_shown r (plain_json (JArr (map JObj rs @ us)))"
  unfolding row_shown_def plain_json.simps
  by (intro exI[of _ r'] conjI disjI1 contains_appendI contains_join) auto

lemma table_shows:
  assumes "lossless_csv rows core = Some csv" "r' \<in> set rows" "row_text r' = row_text r"
  shows "row_shown r csv"
proof -
  have "set core = set (dkeys r')" using assms(1,2) by (auto simp: lossless_csv_def split: if_splits)
  moreover have "contains (join '','' (map (\<lambda>k. csv_cell (jget r' k)) core)) csv"
    using assms(1,2) unfolding lossless_csv_def by (auto split: if_splits intro!: contains_join)
  ultimately show ?thesis using assms(3) by (auto simp: row_shown_def)
qed

lemma json_array_view_keeps:
  assumes view: "json_array_view rd ft rows i raw = Some (body, strategy, counts)"
    and r: "r \<in> set rows" and protected: "row_protected rd r"
  shows "row_shown r body"
proof -
  let ?d = "distinct_rows [] rows"
  obtain r' where r': "r' \<in> set ?d" "row_text r' = row_text r" using distinct_rows_keep[OF r] by force
  have p': "row_protected rd r'" using protected r'(2) by (simp add: row_protected_def)
  show ?thesis
  proof (cases "lossless_view ft ?d (length rows) raw")
    case (Some x)
    then obtain core where "lossless_csv ?d core = Some body"
      using view by (auto simp: json_array_view_def lossless_view_def Let_def split: if_splits option.splits)
    then show ?thesis using r' by (rule table_shows)
  next
    case None
    have all: "row_shown r (plain_json (JArr (map JObj ?d)))" using array_shows[OF r', of "[]"] by simp
    show ?thesis
    proof (cases "int (length ?d) \<le> JSON_CAP")
      case True
      then show ?thesis using view None all by (simp add: json_array_view_def Let_def)
    next
      case False
      define kept where "kept = map (\<lambda>i. ?d ! i) (filter (\<lambda>i. i \<in> kept_indexes rd ?d) [0 ..< length ?d])"
      have "r' \<in> set kept" using view None False r'(1) p' by (auto simp: json_array_view_def Let_def kept_def[symmetric] split: if_splits)
      moreover obtain us where "body = plain_json (JArr (map JObj kept @ us))"
        using view None False by (auto simp: json_array_view_def Let_def kept_def[symmetric] simp del: plain_json.simps intro: that[of "[]"] split: if_splits)
      ultimately show ?thesis using array_shows[OF _ r'(2)] by blast
    qed
  qed
qed

section \<open>A reduction\<close>

lemma frame_shows: "contains body (frame i level strategy n body)"
  unfolding frame_def by (simp only: append_assoc[symmetric]) (intro contains_left contains_right contains_refl)

lemma reduce_views:
  assumes run: "reduce rd rf ft latency e = Inr b" and v: "v \<in> set (bn_views b)"
  obtains lines body strategy counts fam0 critical where
    "lines = splitlines (clean (ev_content e))" "family e = Inr fam0" "fam0 \<notin> {''source'', ''diff'', ''status''}"
    "enforced_view rd lines (body_view rd rf ft e fam0 lines) = (bn_family b, Some (body, strategy, counts))"
    "bn_raw_tokens b = conservative_token_estimate (ev_content e)"
    "bn_views b = emitted_views ft e (bn_family b) (bn_raw_tokens b) critical (body, strategy, counts)"
proof -
  obtain fam0 where fam: "family e = Inr fam0" using run by (auto simp: reduce_def split: if_splits)
  let ?lines = "splitlines (clean (ev_content e))"
  obtain fam v' where en: "enforced_view rd ?lines (body_view rd rf ft e fam0 ?lines) = (fam, v')" by fastforce
  have ok: "fam0 \<notin> {''source'', ''diff'', ''status''} \<and> v' \<noteq> None"
    using run v fam en by (auto simp: reduce_def Let_def split: if_splits option.splits)
  then obtain body strategy counts where v': "v' = Some (body, strategy, counts)" by (metis option.exhaust prod_cases3)
  show thesis
    by (rule that[OF refl fam _ _ _, where body = body and strategy = strategy and counts = counts
          and critical = "critical_signals (ev_content e) fam0"])
       (use run v fam en v' ok in \<open>auto simp: reduce_def Let_def split: if_splits\<close>)
qed

lemma emitted_view_cases:
  assumes "v \<in> set (emitted_views ft e fam n critical (body, strategy, counts))"
  shows "conservative_token_estimate (rv_content v) < n"
    "rv_level v = ''compact'' \<Longrightarrow> rv_content v = frame (ev_id e) ''compact'' strategy n body"
  using assms by (auto simp: emitted_views_def Let_def split: if_splits)

lemma enforced_view_cases:
  assumes "enforced_view rd lines (body_view rd rf ft e fam0 lines) = (fam, Some (body, strategy, counts))"
  shows "fam \<noteq> ''json'' \<Longrightarrow> line \<in> set lines \<Longrightarrow> line_protected rd line \<Longrightarrow> contains line body"
    and "fam0 \<noteq> ''json'' \<Longrightarrow> fam = ''json'' \<Longrightarrow>
      \<exists>rows. parse_json_rows rf (ev_content e) = Some rows \<and> json_array_view rd ft rows (ev_id e) (ev_content e) = Some (body, strategy, counts)"
  using assms enforce_keeps
  by (auto simp: enforced_view_def body_view_def split: prod.splits option.splits if_splits)

lemma family_not_json: "family e = Inr fam \<Longrightarrow> fam \<noteq> ''json''"
  by (auto simp: family_def command_family_def FAMILIES_def py_str_def Let_def split: json.splits if_splits)

text \<open>
  C34: reduction is safe.  Every view that a reduction emits, on whatever level, takes fewer
  tokens than the output it stands for, and none is emitted for source code, a diff or a
  status.  The compact view (and it alone; the summary view is cut without a look at the
  protected patterns) keeps every non-empty line of the cleaned output that matches a
  protected pattern verbatim; of an array of rows it shows every protected row, as an object
  or as a line of the lossless table.
\<close>

theorem reduction_is_safe:
  assumes run: "reduce rd rf ft latency e = Inr b" and v: "v \<in> set (bn_views b)"
  shows "conservative_token_estimate (rv_content v) < conservative_token_estimate (ev_content e)
    \<and> family e \<notin> {Inr ''source'', Inr ''diff'', Inr ''status''}
    \<and> (rv_level v = ''compact'' \<longrightarrow>
         (bn_family b \<noteq> ''json'' \<longrightarrow>
            (\<forall>line \<in> set (splitlines (clean (ev_content e))). line_protected rd line \<longrightarrow> contains line (rv_content v)))
         \<and> (bn_family b = ''json'' \<longrightarrow>
            (\<exists>rows. parse_json_rows rf (ev_content e) = Some rows
               \<and> (\<forall>r \<in> set rows. row_protected rd r \<longrightarrow> row_shown r (rv_content v)))))"
proof -
  obtain lines body strategy counts fam0 critical where lines: "lines = splitlines (clean (ev_content e))"
    and fam: "family e = Inr fam0" "fam0 \<notin> {''source'', ''diff'', ''status''}"
    and en: "enforced_view rd lines (body_view rd rf ft e fam0 lines) = (bn_family b, Some (body, strategy, counts))"
    and tokens: "bn_raw_tokens b = conservative_token_estimate (ev_content e)"
    and views: "bn_views b = emitted_views ft e (bn_family b) (bn_raw_tokens b) critical (body, strategy, counts)"
    by (rule reduce_views[OF run v])
  note size = emitted_view_cases(1)[OF v[unfolded views]]
  have content: "contains body (rv_content v)" if "rv_level v = ''compact''"
    using emitted_view_cases(2)[OF v[unfolded views] that] frame_shows by simp
  have a: "contains line (rv_content v)"
    if "rv_level v = ''compact''" "bn_family b \<noteq> ''json''" "line \<in> set lines" "line_protected rd line" for line
    using enforced_view_cases(1)[OF en that(2-4)] content[OF that(1)] unfolding contains_iff by (metis append.assoc)
  have b: "\<exists>rows. parse_json_rows rf (ev_content e) = Some rows \<and> (\<forall>r \<in> set rows. row_protected rd r \<longrightarrow> row_shown r (rv_content v))"
    if "rv_level v = ''compact''" "bn_family b = ''json''"
    using enforced_view_cases(2)[OF en family_not_json[OF fam(1)] that(2)] json_array_view_keeps row_shownI[OF content[OF that(1)]]
    by blast
  show ?thesis using size tokens fam a b lines by auto
qed

section \<open>The same reduction again\<close>

lemma find_append_None: "List.find P xs = None \<Longrightarrow> List.find P (xs @ ys) = List.find P ys"
  by (induction xs) (auto split: if_splits)

lemma reduce_latency:
  "reduce rd rf ft latency e = Inr b \<Longrightarrow> reduce rd rf ft latency' e = Inr (b\<lparr>bn_latency := latency'\<rparr>)"
  by (auto simp: reduce_def Let_def split: if_splits option.splits prod.splits)

text \<open>Two stores that differ in the streams of identities and times only.\<close>

definition same_rows :: "store \<Rightarrow> store \<Rightarrow> bool" where
  "same_rows s t \<longleftrightarrow> (\<exists>n m. t = s\<lparr>st_uuid := n, st_tick := m\<rparr>)"

lemma same_rows_refl [simp]: "same_rows s s"
  unfolding same_rows_def by (intro exI[of _ "st_uuid s"] exI[of _ "st_tick s"]) simp

lemma same_rows_update [simp]: "same_rows s (s\<lparr>st_uuid := n, st_tick := m\<rparr>)"
  by (auto simp: same_rows_def)

lemma same_rows_trans: "same_rows s t \<Longrightarrow> same_rows t u \<Longrightarrow> same_rows s u"
  by (auto simp: same_rows_def, blast)

lemma same_rows_fields:
  "same_rows s t \<Longrightarrow> st_views t = st_views s \<and> st_events t = st_events s \<and> st_branches t = st_branches s"
  by (auto simp: same_rows_def)

text \<open>Views are only added at the end, the events and branches stay.\<close>

definition views_grow :: "store \<Rightarrow> store \<Rightarrow> bool" where
  "views_grow s t \<longleftrightarrow> st_events t = st_events s \<and> st_branches t = st_branches s \<and> (\<exists>us. st_views t = st_views s @ us)"

lemma views_grow_refl [simp]: "views_grow s s"
  by (simp add: views_grow_def)

lemma views_grow_trans: "views_grow s t \<Longrightarrow> views_grow t u \<Longrightarrow> views_grow s u"
  by (auto simp: views_grow_def)

lemma views_grow_same: "views_grow s t \<Longrightarrow> same_rows t u \<Longrightarrow> views_grow s u"
  using same_rows_fields by (fastforce simp: views_grow_def)

lemma save_view_step:
  assumes "save_tool_output_view w d s = Inr (row, s')"
  shows "views_grow s s'" "List.find (same_view d) (st_views s') = Some row" "tv_level d \<in> {''compact'', ''summary''}"
    "\<exists>e. find_event s (tv_event d) = Some e \<and> ev_kind e = ''tool_output'' \<and> ev_chash e = tv_source_hash d"
  using assms
  by (auto simp: save_tool_output_view_def views_grow_def insert_view_or_ignore_def fresh_uuid_def read_clock_def Let_def
      split: if_splits option.splits)

lemma save_view_again:
  assumes first: "save_tool_output_view w d s = Inr (row, s')" and grown: "views_grow s' t"
    and key: "same_view d = same_view d'" "tv_event d' = tv_event d" "tv_level d' = tv_level d" "tv_source_hash d' = tv_source_hash d"
  shows "\<exists>t'. save_tool_output_view w d' t = Inr (row, t') \<and> same_rows t t'"
proof -
  note step = save_view_step[OF first]
  obtain us where us: "st_views t = st_views s' @ us" using grown by (auto simp: views_grow_def)
  have found: "List.find (same_view d') (st_views t) = Some row"
    using find_append[OF step(2)] us key(1) by simp
  then have "row \<in> set (st_views t)" "same_view d' row" by (auto dest: find_Some_iff2)
  then have ignored: "insert_view_or_ignore (d'\<lparr>tv_id := i, tv_content := c, tv_metadata := m, tv_created := n\<rparr>) (st_views t) = st_views t"
    for i c m n by (auto simp: insert_view_or_ignore_def same_view_def)
  have "st_events t = st_events s" using grown step(1) by (simp add: views_grow_def)
  then obtain e where "find_event t (tv_event d') = Some e" "ev_kind e = ''tool_output''" "ev_chash e = tv_source_hash d'"
    using step(4) key by (auto simp: find_event_def)
  then show ?thesis
    using step(3) key found ignored
    by (auto simp: save_tool_output_view_def fresh_uuid_def read_clock_def Let_def same_rows_def)
qed

lemma save_views_grow: "save_views w e b vs s = Inr (rows, s') \<Longrightarrow> views_grow s s'"
  by (induction vs arbitrary: s rows) (auto dest: save_view_step(1) intro: views_grow_trans)

lemma save_views_again:
  assumes "save_views w e b vs s = Inr (rows, s')" "views_grow s' t"
  shows "\<exists>t'. save_views w e b' vs t = Inr (rows, t') \<and> same_rows t t'"
  using assms
proof (induction vs arbitrary: s rows t)
  case Nil
  then show ?case by simp
next
  case (Cons v vs)
  obtain row s1 rs where first: "save_tool_output_view w (materialize_view w e b v) s = Inr (row, s1)"
    and later_views: "save_views w e b vs s1 = Inr (rs, s')" and rows: "rows = row # rs" using Cons.prems(1) by auto
  have "views_grow s1 t" using save_views_grow[OF later_views] Cons.prems(2) by (rule views_grow_trans)
  moreover have "same_view (materialize_view w e b v) = same_view (materialize_view w e b' v)"
    by (rule ext) (simp add: same_view_def materialize_view_def)
  ultimately obtain t1 where t1: "save_tool_output_view w (materialize_view w e b' v) t = Inr (row, t1)" "same_rows t t1"
    using save_view_again[OF first, of t "materialize_view w e b' v"] by (auto simp: materialize_view_def)
  obtain t' where "save_views w e b' vs t1 = Inr (rs, t')" "same_rows t1 t'"
    using Cons.IH[OF later_views views_grow_same[OF Cons.prems(2) t1(2)]] by auto
  then show ?case using t1 rows same_rows_trans by auto
qed

lemma record_usage_again:
  assumes first: "record_usage w u v = Inr (row, v')" and receipt: "us_receipt u = Some (c # k)"
    and branches: "st_branches (va_store v'') = st_branches (va_store v')" and rows: "va_usage v'' = va_usage v'"
    and key: "us_receipt u' = us_receipt u" "us_branch u' = us_branch u"
    and counts: "us_input u' = us_input u" "us_output u' = us_output u" "us_cache_read u' = us_cache_read u"
      "us_cache_write u' = us_cache_write u" "us_context u' = us_context u" "us_raw u' = us_raw u" "us_emitted u' = us_emitted u"
  shows "record_usage w u' v'' = Inr (row, v'')"
proof -
  let ?same = "\<lambda>x. us_receipt x = us_receipt u"
  have branch: "find_branch (st_branches (va_store v')) (us_branch u) = find_branch (st_branches (va_store v)) (us_branch u)"
    and found: "List.find ?same (va_usage v') = Some row"
    using first receipt
    by (auto simp: record_usage_def given_def insert_usage_def fresh_uuid_def read_clock_def Let_def find_append_None
        split: if_splits option.splits)
  show ?thesis
    using first receipt found branch
    by (auto simp: record_usage_def given_def Let_def key counts rows branches split: if_splits)
qed

lemma record_usage_store:
  "record_usage w u v = Inr (row, v') \<Longrightarrow> same_rows (va_store v) (va_store v')"
  by (auto simp: record_usage_def insert_usage_def fresh_uuid_def read_clock_def Let_def split: if_splits option.splits)

text \<open>
  C35: reducing the same output again.  When the reduction of a tool output has been stored,
  another one of the same event, however long it takes, stores nothing: it returns the rows
  of the first one, adds no view and no usage sample, and changes no other row.
\<close>

theorem reduction_stored_once:
  assumes first: "reduce_tool_output w rd rf ft latency e v = Inr ((b, stored), v')"
  shows "\<exists>v''. reduce_tool_output w rd rf ft latency' e v' = Inr ((b\<lparr>bn_latency := latency'\<rparr>, stored), v'')
    \<and> (\<exists>s. same_rows (va_store v') s \<and> v'' = v'\<lparr>va_store := s\<rparr>)"
proof -
  obtain s row emitted_tokens emitted_bytes where b: "reduce rd rf ft latency e = Inr b"
    and views: "save_views w e b (bn_views b) (va_store v) = Inr (stored, s)"
    and emitted: "emitted_tokens = (case List.find (\<lambda>t. tv_level t = ''compact'') stored of None \<Rightarrow> bn_raw_tokens b | Some t \<Rightarrow> tv_view_tokens t)"
      "emitted_bytes = (case List.find (\<lambda>t. tv_level t = ''compact'') stored of None \<Rightarrow> bn_raw_bytes b | Some t \<Rightarrow> tv_view_bytes t)"
    and usage: "record_reduction w ft e b emitted_tokens emitted_bytes (v\<lparr>va_store := s\<rparr>) = Inr (row, v')"
    using first by (auto simp: reduce_tool_output_def Let_def)
  let ?b = "b\<lparr>bn_latency := latency'\<rparr>"
  have "same_rows s (va_store v')" using record_usage_store[OF usage[unfolded record_reduction_def]] by simp
  then have "views_grow s (va_store v')" by (rule views_grow_same[OF views_grow_refl])
  then obtain t where t: "save_views w e ?b (bn_views b) (va_store v') = Inr (stored, t)" "same_rows (va_store v') t"
    using save_views_again[OF views] by blast
  have "record_reduction w ft e ?b emitted_tokens emitted_bytes (v'\<lparr>va_store := t\<rparr>) = Inr (row, v'\<lparr>va_store := t\<rparr>)"
    unfolding record_reduction_def
    by (rule record_usage_again[OF usage[unfolded record_reduction_def]])
       (use same_rows_fields[OF t(2)] in \<open>simp_all add: reduction_sample_def\<close>)
  then have "reduce_tool_output w rd rf ft latency' e v' = Inr ((?b, stored), v'\<lparr>va_store := t\<rparr>)"
    using t reduce_latency[OF b, of latency'] by (simp add: reduce_tool_output_def Let_def emitted cong: option.case_cong)
  then show ?thesis using t(2) by blast
qed

section \<open>Concrete reductions\<close>

lemma no_context: "\<forall>l \<in> set lines. \<not> P l \<Longrightarrow> selected_with_context lines P radius = []"
  by (simp add: selected_with_context_def concat_eq_Nil_conv)

definition noisy_output :: string where
  "noisy_output = ''retry'' @ concat (replicate 33 [CHR 0x0A, CHR ''a''])"

definition noisy_event :: event where
  "noisy_event = \<lparr>ev_seq = 1, ev_id = ''evt_0'', ev_branch = ''main'', ev_session = None, ev_kind = ''tool_output'', ev_role = None,
     ev_channel = PUBLIC_API, ev_adapter = None, ev_content = noisy_output, ev_payload = [(''tool_input'', JStr ''pytest'')],
     ev_files = [], ev_created = ''t'', ev_prev = None, ev_chash = ''c'', ev_chain = ''h''\<rparr>"

definition keeping :: reducer where
  "keeping = (new_reducer (\<lambda>p. Inr (rlit p)) [''retry''])\<lparr>rd_minimum := 1\<rparr>"

lemma noisy_facts:
  "splitlines (clean noisy_output) = ''retry'' # replicate 33 ''a''
   \<and> conservative_token_estimate noisy_output = 46
   \<and> conservative_token_estimate (frame ''evt_0'' ''compact'' ''test-signal-extraction'' 46 ''retry'') = 43
   \<and> map (\<lambda>r. (re_found r ''retry'', re_found r ''a'')) [FAILURE, WARNING, SUMMARY] = [(False, False), (True, False), (False, False)]
   \<and> family noisy_event = Inr ''test'' \<and> line_protected keeping ''retry'' \<and> \<not> line_protected keeping ''a''"
  by code_simp

lemmas noisy_lines = noisy_facts[THEN conjunct1]
lemmas noisy_tokens = noisy_facts[THEN conjunct2, THEN conjunct1]
lemmas noisy_frame = noisy_facts[THEN conjunct2, THEN conjunct2, THEN conjunct1]
lemmas noisy_signals = noisy_facts[THEN conjunct2, THEN conjunct2, THEN conjunct2, THEN conjunct1]
lemmas noisy_family = noisy_facts[THEN conjunct2, THEN conjunct2, THEN conjunct2, THEN conjunct2, THEN conjunct1]

lemma noisy_view: "test_view keeping (splitlines (clean noisy_output))
    = (''retry'', ''test-signal-extraction'', line_counts (''retry'' # replicate 33 ''a'') [''retry''] @ omitted (''retry'' # replicate 33 ''a'') [''retry''])"
proof -
  have n: "\<not> re_found FAILURE ''retry''" "\<not> re_found FAILURE ''a''" "re_found WARNING ''retry''" "\<not> re_found WARNING ''a''"
    "\<not> re_found SUMMARY ''retry''" "\<not> re_found SUMMARY ''a''"
    using noisy_signals by simp_all
  have "selected_with_context (''retry'' # replicate 33 ''a'') (re_found FAILURE) (rd_context keeping) = []"
    using n by (intro no_context) simp
  then show ?thesis
    unfolding noisy_lines using n by (simp add: test_view_def Let_def uniq_def slice_from_def slice_at_def filter_replicate)
qed

lemma noisy_enforced: "enforced_view keeping (splitlines (clean noisy_output)) (''test'', Some (''retry'', strategy, counts)) = (''test'', Some (''retry'', strategy, counts))"
proof -
  obtain body where "enforce_protected_lines keeping ''retry'' (splitlines (clean noisy_output)) = Some body" using enforce_returns by blast
  moreover have "splitlines ''retry'' = [''retry'']" by code_simp
  moreover have "line_protected keeping ''retry''" "\<not> line_protected keeping ''a''" using noisy_facts by blast+
  ultimately show ?thesis unfolding noisy_lines
    by (auto simp: enforced_view_def enforce_protected_lines_def Let_def filter_replicate split: if_splits)
qed

lemma noisy_content: "ev_content noisy_event = noisy_output"
  by (simp add: noisy_event_def)

lemma reduce_emits:
  assumes "ev_kind e = ''tool_output''" "family e = Inr fam" "rd_config_error rd = None" "rd_minimum rd \<le> conservative_token_estimate (ev_content e)"
    "fam \<notin> {''source'', ''diff'', ''status''}"
    "enforced_view rd (splitlines (clean (ev_content e))) (body_view rd rf ft e fam (splitlines (clean (ev_content e)))) = (fam', Some v)"
  shows "\<exists>b critical. reduce rd rf ft latency e = Inr b \<and> bn_family b = fam'
    \<and> bn_views b = emitted_views ft e fam' (conservative_token_estimate (ev_content e)) critical v"
  using assms by (auto simp: reduce_def Let_def)

lemma compact_emitted:
  "conservative_token_estimate (frame (ev_id e) ''compact'' strategy n body) < n
    \<Longrightarrow> \<exists>v \<in> set (emitted_views ft e fam n critical (body, strategy, counts)). rv_level v = ''compact''"
  by (simp add: emitted_views_def Let_def)

theorem reduction_is_safe_witness:
  "\<exists>b v. reduce keeping id (\<lambda>_. ''1.0'') 0 noisy_event = Inr b \<and> v \<in> set (bn_views b) \<and> rv_level v = ''compact''
     \<and> contains ''retry'' (rv_content v)"
proof -
  have "body_view keeping id (\<lambda>_. ''1.0'') noisy_event ''test'' (splitlines (clean noisy_output))
      = (''test'', Some (test_view keeping (splitlines (clean noisy_output))))"
    by (simp add: body_view_def)
  then have en: "enforced_view keeping (splitlines (clean (ev_content noisy_event)))
      (body_view keeping id (\<lambda>_. ''1.0'') noisy_event ''test'' (splitlines (clean (ev_content noisy_event))))
    = (''test'', Some (''retry'', ''test-signal-extraction'', line_counts (''retry'' # replicate 33 ''a'') [''retry''] @ omitted (''retry'' # replicate 33 ''a'') [''retry'']))"
    by (simp only: noisy_content noisy_view noisy_enforced)
  obtain b critical where b: "reduce keeping id (\<lambda>_. ''1.0'') 0 noisy_event = Inr b" and fam: "bn_family b = ''test''"
    and views: "bn_views b = emitted_views (\<lambda>_. ''1.0'') noisy_event ''test'' 46 critical
      (''retry'', ''test-signal-extraction'', line_counts (''retry'' # replicate 33 ''a'') [''retry''] @ omitted (''retry'' # replicate 33 ''a'') [''retry''])"
    using reduce_emits[OF _ noisy_family _ _ _ en, of 0] noisy_tokens by (auto simp: noisy_event_def keeping_def new_reducer_def)
  have "conservative_token_estimate (frame (ev_id noisy_event) ''compact'' ''test-signal-extraction'' 46 ''retry'') < 46"
    using noisy_frame by (simp only: noisy_event_def event.simps)
  from compact_emitted[OF this] obtain v where v: "v \<in> set (bn_views b)" and level: "rv_level v = ''compact''"
    unfolding views by blast
  have "line_protected keeping ''retry''" using noisy_facts by blast
  moreover have "''retry'' \<in> set (splitlines (clean (ev_content noisy_event)))" using noisy_lines by (simp add: noisy_event_def)
  ultimately show ?thesis using reduction_is_safe[OF b v] b v level fam by auto
qed

definition passing :: reducer where
  "passing = new_reducer (\<lambda>p. Inr (rlit p)) []"

definition short_vault :: vault where
  "short_vault = (initial_vault view_world)\<lparr>va_store := tool_store\<rparr>"

lemma short_facts:
  "(case st_events tool_store of [e] \<Rightarrow> family e = Inr ''generic'' \<and> ev_kind e = ''tool_output'' \<and> ev_content e = ''o'' \<and> ev_branch e = ''main''
      \<and> ev_session e = None | _ \<Rightarrow> False)
   \<and> map br_id (st_branches tool_store) = [''main''] \<and> conservative_token_estimate ''o'' = 2"
  by code_simp

lemmas short_store = short_facts[THEN conjunct1]
lemmas short_branches = short_facts[THEN conjunct2, THEN conjunct1]
lemmas short_tokens = short_facts[THEN conjunct2, THEN conjunct2]

lemma short_reduction: "is_ok (reduce_tool_output view_world passing id (\<lambda>_. ''1.0'') 0 (hd (st_events tool_store)) short_vault)"
proof -
  obtain e where e: "st_events tool_store = [e]" and event: "family e = Inr ''generic''" "ev_kind e = ''tool_output''" "ev_content e = ''o''"
    "ev_branch e = ''main''" "ev_session e = None"
    using short_store by (auto split: list.splits)
  obtain br where br: "st_branches tool_store = [br]" "br_id br = ''main''" using short_branches by auto
  show ?thesis
    using br
    by (simp add: reduce_tool_output_def reduce_def e event short_tokens passing_def new_reducer_def record_reduction_def
        record_usage_def reduction_sample_def insert_usage_def short_vault_def initial_vault_def given_def fresh_uuid_def
        read_clock_def Let_def session_known_def event_known_def find_event_def find_branch_def is_ok_iff insert_keyed_def
        foreign_key_def guardr_def)
qed

theorem reduction_stored_once_witness:
  "\<exists>b stored v' v''. reduce_tool_output view_world passing id (\<lambda>_. ''1.0'') 0 (hd (st_events tool_store)) short_vault = Inr ((b, stored), v')
     \<and> reduce_tool_output view_world passing id (\<lambda>_. ''1.0'') 7 (hd (st_events tool_store)) v' = Inr ((b\<lparr>bn_latency := 7\<rparr>, stored), v'')"
proof -
  obtain b stored v' where r: "reduce_tool_output view_world passing id (\<lambda>_. ''1.0'') 0 (hd (st_events tool_store)) short_vault = Inr ((b, stored), v')"
    using short_reduction by (auto simp: is_ok_iff)
  show ?thesis using reduction_stored_once[OF r, where latency' = 7] r by blast
qed

section \<open>What a table does not tell apart\<close>

text \<open>
  The lossless table writes a text as it is and everything else as JSON, so a text that reads
  like a number is written as that number.
\<close>

lemma csv_conflates: "lossless_csv [[(''n'', JStr ''1'')]] [''n''] = lossless_csv [[(''n'', JInt 1)]] [''n'']"
  by code_simp

end
