(* ===== verification/PromptProps.thy ===== *)
theory PromptProps
  imports Prompt ReplayFacts ReducerProps
begin

text \<open>
  The budget of a prompt packet: every section is chosen so that it fits, the protected part
  is never dropped, and the check at the end can fail only for a token counter that charges
  the packet with its restatement more than its two parts.
\<close>

section \<open>What the loops choose\<close>

lemma group_events_from:
  "group_events ms xs ps g = Some g' \<Longrightarrow> set (concat (map snd g')) \<subseteq> set (concat (map snd g)) \<union> snd ` set xs"
proof (induction ms xs ps g rule: group_events.induct)
  case (2 matched index e xs ps grouped)
  have grow: "set (concat (map snd (dset r ((case dget grouped r of None \<Rightarrow> [] | Some g \<Rightarrow> g) @ [e]) grouped)))
      \<subseteq> insert e (set (concat (map snd grouped)))" for r
  proof -
    have "set (concat (map snd (dset r v d))) \<subseteq> set v \<union> set (concat (map snd d))" for v and d :: "(nat, event list) dict"
      by (induction d) auto
    moreover have "dget grouped r = Some g \<Longrightarrow> set g \<subseteq> set (concat (map snd grouped))" for g
      by (auto dest!: map_of_SomeD)
    ultimately show ?thesis by (fastforce split: option.splits)
  qed
  show ?case
  proof (cases "ev_kind e = ''tool_output'' \<and> index \<notin> set matched")
    case True
    then show ?thesis using 2 by auto
  next
    case False
    then obtain r ps' where r: "find_root ps index = Some (r, ps')"
      "group_events matched xs ps' (dset r ((case dget grouped r of None \<Rightarrow> [] | Some g \<Rightarrow> g) @ [e]) grouped) = Some g'"
      using 2(3) by (auto split: option.splits)
    have "set (concat (map snd g')) \<subseteq> set (concat (map snd (dset r ((case dget grouped r of None \<Rightarrow> [] | Some g \<Rightarrow> g) @ [e]) grouped))) \<union> snd ` set xs"
      using False r by (intro 2(2)) auto
    moreover have "snd ` set ((index, e) # xs) = insert e (snd ` set xs)" by simp
    ultimately show ?thesis using grow[of r] by blast
  qed
qed simp

lemma interaction_groups_from: "interaction_groups es = Some gs \<Longrightarrow> set (concat gs) \<subseteq> set es"
proof -
  assume "interaction_groups es = Some gs"
  then obtain ms ps g' where g: "group_events ms (enumerate 0 (transcript_of es)) ps [] = Some g'"
    and gs: "gs = sort_key (\<lambda>g. Min (set (map ev_seq g))) (map (sort_key ev_seq) (map snd g'))"
    by (auto simp: interaction_groups_def Let_def split: option.splits)
  have "set (concat gs) = set (concat (map snd g'))" unfolding gs by simp
  also have "\<dots> \<subseteq> snd ` set (enumerate 0 (transcript_of es))" using group_events_from[OF g] by simp
  also have "\<dots> \<subseteq> set es" unfolding set_map[symmetric] by (auto simp: transcript_of_def)
  finally show ?thesis .
qed

lemma choose_groups_ok:
  "choose_groups ok gs chosen = chosen \<or> ok (in_order (choose_groups ok gs chosen))"
  by (induction gs arbitrary: chosen) (auto, metis)

lemma choose_groups_from: "set (choose_groups ok gs chosen) \<subseteq> set gs \<union> set chosen"
proof (induction gs arbitrary: chosen)
  case (Cons g gs)
  then show ?case using Cons.IH[of "g # chosen"] by auto
qed simp

lemma set_in_order: "set (in_order gs) = set (concat gs)"
  by (simp add: in_order_def)

lemma choose_hits_ok: "choose_hits ok hs acc = Inr es \<Longrightarrow> es = acc \<or> ok es"
  by (induction hs arbitrary: acc) (fastforce split: if_splits)+

lemma choose_hits_total: "\<forall>h \<in> set hs. is_ok (retrieval_text h) \<Longrightarrow> is_ok (choose_hits ok hs acc)"
proof (induction hs arbitrary: acc)
  case (Cons h hs)
  then obtain t where "retrieval_text h = Inr t" by (auto simp: is_ok_iff)
  then show ?case using Cons.IH[of "acc @ [t]"] Cons.prems by (simp add: is_ok_iff)
qed (simp add: is_ok_iff)

lemma index_lines_ok: "index_lines ok skipped items lines = Inr ls \<Longrightarrow> ls = lines \<or> ok ls"
  by (induction items arbitrary: lines) (fastforce simp: Let_def split: if_splits)+

lemma index_lines_total:
  assumes "\<forall>d \<in> set items. \<exists>e. d = hd (store_timeline [e])"
  shows "is_ok (index_lines ok skipped items lines)"
  using assms
proof (induction items arbitrary: lines)
  case (Cons d items)
  then obtain e where d: "d = hd (store_timeline [e])" by auto
  have "mapr a_text (map JStr fs) = Inr fs" for fs by (induction fs) (auto simp: a_text_def)
  then have line: "\<exists>line. index_line d p = Inr line" for p
    by (simp add: d store_timeline_def index_line_def field_def dget_default_def comma_joined_def)
  obtain line where line: "index_line d (py_str (dget_default d ''preview'' (JStr []))) = Inr line" using line by blast
  have "bindr (field d ''id'') hashable = Inr (JStr (ev_id e))" by (simp add: d store_timeline_def field_def hashable_def)
  then show ?case
    using Cons.IH[of lines] Cons.IH[of "lines @ [line]"] Cons.prems line
    by (cases "ok (lines @ [line])") (simp_all add: Let_def del: bindr_eq_Inr)
qed (simp add: is_ok_iff)

lemma store_timeline_items: "d \<in> set (store_timeline es) \<Longrightarrow> \<exists>e. d = hd (store_timeline [e])"
  by (auto simp: store_timeline_def)

lemma slice_from_subset: "set (slice_from i xs) \<subseteq> set xs"
  by (simp add: slice_from_def set_drop_subset)

lemma eligible_errors: "automatic_memory_eligible s i = Inl x \<Longrightarrow> \<exists>m. x = KeyError m"
  by (auto simp: automatic_memory_eligible_def get_memory_def split: option.splits)

lemma filterr_total: "\<forall>x \<in> set xs. is_ok (f x) \<Longrightarrow> \<exists>ys. filterr f xs = Inr ys"
proof (induction xs)
  case (Cons x xs)
  then obtain b ys where "f x = Inr b" "filterr f xs = Inr ys" by (auto simp: is_ok_iff)
  then show ?case by simp
qed simp

lemma excluded_total: "is_ok (excluded_event s e)"
  by (auto simp: excluded_event_def Let_def is_ok_iff split: sum.splits exn.splits dest: eligible_errors)

section \<open>The packet\<close>

lemma paragraphs_snoc: "xs \<noteq> [] \<Longrightarrow> paragraphs (xs @ [x]) = paragraphs xs @ LF2 @ x"
  by (simp add: paragraphs_def join_snoc)

lemma paragraphs_extend: "xs \<noteq> [] \<Longrightarrow> \<exists>rest. paragraphs (xs @ ys) = paragraphs xs @ rest"
proof (induction ys rule: rev_induct)
  case (snoc y ys)
  then obtain rest where "paragraphs (xs @ ys) = paragraphs xs @ rest" by blast
  then show ?case using paragraphs_snoc[of "xs @ ys" y] snoc.prems by auto
qed simp

lemma protected_ne [simp]: "protected_parts a q es \<noteq> []"
  by (simp add: protected_parts_def)

lemma protected_base: "base_of ''[RECENT TRANSCRIPT'' (protected_parts a q es) = protected_parts a q es"
  "base_of ''[RETRIEVED MEMORY'' (protected_parts a q es) = protected_parts a q es"
  by (simp_all add: base_of_def protected_parts_def paragraphs_def join_Cons starts_with_def)

lemma transcript_base: "base_of ''[RETRIEVED MEMORY'' (xs @ [transcript_section s act es]) = xs @ [transcript_section s act es]"
  by (simp add: base_of_def transcript_section_def starts_with_def)

text \<open>What the assembly reads before it selects; nothing of it can fail in a reachable store.\<close>

lemma assembly_reads:
  assumes ok: "store_ok w s" and b: "b \<in> branch_ids s"
  obtains entries es act ex where "store_entries s b = Inr entries" "query_events s b all_events = Inr es"
    "active_files es = Inr act" "excluded_ids s b = Inr ex"
    "\<And>n c. n \<in> set BLOCK_ORDER \<Longrightarrow> active_memory s b n = Some c \<Longrightarrow> \<exists>e \<in> set entries. en_name e = n \<and> en_content e = c"
proof -
  obtain bs where bs: "get_active_blocks s b = Inr bs" by (rule active_memory_total[OF ok b])
  obtain L where L: "lineage s b = Inr L" by (rule lineage_total[OF log_okD(1)[OF store_okD(1)[OF ok]] b])
  have "\<exists>es. query_events s b all_events = Inr es" unfolding query_events_def L bindr_Inr Let_def by (rule exI, rule refl)
  then obtain es where es: "query_events s b all_events = Inr es" by blast
  obtain gs where gs: "interaction_groups es = Some gs" using interaction_groups_return by blast
  obtain xs where xs: "filterr (excluded_event s) es = Inr xs" using filterr_total[of es "excluded_event s"] excluded_total by blast
  let ?entries = "List.map_filter (\<lambda>name. map_option (\<lambda>b. \<lparr>en_name = name, en_version = bl_version b, en_sources = bl_sources b,
              en_content = bl_content b\<rparr>) (dget bs name)) BLOCK_ORDER"
  show thesis
  proof (rule that[of ?entries es _ "map ev_id xs"])
    show "store_entries s b = Inr ?entries" by (simp add: store_entries_def bs)
    show "query_events s b all_events = Inr es" by (rule es)
    show "active_files es = Inr (files_of_groups (slice_from (- MAX_HOLD_GROUPS) gs) \<inter> files_of_groups (slice_from (- QUIESCE_GROUPS) gs))"
      by (simp add: active_files_def gs returned_def)
    show "excluded_ids s b = Inr (map ev_id xs)" by (simp add: excluded_ids_def es xs)
    show "\<exists>e \<in> set ?entries. en_name e = n \<and> en_content e = c" if n: "n \<in> set BLOCK_ORDER" and c: "active_memory s b n = Some c" for n c
    proof -
      obtain x where "dget bs n = Some x" "bl_content x = c" using c by (auto simp: active_memory_def bs)
      then show ?thesis using n by (force simp: List.map_filter_def)
    qed
  qed
qed

lemma chosen_ok:
  assumes "chosen_events a s q (protected_parts a q entries) budget act es = Inr ch"
  shows "ch = [] \<or> fits a (protected_parts a q entries) (transcript_section s act ch) budget" "set ch \<subseteq> set es"
proof -
  obtain gs where gs: "set (concat gs) \<subseteq> set es" and ch: "ch = in_order (choose_groups
      (\<lambda>es. fits a (protected_parts a q entries) (transcript_section s act es) budget) (rev gs) [])"
  proof (cases "rq_recent q = 0")
    case True
    then show thesis using that[of "[]"] assms by (simp add: chosen_events_def protected_base)
  next
    case False
    obtain all_groups where g: "interaction_groups es = Some all_groups" using interaction_groups_return by blast
    have "set (concat (slice_from (- rq_recent q) all_groups)) \<subseteq> set es"
      using interaction_groups_from[OF g] slice_from_subset[of "- rq_recent q" all_groups] by auto
    then show thesis using that[of "slice_from (- rq_recent q) all_groups"] assms False g
      by (simp add: chosen_events_def protected_base returned_def)
  qed
  let ?ok = "\<lambda>es. fits a (protected_parts a q entries) (transcript_section s act es) budget"
  show "ch = [] \<or> ?ok ch"
    using choose_groups_ok[of ?ok "rev gs" "[]"] unfolding ch by (auto simp: in_order_def)
  have "set (choose_groups ?ok (rev gs) []) \<subseteq> set gs" using choose_groups_from[of ?ok "rev gs" "[]"] by simp
  then show "set ch \<subseteq> set es" using gs unfolding ch set_in_order by auto
qed

lemma chosen_total: "\<exists>ch. chosen_events a s q parts budget act es = Inr ch"
  using interaction_groups_return[of es] by (auto simp: chosen_events_def returned_def)

lemma retrieved_total:
  "\<forall>h \<in> set hits. is_ok (retrieval_text h) \<Longrightarrow> \<exists>es ids. retrieved_entries a q (Inr hits) parts budget = Inr (es, ids)"
  using choose_hits_total[of hits _ "[]"] by (fastforce simp: retrieved_entries_def is_ok_iff)

lemma retrieved_ok:
  "retrieved_entries a q (Inr hits) parts budget = Inr (es, ids)
    \<Longrightarrow> es = [] \<or> fits a (base_of ''[RETRIEVED MEMORY'' parts) (retrieved_section es) budget"
  by (auto simp: retrieved_entries_def dest: choose_hits_ok split: if_splits)

lemma index_total: "\<exists>index. index_section a parts budget skipped (store_timeline es) = Inr index"
  using index_lines_total[of "store_timeline es"] store_timeline_items
  by (fastforce simp: index_section_def Let_def is_ok_iff)

lemma index_ok:
  assumes "index_section a parts budget skipped items = Inr index"
  shows "index = [] \<or> (\<exists>t. index = [t] \<and> fits a parts t budget)"
proof -
  let ?ok = "\<lambda>ls. fits a parts (join [CHR 0x0A] ls) budget"
  let ?o = "[''[HISTORICAL INDEX - UNTRUSTED DATA]'']"
  let ?h = "?o @ [''Expand evt_/mem_ verbatim: `joiny-mnemonic source <id>`.'']"
  obtain ls where ls: "index_lines ?ok skipped items (if ?ok ?h then ?h else ?o) = Inr ls"
    "index = (if length ls > 1 then [join [CHR 0x0A] ls] else [])"
    using assms by (auto simp: index_section_def Let_def simp del: append_Cons append_Nil)
  have "ls = (if ?ok ?h then ?h else ?o) \<or> ?ok ls" by (rule index_lines_ok[OF ls(1)])
  then have "length ls > 1 \<longrightarrow> ?ok ls" by (auto split: if_splits)
  then show ?thesis using ls(2) by auto
qed

text \<open>The sections up to the index stay within what the restatement leaves of the budget.\<close>

lemma sections_fit:
  assumes start: "pa_tokens a (paragraphs (protected_parts a q entries)) \<le> effective" and tb: "budget \<le> effective"
    and chosen: "chosen_events a s q (protected_parts a q entries) budget act es = Inr ch"
    and parts1: "parts1 = protected_parts a q entries @ (if ch \<noteq> [] then [transcript_section s act ch] else [])"
    and retrieved: "retrieved_entries a q (Inr hits) parts1 effective = Inr (rs, ids)"
    and parts2: "parts2 = parts1 @ (if rs \<noteq> [] then [retrieved_section rs] else [])"
    and index: "index_section a parts2 effective skipped items = Inr index"
  shows "pa_tokens a (paragraphs (parts2 @ index)) \<le> effective"
proof -
  have 1: "pa_tokens a (paragraphs parts1) \<le> effective"
    using chosen_ok(1)[OF chosen] start tb by (auto simp: parts1 fits_def)
  have base: "base_of ''[RETRIEVED MEMORY'' parts1 = parts1"
    by (simp add: parts1 protected_base transcript_base)
  have 2: "pa_tokens a (paragraphs parts2) \<le> effective"
    using retrieved_ok[OF retrieved] 1 by (auto simp: parts2 fits_def base)
  show ?thesis using index_ok[OF index] 2 by (auto simp: fits_def)
qed

lemma plan_fits:
  assumes "plan_budget a q entries = Inr plan"
  shows "pa_tokens a (paragraphs (protected_parts a q entries)) \<le> pl_effective plan" "pl_transcript plan \<le> pl_effective plan"
    "pl_effective plan + (case pl_digest plan of None \<Rightarrow> 0 | Some d \<Rightarrow> pa_tokens a (LF2 @ d)) = rq_budget q"
  using assms by (auto simp: plan_budget_def Let_def split: if_splits option.splits)

lemma plan_digest: "plan_budget a q entries = Inr plan \<Longrightarrow> pl_digest plan = Some d \<Longrightarrow> digest_section entries = Some d"
  by (auto simp: plan_budget_def Let_def split: if_splits)

text \<open>
  The last check of the assembly fails for a text \<open>x\<close> and the restatement \<open>d\<close> exactly
  when the counter charges the two together more than it charged them apart.
\<close>

definition overcharged :: "assembler \<Rightarrow> request \<Rightarrow> entry list \<Rightarrow> bool" where
  "overcharged a q entries \<longleftrightarrow> (\<exists>x d. digest_section entries = Some d
     \<and> pa_tokens a x + pa_tokens a (LF2 @ d) \<le> rq_budget q \<and> rq_budget q < pa_tokens a (x @ LF2 @ d))"

lemma not_overcharged:
  "(\<And>x d. pa_tokens a (x @ LF2 @ d) \<le> pa_tokens a x + pa_tokens a (LF2 @ d)) \<Longrightarrow> \<not> overcharged a q entries"
  unfolding overcharged_def by (meson linorder_not_less order_trans)

lemma restated_fit:
  assumes ne: "parts \<noteq> []" and plan: "plan_budget a q entries = Inr plan" and nonneg: "\<forall>x. 0 \<le> pa_tokens a x"
    and fit: "pa_tokens a (paragraphs parts) \<le> pl_effective plan"
    and over: "pa_tokens a (paragraphs (parts @ (case pl_digest plan of None \<Rightarrow> [] | Some d \<Rightarrow> if data then [d] else [])))
                 > rq_budget q"
  shows "overcharged a q entries"
proof (cases "pl_digest plan")
  case None
  then show ?thesis using fit over plan_fits(3)[OF plan] by simp
next
  case (Some d)
  have with_d: "pa_tokens a (paragraphs parts) + pa_tokens a (LF2 @ d) \<le> rq_budget q"
    using fit plan_fits(3)[OF plan] Some by simp
  then have "pa_tokens a (paragraphs parts) \<le> rq_budget q" using nonneg[rule_format, of "LF2 @ d"] by linarith
  then have "rq_budget q < pa_tokens a (paragraphs (parts @ [d]))" using over Some by (cases data) simp_all
  then have "rq_budget q < pa_tokens a (paragraphs parts @ LF2 @ d)" by (simp only: paragraphs_snoc[OF ne])
  then show ?thesis using with_d plan_digest[OF plan Some] unfolding overcharged_def by blast
qed

lemma assemble_shows:
  assumes pos: "1 \<le> rq_budget q" and live: "rq_state q = None" and entries: "store_entries s (rq_branch q) = Inr entries"
    and es: "query_events s (rq_branch q) all_events = Inr es" and act: "active_files es = Inr act" and ex: "excluded_ids s (rq_branch q) = Inr ex"
    and plan: "plan_budget a q entries = Inr plan" and hits: "\<forall>h \<in> set hits. is_ok (retrieval_text h)"
    and nonneg: "\<forall>x. 0 \<le> pa_tokens a x"
  shows "(\<exists>p rest. assemble a s q (Inr hits) = Inr p \<and> pk_tokens p = pa_tokens a (pk_text p) \<and> pk_tokens p \<le> rq_budget q
      \<and> pk_text p = paragraphs (protected_parts a q entries) @ rest \<and> set (pk_events p) \<subseteq> ev_id ` set es - set ex)
    \<or> overcharged a q entries
      \<and> assemble a s q (Inr hits) = Inl (AssertionError ''prompt budget governor emitted an oversized packet'')"
proof -
  let ?P = "protected_parts a q entries"
  let ?shown = "filter (\<lambda>e. ev_id e \<notin> set ex) es"
  obtain ch where ch: "chosen_events a s q ?P (pl_transcript plan) act ?shown = Inr ch" using chosen_total by blast
  define parts1 where "parts1 = ?P @ (if ch \<noteq> [] then [transcript_section s act ch] else [])"
  obtain rs ids where rs: "retrieved_entries a q (Inr hits) parts1 (pl_effective plan) = Inr (rs, ids)"
    using retrieved_total[OF hits] by blast
  define parts2 where "parts2 = parts1 @ (if rs \<noteq> [] then [retrieved_section rs] else [])"
  obtain index where index: "index_section a parts2 (pl_effective plan) (map ev_id ch @ ex) (store_timeline ?shown) = Inr index"
    using index_total by blast
  define data where "data = (\<exists>p \<in> set (parts2 @ index). starts_with ''[RECENT TRANSCRIPT'' p \<or> starts_with ''[RETRIEVED MEMORY'' p)"
  define parts where "parts = (parts2 @ index) @ (case pl_digest plan of None \<Rightarrow> [] | Some d \<Rightarrow> if data then [d] else [])"
  have ne: "parts2 @ index \<noteq> []" by (simp add: parts2_def parts1_def)
  have fit: "pa_tokens a (paragraphs (parts2 @ index)) \<le> pl_effective plan"
    by (rule sections_fit[OF plan_fits(1,2)[OF plan] ch parts1_def rs parts2_def index])
  have shape: "assemble a s q (Inr hits) =
      (if pa_tokens a (paragraphs parts) > rq_budget q
       then Inl (AssertionError ''prompt budget governor emitted an oversized packet'')
       else Inr \<lparr>pk_text = paragraphs parts, pk_tokens = pa_tokens a (paragraphs parts), pk_budget = rq_budget q,
         pk_events = map ev_id ch, pk_memories = ids, pk_snapshot = rq_snapshot q, pk_stale = rq_stale q\<rparr>)"
  proof -
    have n: "(rq_budget q < 1) = False" using pos by auto
    show ?thesis
      by (simp only: assemble_def live option.case entries es act ex plan bindr_Inr Let_def n if_False ch parts1_def[symmetric]
          rs prod.case parts2_def[symmetric] index data_def[symmetric] parts_def[symmetric])
  qed
  obtain rest where rest: "paragraphs parts = paragraphs ?P @ rest"
    using paragraphs_extend[OF protected_ne, of a q entries] unfolding parts_def parts2_def parts1_def append_assoc by blast
  have ids: "set (map ev_id ch) \<subseteq> ev_id ` set es - set ex" using chosen_ok(2)[OF ch] by auto
  show ?thesis
  proof (cases "pa_tokens a (paragraphs parts) > rq_budget q")
    case True
    then have "overcharged a q entries" unfolding parts_def by (rule restated_fit[OF ne plan nonneg fit])
    then show ?thesis using True shape by simp
  next
    case False
    then show ?thesis using shape rest ids by auto
  qed
qed

lemma plan_refused: "plan_budget a q entries = Inl BudgetExceededError \<longleftrightarrow> pa_tokens a (paragraphs (protected_parts a q entries)) > rq_budget q"
  by (simp add: plan_budget_def Let_def)

lemma contains_entry: "e \<in> set entries \<Longrightarrow> contains (en_content e) (paragraphs (protected_parts a q entries))"
proof -
  assume e: "e \<in> set entries"
  have "contains (en_content e) (entry_text e)"
    unfolding entry_text_def by (simp only: append_assoc[symmetric]) (intro contains_left contains_right contains_refl)
  moreover have "contains (entry_text e) (last (protected_parts a q entries))"
    using e unfolding protected_parts_def paragraphs_def by (auto intro!: contains_join)
  moreover have "contains (last (protected_parts a q entries)) (paragraphs (protected_parts a q entries))"
    unfolding paragraphs_def by (intro contains_join last_in_set) simp
  ultimately show ?thesis unfolding contains_iff by (metis append.assoc)
qed

text \<open>
  C33: the packet and its budget.  Take any reachable store, a request without a restored
  state, hits that can be shown, and any token counter whose values are not negative.  The
  assembly raises \<open>BudgetExceededError\<close> exactly if the protected part alone exceeds the
  budget.  Otherwise it returns a packet within the budget: the protected part stands at its
  beginning in full, with every text of the branch's active memory, the events shown are
  visible ones of the branch, and none of them is excluded.  The one other outcome is the
  \<open>AssertionError\<close> of the last check, and only if the counter charges some text together
  with the closing restatement beyond the budget although the two apart were within it (the
  estimate of the code can, see below); a packet over the budget is never returned.
\<close>

theorem packet_within_budget:
  assumes reach: "reachable w s" and b: "rq_branch q \<in> branch_ids s" and live: "rq_state q = None" and pos: "1 \<le> rq_budget q"
    and hits: "\<forall>h \<in> set hits. is_ok (retrieval_text h)"
    and nonneg: "\<forall>x. 0 \<le> pa_tokens a x"
  shows "\<exists>entries es ex. store_entries s (rq_branch q) = Inr entries \<and> query_events s (rq_branch q) all_events = Inr es
    \<and> excluded_ids s (rq_branch q) = Inr ex
    \<and> (if pa_tokens a (paragraphs (protected_parts a q entries)) > rq_budget q
       then assemble a s q (Inr hits) = Inl BudgetExceededError
       else (\<exists>p rest. assemble a s q (Inr hits) = Inr p \<and> pk_tokens p = pa_tokens a (pk_text p) \<and> pk_tokens p \<le> rq_budget q
           \<and> pk_text p = paragraphs (protected_parts a q entries) @ rest
           \<and> (\<forall>n \<in> set BLOCK_ORDER. \<forall>c. active_memory s (rq_branch q) n = Some c \<longrightarrow> contains c (pk_text p))
           \<and> set (pk_events p) \<subseteq> ev_id ` set es - set ex)
         \<or> overcharged a q entries
           \<and> assemble a s q (Inr hits) = Inl (AssertionError ''prompt budget governor emitted an oversized packet''))"
proof (rule assembly_reads[OF reachable_ok[OF reach] b], goal_cases)
  case (1 entries es act ex)
  show ?case
  proof (cases "pa_tokens a (paragraphs (protected_parts a q entries)) > rq_budget q")
    case True
    then have "assemble a s q (Inr hits) = Inl BudgetExceededError"
      using pos live 1(1) plan_refused[of a q entries] by (simp add: assemble_def)
    then show ?thesis using 1 True by auto
  next
    case False
    then obtain plan where plan: "plan_budget a q entries = Inr plan" by (auto simp: plan_budget_def Let_def)
    have texts: "contains c (paragraphs (protected_parts a q entries) @ rest)"
      if "n \<in> set BLOCK_ORDER" "active_memory s (rq_branch q) n = Some c" for n c rest
      using 1(5)[OF that] contains_entry by (auto intro: contains_left)
    show ?thesis
      using assemble_shows[OF pos live 1(1-4) plan hits nonneg]
    proof
      assume "overcharged a q entries
        \<and> assemble a s q (Inr hits) = Inl (AssertionError ''prompt budget governor emitted an oversized packet'')"
      then show ?thesis using 1 False by auto
    next
      assume "\<exists>p rest. assemble a s q (Inr hits) = Inr p \<and> pk_tokens p = pa_tokens a (pk_text p) \<and> pk_tokens p \<le> rq_budget q
        \<and> pk_text p = paragraphs (protected_parts a q entries) @ rest \<and> set (pk_events p) \<subseteq> ev_id ` set es - set ex"
      then show ?thesis using 1 False texts by fastforce
    qed
  qed
qed

section \<open>A packet\<close>

definition packet_store :: store where
  "packet_store = attempt (run_store view_world) (SetBlock ''goal'' ''ship'' ''main'' None []) (initial_store view_world)"

definition counting :: assembler where
  "counting = \<lparr>pa_tokens = (\<lambda>t. int (length t)), pa_header = ''[MEMORY PACKET]''\<rparr>"

definition packet_request :: request where
  "packet_request = \<lparr>rq_budget = 900, rq_branch = ''main'', rq_query = [], rq_recent = 8, rq_limit = 12, rq_snapshot = None,
     rq_stale = [], rq_state = None, rq_instructions = []\<rparr>"

lemma packet_facts:
  "active_memory packet_store ''main'' ''goal'' = Some ''ship'' \<and> ''main'' \<in> branch_ids packet_store
   \<and> map_sum id (\<lambda>es. length (paragraphs (protected_parts counting packet_request es)) \<le> 900) (store_entries packet_store ''main'') = Inr True"
  by code_simp

theorem packet_within_budget_witness:
  "\<exists>p. assemble counting packet_store packet_request (Inr []) = Inr p \<and> pk_tokens p \<le> 900 \<and> contains ''ship'' (pk_text p)"
proof -
  have reach: "reachable view_world packet_store"
    unfolding packet_store_def by (intro reachable.step reachable.start)
  have q: "rq_branch packet_request = ''main''" "rq_state packet_request = None" "1 \<le> rq_budget packet_request"
    by (simp_all add: packet_request_def)
  obtain entries where entries: "store_entries packet_store ''main'' = Inr entries"
    "length (paragraphs (protected_parts counting packet_request entries)) \<le> 900"
    using packet_facts by (cases "store_entries packet_store ''main''") auto
  have "''goal'' \<in> set BLOCK_ORDER" by (simp add: BLOCK_ORDER_def)
  moreover have "\<not> pa_tokens counting (paragraphs (protected_parts counting packet_request entries)) > rq_budget packet_request"
    using entries(2) by (simp add: counting_def packet_request_def)
  ultimately obtain p where "assemble counting packet_store packet_request (Inr []) = Inr p" "pk_tokens p \<le> rq_budget packet_request"
    "contains ''ship'' (pk_text p)"
    using packet_within_budget[OF reach, of packet_request "[]" counting] packet_facts q entries(1)
    using not_overcharged[of counting packet_request entries] by (auto simp: counting_def)
  then show ?thesis by (auto simp: packet_request_def)
qed

section \<open>The estimate of the code\<close>

definition words :: "nat \<Rightarrow> string" where
  "words n = concat (replicate n ''a '')"

lemma words_split: "split_ws (words n @ s) = replicate n ''a'' @ split_ws s"
proof -
  have "\<not> is_space (CHR ''a'')" "is_space (CHR '' '')" by code_simp+
  then show ?thesis by (induction n) (simp_all add: words_def split_ws_def)
qed

lemma words_only: "split_ws (words n) = replicate n ''a''"
  using words_split[of n "[]"] by (simp add: split_ws_def)

lemma words_bytes: "utf8_len (words n) = 2 * n"
proof -
  have "utf8_len ''a '' = 2" by code_simp
  then have "utf8_len (''a '' @ t) = 2 + utf8_len t" for t by (simp only: utf8_len_append)
  then show ?thesis by (induction n) (simp_all add: words_def)
qed

lemma blank_lines: "split_ws (LF2 @ s) = split_ws s" "utf8_len LF2 = 2"
proof -
  have "is_space (CHR 0x0A)" by code_simp
  then show "split_ws (LF2 @ s) = split_ws s" by (simp add: LF2_def split_ws_def)
qed code_simp

text \<open>
  The estimate of the code is no such counter: 135/100 is rounded up in binary, so 180 words
  cost 244 tokens, 160 and 20 of them 216 and 27.
\<close>

lemma float_estimates:
  "\<lceil>float_times 180 (fl (135 / 100))\<rceil> = 244 \<and> \<lceil>float_times 160 (fl (135 / 100))\<rceil> = 216 \<and> \<lceil>float_times 20 (fl (135 / 100))\<rceil> = 27
   \<and> \<lceil>fl (362 / 3)\<rceil> = 121 \<and> \<lceil>fl (320 / 3)\<rceil> = 107 \<and> \<lceil>fl (42 / 3)\<rceil> = 14"
  by code_simp

lemma estimate_not_additive:
  "conservative_token_estimate (words 160 @ LF2 @ words 20)
     > conservative_token_estimate (words 160) + conservative_token_estimate (LF2 @ words 20)"
proof -
  have ne: "words 160 @ s \<noteq> []" "LF2 @ s \<noteq> []" "words 160 \<noteq> []" for s by (simp_all add: words_def LF2_def numeral_eq_Suc)
  have 1: "length (split_ws (words 160 @ LF2 @ words 20)) = 180" "utf8_len (words 160 @ LF2 @ words 20) = 362"
    by (simp_all add: words_split words_only blank_lines words_bytes)
  have 2: "length (split_ws (words 160)) = 160" "utf8_len (words 160) = 320"
    by (simp_all add: words_only words_bytes)
  have 3: "length (split_ws (LF2 @ words 20)) = 20" "utf8_len (LF2 @ words 20) = 42"
    by (simp_all add: words_only blank_lines words_bytes)
  show ?thesis using float_estimates ne by (simp add: conservative_token_estimate_def 1 2 3 words_bytes words_only blank_lines)
qed

text \<open>
  C40: the transcript loops return.  The pairing of tool outputs with their calls and the
  grouping by roots, a union-find walk that the code writes as an open loop, return on every
  list of events, and so does the selection of the last complete groups for every limit.
\<close>

theorem transcript_loops_return: "interaction_groups es \<noteq> None \<and> recent_complete_events es n \<noteq> None"
  using interaction_groups_return recent_complete_events_return by (metis option.distinct(1))

end
