(* ===== verification/Reconciler.thy ===== *)
theory Reconciler
  imports Prompt IsoFormat
begin

text \<open>
  Evidence-bound maintenance of the task block (\<open>reconciler.py\<close>) and the manual verbs over the
  same ledger (\<open>settlement.py\<close>).  Detection looks for trusted tool outputs behind the admission
  of a task; a closure rewrites the block, supersedes the task record and settles the
  candidate in one transaction.  The Cyrillic alternatives of the verb patterns cannot match
  code points up to U+00FF.  The file system and the current time are the argument \<open>hygiene\<close>.
\<close>

section \<open>Entries, paths, commands\<close>

definition PATH :: rx where
  "PATH = rseqs [rplus (RChar (\<lambda>c. is_word c \<or> c \<in> {CHR ''-'', CHR ''.'', CHR ''/'', CHR 0x5C})), rlit ''.'',
     rrange 1 8 (RChar (\<lambda>c. is_upper_ascii c \<or> is_lower_ascii c \<or> is_digit c)), RBound]"

definition BACKTICK :: rx where
  "BACKTICK = rseqs [rlit ''`'', RGroup 1 (rplus (RChar (\<lambda>c. c \<noteq> CHR ''`'' \<and> c \<noteq> CHR 0x0A))), rlit ''`'']"

definition CREATE_VERBS :: rx where
  "CREATE_VERBS = RSeq RBound (ralts (map rlit_i [''write'', ''creat'', ''add'', ''updat'', ''fix'']))"

definition DELETE_VERBS :: rx where
  "DELETE_VERBS = RSeq RBound (ralts (map rlit_i [''delete'', ''remove'', ''drop'']))"

definition WRITE_TOOLS :: "string list" where
  "WRITE_TOOLS = [''write'', ''edit'', ''multiedit'', ''notebookedit'', ''create_file'']"

definition command_matches :: "string \<Rightarrow> string \<Rightarrow> bool" where
  "command_matches entry_command command_text \<longleftrightarrow>
     squeeze command_text = squeeze entry_command \<or> starts_with (squeeze entry_command @ '' '') (squeeze command_text)"

definition normalized :: "string \<Rightarrow> string" where
  "normalized entry = squeeze (casefold entry)"

definition entry_lines :: "string \<Rightarrow> string list" where
  "entry_lines content =
     filter (\<lambda>l. l \<noteq> []) (map (\<lambda>raw. let line = strip raw
        in if starts_with ''- '' line then strip (drop 2 line) else line) (splitlines content))"

definition path_matches :: "string \<Rightarrow> string \<Rightarrow> bool" where
  "path_matches entry_path event_file \<longleftrightarrow>
     (let entry_norm = dropWhile (\<lambda>c. c \<in> set ''./'') (casefold (replace_all [CHR 0x5C] ''/'' entry_path));
          event_norm = normal_file event_file
      in entry_norm \<noteq> [] \<and> ends_with entry_norm event_norm
         \<and> (length event_norm = length entry_norm \<or> event_norm ! (length event_norm - length entry_norm - 1) = CHR ''/''))"

definition event_tool_name :: "event \<Rightarrow> string" where
  "event_tool_name e = casefold (py_str (dget_default (ev_payload e) ''tool_name'' (JStr [])))"

definition event_command :: "event \<Rightarrow> string" where
  "event_command e = (case jget (ev_payload e) ''tool_input'' of JObj d \<Rightarrow> py_str (dget_default d ''command'' (JStr [])) | _ \<Rightarrow> [])"

section \<open>Detection\<close>

record completion =
  cd_entry :: string
  cd_anchor :: "string option"
  cd_evidence :: string
  cd_kind :: string
  cd_detail :: string

text \<open>The admission of a task: position and identity of its first source event, and the record.\<close>

definition task_anchor :: "store \<Rightarrow> memory_record \<Rightarrow> int \<times> string option \<times> string" where
  "task_anchor s r =
     (case me_sources r of
        [] \<Rightarrow> (0, None, me_id r)
      | i # _ \<Rightarrow> (case find_event s i of None \<Rightarrow> (0, None, me_id r) | Some e \<Rightarrow> (ev_seq e, Some (ev_id e), me_id r)))"

definition live_tasks :: memory_query where
  "live_tasks = all_memories\<lparr>mq_types := [''task''], mq_superseded := False\<rparr>"

definition task_anchor_map :: "store \<Rightarrow> string \<Rightarrow> (string, int \<times> string option \<times> string) dict result" where
  "task_anchor_map s branch_id =
     bindr (list_memories s branch_id live_tasks) (\<lambda>records.
       Inr (fold (\<lambda>r d. dsetdefault (normalized (me_content r)) (task_anchor s r) d) records []))"

definition open_tasks :: "store \<Rightarrow> string \<Rightarrow> active_block option result" where
  "open_tasks s branch_id = bindr (get_active_blocks s branch_id) (\<lambda>blocks. Inr (dget blocks ''open_tasks''))"

text \<open>An entry with a provable admission: its text, the anchor's position and identity, the record.\<close>

type_synonym admitted = "string \<times> int \<times> string \<times> string"

definition admitted_entry :: "(string, int \<times> string option \<times> string) dict \<Rightarrow> string \<Rightarrow> admitted option" where
  "admitted_entry anchors entry =
     (if re_found DELETE_VERBS entry then None
      else case dget anchors (normalized entry) of
             Some (anchor_seq, Some anchor_id, memory_id) \<Rightarrow> Some (entry, anchor_seq, anchor_id, memory_id)
           | _ \<Rightarrow> None)"

definition entry_paths :: "string \<Rightarrow> string list" where
  "entry_paths entry = (if re_found CREATE_VERBS entry then map fst (re_findall PATH entry) else [])"

definition entry_commands :: "string \<Rightarrow> string list" where
  "entry_commands entry =
     filter (\<lambda>c. c \<noteq> []) (map (\<lambda>(m, g). strip (the (group 1 g))) (re_findall BACKTICK entry))"

text \<open>What one tool output shows of an entry: kind and detail.\<close>

definition evidence_of :: "string list \<Rightarrow> string list \<Rightarrow> event \<Rightarrow> (string \<times> string) option" where
  "evidence_of paths commands e =
     (if jget (ev_payload e) ''hook_event_name'' = JStr ''PostToolUseFailure'' then None
      else case (if event_tool_name e \<in> set WRITE_TOOLS
                 then List.find (\<lambda>p. \<exists>f \<in> set (ev_files e). path_matches p f) paths else None) of
             Some p \<Rightarrow> Some (''file'', p)
           | None \<Rightarrow>
               (if event_command e = [] then None
                else map_option (Pair ''command'') (List.find (\<lambda>c. command_matches c (event_command e)) commands)))"

fun first_evidence :: "string list \<Rightarrow> string list \<Rightarrow> int \<Rightarrow> event list \<Rightarrow> (event \<times> string \<times> string) option" where
  "first_evidence paths commands anchor_seq [] = None"
| "first_evidence paths commands anchor_seq (e # es) =
     (case (if ev_seq e \<le> anchor_seq then None else evidence_of paths commands e) of
        Some k \<Rightarrow> Some (e, k) | None \<Rightarrow> first_evidence paths commands anchor_seq es)"

definition detection_of :: "event list \<Rightarrow> admitted \<Rightarrow> (completion \<times> string) option" where
  "detection_of events a =
     (case a of (entry, anchor_seq, anchor_id, memory_id) \<Rightarrow>
        map_option (\<lambda>(e, kind, detail).
            (\<lparr>cd_entry = entry, cd_anchor = Some anchor_id, cd_evidence = ev_id e, cd_kind = kind, cd_detail = detail\<rparr>, memory_id))
          (first_evidence (entry_paths entry) (entry_commands entry) anchor_seq events))"

definition detect_completions :: "store \<Rightarrow> string \<Rightarrow> (completion \<times> string) list result" where
  "detect_completions s branch_id =
     bindr (open_tasks s branch_id) (\<lambda>block.
       case block of
         None \<Rightarrow> Inr []
       | Some b \<Rightarrow>
           if strip (bl_content b) = [] then Inr []
           else bindr (task_anchor_map s branch_id) (\<lambda>anchors.
             case List.map_filter (admitted_entry anchors) (entry_lines (bl_content b)) of
               [] \<Rightarrow> Inr []
             | c # cs \<Rightarrow>
                 bindr (completion_evidence_events s branch_id (Min (set (map (\<lambda>(_, n, _). n) (c # cs))))) (\<lambda>events.
                   Inr (List.map_filter (detection_of events) (c # cs)))))"

section \<open>Closing an entry\<close>

definition policy_flag :: "store \<Rightarrow> string \<Rightarrow> bool" where
  "policy_flag s flag = (case active_policy s of None \<Rightarrow> False | Some p \<Rightarrow> truthy (jget (po_policy p) flag))"

definition strength_of :: "string \<Rightarrow> string" where
  "strength_of kind = (if kind = ''file'' then ''strong'' else if kind = ''command'' then ''medium'' else ''weak'')"

definition auto_apply_allowed :: "store \<Rightarrow> string \<Rightarrow> bool" where
  "auto_apply_allowed s strength =
     (if strength = ''strong'' then True
      else if strength = ''medium'' then policy_flag s ''automatic_task_closure_enabled'' else False)"

definition internal_state :: "world \<Rightarrow> string \<Rightarrow> string \<Rightarrow> (string, json) dict \<Rightarrow> string \<Rightarrow> store \<Rightarrow> ((event list \<times> bool) \<times> store) result" where
  "internal_state w receipt content payload branch_id s =
     append_internal_events_once w receipt
       [\<lparr>bi_kind = ''state'', bi_role = None, bi_content = content, bi_payload = payload, bi_files = []\<rparr>] branch_id None s"

text \<open>The entry that a raw line of a block holds.\<close>

definition line_entry :: "string \<Rightarrow> string" where
  "line_entry raw = normalized (strip (removeprefix ''- '' (strip raw)))"

definition without_entry :: "string \<Rightarrow> string list \<Rightarrow> string list" where
  "without_entry entry lines = filter (\<lambda>raw. line_entry raw \<noteq> normalized entry) lines"

definition task_revision :: "memory_record \<Rightarrow> string \<Rightarrow> string \<Rightarrow> (string, json) dict \<Rightarrow> memory_draft" where
  "task_revision r source branch_id changes =
     \<lparr>md_type = ''task'', md_content = me_content r, md_sources = [source], md_summary = me_summary r, md_files = [],
      md_branch = branch_id, md_risk = \<lparr>fl_value = 0, fl_repr = ''0.0''\<rparr>, md_cost = \<lparr>fl_value = 1, fl_repr = ''1.0''\<rparr>,
      md_supersedes = Some (me_id r), md_metadata = dupdate (me_metadata r) changes, md_from = None, md_to = None,
      md_expression = None\<rparr>"

definition complete_task :: "world \<Rightarrow> completion \<Rightarrow> string option \<Rightarrow> string \<Rightarrow> string \<Rightarrow> string \<Rightarrow> store \<Rightarrow> store result" where
  "complete_task w d task_memory_id candidate_id detection_event branch_id s =
     (case task_memory_id of
        None \<Rightarrow> Inr s
      | Some i \<Rightarrow>
          bindr (get_memory s i) (\<lambda>r.
            if jget (me_metadata r) ''status'' = JStr ''completed'' then Inr s
            else bindr (derive_memory w (task_revision r detection_event branch_id
                   [(''status'', JStr ''completed''), (''completed_by'', JStr (cd_evidence d)), (''closure_candidate_id'', JStr candidate_id)]) s)
                 (\<lambda>(_, s'). Inr s')))"

definition apply_closure ::
  "world \<Rightarrow> completion \<Rightarrow> string option \<Rightarrow> string \<Rightarrow> string \<Rightarrow> string \<Rightarrow> string \<Rightarrow> string \<Rightarrow> string option \<Rightarrow> store \<Rightarrow> (bool \<times> store) result" where
  "apply_closure w d task_memory_id candidate_id detection_event branch_id rule_id actor settle_source s =
     bindr (open_tasks s branch_id) (\<lambda>block.
       case block of
         None \<Rightarrow> Inr (False, s)
       | Some b \<Rightarrow>
           let lines = splitlines (bl_content b); remaining = without_entry (cd_entry d) lines
           in if length remaining = length lines then Inr (False, s)
              else bindr (internal_state w (''task-closure-applied:'' @ candidate_id) (''task closure applied: '' @ cd_entry d)
                     [(''operation'', JStr ''task_closure_applied''), (''candidate_id'', JStr candidate_id), (''entry'', JStr (cd_entry d)),
                      (''evidence_event_id'', JStr (cd_evidence d)), (''enforcement_level'', JStr ''recorded_only'')] branch_id s)
                   (\<lambda>((applied, _), s1).
                   bindr (set_active_block w ''open_tasks'' (join [CHR 0x0A] remaining) branch_id None [detection_event, cd_evidence d] s1) (\<lambda>(_, s2).
                   bindr (complete_task w d task_memory_id candidate_id detection_event branch_id s2) (\<lambda>s3.
                   bindr (settle_candidate w candidate_id ''applied'' (if given settle_source then the settle_source else ev_id (hd applied)) actor rule_id s3)
                     (\<lambda>(_, s4). Inr (True, s4))))))"

section \<open>Undoing and contesting\<close>

definition item_status :: "settlement_item \<Rightarrow> string" where
  "item_status i = (if given (si_status i) then the (si_status i) else ''pending'')"

record undone =
  ud_candidate :: string
  ud_entry :: string
  ud_transition :: "string option"
  ud_already :: bool

definition reopen_task :: "world \<Rightarrow> string \<Rightarrow> string \<Rightarrow> string \<Rightarrow> store \<Rightarrow> store result" where
  "reopen_task w candidate_id revert_event branch_id s =
     bindr (list_memories s branch_id live_tasks) (\<lambda>records.
       case List.find (\<lambda>r. jget (me_metadata r) ''closure_candidate_id'' = JStr candidate_id
                         \<and> jget (me_metadata r) ''status'' = JStr ''completed'') records of
         None \<Rightarrow> Inr s
       | Some r \<Rightarrow> bindr (derive_memory w (task_revision r revert_event branch_id
                     [(''status'', JStr ''reopened''), (''reopened_by'', JStr revert_event)]) s) (\<lambda>(_, s'). Inr s'))"

definition restore_entry :: "world \<Rightarrow> string \<Rightarrow> string \<Rightarrow> string \<Rightarrow> store \<Rightarrow> store result" where
  "restore_entry w entry revert_event branch_id s =
     bindr (open_tasks s branch_id) (\<lambda>block.
       let lines = (case block of None \<Rightarrow> [] | Some b \<Rightarrow> splitlines (bl_content b))
       in if \<exists>l \<in> set lines. line_entry l = normalized entry then Inr s
          else bindr (set_active_block w ''open_tasks'' (join [CHR 0x0A] (lines @ [''- '' @ entry])) branch_id None [revert_event] s)
                 (\<lambda>(_, s'). Inr s'))"

definition undo_closure ::
  "world \<Rightarrow> string \<Rightarrow> string \<Rightarrow> string \<Rightarrow> (string, json) dict \<Rightarrow> string \<Rightarrow> string option \<Rightarrow> store \<Rightarrow> (undone \<times> store) result" where
  "undo_closure w candidate_id branch_id rule_id detail actor settle_source s =
     (case List.find (\<lambda>i. ca_id (si_candidate i) = candidate_id) (list_settlement_candidates s (Some ''task_closure'') None) of
        None \<Rightarrow> Inl (KeyError (''unknown settlement candidate: '' @ candidate_id))
      | Some item \<Rightarrow>
          let entry = ca_content (si_candidate item)
          in bindr (internal_state w (''task-closure-reverted:'' @ candidate_id) (''task closure reverted: '' @ entry)
                (dupdate [(''operation'', JStr ''task_closure_reverted''), (''candidate_id'', JStr candidate_id), (''entry'', JStr entry),
                  (''rule_id'', JStr rule_id), (''enforcement_level'', JStr ''recorded_only'')] detail) branch_id s) (\<lambda>((reverts, created), s1).
             bindr (settle_candidate w candidate_id ''reverted'' (if given settle_source then the settle_source else ev_id (hd reverts)) actor rule_id s1)
               (\<lambda>(transition, s2).
             bindr (restore_entry w entry (ev_id (hd reverts)) branch_id s2) (\<lambda>s3.
             bindr (reopen_task w candidate_id (ev_id (hd reverts)) branch_id s3) (\<lambda>s4.
               Inr (\<lparr>ud_candidate = candidate_id, ud_entry = entry, ud_transition = transition, ud_already = \<not> created\<rparr>, s4))))))"

text \<open>
  Operations that are several transactions: each call is committed on its own, and an
  exception leaves what was committed before it.
\<close>

definition committing :: "('a \<times> store) result \<Rightarrow> store \<Rightarrow> ('a \<Rightarrow> store \<Rightarrow> 'b result \<times> store) \<Rightarrow> 'b result \<times> store" where
  "committing r s k = (case r of Inl x \<Rightarrow> (Inl x, s) | Inr (v, s') \<Rightarrow> k v s')"

fun contest_items :: "world \<Rightarrow> string \<Rightarrow> settlement_item list \<Rightarrow> string list \<Rightarrow> store \<Rightarrow> string list result \<times> store" where
  "contest_items w source_event_id [] contested s = (Inr contested, s)"
| "contest_items w source_event_id (i # items) contested s =
     committing (settle_candidate w (ca_id (si_candidate i)) ''contested'' source_event_id ''system'' ''task_reasserted_by_marker'' s) s
       (\<lambda>transition s'. contest_items w source_event_id items
          (if transition \<noteq> None then contested @ [ca_id (si_candidate i)] else contested) s')"

definition contest_reasserted_entry :: "world \<Rightarrow> string \<Rightarrow> string \<Rightarrow> store \<Rightarrow> string list result \<times> store" where
  "contest_reasserted_entry w entry source_event_id s =
     contest_items w source_event_id
       (filter (\<lambda>i. item_status i = ''applied'' \<and> normalized (ca_content (si_candidate i)) = normalized entry)
          (list_settlement_candidates s (Some ''task_closure'') None)) [] s"

record pending_completion =
  pc_entry :: json
  pc_candidate :: "string option"
  pc_evidence :: json
  pc_detection :: string

definition live_entries :: "store \<Rightarrow> string \<Rightarrow> string list result" where
  "live_entries s branch_id =
     bindr (open_tasks s branch_id) (\<lambda>block.
       Inr (case block of None \<Rightarrow> [] | Some b \<Rightarrow> map normalized (entry_lines (bl_content b))))"

text \<open>Detections of databases without a candidate ledger, the first for each entry.\<close>

fun legacy_pending :: "string list \<Rightarrow> string list \<Rightarrow> event list \<Rightarrow> pending_completion list" where
  "legacy_pending live seen [] = []"
| "legacy_pending live seen (e # es) =
     (let entry = normalized (py_str (dget_default (ev_payload e) ''entry'' (JStr [])))
      in if entry \<in> set live \<and> entry \<notin> set seen
         then \<lparr>pc_entry = jget (ev_payload e) ''entry'', pc_candidate = None, pc_evidence = jget (ev_payload e) ''evidence_event_id'',
               pc_detection = ev_id e\<rparr> # legacy_pending live (entry # seen) es
         else legacy_pending live seen es)"

definition pending_completions :: "store \<Rightarrow> string \<Rightarrow> pending_completion list result" where
  "pending_completions s branch_id =
     bindr (live_entries s branch_id) (\<lambda>live.
       let pending = map (\<lambda>i. \<lparr>pc_entry = JStr (ca_content (si_candidate i)), pc_candidate = Some (ca_id (si_candidate i)),
                              pc_evidence = JStr (ca_quote (si_candidate i)), pc_detection = si_event i\<rparr>)
             (filter (\<lambda>i. normalized (ca_content (si_candidate i)) \<in> set live)
                (list_settlement_candidates s (Some ''task_closure'') (Some ''pending'')))
       in if live = [] then Inr [] else if pending \<noteq> [] then Inr pending
          else bindr (events_by_operation s ''task_completion_detected'' branch_id) (\<lambda>es. Inr (legacy_pending live [] es)))"

section \<open>Evidence that went away\<close>

text \<open>
  \<open>hy_probe file path\<close> looks for the evidence, first the file of the event, then the path of the
  entry under the project: \<open>None\<close> outside the project, otherwise whether it exists.
\<close>

record hygiene =
  hy_now :: int
  hy_days :: rat
  hy_fromiso :: "string \<Rightarrow> datetime option"
  hy_probe :: "string option \<Rightarrow> string \<Rightarrow> bool option"

text \<open>Older than the window; a naive time cannot be subtracted from an aware one.\<close>

definition aged :: "hygiene \<Rightarrow> string \<Rightarrow> bool option result" where
  "aged h t =
     (case hy_fromiso h t of
        None \<Rightarrow> Inr None
      | Some d \<Rightarrow>
          if dt_off d = None then Inl (TypeError ''can't subtract offset-naive and offset-aware datetimes'')
          else Inr (Some (of_int (hy_now h - instant_of d) > hy_days h * 86400 * 1000000)))"

text \<open>Whether the evidence of an applied closure is gone, with the path it named.\<close>

definition evidence_gone :: "hygiene \<Rightarrow> store \<Rightarrow> settlement_item \<Rightarrow> string option result" where
  "evidence_gone h s i =
     (if \<not> ends_with '':strong'' (ca_zone (si_candidate i)) then Inr None
      else bindr (aged h (if given (si_status_at i) then the (si_status_at i) else ca_created (si_candidate i))) (\<lambda>old.
        if old \<noteq> Some False then Inr None
        else case find_event s (si_event i) of
               None \<Rightarrow> Inr None
             | Some detection \<Rightarrow>
                 let path = py_str (dget_default (ev_payload detection) ''evidence_detail'' (JStr []));
                     evidence = find_event s (py_str (dget_default (ev_payload detection) ''evidence_event_id'' (JStr [])));
                     probe = (case evidence of None \<Rightarrow> None | Some e \<Rightarrow> List.find (path_matches path) (ev_files e))
                 in if path = [] then Inr None
                    else Inr (if hy_probe h probe path = Some False then Some path else None)))"

fun invalidate_items ::
  "world \<Rightarrow> hygiene \<Rightarrow> string \<Rightarrow> settlement_item list \<Rightarrow> (undone \<times> string) list \<Rightarrow> store \<Rightarrow> (undone \<times> string) list result \<times> store" where
  "invalidate_items w h branch_id [] reverted s = (Inr reverted, s)"
| "invalidate_items w h branch_id (i # items) reverted s =
     (case evidence_gone h s i of
        Inl x \<Rightarrow> (Inl x, s)
      | Inr None \<Rightarrow> invalidate_items w h branch_id items reverted s
      | Inr (Some path) \<Rightarrow>
          committing (undo_closure w (ca_id (si_candidate i)) branch_id ''closure_evidence_invalidated'' [(''path'', JStr path)] ''system'' None s) s
            (\<lambda>u s'. invalidate_items w h branch_id items (reverted @ [(u, path)]) s'))"

definition invalidated_closures :: "world \<Rightarrow> hygiene \<Rightarrow> string \<Rightarrow> store \<Rightarrow> (undone \<times> string) list result \<times> store" where
  "invalidated_closures w h branch_id s =
     invalidate_items w h branch_id (list_settlement_candidates s (Some ''task_closure'') (Some ''applied'')) [] s"

section \<open>Reconciling\<close>

record reconciled =
  rc_detected :: nat
  rc_closed :: nat
  rc_pending :: nat
  rc_auto :: "(string \<times> string \<times> string) list"
  rc_invalidated :: "(undone \<times> string) list"

definition detection_payload :: "completion \<Rightarrow> string \<Rightarrow> (string, json) dict" where
  "detection_payload d task_memory_id =
     [(''operation'', JStr ''task_completion_detected''), (''entry'', JStr (cd_entry d)), (''anchor_event_id'', opt_str (cd_anchor d)),
      (''evidence_event_id'', JStr (cd_evidence d)), (''evidence_kind'', JStr (cd_kind d)), (''evidence_detail'', JStr (cd_detail d)),
      (''task_memory_id'', JStr task_memory_id)]"

definition completion_receipt :: "world \<Rightarrow> string \<Rightarrow> completion \<Rightarrow> string" where
  "completion_receipt w branch_id d =
     ''task-completion:'' @ branch_id @ '':'' @ take 16 (hash_text w (normalized (cd_entry d))) @ '':'' @ cd_evidence d"

definition reconcile_one :: "world \<Rightarrow> string \<Rightarrow> completion \<Rightarrow> string \<Rightarrow> reconciled \<Rightarrow> store \<Rightarrow> reconciled result \<times> store" where
  "reconcile_one w branch_id d task_memory_id sm s =
     committing (internal_state w (completion_receipt w branch_id d) (''task completion detected: '' @ cd_entry d)
         (detection_payload d task_memory_id) branch_id s) s (\<lambda>(events, _) s1.
     let detection = ev_id (hd events); strength = strength_of (cd_kind d); sm1 = sm\<lparr>rc_detected := rc_detected sm + 1\<rparr>;
         waiting = sm1\<lparr>rc_pending := rc_pending sm + 1\<rparr>
     in committing (create_settlement_candidate w ''task_closure'' (cd_entry d) detection (Some (cd_evidence d)) ''task'' strength ''reconciler'' s1) s1
          (\<lambda>(candidate_id, _, status) s2.
            if status \<noteq> ''pending'' then (Inr sm1, s2)
            else if \<not> auto_apply_allowed s2 strength then (Inr waiting, s2)
            else committing (apply_closure w d (Some task_memory_id) candidate_id detection branch_id
                     (''auto_closure_'' @ strength @ ''_evidence'') ''system'' None s2) s2
                   (\<lambda>closed s3. (Inr (if closed
                      then sm1\<lparr>rc_closed := rc_closed sm + 1, rc_auto := rc_auto sm @ [(cd_entry d, candidate_id, cd_evidence d)]\<rparr>
                      else waiting), s3))))"

fun reconcile_all :: "world \<Rightarrow> string \<Rightarrow> (completion \<times> string) list \<Rightarrow> reconciled \<Rightarrow> store \<Rightarrow> reconciled result \<times> store" where
  "reconcile_all w branch_id [] sm s = (Inr sm, s)"
| "reconcile_all w branch_id ((d, m) # ds) sm s =
     (case reconcile_one w branch_id d m sm s of
        (Inl x, s') \<Rightarrow> (Inl x, s') | (Inr sm', s') \<Rightarrow> reconcile_all w branch_id ds sm' s')"

definition reconcile :: "world \<Rightarrow> hygiene \<Rightarrow> string \<Rightarrow> store \<Rightarrow> reconciled result \<times> store" where
  "reconcile w h branch_id s =
     (case invalidated_closures w h branch_id s of
        (Inl x, s1) \<Rightarrow> (Inl x, s1)
      | (Inr invalidated, s1) \<Rightarrow>
          (case detect_completions s1 branch_id of
             Inl x \<Rightarrow> (Inl x, s1)
           | Inr ds \<Rightarrow> reconcile_all w branch_id ds
               \<lparr>rc_detected = 0, rc_closed = 0, rc_pending = 0, rc_auto = [], rc_invalidated = invalidated\<rparr> s1))"

section \<open>Findings\<close>

definition PATH_EXTENSIONS :: "string list" where
  "PATH_EXTENSIONS = [''py'', ''md'', ''js'', ''ts'', ''tsx'', ''jsx'', ''json'', ''yaml'', ''yml'', ''toml'', ''txt'', ''rs'', ''go'', ''java'',
     ''cs'', ''cpp'', ''c'', ''h'', ''sql'', ''sh'', ''ps1'', ''html'', ''css'', ''ini'', ''cfg'', ''csv'']"

text \<open>\<open>token.rsplit('.', 1)[-1]\<close>\<close>

definition extension :: "string \<Rightarrow> string" where
  "extension t = rev (takeWhile (\<lambda>c. c \<noteq> CHR ''.'') (rev t))"

definition hygiene_paths :: "string \<Rightarrow> string list" where
  "hygiene_paths entry = filter (\<lambda>t. casefold (extension t) \<in> set PATH_EXTENSIONS) (map fst (re_findall PATH entry))"

datatype hygiene_finding =
    EvidenceInvalidated string string
  | MissingFile string string
  | TaskTooOld string string
  | QuestionAsDecision string

definition reverted_findings :: "hygiene \<Rightarrow> event \<Rightarrow> hygiene_finding list result" where
  "reverted_findings h e =
     (if jget (ev_payload e) ''rule_id'' \<noteq> JStr ''closure_evidence_invalidated'' then Inr []
      else bindr (aged h (ev_created e)) (\<lambda>old. Inr (if old \<noteq> Some False then []
        else [EvidenceInvalidated (py_str (dget_default (ev_payload e) ''entry'' (JStr []))) (py_str (dget_default (ev_payload e) ''path'' (JStr [])))])))"

definition missing_findings :: "hygiene \<Rightarrow> string \<Rightarrow> hygiene_finding list" where
  "missing_findings h entry =
     (if \<not> re_found DELETE_VERBS entry \<and> re_found CREATE_VERBS entry then []
      else map (MissingFile entry) (filter (\<lambda>path. hy_probe h None path = Some False) (hygiene_paths entry)))"

definition age_findings :: "hygiene \<Rightarrow> store \<Rightarrow> (string, int \<times> string option \<times> string) dict \<Rightarrow> string \<Rightarrow> hygiene_finding list result" where
  "age_findings h s anchors entry =
     (case dget anchors (normalized entry) of
        Some (_, Some anchor_id, _) \<Rightarrow>
          (case find_event s anchor_id of
             None \<Rightarrow> Inr []
           | Some e \<Rightarrow> bindr (aged h (ev_created e)) (\<lambda>old. Inr (if old = Some True then [TaskTooOld entry anchor_id] else [])))
      | _ \<Rightarrow> Inr [])"

definition hygiene_findings :: "hygiene \<Rightarrow> string \<Rightarrow> store \<Rightarrow> hygiene_finding list result" where
  "hygiene_findings h branch_id s =
     bindr (get_active_blocks s branch_id) (\<lambda>blocks.
     bindr (events_by_operation s ''task_closure_reverted'' branch_id) (\<lambda>es.
     bindr (mapr (reverted_findings h) es) (\<lambda>reverted.
     bindr (case dget blocks ''open_tasks'' of
              None \<Rightarrow> Inr []
            | Some b \<Rightarrow>
                bindr (task_anchor_map s branch_id) (\<lambda>anchors.
                mapr (\<lambda>entry. bindr (age_findings h s anchors entry) (\<lambda>old. Inr (missing_findings h entry @ old)))
                  (entry_lines (bl_content b)))) (\<lambda>tasks.
       Inr (concat reverted @ concat tasks @
         (case dget blocks ''decisions'' of
            None \<Rightarrow> []
          | Some b \<Rightarrow> map QuestionAsDecision (filter (\<lambda>entry. ends_with ''?'' (rstrip entry)) (entry_lines (bl_content b)))))))))"

end
