(* ===== verification/SettlementSurface.thy ===== *)
theory SettlementSurface
  imports Reconciler
begin

text \<open>
  The manual verbs over the candidate ledger (\<open>settlement.py\<close>): the request event that a
  settlement cites, and what the transitions of a task closure and of a block change write.
\<close>

definition MANUAL_TRANSITIONS :: "string list" where
  "MANUAL_TRANSITIONS = [''applied'', ''contested'', ''reverted'']"

definition REQUESTORS :: "string list" where
  "REQUESTORS = [''operator'', ''agent'']"

definition KINDS_WITH_SEMANTICS :: "string list" where
  "KINDS_WITH_SEMANTICS = [''task_closure'', ''block_change'']"

definition REPLACE_BLOCKS :: "string list" where
  "REPLACE_BLOCKS = [''goal'', ''instructions'']"

definition agent_delegation_enabled :: "store \<Rightarrow> bool" where
  "agent_delegation_enabled s = policy_flag s ''agent_settlement_delegation_enabled''"

text \<open>\<open>EvidenceConsolidator._merge_block\<close>.\<close>

definition merge_block :: "string \<Rightarrow> string \<Rightarrow> bool \<Rightarrow> string" where
  "merge_block current content replaces =
     (if replaces then content
      else let existing = map (\<lambda>line. strip (removeprefix ''- '' (strip line))) (splitlines current)
           in if casefold content \<in> casefold ` set (filter (\<lambda>l. l \<noteq> []) existing) then current
              else join [CHR 0x0A] (filter (\<lambda>t. t \<noteq> []) [rstrip current, ''- '' @ content]))"

section \<open>Applying from the ledger\<close>

definition or_text :: "json \<Rightarrow> string \<Rightarrow> string" where
  "or_text v absent = (if truthy v then py_str v else absent)"

definition closure_of_event :: "event \<Rightarrow> candidate \<Rightarrow> completion result" where
  "closure_of_event e c =
     (let p = ev_payload e
      in bindr (an_optional (jget p ''anchor_event_id'')) (\<lambda>anchor.
           Inr \<lparr>cd_entry = or_text (jget p ''entry'') (ca_content c), cd_anchor = anchor,
                cd_evidence = or_text (jget p ''evidence_event_id'') (ca_quote c),
                cd_kind = py_str (dget_default p ''evidence_kind'' (JStr [])), cd_detail = py_str (dget_default p ''evidence_detail'' (JStr []))\<rparr>))"

definition apply_closure_candidate ::
  "world \<Rightarrow> candidate \<Rightarrow> string \<Rightarrow> string \<Rightarrow> string \<Rightarrow> string \<Rightarrow> string \<Rightarrow> store \<Rightarrow> (bool \<times> store) result" where
  "apply_closure_candidate w c event_id branch_id actor rule_id settle_source s =
     bindr (get_event s event_id) (\<lambda>e.
     bindr (closure_of_event e c) (\<lambda>d.
     bindr (an_optional (jget (ev_payload e) ''task_memory_id'')) (\<lambda>m.
       apply_closure w d m (ca_id c) (ev_id e) branch_id rule_id actor (Some settle_source) s)))"

record settled =
  st_entry :: "string option"
  st_transition :: "string option"
  st_block :: "string option"

definition settle_task_closure ::
  "world \<Rightarrow> candidate \<Rightarrow> string \<Rightarrow> string \<Rightarrow> string \<Rightarrow> string \<Rightarrow> string \<Rightarrow> string \<Rightarrow> string \<Rightarrow> store \<Rightarrow> (settled \<times> store) result" where
  "settle_task_closure w c event_id transition request_event actor rule_id reason branch_id s =
     (if transition = ''applied''
      then bindr (apply_closure_candidate w c event_id branch_id actor rule_id request_event s) (\<lambda>(applied, s').
             if applied then Inr (\<lparr>st_entry = Some (ca_content c), st_transition = None, st_block = None\<rparr>, s')
             else Inl (ValueError ''closure cannot apply: the entry is no longer present in open_tasks''))
      else if transition = ''reverted''
      then bindr (undo_closure w (ca_id c) branch_id rule_id [(''reason'', JStr reason)] actor (Some request_event) s) (\<lambda>(u, s').
             Inr (\<lparr>st_entry = Some (ud_entry u), st_transition = ud_transition u, st_block = None\<rparr>, s'))
      else bindr (settle_candidate w (ca_id c) ''contested'' request_event actor rule_id s) (\<lambda>(t, s').
             Inr (\<lparr>st_entry = None, st_transition = t, st_block = None\<rparr>, s')))"

definition apply_block_change ::
  "world \<Rightarrow> candidate \<Rightarrow> string \<Rightarrow> string \<Rightarrow> string \<Rightarrow> string \<Rightarrow> string \<Rightarrow> string \<Rightarrow> store \<Rightarrow> store result" where
  "apply_block_change w c source block proposed current merged branch_id s =
     bindr (internal_state w (''block-change-applied:'' @ ca_id c) (''block change applied: '' @ block)
         [(''operation'', JStr ''block_change_applied''), (''candidate_id'', JStr (ca_id c)), (''block'', JStr block), (''content'', JStr proposed),
          (''previous_content'', JStr current), (''enforcement_level'', JStr ''recorded_only'')] branch_id s) (\<lambda>((applied, _), s1).
       if merged = current then Inr s1
       else bindr (set_active_block w block merged branch_id None [source, ev_id (hd applied)] s1) (\<lambda>(_, s2). Inr s2))"

definition block_without :: "string \<Rightarrow> string \<Rightarrow> string" where
  "block_without proposed current = join [CHR 0x0A] (without_entry proposed (splitlines current))"

definition revert_block_change ::
  "world \<Rightarrow> candidate \<Rightarrow> string \<Rightarrow> string \<Rightarrow> string \<Rightarrow> string \<Rightarrow> store \<Rightarrow> store result" where
  "revert_block_change w c block proposed current branch_id s =
     bindr (events_by_operation s ''block_change_applied'' branch_id) (\<lambda>es.
     let records = filter (\<lambda>e. jget (ev_payload e) ''candidate_id'' = JStr (ca_id c)) es
     in if records = [] then Inl (ValueError ''no applied block change to revert for this candidate'')
        else bindr (internal_state w (''block-change-reverted:'' @ ca_id c) (''block change reverted: '' @ block)
            [(''operation'', JStr ''block_change_reverted''), (''candidate_id'', JStr (ca_id c)), (''block'', JStr block),
             (''enforcement_level'', JStr ''recorded_only'')] branch_id s) (\<lambda>((reverts, _), s1).
          let restored = (if block \<in> set REPLACE_BLOCKS then py_str (dget_default (ev_payload (last records)) ''previous_content'' (JStr []))
                          else block_without proposed current)
          in if restored = current then Inr s1
             else bindr (set_active_block w block restored branch_id None [ev_id (hd reverts)] s1) (\<lambda>(_, s2). Inr s2)))"

definition settle_block_change ::
  "world \<Rightarrow> candidate \<Rightarrow> string \<Rightarrow> string \<Rightarrow> string \<Rightarrow> string \<Rightarrow> string \<Rightarrow> string \<Rightarrow> store \<Rightarrow> (settled \<times> store) result" where
  "settle_block_change w c event_id transition request_event actor rule_id branch_id s =
     (if transition = ''contested''
      then bindr (settle_candidate w (ca_id c) ''contested'' request_event actor rule_id s) (\<lambda>(t, s').
             Inr (\<lparr>st_entry = None, st_transition = t, st_block = None\<rparr>, s'))
      else bindr (get_event s event_id) (\<lambda>source.
           let block = or_text (jget (ev_payload source) ''block'') (ca_type c);
               proposed = or_text (jget (ev_payload source) ''content'') (ca_content c)
           in bindr (get_active_blocks s branch_id) (\<lambda>blocks.
              let current = (case dget blocks block of None \<Rightarrow> [] | Some b \<Rightarrow> bl_content b)
              in bindr (if transition = ''applied''
                        then apply_block_change w c (ev_id source) block proposed current
                               (merge_block current proposed (block \<in> set REPLACE_BLOCKS)) branch_id s
                        else revert_block_change w c block proposed current branch_id s) (\<lambda>s1.
                 bindr (settle_candidate w (ca_id c) transition request_event actor rule_id s1) (\<lambda>(t, s2).
                   Inr (\<lparr>st_entry = None, st_transition = t, st_block = Some block\<rparr>, s2))))))"

section \<open>Settling\<close>

record settlement =
  sm_kind :: string
  sm_already :: bool
  sm_request :: "string option"
  sm_result :: "settled option"

definition request_payload :: "candidate \<Rightarrow> string \<Rightarrow> string \<Rightarrow> string \<Rightarrow> (string, json) dict" where
  "request_payload c transition reason requested_by =
     [(''operation'', JStr SETTLEMENT_REQUEST_OPERATION), (''candidate_id'', JStr (ca_id c)), (''candidate_kind'', JStr (ca_kind c)),
      (''transition'', JStr transition), (''reason'', JStr reason), (''requested_by'', JStr requested_by), (''enforcement_level'', JStr ''recorded_only'')]"

definition settle :: "world \<Rightarrow> string \<Rightarrow> string \<Rightarrow> string \<Rightarrow> string \<Rightarrow> string \<Rightarrow> store \<Rightarrow> (settlement \<times> store) result" where
  "settle w candidate_id transition reason0 requested_by branch_id s =
     (if transition \<notin> set MANUAL_TRANSITIONS then Inl (ValueError (''unsupported manual transition: '' @ transition))
      else if requested_by \<notin> set REQUESTORS then Inl (ValueError ''requested_by must be operator or agent'')
      else let reason = strip reason0 in
        if reason = [] then Inl (ValueError ''manual settlement requires a non-empty reason'')
        else bindr (get_settlement_candidate s candidate_id) (\<lambda>(c, event_id, status, _).
          let current = (if status = [] then ''pending'' else status)
          in if ca_kind c \<notin> set KINDS_WITH_SEMANTICS then Inl (ValueError (''no manual settlement semantics for kind: '' @ ca_kind c))
             else if current = transition
             then Inr (\<lparr>sm_kind = ca_kind c, sm_already = True, sm_request = None, sm_result = None\<rparr>, s)
             else if \<not> flow_allows SETTLEMENT_FLOW current transition
             then Inl (ValueError (''conflicting settlement: '' @ current @ '' -> '' @ transition @ '' is not allowed''))
             else if requested_by = ''agent'' \<and> \<not> agent_delegation_enabled s
             then Inl (PermissionError ''agent settlement requires explicit policy delegation (agent_settlement_delegation_enabled); ask the user to run `joiny-mnemonic candidates settle` instead'')
             else bindr (internal_state w (''settlement-request:'' @ candidate_id @ '':'' @ transition @ '':'' @ requested_by)
                    (''settlement '' @ transition @ '' requested by '' @ requested_by @ '': '' @ candidate_id)
                    (request_payload c transition reason requested_by) branch_id s) (\<lambda>((requests, _), s1).
               let request = ev_id (hd requests); rule_id = ''manual_settle_'' @ requested_by
               in bindr (if ca_kind c = ''task_closure''
                         then settle_task_closure w c event_id transition request requested_by rule_id reason branch_id s1
                         else settle_block_change w c event_id transition request requested_by rule_id branch_id s1) (\<lambda>(r, s2).
                    Inr (\<lparr>sm_kind = ca_kind c, sm_already = False, sm_request = Some request, sm_result = Some r\<rparr>, s2)))))"

end
