(* ===== verification/ReconcilerFacts.thy ===== *)
theory ReconcilerFacts
  imports SettlementSurface AuthorityProps
begin

text \<open>
  What maintenance of a block may touch: the passes of the reconciler, the closure of a task and
  its undoing, as sequences of calls of the store that change at most one protected block.
\<close>

section \<open>What maintenance may touch\<close>

text \<open>
  Maintenance of a block is a sequence of calls of the store, and of all protected blocks it
  changes at most that block of that branch.
\<close>

definition maintains :: "world \<Rightarrow> string \<Rightarrow> string \<Rightarrow> store \<Rightarrow> store \<Rightarrow> bool" where
  "maintains w b k s s' \<longleftrightarrow> stepwise w s s' \<and> st_branches s' = st_branches s
     \<and> (\<forall>c \<in> branch_ids s. \<forall>n. (c, n) \<noteq> (b, k) \<longrightarrow> active_memory s' c n = active_memory s c n)"

lemma maintains_refl [simp]: "maintains w b k s s"
  by (simp add: maintains_def)

lemma maintains_trans: "maintains w b k s t \<Longrightarrow> maintains w b k t u \<Longrightarrow> maintains w b k s u"
  unfolding maintains_def by (auto intro: stepwise_trans simp: branch_ids_def)

lemma maintains_stepwise: "maintains w b k s s' \<Longrightarrow> stepwise w s s'"
  by (simp add: maintains_def)

lemma maintains_reachable: "maintains w b k s s' \<Longrightarrow> reachable w s \<Longrightarrow> reachable w s'"
  using stepwise_reachable maintains_stepwise by blast

lemma active_memory_cong:
  assumes "st_branches s' = st_branches s" "st_blocks s' = st_blocks s"
  shows "get_active_blocks s' b = get_active_blocks s b" "active_memory s' = active_memory s"
proof -
  show blocks: "get_active_blocks s' b = get_active_blocks s b" for b
    by (simp add: get_active_blocks_def lineage_cong[OF assms(1)] visible_blocks_def assms(2))
  show "active_memory s' = active_memory s" by (intro ext) (simp add: active_memory_def blocks)
qed

lemma maintains_kept:
  assumes "run_store w c s = Inr (u, s')" "st_branches s' = st_branches s" "st_blocks s' = st_blocks s"
  shows "maintains w b k s s'"
  unfolding maintains_def active_memory_cong(2)[OF assms(2,3)] using assms(2) stepwise_call[OF assms(1)] by simp

lemma maintains_event:
  assumes "internal_state w receipt content payload b' s = Inr ((es, fresh), s')"
  shows "maintains w b k s s'" "only_log s s'"
proof -
  let ?items = "[\<lparr>bi_kind = ''state'', bi_role = None, bi_content = content, bi_payload = payload, bi_files = []\<rparr>]"
  have run: "append_internal_events_once w receipt ?items b' None s = Inr ((es, fresh), s')"
    using assms by (simp add: internal_state_def)
  show only: "only_log s s'" using run only_log_once by (simp add: once_defs)
  show "maintains w b k s s'"
    by (rule maintains_kept[of w "LogCall (CallInternalOnce receipt ?items b' None)" s "()"])
      (use run only in \<open>simp_all add: only_log_def\<close>)
qed

lemma maintains_memory:
  assumes "derive_memory w d s = Inr (r, s')"
  shows "maintains w b k s s'" "st_moves s' = st_moves s" "active_memory s' = active_memory s"
proof -
  obtain u t e where s': "s' = s\<lparr>st_uuid := u, st_tick := t, st_events := st_events s @ [e], st_memories := st_memories s @ [r]\<rparr>"
    using derive_memory_frame[OF assms] .
  show "maintains w b k s s'"
    by (rule maintains_kept[of w "DeriveMemory d" s "()"]) (use assms in \<open>simp_all add: s'\<close>)
  show "st_moves s' = st_moves s" "active_memory s' = active_memory s"
    by (simp add: s', rule active_memory_cong) (simp_all add: s')
qed

text \<open>The row that a settlement writes.\<close>

definition settles :: "string \<Rightarrow> string \<Rightarrow> string \<Rightarrow> string \<Rightarrow> string \<Rightarrow> candidate_move \<Rightarrow> bool" where
  "settles cid target src actor rule m \<longleftrightarrow>
     mv_candidate m = cid \<and> mv_to m = target \<and> mv_event m = src \<and> mv_actor m = actor \<and> mv_rule m = rule"

lemma settle_row:
  assumes R: "reachable w s" and run: "settle_candidate w cid target src actor rule s = Inr (r, s')"
    and new: "candidate_status s cid \<noteq> Some target"
  shows "\<exists>m. st_moves s' = st_moves s @ [m] \<and> settles cid target src actor rule m"
  using run store_okD(4)[OF reachable_ok[OF R]]
proof (cases rule: settle_candidate_cases)
  case same
  then show ?thesis using new by simp
next
  case (moved f c t e m)
  then show ?thesis
    using find_event_Some[OF moved(3)] unfolding settles_def by (intro exI[of _ m]) (simp add: candidate_row_move_def)
qed

lemma maintains_settle:
  assumes R: "reachable w s" and run: "settle_candidate w cid target src actor rule s = Inr (r, s')"
  shows "maintains w b k s s'" "candidate_status s' cid = Some target" "st_blocks s' = st_blocks s"
proof -
  have step: "only_moves s s'" "candidate_status s' cid = Some target"
    using settle_candidate_step[OF store_okD(4)[OF reachable_ok[OF R]] run] by simp_all
  note f = only_moves_fields[OF step(1)]
  show "maintains w b k s s'"
    by (rule maintains_kept[of w "SettleCandidate cid target src actor rule" s "()"]) (use run f in simp_all)
  show "candidate_status s' cid = Some target" by (rule step(2))
  show "st_blocks s' = st_blocks s" by (rule f(4))
qed

lemma maintains_candidate:
  assumes R: "reachable w s" and run: "create_settlement_candidate w kind content src ev mt strength actor s = Inr (r, s')"
  shows "maintains w b k s s'"
proof -
  note f = only_candidates_fields[OF conjunct1[OF conjunct2[OF create_settlement_candidate_step[OF store_okD(4)[OF reachable_ok[OF R]] run]]]]
  show ?thesis
    by (rule maintains_kept[of w "CreateSettlement kind content src ev mt strength actor" s "()", OF _ f(1,4)])
      (cases r, use run in simp)
qed

lemma block_moves: "set_active_block w n content b ses srcs s = Inr (r, s') \<Longrightarrow> st_moves s' = st_moves s"
  by (erule set_active_block_cases) (auto dest!: append_event_in_tx_appended appendsE)

lemma maintains_block:
  assumes R: "reachable w s" and run: "set_active_block w k content b ses srcs s = Inr (r, s')"
  shows "maintains w b k s s'"
proof -
  note ok = reachable_ok[OF R]
  note upd = write_updates[OF ok run] and others = write_leaves_others[OF ok run] and blk = written_block[OF ok run]
  have "stepwise w s s'"
    by (rule stepwise_call[of w "SetBlock k content b ses srcs" s "()"]) (use run in simp)
  moreover have "active_memory s' c n = active_memory s c n"
    if "c \<in> branch_ids s" "(c, n) \<noteq> (b, k)" for c n
    using that upd(2) others[of c] by (cases "c = b") simp_all
  ultimately show ?thesis using blk(5) by (simp add: maintains_def)
qed

section \<open>Closing an entry\<close>

lemma complete_task_step:
  assumes "complete_task w d m cid det b' s = Inr s'"
  shows "maintains w b k s s'" "st_moves s' = st_moves s" "active_memory s' = active_memory s"
proof -
  have "s' = s \<or> (\<exists>x r. derive_memory w x s = Inr (r, s'))"
    using assms by (auto simp: complete_task_def split: option.splits if_splits)
  then show "maintains w b k s s'" "st_moves s' = st_moves s" "active_memory s' = active_memory s"
    using maintains_memory by auto
qed

lemma open_tasks_memory: "open_tasks s b = Inr (Some x) \<Longrightarrow> active_memory s b ''open_tasks'' = Some (bl_content x)"
  by (auto simp: open_tasks_def active_memory_def)

lemma apply_closure_cases:
  assumes R: "reachable w s" and run: "apply_closure w d m cid det b rule actor src s = Inr (shut, s')"
  obtains (absent) "\<not> shut" "s' = s"
  | (applied) c where shut "active_memory s b ''open_tasks'' = Some c"
      "length (without_entry (cd_entry d) (splitlines c)) < length (splitlines c)"
      "active_memory s' b = (active_memory s b)(''open_tasks'' \<mapsto>
         fst (redact_text (w_rules w) True (join [CHR 0x0A] (without_entry (cd_entry d) (splitlines c)))))"
      "maintains w b ''open_tasks'' s s'" "candidate_status s' cid = Some ''applied''"
      "candidate_status s cid \<noteq> Some ''applied'' \<Longrightarrow>
         \<exists>m. st_moves s' = st_moves s @ [m] \<and> settles cid ''applied'' (mv_event m) actor rule m
           \<and> (given src \<longrightarrow> mv_event m = the src)"
proof -
  show thesis
  proof (cases shut)
    case False
    have "s' = s" using run False by (auto simp: apply_closure_def Let_def split: option.splits if_splits)
    then show ?thesis using False absent by blast
  next
    case True
    obtain x es fresh s1 blk s2 s3 r t where h:
        "open_tasks s b = Inr (Some x)"
        "length (without_entry (cd_entry d) (splitlines (bl_content x))) \<noteq> length (splitlines (bl_content x))"
        "internal_state w (''task-closure-applied:'' @ cid) (''task closure applied: '' @ cd_entry d)
                     [(''operation'', JStr ''task_closure_applied''), (''candidate_id'', JStr cid), (''entry'', JStr (cd_entry d)),
                      (''evidence_event_id'', JStr (cd_evidence d)), (''enforcement_level'', JStr ''recorded_only'')] b s = Inr ((es, fresh), s1)"
        "set_active_block w ''open_tasks'' (join [CHR 0x0A] (without_entry (cd_entry d) (splitlines (bl_content x)))) b None
           [det, cd_evidence d] s1 = Inr (blk, s2)"
        "complete_task w d m cid det b s2 = Inr s3"
        "settle_candidate w cid ''applied'' t actor rule s3 = Inr (r, s')" "given src \<Longrightarrow> t = the src"
      using run True by (auto simp: apply_closure_def Let_def split: option.splits if_splits)
    note m1 = maintains_event(1)[OF h(3), of b "''open_tasks''"] and l1 = maintains_event(2)[OF h(3)]
    have R1: "reachable w s1" using maintains_reachable[OF m1 R] .
    have m2: "maintains w b ''open_tasks'' s1 s2" by (rule maintains_block[OF R1 h(4)])
    have R2: "reachable w s2" using maintains_reachable[OF m2 R1] .
    note c3 = complete_task_step[OF h(5)]
    have R3: "reachable w s3" by (rule maintains_reachable[OF c3(1)[of b "''open_tasks''"] R2])
    note st = maintains_settle[OF R3 h(6)]
    have mem: "active_memory s' = active_memory s2"
      unfolding c3(3)[symmetric] by (rule active_memory_cong(2)[OF _ st(3)]) (use st(1) in \<open>simp add: maintains_def\<close>)
    have mem1: "active_memory s1 = active_memory s"
      using l1 by (intro active_memory_cong) (simp_all add: only_log_def)
    show ?thesis
    proof (rule applied[OF True open_tasks_memory[OF h(1)]])
      show "length (without_entry (cd_entry d) (splitlines (bl_content x))) < length (splitlines (bl_content x))"
        by (rule le_neq_implies_less[OF _ h(2)]) (simp add: without_entry_def)
      show "active_memory s' b = (active_memory s b)(''open_tasks'' \<mapsto>
         fst (redact_text (w_rules w) True (join [CHR 0x0A] (without_entry (cd_entry d) (splitlines (bl_content x))))))"
        using write_updates(2)[OF reachable_ok[OF R1] h(4)] by (simp add: mem mem1)
      show "maintains w b ''open_tasks'' s s'"
        by (rule maintains_trans[OF m1 maintains_trans[OF m2 maintains_trans[OF c3(1) st(1)]]])
      show "candidate_status s' cid = Some ''applied''" by (rule st(2))
      have moves: "st_moves s3 = st_moves s"
        using l1 block_moves[OF h(4)] c3(2) by (simp add: only_log_def)
      then have "candidate_status s3 cid = candidate_status s cid" by (rule candidate_status_cong)
      then show "\<exists>m. st_moves s' = st_moves s @ [m] \<and> settles cid ''applied'' (mv_event m) actor rule m
           \<and> (given src \<longrightarrow> mv_event m = the src)" if "candidate_status s cid \<noteq> Some ''applied''"
        using settle_row[OF R3 h(6)] h(7) that moves by (auto simp: settles_def)
    qed
  qed
qed

section \<open>Undoing a closure\<close>

text \<open>The text of the task block after an undo, from its text before.\<close>

definition with_entry :: "world \<Rightarrow> string \<Rightarrow> string option \<Rightarrow> string option" where
  "with_entry w entry block =
     (let lines = (case block of None \<Rightarrow> [] | Some c \<Rightarrow> splitlines c)
      in if \<exists>l \<in> set lines. line_entry l = normalized entry then block
         else Some (fst (redact_text (w_rules w) True (join [CHR 0x0A] (lines @ [''- '' @ entry])))))"

lemma restore_entry_step:
  assumes R: "reachable w s" and run: "restore_entry w entry ev b s = Inr s'"
  shows "maintains w b ''open_tasks'' s s'" "st_moves s' = st_moves s"
    "active_memory s' b ''open_tasks'' = with_entry w entry (active_memory s b ''open_tasks'')"
proof -
  obtain block where block: "open_tasks s b = Inr block" using run by (auto simp: restore_entry_def)
  then have mem: "active_memory s b ''open_tasks'' = map_option bl_content block"
    by (auto simp: open_tasks_def active_memory_def)
  let ?lines = "case block of None \<Rightarrow> [] | Some x \<Rightarrow> splitlines (bl_content x)"
  have lines: "(case active_memory s b ''open_tasks'' of None \<Rightarrow> [] | Some c \<Rightarrow> splitlines c) = ?lines"
    unfolding mem by (cases block) simp_all
  have "maintains w b ''open_tasks'' s s' \<and> st_moves s' = st_moves s
    \<and> active_memory s' b ''open_tasks'' = with_entry w entry (active_memory s b ''open_tasks'')"
  proof (cases "\<exists>l \<in> set ?lines. line_entry l = normalized entry")
    case True
    then have "s' = s" using run block by (simp add: restore_entry_def)
    then show ?thesis using True unfolding with_entry_def lines by simp
  next
    case False
    have "(if \<exists>l \<in> set ?lines. line_entry l = normalized entry then Inr s
        else bindr (set_active_block w ''open_tasks'' (join [CHR 0x0A] (?lines @ [''- '' @ entry])) b None [ev] s) (\<lambda>(_, s'). Inr s'))
        = Inr s'"
      using run unfolding restore_entry_def block bindr_Inr Let_def .
    then obtain blk where blk: "set_active_block w ''open_tasks'' (join [CHR 0x0A] (?lines @ [''- '' @ entry])) b None [ev] s = Inr (blk, s')"
      unfolding if_not_P[OF False] bindr_eq_Inr by (elim exE conjE) (simp only: split_beta sum.inject, metis prod.collapse)
    have "with_entry w entry (active_memory s b ''open_tasks'')
        = Some (fst (redact_text (w_rules w) True (join [CHR 0x0A] (?lines @ [''- '' @ entry]))))"
      unfolding with_entry_def lines Let_def if_not_P[OF False] by (rule refl)
    then show ?thesis
      using maintains_block[OF R blk] block_moves[OF blk] write_updates(2)[OF reachable_ok[OF R] blk] by simp
  qed
  then show "maintains w b ''open_tasks'' s s'" "st_moves s' = st_moves s"
    "active_memory s' b ''open_tasks'' = with_entry w entry (active_memory s b ''open_tasks'')"
    by simp_all
qed

lemma reopen_task_step:
  assumes "reopen_task w cid ev b s = Inr s'"
  shows "maintains w b k s s'" "st_moves s' = st_moves s" "active_memory s' = active_memory s"
proof -
  have "s' = s \<or> (\<exists>x r. derive_memory w x s = Inr (r, s'))"
    using assms by (auto simp: reopen_task_def split: option.splits)
  then show "maintains w b k s s'" "st_moves s' = st_moves s" "active_memory s' = active_memory s"
    using maintains_memory by auto
qed

lemma undo_closure_step:
  assumes R: "reachable w s" and run: "undo_closure w cid b rule detail actor src s = Inr (u, s')"
  shows "maintains w b ''open_tasks'' s s'" "candidate_status s' cid = Some ''reverted''" "ud_candidate u = cid"
    "active_memory s' b ''open_tasks'' = with_entry w (ud_entry u) (active_memory s b ''open_tasks'')"
    "\<exists>i \<in> set (list_settlement_candidates s (Some ''task_closure'') None).
       ca_id (si_candidate i) = cid \<and> ca_content (si_candidate i) = ud_entry u"
    "candidate_status s cid \<noteq> Some ''reverted'' \<Longrightarrow>
       \<exists>m. st_moves s' = st_moves s @ [m] \<and> settles cid ''reverted'' (mv_event m) actor rule m
         \<and> (given src \<longrightarrow> mv_event m = the src)"
proof -
  obtain i es fresh s1 t r s2 s3 payload where h:
      "List.find (\<lambda>i. ca_id (si_candidate i) = cid) (list_settlement_candidates s (Some ''task_closure'') None) = Some i"
      "internal_state w (''task-closure-reverted:'' @ cid) (''task closure reverted: '' @ ca_content (si_candidate i)) payload b s
         = Inr ((es, fresh), s1)"
      "settle_candidate w cid ''reverted'' t actor rule s1 = Inr (r, s2)" "given src \<Longrightarrow> t = the src"
      "restore_entry w (ca_content (si_candidate i)) (ev_id (hd es)) b s2 = Inr s3"
      "reopen_task w cid (ev_id (hd es)) b s3 = Inr s'"
      "u = \<lparr>ud_candidate = cid, ud_entry = ca_content (si_candidate i), ud_transition = r, ud_already = \<not> fresh\<rparr>"
    using run by (auto simp: undo_closure_def Let_def split: option.splits)
  note m1 = maintains_event(1)[OF h(2), of b "''open_tasks''"] and l1 = maintains_event(2)[OF h(2)]
  have R1: "reachable w s1" by (rule maintains_reachable[OF m1 R])
  note st = maintains_settle[OF R1 h(3)]
  have R2: "reachable w s2" by (rule maintains_reachable[OF st(1)[of b "''open_tasks''"] R1])
  note m3 = restore_entry_step[OF R2 h(5)]
  note m4 = reopen_task_step[OF h(6)]
  show "maintains w b ''open_tasks'' s s'"
    by (rule maintains_trans[OF m1 maintains_trans[OF st(1) maintains_trans[OF m3(1) m4(1)]]])
  have moves: "st_moves s' = st_moves s2" using m3(2) m4(2) by simp
  show "candidate_status s' cid = Some ''reverted''" using candidate_status_cong[OF moves] st(2) by simp
  show "ud_candidate u = cid" by (simp add: h(7))
  have "active_memory s1 = active_memory s"
    by (rule active_memory_cong) (use l1 in \<open>simp_all add: only_log_def\<close>)
  moreover have "active_memory s2 = active_memory s1"
    by (rule active_memory_cong(2)[OF _ st(3)]) (use st(1) in \<open>simp add: maintains_def\<close>)
  ultimately show "active_memory s' b ''open_tasks'' = with_entry w (ud_entry u) (active_memory s b ''open_tasks'')"
    using m3(3) m4(3) by (simp add: h(7))
  show "\<exists>i \<in> set (list_settlement_candidates s (Some ''task_closure'') None).
       ca_id (si_candidate i) = cid \<and> ca_content (si_candidate i) = ud_entry u"
    using h(1,7) by (auto simp: find_Some_iff intro!: bexI[of _ i])
  have moves1: "st_moves s1 = st_moves s" using l1 by (simp add: only_log_def)
  show "\<exists>m. st_moves s' = st_moves s @ [m] \<and> settles cid ''reverted'' (mv_event m) actor rule m
         \<and> (given src \<longrightarrow> mv_event m = the src)" if "candidate_status s cid \<noteq> Some ''reverted''"
    using settle_row[OF R1 h(3)] h(4) that moves moves1 candidate_status_cong[OF moves1] by (auto simp: settles_def)
qed

section \<open>A pass of the reconciler\<close>

lemma reconcile_one_step:
  assumes R: "reachable w s" and run: "reconcile_one w b d m sm s = (r, s')"
  shows "maintains w b ''open_tasks'' s s'"
proof -
  let ?k = "''open_tasks''"
  show ?thesis
  proof (cases "internal_state w (completion_receipt w b d) (''task completion detected: '' @ cd_entry d) (detection_payload d m) b s")
    case (Inl x)
    then show ?thesis using run by (simp add: reconcile_one_def committing_def)
  next
    case (Inr y)
    obtain es fresh s1 where y: "y = ((es, fresh), s1)" by (metis surj_pair)
    note m1 = maintains_event(1)[OF Inr[unfolded y], of b ?k]
    have R1: "reachable w s1" by (rule maintains_reachable[OF m1 R])
    show ?thesis
    proof (cases "create_settlement_candidate w ''task_closure'' (cd_entry d) (ev_id (hd es)) (Some (cd_evidence d)) ''task''
              (strength_of (cd_kind d)) ''reconciler'' s1")
      case Inl2: (Inl x)
      then show ?thesis using run Inr m1 by (simp add: reconcile_one_def committing_def y Let_def)
    next
      case Inr2: (Inr z)
      obtain cid new status s2 where z: "z = ((cid, new, status), s2)" by (metis surj_pair)
      have m2: "maintains w b ?k s s2"
        by (rule maintains_trans[OF m1 maintains_candidate[OF R1 Inr2[unfolded z]]])
      have R2: "reachable w s2" by (rule maintains_reachable[OF m2 R])
      consider "s' = s2" | shut where "apply_closure w d (Some m) cid (ev_id (hd es)) b (''auto_closure_'' @ strength_of (cd_kind d) @ ''_evidence'')
            ''system'' None s2 = Inr (shut, s')"
        using run Inr Inr2 by (auto simp: reconcile_one_def committing_def y z Let_def split: if_splits sum.splits)
      then show ?thesis
      proof cases
        case 1
        then show ?thesis using m2 by simp
      next
        case 2
        have "maintains w b ?k s2 s'" by (rule apply_closure_cases[OF R2 2]) simp_all
        then show ?thesis using m2 maintains_trans by blast
      qed
    qed
  qed
qed

lemma reconcile_all_step:
  assumes "reachable w s" "reconcile_all w b ds sm s = (r, s')"
  shows "maintains w b ''open_tasks'' s s'"
  using assms
proof (induction ds arbitrary: sm s)
  case (Cons x ds)
  obtain d m where x: "x = (d, m)" by fastforce
  obtain r1 s1 where one: "reconcile_one w b d m sm s = (r1, s1)" by fastforce
  note m1 = reconcile_one_step[OF Cons.prems(1) one]
  show ?case
  proof (cases r1)
    case (Inl e)
    then show ?thesis using Cons.prems(2) one m1 by (simp add: x)
  next
    case (Inr sm')
    then have "reconcile_all w b ds sm' s1 = (r, s')" using Cons.prems(2) one by (simp add: x)
    then show ?thesis
      using Cons.IH[OF maintains_reachable[OF m1 Cons.prems(1)]] m1 maintains_trans by blast
  qed
qed simp

lemma invalidate_items_step:
  assumes "reachable w s" "invalidate_items w h b is reverted s = (r, s')"
  shows "maintains w b ''open_tasks'' s s'"
  using assms
proof (induction "is" arbitrary: reverted s)
  case (Cons i "is")
  consider "s' = s" | reverted' where "invalidate_items w h b is reverted' s = (r, s')"
    | rule detail u s1 reverted' where "undo_closure w (ca_id (si_candidate i)) b rule detail ''system'' None s = Inr (u, s1)"
        "invalidate_items w h b is reverted' s1 = (r, s')"
    using Cons.prems(2) by (auto simp: committing_def split: sum.splits option.splits)
  then show ?case
  proof cases
    case 1
    then show ?thesis by simp
  next
    case 2
    then show ?thesis using Cons.IH[OF Cons.prems(1)] by blast
  next
    case 3
    note m1 = undo_closure_step(1)[OF Cons.prems(1) 3(1)]
    show ?thesis
      by (rule maintains_trans[OF m1 Cons.IH[OF maintains_reachable[OF m1 Cons.prems(1)] 3(2)]])
  qed
qed simp

lemma reconcile_step:
  assumes R: "reachable w s" and run: "reconcile w h b s = (r, s')"
  shows "maintains w b ''open_tasks'' s s'"
proof -
  obtain r1 s1 where inval: "invalidated_closures w h b s = (r1, s1)" by fastforce
  note m1 = invalidate_items_step[OF R inval[unfolded invalidated_closures_def]]
  consider "s' = s1" | ds sm where "reconcile_all w b ds sm s1 = (r, s')"
    using run inval by (auto simp: reconcile_def split: sum.splits)
  then show ?thesis
  proof cases
    case 1
    then show ?thesis using m1 by simp
  next
    case 2
    show ?thesis by (rule maintains_trans[OF m1 reconcile_all_step[OF maintains_reachable[OF m1 R] 2]])
  qed
qed

lemma contest_items_step:
  assumes "reachable w s" "contest_items w src is contested s = (r, s')"
  shows "maintains w b k s s' \<and> active_memory s' = active_memory s"
  using assms
proof (induction "is" arbitrary: contested s)
  case (Cons i "is")
  show ?case
  proof (cases "settle_candidate w (ca_id (si_candidate i)) ''contested'' src ''system'' ''task_reasserted_by_marker'' s")
    case (Inl e)
    then show ?thesis using Cons.prems(2) by (simp add: committing_def)
  next
    case (Inr y)
    obtain t s1 where y: "y = (t, s1)" by fastforce
    note st = maintains_settle[OF Cons.prems(1) Inr[unfolded y]]
    have mem: "active_memory s1 = active_memory s"
      by (rule active_memory_cong(2)[OF _ st(3)]) (use st(1) in \<open>simp add: maintains_def\<close>)
    obtain c' where "contest_items w src is c' s1 = (r, s')" using Cons.prems(2) Inr by (auto simp: committing_def y)
    then show ?thesis
      using Cons.IH[OF maintains_reachable[OF st(1)[of b k] Cons.prems(1)]] st(1) maintains_trans mem by metis
  qed
qed simp

end
