(* ===== verification/SettleFacts.thy ===== *)
theory SettleFacts
  imports ReconcilerFacts
begin

text \<open>
  The manual verbs of \<open>settlement.py\<close>, case by case: the request event, the row of the
  ledger, and the block that the transition changes.
\<close>

section \<open>The manual verbs\<close>

definition settled_once :: "world \<Rightarrow> string \<Rightarrow> string \<Rightarrow> string \<Rightarrow> string \<Rightarrow> string \<Rightarrow> string \<Rightarrow> store \<Rightarrow> store \<Rightarrow> bool" where
  "settled_once w b cid target src actor rule s s' \<longleftrightarrow>
     (\<exists>k. maintains w b k s s') \<and> candidate_status s' cid = Some target
     \<and> (candidate_status s cid \<noteq> Some target \<longrightarrow>
          (\<exists>m. st_moves s' = st_moves s @ [m] \<and> settles cid target (mv_event m) actor rule m \<and> (src \<noteq> [] \<longrightarrow> mv_event m = src)))"

lemma settled_once_ledger:
  assumes "reachable w s" "settle_candidate w cid target src actor rule s = Inr (r, s')"
  shows "settled_once w b cid target src actor rule s s'"
  using maintains_settle[OF assms] settle_row[OF assms] by (auto simp: settled_once_def settles_def)

text \<open>Preceded by a step that writes at most the block.\<close>

lemma settled_once_after:
  assumes R: "reachable w s" and m: "maintains w b k s t" and moves: "st_moves t = st_moves s"
    and run: "settle_candidate w cid target src actor rule t = Inr (r, s')"
  shows "settled_once w b cid target src actor rule s s'"
proof -
  have R': "reachable w t" by (rule maintains_reachable[OF m R])
  note st = maintains_settle[OF R' run]
  show ?thesis
    using maintains_trans[OF m st(1)] st(2) settle_row[OF R' run] moves candidate_status_cong[OF moves]
    by (auto simp: settled_once_def settles_def)
qed

lemma closure_settled_once:
  assumes R: "reachable w s"
    and run: "settle_task_closure w c ev target request actor rule reason b s = Inr (r, s')"
    and target: "target \<in> set MANUAL_TRANSITIONS"
  shows "settled_once w b (ca_id c) target request actor rule s s'"
proof -
  consider "target = ''applied''" | "target = ''reverted''" | "target = ''contested''"
    using target by (auto simp: MANUAL_TRANSITIONS_def)
  then show ?thesis
  proof cases
    case 1
    obtain d m e where "apply_closure w d m (ca_id c) e b rule actor (Some request) s = Inr (True, s')"
      using run by (auto simp: 1 settle_task_closure_def apply_closure_candidate_def split: if_splits)
    then show ?thesis
      by (rule apply_closure_cases[OF R]) (auto simp: 1 settled_once_def settles_def given_def)
  next
    case 2
    obtain u where "undo_closure w (ca_id c) b rule [(''reason'', JStr reason)] actor (Some request) s = Inr (u, s')"
      using run by (auto simp: 2 settle_task_closure_def split: if_splits)
    note u = undo_closure_step[OF R this]
    show ?thesis using u(1,2,6) by (auto simp: 2 settled_once_def settles_def given_def)
  next
    case 3
    obtain t where "settle_candidate w (ca_id c) ''contested'' request actor rule s = Inr (t, s')"
      using run by (auto simp: 3 settle_task_closure_def)
    then show ?thesis unfolding 3 by (rule settled_once_ledger[OF R])
  qed
qed

lemma block_change_step:
  assumes R: "reachable w s"
    and run: "internal_state w receipt content payload b s = Inr ((es, fresh), s1)"
      "s' = s1 \<or> (\<exists>new srcs blk. set_active_block w k new b None srcs s1 = Inr (blk, s'))"
  shows "maintains w b k s s' \<and> st_moves s' = st_moves s"
proof -
  note m1 = maintains_event(1)[OF run(1), of b k]
  have moves: "st_moves s1 = st_moves s" using maintains_event(2)[OF run(1)] by (simp add: only_log_def)
  show ?thesis
    using run(2)
  proof
    assume "s' = s1"
    then show ?thesis using m1 moves by simp
  next
    assume "\<exists>new srcs blk. set_active_block w k new b None srcs s1 = Inr (blk, s')"
    then obtain new srcs blk where blk: "set_active_block w k new b None srcs s1 = Inr (blk, s')" by blast
    show ?thesis
      using maintains_trans[OF m1 maintains_block[OF maintains_reachable[OF m1 R] blk]] block_moves[OF blk] moves by simp
  qed
qed

lemma apply_block_change_step:
  assumes "reachable w s" "apply_block_change w c src k proposed current merged b s = Inr s'"
  shows "maintains w b k s s' \<and> st_moves s' = st_moves s"
proof -
  obtain receipt content payload es fresh s1 where "internal_state w receipt content payload b s = Inr ((es, fresh), s1)"
      "s' = s1 \<or> (\<exists>new srcs blk. set_active_block w k new b None srcs s1 = Inr (blk, s'))"
    using assms(2) unfolding apply_block_change_def bindr_eq_Inr by (auto split: if_splits) blast+
  then show ?thesis by (rule block_change_step[OF assms(1)])
qed

lemma revert_block_change_step:
  assumes "reachable w s" "revert_block_change w c k proposed current b s = Inr s'"
  shows "maintains w b k s s' \<and> st_moves s' = st_moves s"
proof -
  obtain receipt content payload es fresh s1 where "internal_state w receipt content payload b s = Inr ((es, fresh), s1)"
      "s' = s1 \<or> (\<exists>new srcs blk. set_active_block w k new b None srcs s1 = Inr (blk, s'))"
    using assms(2) unfolding revert_block_change_def Let_def bindr_eq_Inr by (auto split: if_splits) blast+
  then show ?thesis by (rule block_change_step[OF assms(1)])
qed

lemma block_settled_once:
  assumes R: "reachable w s"
    and run: "settle_block_change w c ev target request actor rule b s = Inr (r, s')"
  shows "settled_once w b (ca_id c) target request actor rule s s'"
proof (cases "target = ''contested''")
  case True
  obtain t where "settle_candidate w (ca_id c) ''contested'' request actor rule s = Inr (t, s')"
    using run by (auto simp: True settle_block_change_def)
  then show ?thesis unfolding True by (rule settled_once_ledger[OF R])
next
  case False
  obtain src proposed current k merged s1 t where h:
      "(if target = ''applied'' then apply_block_change w c src k proposed current merged b s
        else revert_block_change w c k proposed current b s) = Inr s1"
      "settle_candidate w (ca_id c) target request actor rule s1 = Inr (t, s')"
    using run False by (auto simp: settle_block_change_def Let_def)
  have "maintains w b k s s1 \<and> st_moves s1 = st_moves s"
    using h(1) apply_block_change_step[OF R] revert_block_change_step[OF R] by (auto split: if_splits)
  then show ?thesis using settled_once_after[OF R _ _ h(2)] by blast
qed

lemma listed_status:
  assumes "get_settlement_candidate s cid = Inr (c, ev, status, ms)"
  shows "ca_id c = cid" "candidate_status s cid = Some status \<or> candidate_status s cid = None \<and> status = ''pending''"
proof -
  have "find_candidate s cid = Some c" and st: "status = (if filter (\<lambda>m. mv_candidate m = cid) (st_moves s) = [] then ''pending''
      else mv_to (last (filter (\<lambda>m. mv_candidate m = cid) (st_moves s))))"
    using assms by (auto simp: get_settlement_candidate_def Let_def split: option.splits if_splits)
  then show "ca_id c = cid" using find_candidate_Some by blast
  have "find_last P xs = (if filter P xs = [] then None else Some (last (filter P xs)))" for P :: "candidate_move \<Rightarrow> bool" and xs
    by (induction xs rule: rev_induct) auto
  then show "candidate_status s cid = Some status \<or> candidate_status s cid = None \<and> status = ''pending''"
    using st by (simp add: candidate_status_def last_move_def)
qed


lemma listed_settlement:
  assumes "get_settlement_candidate s cid = Inr (c, ev, status, ms)" "candidates_ok s"
  shows "candidate_status s cid = Some status" "status \<noteq> []"
proof -
  have c: "c \<in> set (st_candidates s)" "ca_id c = cid" "ca_kind c \<noteq> ''extraction''"
    using assms(1) find_candidate_Some by (auto simp: get_settlement_candidate_def Let_def split: option.splits if_splits)
  then obtain f where "candidate_status s cid = Some f" "f \<in> set settlement_states"
    using assms(2) unfolding candidates_ok_def by auto
  then show "candidate_status s cid = Some status" "status \<noteq> []"
    using listed_status(2)[OF assms(1)] by (auto simp: settlement_states_def SETTLEMENT_FLOW_def)
qed

lemma settle_cases:
  assumes "settle w cid target reason by_whom b s = Inr (r, s')"
  obtains (already) "sm_already r" "s' = s" "target \<in> set MANUAL_TRANSITIONS" "strip reason \<noteq> []" "candidate_status s cid = Some target"
  | (settled) c ev status ms es fresh s1 x where "\<not> sm_already r" "target \<in> set MANUAL_TRANSITIONS" "by_whom \<in> set REQUESTORS" "strip reason \<noteq> []"
      "get_settlement_candidate s cid = Inr (c, ev, status, ms)"
      "flow_allows SETTLEMENT_FLOW (if status = [] then ''pending'' else status) target"
      "(if status = [] then ''pending'' else status) \<noteq> target"
      "by_whom = ''agent'' \<Longrightarrow> agent_delegation_enabled s"
      "internal_state w (''settlement-request:'' @ cid @ '':'' @ target @ '':'' @ by_whom)
                    (''settlement '' @ target @ '' requested by '' @ by_whom @ '': '' @ cid)
                    (request_payload c target (strip reason) by_whom) b s = Inr ((es, fresh), s1)"
      "(if ca_kind c = ''task_closure''
        then settle_task_closure w c ev target (ev_id (hd es)) by_whom (''manual_settle_'' @ by_whom) (strip reason) b s1
        else settle_block_change w c ev target (ev_id (hd es)) by_whom (''manual_settle_'' @ by_whom) b s1) = Inr (x, s')"
      "sm_request r = Some (ev_id (hd es))"
proof -
  have guards: "target \<in> set MANUAL_TRANSITIONS" "by_whom \<in> set REQUESTORS" "strip reason \<noteq> []"
    using assms by (auto simp: settle_def Let_def split: if_splits)
  obtain c ev status ms where g: "get_settlement_candidate s cid = Inr (c, ev, status, ms)"
    using assms guards by (auto simp: settle_def Let_def)
  let ?cur = "if status = [] then ''pending'' else status"
  show thesis
  proof (cases "?cur = target")
    case True
    have "target \<noteq> ''pending''" using guards(1) by (auto simp: MANUAL_TRANSITIONS_def)
    then have "candidate_status s cid = Some target"
      using listed_status(2)[OF g] True by (auto split: if_splits)
    then show ?thesis
      using already guards assms g True by (auto simp: settle_def Let_def split: if_splits)
  next
    case False
    note rest = assms[unfolded settle_def Let_def g bindr_Inr prod.case if_not_P[OF False]]
    have flow: "flow_allows SETTLEMENT_FLOW ?cur target" "by_whom = ''agent'' \<Longrightarrow> agent_delegation_enabled s"
      using rest guards by (auto split: if_splits)
    obtain es fresh s1 where req: "internal_state w (''settlement-request:'' @ cid @ '':'' @ target @ '':'' @ by_whom)
                    (''settlement '' @ target @ '' requested by '' @ by_whom @ '': '' @ cid)
                    (request_payload c target (strip reason) by_whom) b s = Inr ((es, fresh), s1)"
      using rest guards flow by (auto split: if_splits)
    have "\<exists>x. (if ca_kind c = ''task_closure''
        then settle_task_closure w c ev target (ev_id (hd es)) by_whom (''manual_settle_'' @ by_whom) (strip reason) b s1
        else settle_block_change w c ev target (ev_id (hd es)) by_whom (''manual_settle_'' @ by_whom) b s1) = Inr (x, s')
      \<and> \<not> sm_already r \<and> sm_request r = Some (ev_id (hd es))"
      using rest guards flow req by (auto split: if_splits)
    then show ?thesis using settled[OF _ guards(1,2,3) g flow(1) False flow(2) req] by blast
  qed
qed


text \<open>The row that a settlement just wrote cites an event of an origin that may settle.\<close>

lemma settled_origin:
  assumes R: "reachable w s'" and moves: "st_moves s' = ms @ [m]" and m: "mv_to m \<in> {''confirmed'', ''rejected'', ''superseded'', ''applied'', ''reverted'', ''contested''}" "mv_from m \<noteq> None"
    and actor: "mv_actor m \<noteq> ''system''"
  shows "\<exists>e. find_event s' (mv_event m) = Some e
    \<and> origin_evidence_type e \<in> {HOST_LOGICAL_USER, LOCAL_OPERATOR, DELEGATED_AGENT, BOOTSTRAP_TOFU}"
proof -
  note ok = store_okD(4)[OF reachable_ok[OF R]]
  have "history_ok mv_candidate mv_from mv_to candidate_move_legal (st_moves s')"
    using ok by (simp add: candidates_ok_def)
  then obtain f where f: "candidate_move_legal m f" using history_row[of _ _ _ _ "st_moves s'" m] m(2) moves by force
  have "\<not> exempt_move m" using actor by (simp add: exempt_move_def)
  then have "mv_origin m \<in> settling_origins (mv_to m)" by (rule settling_origin[OF f _ m(1)])
  then have "mv_origin m \<in> {HOST_LOGICAL_USER, LOCAL_OPERATOR, DELEGATED_AGENT, BOOTSTRAP_TOFU}"
    by (auto simp: settling_origins_def split: if_splits)
  moreover have "cites_visible s' m" using ok moves m(2) by (simp add: candidates_ok_def)
  ultimately show ?thesis unfolding cites_visible_def by fastforce
qed

lemma settle_row_from:
  assumes R: "reachable w s'" and moves: "st_moves s' = ms @ [m]" and "candidate_status s cid \<noteq> None" "st_moves s = ms" "mv_candidate m = cid"
  shows "mv_from m \<noteq> None"
proof -
  note ok = store_okD(4)[OF reachable_ok[OF R]]
  have "history_ok mv_candidate mv_from mv_to candidate_move_legal (ms @ [m])"
    using ok moves by (simp add: candidates_ok_def)
  then show ?thesis
    by cases (use assms(3-5) in \<open>auto simp: candidate_status_def last_move_def find_last_None\<close>)
qed

end
