(* ===== verification/Consolidation.thy ===== *)
theory Consolidation
  imports SettlementSurface
begin

text \<open>
  Evidence-bound consolidation (\<open>consolidation.py\<close>): what a message may contribute, the memory
  records and protected blocks that its markers and structured candidates write, and the
  continuation summary of older groups.  \<open>float()\<close> is the argument \<open>to_float\<close>.  The projection
  of a new record after the commit and the full-width question mark, which no text of this
  model holds, are left out.
\<close>

section \<open>What an event may contribute\<close>

definition MARKER_WORDS :: "string list" where
  "MARKER_WORDS = [''goal'', ''constraint'', ''decision'', ''task'', ''todo'', ''fact'', ''preference'', ''failed'', ''failure'', ''lesson'']"

definition MARKER :: rx where
  "MARKER = rseqs [RBegin, RStar (RChar is_space), RGroup 1 (ralts (map rlit_i MARKER_WORDS)), RStar (RChar is_space), rlit '':'',
     RStar (RChar is_space),
     RGroup 2 (RSeq (RChar (\<lambda>c. c \<noteq> CHR 0x0A)) (RLazy (RChar (\<lambda>c. c \<noteq> CHR 0x0A)))), RStar (RChar is_space), REnd]"

definition MEMORY_TYPES :: "string list" where
  "MEMORY_TYPES = [''fact'', ''decision'', ''task'', ''preference'', ''failure'', ''lesson'', ''summary'', ''index'']"

definition BLOCKS :: "string list" where
  "BLOCKS = [''instructions'', ''goal'', ''constraints'', ''decisions'', ''open_tasks'']"

record consolidation_policy =
  cp_records :: bool
  cp_blocks :: bool

definition consolidation_policy_of :: "event \<Rightarrow> consolidation_policy" where
  "consolidation_policy_of e =
     (if ev_kind e \<noteq> ''message'' then \<lparr>cp_records = False, cp_blocks = False\<rparr>
      else if casefold (case ev_role e of None \<Rightarrow> [] | Some r \<Rightarrow> r) = ''user''
      then \<lparr>cp_records = True, cp_blocks = is_host_logical_user e\<rparr>
      else \<lparr>cp_records = False, cp_blocks = False\<rparr>)"

record memory_candidate =
  mc_type :: string
  mc_content :: string
  mc_summary :: string
  mc_block :: "string option"
  mc_risk :: pyfloat
  mc_cost :: pyfloat
  mc_files :: "string list"

definition MARKER_MAP :: "(string, string \<times> string option) dict" where
  "MARKER_MAP =
     [(''goal'', (''fact'', Some ''goal'')), (''constraint'', (''fact'', Some ''constraints'')),
      (''decision'', (''decision'', Some ''decisions'')), (''task'', (''task'', Some ''open_tasks'')),
      (''todo'', (''task'', Some ''open_tasks'')), (''fact'', (''fact'', None)), (''preference'', (''preference'', None)),
      (''failed'', (''failure'', None)), (''failure'', (''failure'', None)), (''lesson'', (''lesson'', None))]"

section \<open>Structured candidates\<close>

text \<open>Iterating over a JSON value.\<close>

definition iterated :: "json \<Rightarrow> json list result" where
  "iterated v =
     (case v of JArr xs \<Rightarrow> Inr xs | JStr t \<Rightarrow> Inr (map (\<lambda>c. JStr [c]) t) | JObj d \<Rightarrow> Inr (map JStr (dkeys d))
      | _ \<Rightarrow> Inl (TypeError ''object is not iterable''))"

definition structured_one :: "(json \<Rightarrow> pyfloat result) \<Rightarrow> event \<Rightarrow> json \<Rightarrow> memory_candidate list result" where
  "structured_one to_float e value =
     (case value of
        JObj d \<Rightarrow>
          let memory_type = casefold (py_str (dget_default d ''memory_type'' (dget_default d ''type'' (JStr []))));
              content = strip (py_str (dget_default d ''content'' (JStr [])));
              block = (case jget d ''block'' of JNull \<Rightarrow> None | v \<Rightarrow> Some (casefold (py_str v)))
          in if memory_type \<notin> set MEMORY_TYPES \<or> content = [] then Inr []
             else if block \<noteq> None \<and> the block \<notin> set BLOCKS then Inr []
             else bindr (to_float (dget_default d ''risk'' (JFloat ''0.0''))) (\<lambda>risk.
                  bindr (to_float (dget_default d ''retrieval_cost'' (JFloat ''1.0''))) (\<lambda>cost.
                  bindr (iterated (dget_default d ''files'' (JArr (map JStr (ev_files e))))) (\<lambda>files.
                    Inr [\<lparr>mc_type = memory_type, mc_content = content,
                          mc_summary = strip (py_str (dget_default d ''summary'' (JStr []))), mc_block = block,
                          mc_risk = risk, mc_cost = cost, mc_files = map py_str files\<rparr>])))
      | _ \<Rightarrow> Inr [])"

definition structured :: "(json \<Rightarrow> pyfloat result) \<Rightarrow> event \<Rightarrow> memory_candidate list result" where
  "structured to_float e =
     (let raw = dget_default (ev_payload e) ''memory_candidates'' (jget (ev_payload e) ''memory'')
      in if raw = JNull then Inr []
         else bindr (mapr (structured_one to_float e) (case raw of JArr xs \<Rightarrow> xs | v \<Rightarrow> [v])) (\<lambda>cs. Inr (concat cs)))"

section \<open>Markers\<close>

definition marker_candidate :: "event \<Rightarrow> string \<Rightarrow> memory_candidate option" where
  "marker_candidate e line =
     (case re_match MARKER line of
        None \<Rightarrow> None
      | Some p \<Rightarrow>
          let (memory_type, block) = the (dget MARKER_MAP (casefold (the (group 1 (groups_of p)))))
          in Some \<lparr>mc_type = memory_type, mc_content = the (group 2 (groups_of p)), mc_summary = [], mc_block = block,
                   mc_risk = \<lparr>fl_value = 0, fl_repr = ''0.0''\<rparr>, mc_cost = \<lparr>fl_value = 1, fl_repr = ''1.0''\<rparr>, mc_files = ev_files e\<rparr>)"

definition allowed_candidate :: "consolidation_policy \<Rightarrow> memory_candidate \<Rightarrow> memory_candidate" where
  "allowed_candidate p c = (if cp_blocks p then c else c\<lparr>mc_block := None\<rparr>)"

definition marker_key :: "memory_candidate \<Rightarrow> string \<times> string \<times> string option" where
  "marker_key c = (mc_type c, casefold (mc_content c), mc_block c)"

definition event_candidates :: "(json \<Rightarrow> pyfloat result) \<Rightarrow> event \<Rightarrow> memory_candidate list result" where
  "event_candidates to_float e =
     (let p = consolidation_policy_of e
      in if \<not> cp_records p then Inr []
         else bindr (structured to_float e) (\<lambda>cs.
           let found = map (allowed_candidate p) (cs @ List.map_filter (marker_candidate e) (splitlines (ev_content e)))
           in Inr (map snd (fold (\<lambda>c d. dset (marker_key c) c d) found []))))"

section \<open>Consolidating an event\<close>

text \<open>The names of the origins (\<open>provenance.py\<close>).\<close>

fun origin_value :: "origin \<Rightarrow> string" where
  "origin_value EXTERNAL_UNTRUSTED = ''external_untrusted''"
| "origin_value HOST_LOGICAL_USER = ''host_logical_user''"
| "origin_value HOST_ASSISTANT_FINALIZATION = ''host_assistant_finalization''"
| "origin_value LOCAL_OPERATOR = ''local_operator''"
| "origin_value DELEGATED_AGENT = ''delegated_agent''"
| "origin_value BOOTSTRAP_TOFU = ''bootstrap_tofu''"

text \<open>What was written so far; an exception leaves what was committed before it.\<close>

record consolidating =
  co_memories :: "string list"
  co_blocks :: "string list"
  co_skipped :: "string list"
  co_existing :: "memory_record list"

definition confirmed_marker :: "world \<Rightarrow> event \<Rightarrow> memory_candidate \<Rightarrow> store \<Rightarrow> memory_record option result \<times> store" where
  "confirmed_marker w e c s =
     (case (if is_host_logical_user e then find_auto_candidate_match s (mc_type c) (mc_content c) else None) of
        None \<Rightarrow> (Inr None, s)
      | Some (candidate_id, memory_id) \<Rightarrow>
          committing (confirm_candidate_match w candidate_id memory_id (ev_id e) s) s
            (\<lambda>i s'. (bindr (get_memory s' i) (\<lambda>r. Inr (Some r)), s')))"

definition same_record :: "event \<Rightarrow> memory_candidate \<Rightarrow> memory_record \<Rightarrow> bool" where
  "same_record e c r \<longleftrightarrow> me_type r = mc_type c \<and> me_content r = mc_content c \<and> me_sources r = [ev_id e]"

definition marker_metadata :: "event \<Rightarrow> (string, json) dict" where
  "marker_metadata e =
     [(''origin'', JStr ''explicit_marker''),
      (''authority_level'', JStr (if is_host_logical_user e then ''confirmed'' else ''auto'')),
      (''origin_evidence_type'', JStr (origin_value (origin_evidence_type e)))]"

definition marker_draft :: "event \<Rightarrow> memory_candidate \<Rightarrow> memory_draft" where
  "marker_draft e c =
     \<lparr>md_type = mc_type c, md_content = mc_content c, md_sources = [ev_id e], md_summary = mc_summary c, md_files = mc_files c,
      md_branch = ev_branch e, md_risk = mc_risk c, md_cost = mc_cost c, md_supersedes = None, md_metadata = marker_metadata e,
      md_from = None, md_to = None, md_expression = None\<rparr>"

text \<open>The record of a candidate, and the records known from now on.\<close>

definition consolidated_record ::
  "world \<Rightarrow> event \<Rightarrow> memory_candidate \<Rightarrow> memory_record list \<Rightarrow> store \<Rightarrow> (memory_record \<times> memory_record list) result \<times> store" where
  "consolidated_record w e c existing s =
     (case confirmed_marker w e c s of
        (Inl x, s1) \<Rightarrow> (Inl x, s1)
      | (Inr (Some r), s1) \<Rightarrow> (Inr (r, existing), s1)
      | (Inr None, s1) \<Rightarrow>
          (case List.find (same_record e c) existing of
             Some r \<Rightarrow> (Inr (r, existing), s1)
           | None \<Rightarrow> committing (derive_memory w (marker_draft e c) s1) s1 (\<lambda>r s2. (Inr (r, existing @ [r]), s2))))"

definition is_question :: "string \<Rightarrow> bool" where
  "is_question content \<longleftrightarrow> ends_with ''?'' (rstrip_chars [CHR '' '', CHR 0x09, CHR ''.'', CHR '')'', CHR '']'', CHR 0xBB, CHR 0x22, CHR 0x27] content)"

definition request_block_change :: "world \<Rightarrow> event \<Rightarrow> memory_candidate \<Rightarrow> string \<Rightarrow> store \<Rightarrow> unit result \<times> store" where
  "request_block_change w e c block s =
     committing (append_internal_events_once w (''block-change-request:'' @ ev_id e @ '':'' @ block)
        [\<lparr>bi_kind = ''state'', bi_role = None, bi_content = ''block change requested: '' @ block,
          bi_payload = [(''operation'', JStr ''block_change_requested''), (''block'', JStr block), (''content'', JStr (mc_content c)),
            (''reason'', JStr ''marker_content_is_a_question''), (''source_event_id'', JStr (ev_id e))], bi_files = []\<rparr>]
        (ev_branch e) (ev_session e) s) s (\<lambda>(requests, _) s1.
     committing (create_settlement_candidate w ''block_change'' (mc_content c) (ev_id (hd requests)) None block ''weak'' ''consolidator'' s1) s1
       (\<lambda>_ s2. (Inr (), s2)))"

definition budget_message :: "exn \<Rightarrow> bool" where
  "budget_message x = (case x of ValueError m \<Rightarrow> contains ''protected active memory exceeds'' m | _ \<Rightarrow> False)"

text \<open>The block of a candidate: skipped, written, or left as it is.\<close>

definition consolidated_block :: "world \<Rightarrow> event \<Rightarrow> memory_candidate \<Rightarrow> string \<Rightarrow> consolidating \<Rightarrow> store \<Rightarrow> consolidating result \<times> store" where
  "consolidated_block w e c block st s =
     (let skipping = st\<lparr>co_skipped := co_skipped st @ [block]\<rparr>
      in if is_question (mc_content c)
         then (case request_block_change w e c block s of (Inl x, s1) \<Rightarrow> (Inl x, s1) | (Inr _, s1) \<Rightarrow> (Inr skipping, s1))
         else (case get_active_blocks s (ev_branch e) of
             Inl x \<Rightarrow> (Inl x, s)
           | Inr blocks \<Rightarrow>
               let current = map_option bl_content (dget blocks block);
                   content = merge_block (case current of None \<Rightarrow> [] | Some t \<Rightarrow> t) (mc_content c) (block \<in> set REPLACE_BLOCKS)
               in if current = Some content then (Inr st, s)
                  else (case set_active_block w block content (ev_branch e) (ev_session e) [ev_id e] s of
                      Inl x \<Rightarrow> if budget_message x then (Inr skipping, s) else (Inl x, s)
                    | Inr (b, s1) \<Rightarrow>
                        let written = st\<lparr>co_blocks := co_blocks st @ [bl_id b]\<rparr>
                        in if block = ''open_tasks''
                           then (case contest_reasserted_entry w (mc_content c) (ev_id e) s1 of
                               (Inl x, s2) \<Rightarrow> (Inl x, s2) | (Inr _, s2) \<Rightarrow> (Inr written, s2))
                           else (Inr written, s1))))"

definition consolidate_candidate :: "world \<Rightarrow> event \<Rightarrow> memory_candidate \<Rightarrow> consolidating \<Rightarrow> store \<Rightarrow> consolidating result \<times> store" where
  "consolidate_candidate w e c st s =
     (case consolidated_record w e c (co_existing st) s of
        (Inl x, s1) \<Rightarrow> (Inl x, s1)
      | (Inr (r, existing), s1) \<Rightarrow>
          let recorded = st\<lparr>co_memories := co_memories st @ [me_id r], co_existing := existing\<rparr>
          in (case mc_block c of None \<Rightarrow> (Inr recorded, s1) | Some block \<Rightarrow> consolidated_block w e c block recorded s1))"

fun consolidate_candidates :: "world \<Rightarrow> event \<Rightarrow> memory_candidate list \<Rightarrow> consolidating \<Rightarrow> store \<Rightarrow> consolidating result \<times> store" where
  "consolidate_candidates w e [] st s = (Inr st, s)"
| "consolidate_candidates w e (c # cs) st s =
     (case consolidate_candidate w e c st s of
        (Inl x, s1) \<Rightarrow> (Inl x, s1) | (Inr st1, s1) \<Rightarrow> consolidate_candidates w e cs st1 s1)"

record consolidated =
  cn_memories :: "json list"
  cn_blocks :: "json list"
  cn_skipped :: "json list"

definition stored_result :: "json \<Rightarrow> consolidated result" where
  "stored_result v =
     (case v of
        JObj d \<Rightarrow>
          bindr (iterated (dget_default d ''memory_ids'' (JArr []))) (\<lambda>ms.
          bindr (iterated (dget_default d ''block_ids'' (JArr []))) (\<lambda>bs.
          bindr (iterated (dget_default d ''skipped_blocks'' (JArr []))) (\<lambda>ks.
            Inr \<lparr>cn_memories = ms, cn_blocks = bs, cn_skipped = ks\<rparr>)))
      | _ \<Rightarrow> Inl (AttributeError ''get''))"

definition result_document :: "string \<Rightarrow> consolidated \<Rightarrow> json" where
  "result_document event_id r =
     JObj [(''event_id'', JStr event_id), (''memory_ids'', JArr (cn_memories r)), (''block_ids'', JArr (cn_blocks r)),
           (''skipped_blocks'', JArr (cn_skipped r))]"

definition consolidate_event ::
  "(json \<Rightarrow> pyfloat result) \<Rightarrow> world \<Rightarrow> event \<Rightarrow> store \<Rightarrow> consolidated result \<times> store" where
  "consolidate_event to_float w e s =
     (case consolidation_result s (ev_id e) of
        Some previous \<Rightarrow> (stored_result previous, s)
      | None \<Rightarrow>
          (case list_memories s (ev_branch e) all_memories of
             Inl x \<Rightarrow> (Inl x, s)
           | Inr existing \<Rightarrow>
               (case event_candidates to_float e of
                  Inl x \<Rightarrow> (Inl x, s)
                | Inr cs \<Rightarrow>
                    (case consolidate_candidates w e cs \<lparr>co_memories = [], co_blocks = [], co_skipped = [], co_existing = existing\<rparr> s of
                       (Inl x, s1) \<Rightarrow> (Inl x, s1)
                     | (Inr st, s1) \<Rightarrow>
                         let r = \<lparr>cn_memories = map JStr (co_memories st), cn_blocks = map JStr (co_blocks st),
                                  cn_skipped = map JStr (co_skipped st)\<rparr>
                         in committing (mark_consolidated w (ev_id e) (result_document (ev_id e) r) s1) s1 (\<lambda>_ s2. (Inr r, s2))))))"

fun consolidate_events ::
  "(json \<Rightarrow> pyfloat result) \<Rightarrow> world \<Rightarrow> event list \<Rightarrow> consolidated list \<Rightarrow> store \<Rightarrow> consolidated list result \<times> store" where
  "consolidate_events to_float w [] rs s = (Inr rs, s)"
| "consolidate_events to_float w (e # es) rs s =
     (case consolidate_event to_float w e s of
        (Inl x, s1) \<Rightarrow> (Inl x, s1) | (Inr r, s1) \<Rightarrow> consolidate_events to_float w es (rs @ [r]) s1)"

definition consolidate_pending ::
  "(json \<Rightarrow> pyfloat result) \<Rightarrow> world \<Rightarrow> string \<Rightarrow> event list \<Rightarrow> store \<Rightarrow> consolidated list result \<times> store" where
  "consolidate_pending to_float w branch_id events s =
     (case (if events \<noteq> [] then Inr events else query_events s branch_id all_events) of
        Inl x \<Rightarrow> (Inl x, s) | Inr es \<Rightarrow> consolidate_events to_float w es [] s)"

section \<open>Ingestion through the service\<close>

text \<open>
  The transaction of \<open>MemoryService.append_event\<close>: the event and what it contributes, or neither.
\<close>

definition ingest_event ::
  "(json \<Rightarrow> pyfloat result) \<Rightarrow> world \<Rightarrow> string \<Rightarrow> string \<Rightarrow> string \<Rightarrow> string option \<Rightarrow> string option \<Rightarrow> (string, json) dict
     \<Rightarrow> string list \<Rightarrow> store \<Rightarrow> ((event \<times> consolidated) \<times> store) result" where
  "ingest_event to_float w kind content branch_id session_id role payload files s =
     bindr (append_event w kind content branch_id session_id role payload files s) (\<lambda>(e, s1).
       case consolidate_event to_float w e s1 of
         (Inl x, _) \<Rightarrow> Inl x | (Inr r, s2) \<Rightarrow> Inr ((e, r), s2))"

section \<open>Continuation summaries\<close>

fun extractive_lines :: "int \<Rightarrow> string list \<Rightarrow> event list \<Rightarrow> string list" where
  "extractive_lines token_budget lines [] = lines"
| "extractive_lines token_budget lines (e # es) =
     (let role = (if given (ev_role e) then the (ev_role e) else ev_kind e);
          candidate = ''- ['' @ ev_id e @ ''] '' @ role @ '': '' @ squeeze (ev_content e)
      in if conservative_token_estimate (join [CHR 0x0A] (lines @ [candidate])) > token_budget then lines
         else extractive_lines token_budget (lines @ [candidate]) es)"

definition extractive_text :: "event list \<Rightarrow> int \<Rightarrow> string" where
  "extractive_text es token_budget =
     join [CHR 0x0A] (extractive_lines token_budget
       [''Extractive continuation summary. Every line is copied from canonical evidence.''] es)"

text \<open>\<open>groups[:-keep] if keep else groups\<close> for any integer.\<close>

definition older_groups :: "int \<Rightarrow> 'a list \<Rightarrow> 'a list" where
  "older_groups keep gs =
     (if keep = 0 then gs else if keep > 0 then take (length gs - nat keep) gs else take (nat (- keep)) gs)"

record compaction =
  cm_summary :: "memory_record option"
  cm_index :: "memory_record option"
  cm_sources :: "string list"
  cm_text :: string

definition nothing_compacted :: compaction where
  "nothing_compacted = \<lparr>cm_summary = None, cm_index = None, cm_sources = [], cm_text = []\<rparr>"

definition assistant_prose :: "event \<Rightarrow> bool" where
  "assistant_prose e \<longleftrightarrow> ev_kind e = ''message'' \<and> casefold (case ev_role e of None \<Rightarrow> [] | Some r \<Rightarrow> r) = ''assistant''"

definition compacted_draft :: "string \<Rightarrow> string \<Rightarrow> string \<Rightarrow> string list \<Rightarrow> string \<Rightarrow> pyfloat \<Rightarrow> memory_draft" where
  "compacted_draft mtype content gist sources branch_id cost =
     \<lparr>md_type = mtype, md_content = content, md_sources = sources, md_summary = gist, md_files = [], md_branch = branch_id,
      md_risk = \<lparr>fl_value = 0, fl_repr = ''0.0''\<rparr>, md_cost = cost, md_supersedes = None,
      md_metadata = [(''origin'', JStr ''explicit''), (''authority_level'', JStr ''confirmed'')],
      md_from = None, md_to = None, md_expression = None\<rparr>"

definition timeline_text :: "event list \<Rightarrow> string" where
  "timeline_text es =
     join [CHR 0x0A] (map (\<lambda>e. ev_created e @ '' '' @ ev_id e @ '' '' @ ev_kind e @ '' '' @ join '' '' (ev_files e)) es)"

definition compact_branch :: "world \<Rightarrow> string \<Rightarrow> int \<Rightarrow> int \<Rightarrow> store \<Rightarrow> compaction result \<times> store" where
  "compact_branch w branch_id keep_recent_groups summary_budget s =
     (case bindr (query_events s branch_id all_events) (\<lambda>es. returned (interaction_groups es)) of
        Inl x \<Rightarrow> (Inl x, s)
      | Inr groups \<Rightarrow>
          let events = filter (\<lambda>e. \<not> assistant_prose e) (concat (older_groups keep_recent_groups groups));
              summary_text = extractive_text events summary_budget;
              included = filter (\<lambda>e. contains (''['' @ ev_id e @ '']'') summary_text) events;
              source_ids = map ev_id included
          in if included = [] then (Inr nothing_compacted, s)
             else (case list_memories s branch_id (all_memories\<lparr>mq_superseded := False\<rparr>) of
                 Inl x \<Rightarrow> (Inl x, s)
               | Inr existing \<Rightarrow>
                   (case List.find (\<lambda>r. me_type r = ''summary'' \<and> me_sources r = source_ids) existing of
                      Some r \<Rightarrow>
                        (Inr \<lparr>cm_summary = Some r,
                              cm_index = List.find (\<lambda>i. me_type i = ''index'' \<and> me_sources i = source_ids) existing,
                              cm_sources = source_ids, cm_text = me_content r\<rparr>, s)
                    | None \<Rightarrow>
                        committing (derive_memory w (compacted_draft ''summary'' summary_text
                            (''Continuation summary for '' @ show_nat (length source_ids) @ '' canonical events'') source_ids branch_id
                            \<lparr>fl_value = 1/4, fl_repr = ''0.25''\<rparr>) s) s (\<lambda>made s1.
                        committing (derive_memory w (compacted_draft ''index'' (timeline_text included)
                            (''Timeline index for '' @ show_nat (length source_ids) @ '' canonical events'') source_ids branch_id
                            \<lparr>fl_value = 3602879701896397 / 36028797018963968, fl_repr = ''0.1''\<rparr>) s1) s1 (\<lambda>index s2.
                          (Inr \<lparr>cm_summary = Some made, cm_index = Some index, cm_sources = source_ids, cm_text = summary_text\<rparr>, s2))))))"

definition compact_service ::
  "(json \<Rightarrow> pyfloat result) \<Rightarrow> world \<Rightarrow> string \<Rightarrow> int \<Rightarrow> int \<Rightarrow> store \<Rightarrow> compaction result \<times> store" where
  "compact_service to_float w branch_id keep_recent_groups summary_budget s =
     (case consolidate_pending to_float w branch_id [] s of
        (Inl x, s1) \<Rightarrow> (Inl x, s1) | (Inr _, s1) \<Rightarrow> compact_branch w branch_id keep_recent_groups summary_budget s1)"

end
