(* ===== verification/ConsolidationFacts.thy ===== *)
theory ConsolidationFacts
  imports SettleFacts Consolidation
begin

text \<open>
  What the consolidation of an event may write: its steps change the protected memory of the
  event's branch at most, and the records they add cite the event.
\<close>

section \<open>What a candidate may write\<close>

text \<open>Steps that change the protected memory of one branch at most, and steps that change none.\<close>

definition stays_on :: "world \<Rightarrow> string \<Rightarrow> store \<Rightarrow> store \<Rightarrow> bool" where
  "stays_on w b s s' \<longleftrightarrow> stepwise w s s' \<and> st_branches s' = st_branches s
     \<and> (\<forall>c \<in> branch_ids s. c \<noteq> b \<longrightarrow> active_memory s' c = active_memory s c)"

definition quiet :: "world \<Rightarrow> store \<Rightarrow> store \<Rightarrow> bool" where
  "quiet w s s' \<longleftrightarrow> stepwise w s s' \<and> st_branches s' = st_branches s \<and> active_memory s' = active_memory s"

lemma quiet_refl [simp]: "quiet w s s"
  by (simp add: quiet_def)

lemma quiet_trans: "quiet w s t \<Longrightarrow> quiet w t u \<Longrightarrow> quiet w s u"
  by (auto simp: quiet_def intro: stepwise_trans)

lemma quiet_reachable: "quiet w s s' \<Longrightarrow> reachable w s \<Longrightarrow> reachable w s'"
  unfolding quiet_def using stepwise_reachable by blast

lemma quiet_call:
  assumes "run_store w c s = Inr (u, s')" "st_branches s' = st_branches s" "st_blocks s' = st_blocks s"
  shows "quiet w s s'"
  unfolding quiet_def active_memory_cong(2)[OF assms(2,3)] using assms(2) stepwise_call[OF assms(1)] by simp

lemma quiet_stays: "quiet w s s' \<Longrightarrow> stays_on w b s s'"
  by (simp add: quiet_def stays_on_def)

lemma stays_trans: "stays_on w b s t \<Longrightarrow> stays_on w b t u \<Longrightarrow> stays_on w b s u"
  unfolding stays_on_def by (auto intro: stepwise_trans simp: branch_ids_def)

lemma stays_reachable: "stays_on w b s s' \<Longrightarrow> reachable w s \<Longrightarrow> reachable w s'"
  unfolding stays_on_def using stepwise_reachable by blast

lemma maintains_stays: "maintains w b k s s' \<Longrightarrow> stays_on w b s s'"
  unfolding maintains_def stays_on_def by (auto intro!: ext)

lemma quiet_memory:
  assumes "derive_memory w d s = Inr (r, s')"
  shows "quiet w s s'"
  using maintains_memory[OF assms] by (simp add: quiet_def maintains_def)

lemma quiet_confirm:
  assumes R: "reachable w s" and run: "confirm_candidate_match w cid mid src s = Inr (r, s')"
  shows "quiet w s s'"
proof -
  note f = only_confirms_fields[OF conjunct1[OF conjunct2[OF confirm_candidate_match_step[OF confirm_inv_of[OF reachable_ok[OF R]] run]]]]
  show ?thesis by (rule quiet_call[of w "ConfirmMatch cid mid src" s "()"]) (use run f in simp_all)
qed

lemma confirmed_marker_step:
  assumes "reachable w s" "confirmed_marker w e c s = (r, s')"
  shows "quiet w s s'" "\<not> is_host_logical_user e \<Longrightarrow> s' = s \<and> r = Inr None"
  using assms quiet_confirm[OF assms(1)]
  by (auto simp: confirmed_marker_def committing_def split: option.splits sum.splits if_splits prod.splits)

text \<open>A record that rests on the event alone and replaces nothing.\<close>

definition record_of_event :: "event \<Rightarrow> memory_record \<Rightarrow> bool" where
  "record_of_event e r \<longleftrightarrow> me_sources r = [ev_id e] \<and> me_supersedes r = None \<and> me_branch r = ev_branch e"

lemma marker_record:
  assumes "derive_memory w (marker_draft e c) s = Inr (r, s')"
  shows "record_of_event e r" "st_memories s' = st_memories s @ [r]"
  by (rule derive_memory_cases[OF assms],
      simp add: record_of_event_def memory_row_def safe_draft_def marker_draft_def uniq_def,
      rule derive_memory_frame[OF assms], simp)

lemma consolidated_record_step:
  assumes R: "reachable w s" and run: "consolidated_record w e c existing s = (r, s')"
  shows "quiet w s s'"
    "\<not> is_host_logical_user e \<Longrightarrow> \<exists>rs. st_memories s' = st_memories s @ rs \<and> (\<forall>r \<in> set rs. record_of_event e r)"
proof -
  obtain m s1 where m: "confirmed_marker w e c s = (m, s1)" by fastforce
  note step = confirmed_marker_step[OF R m]
  have "s' = s1 \<or> (\<exists>x. derive_memory w (marker_draft e c) s1 = Inr (x, s'))"
    using run m by (auto simp: consolidated_record_def committing_def split: sum.splits option.splits)
  then consider "s' = s1" | x where "derive_memory w (marker_draft e c) s1 = Inr (x, s')" by blast
  then have "quiet w s s' \<and> (\<not> is_host_logical_user e \<longrightarrow> (\<exists>rs. st_memories s' = st_memories s @ rs \<and> (\<forall>r \<in> set rs. record_of_event e r)))"
  proof cases
    case 1
    then show ?thesis using step by (auto intro: exI[of _ "[]"])
  next
    case (2 x)
    then show ?thesis
      using step quiet_trans[OF step(1) quiet_memory[OF 2]] marker_record[OF 2] by (auto intro: exI[of _ "[x]"])
  qed
  then show "quiet w s s'"
    "\<not> is_host_logical_user e \<Longrightarrow> \<exists>rs. st_memories s' = st_memories s @ rs \<and> (\<forall>r \<in> set rs. record_of_event e r)"
    by blast+
qed

lemma request_block_change_step:
  assumes R: "reachable w s" and run: "request_block_change w e c block s = (r, s')"
  shows "quiet w s s'"
proof -
  let ?items = "[\<lparr>bi_kind = ''state'', bi_role = None, bi_content = ''block change requested: '' @ block,
          bi_payload = [(''operation'', JStr ''block_change_requested''), (''block'', JStr block), (''content'', JStr (mc_content c)),
            (''reason'', JStr ''marker_content_is_a_question''), (''source_event_id'', JStr (ev_id e))], bi_files = []\<rparr>]"
  let ?key = "''block-change-request:'' @ ev_id e @ '':'' @ block"
  show ?thesis
  proof (cases "append_internal_events_once w ?key ?items (ev_branch e) (ev_session e) s")
    case (Inl x)
    then show ?thesis using run by (simp add: request_block_change_def committing_def)
  next
    case (Inr y)
    obtain es fresh s1 where y: "y = ((es, fresh), s1)" by (metis surj_pair)
    have only: "only_log s s1" using Inr only_log_once by (simp add: once_defs y)
    have q1: "quiet w s s1"
      by (rule quiet_call[of w "LogCall (CallInternalOnce ?key ?items (ev_branch e) (ev_session e))" s "()"])
        (use Inr only in \<open>simp_all add: only_log_def y\<close>)
    have "s' = s1 \<or> (\<exists>z. create_settlement_candidate w ''block_change'' (mc_content c) (ev_id (hd es)) None block ''weak'' ''consolidator'' s1
        = Inr (z, s'))"
      using run Inr by (auto simp: request_block_change_def committing_def y split: sum.splits)
    then show ?thesis
    proof
      assume "\<exists>z. create_settlement_candidate w ''block_change'' (mc_content c) (ev_id (hd es)) None block ''weak'' ''consolidator'' s1 = Inr (z, s')"
      then obtain z where z: "create_settlement_candidate w ''block_change'' (mc_content c) (ev_id (hd es)) None block ''weak'' ''consolidator'' s1
        = Inr (z, s')" by blast
      note f = only_candidates_fields[OF conjunct1[OF conjunct2[OF create_settlement_candidate_step[OF
        store_okD(4)[OF reachable_ok[OF quiet_reachable[OF q1 R]]] z]]]]
      have "quiet w s1 s'"
        by (rule quiet_call[of w "CreateSettlement ''block_change'' (mc_content c) (ev_id (hd es)) None block ''weak'' ''consolidator''" s1 "()",
              OF _ f(1,4)]) (cases z, use z in simp)
      then show ?thesis by (rule quiet_trans[OF q1])
    qed (use q1 in simp)
  qed
qed

lemma consolidated_block_step:
  assumes R: "reachable w s" and run: "consolidated_block w e c block st s = (r, s')"
  shows "stays_on w (ev_branch e) s s'" "is_question (mc_content c) \<Longrightarrow> quiet w s s'"
proof -
  show "is_question (mc_content c) \<Longrightarrow> quiet w s s'"
    using run request_block_change_step[OF R]
    by (cases "request_block_change w e c block s") (auto simp: consolidated_block_def split: sum.splits)
  show "stays_on w (ev_branch e) s s'"
  proof (cases "is_question (mc_content c)")
    case True
    then show ?thesis
      using run request_block_change_step[OF R]
      by (cases "request_block_change w e c block s") (auto simp: consolidated_block_def split: sum.splits intro: quiet_stays)
  next
    case False
    have "s' = s \<or> (\<exists>new blk s1. set_active_block w block new (ev_branch e) (ev_session e) [ev_id e] s = Inr (blk, s1)
        \<and> (s' = s1 \<or> (\<exists>r. contest_reasserted_entry w (mc_content c) (ev_id e) s1 = (r, s'))))"
    proof (cases "get_active_blocks s (ev_branch e)")
      case (Inl x)
      then show ?thesis using run False by (simp add: consolidated_block_def)
    next
      case (Inr blocks)
      let ?current = "map_option bl_content (dget blocks block)"
      let ?new = "merge_block (case ?current of None \<Rightarrow> [] | Some t \<Rightarrow> t) (mc_content c) (block \<in> set REPLACE_BLOCKS)"
      show ?thesis
      proof (cases "?current = Some ?new")
        case True
        then show ?thesis using run False Inr by (simp add: consolidated_block_def Let_def)
      next
        case new: False
        note rest = run[unfolded consolidated_block_def Let_def Inr if_not_P[OF False] sum.case if_not_P[OF new]]
        show ?thesis
        proof (cases "set_active_block w block ?new (ev_branch e) (ev_session e) [ev_id e] s")
          case (Inl x)
          then show ?thesis using rest by (simp split: if_splits)
        next
          case (Inr y)
          obtain blk s1 where y: "y = (blk, s1)" by fastforce
          have "s' = s1 \<or> (\<exists>r. contest_reasserted_entry w (mc_content c) (ev_id e) s1 = (r, s'))"
            using rest Inr y by (cases "contest_reasserted_entry w (mc_content c) (ev_id e) s1") (auto split: if_splits sum.splits)
          then show ?thesis using Inr y by blast
        qed
      qed
    qed
    then consider "s' = s" | new blk s1 where "set_active_block w block new (ev_branch e) (ev_session e) [ev_id e] s = Inr (blk, s1)"
        "s' = s1 \<or> (\<exists>r. contest_reasserted_entry w (mc_content c) (ev_id e) s1 = (r, s'))"
      by blast
    then show ?thesis
    proof cases
      case 1
      then show ?thesis by (simp add: quiet_stays)
    next
      case (2 new blk s1)
      note m1 = maintains_block[OF R 2(1)]
      have "maintains w (ev_branch e) block s1 s'"
        using 2(2) contest_items_step[OF maintains_reachable[OF m1 R]] by (auto simp: contest_reasserted_entry_def)
      then show ?thesis using maintains_stays[OF maintains_trans[OF m1]] by blast
    qed
  qed
qed

definition leaves_blocks :: "memory_candidate \<Rightarrow> bool" where
  "leaves_blocks c \<longleftrightarrow> mc_block c = None \<or> is_question (mc_content c)"

lemma consolidate_candidate_step:
  assumes R: "reachable w s" and run: "consolidate_candidate w e c st s = (r, s')"
  shows "stays_on w (ev_branch e) s s'" "leaves_blocks c \<Longrightarrow> quiet w s s'"
    "\<not> is_host_logical_user e \<Longrightarrow> mc_block c = None \<Longrightarrow>
       \<exists>rs. st_memories s' = st_memories s @ rs \<and> (\<forall>r \<in> set rs. record_of_event e r)"
proof -
  obtain m s1 where m: "consolidated_record w e c (co_existing st) s = (m, s1)" by fastforce
  note q1 = consolidated_record_step[OF R m]
  have R1: "reachable w s1" by (rule quiet_reachable[OF q1(1) R])
  have "s' = s1 \<or> (\<exists>block st'. mc_block c = Some block \<and> consolidated_block w e c block st' s1 = (r, s'))"
    using run m by (auto simp: consolidate_candidate_def Let_def split: sum.splits option.splits)
  then consider "s' = s1" | block st' where "mc_block c = Some block" "consolidated_block w e c block st' s1 = (r, s')" by blast
  then have "stays_on w (ev_branch e) s s' \<and> (leaves_blocks c \<longrightarrow> quiet w s s')"
  proof cases
    case 1
    then show ?thesis using q1(1) quiet_stays by blast
  next
    case (2 block st')
    note b = consolidated_block_step[OF R1 2(2)]
    show ?thesis
      using stays_trans[OF quiet_stays[OF q1(1)] b(1)] quiet_trans[OF q1(1)] b(2) 2(1) by (auto simp: leaves_blocks_def)
  qed
  then show "stays_on w (ev_branch e) s s'" "leaves_blocks c \<Longrightarrow> quiet w s s'" by blast+
  assume "\<not> is_host_logical_user e" "mc_block c = None"
  then have "s' = s1" using run m by (auto simp: consolidate_candidate_def Let_def split: sum.splits)
  then show "\<exists>rs. st_memories s' = st_memories s @ rs \<and> (\<forall>r \<in> set rs. record_of_event e r)"
    using q1(2) \<open>\<not> is_host_logical_user e\<close> by simp
qed

lemma consolidate_candidates_step:
  assumes "reachable w s" "consolidate_candidates w e cs st s = (r, s')"
  shows "stays_on w (ev_branch e) s s' \<and> (list_all leaves_blocks cs \<longrightarrow> quiet w s s')
    \<and> (\<not> is_host_logical_user e \<longrightarrow> list_all (\<lambda>c. mc_block c = None) cs \<longrightarrow>
         (\<exists>rs. st_memories s' = st_memories s @ rs \<and> (\<forall>r \<in> set rs. record_of_event e r)))"
  using assms
proof (induction cs arbitrary: st s)
  case Nil
  then show ?case by (auto simp: quiet_stays)
next
  case (Cons c cs)
  obtain m s1 where m: "consolidate_candidate w e c st s = (m, s1)" by fastforce
  note one = consolidate_candidate_step[OF Cons.prems(1) m]
  show ?case
  proof (cases m)
    case (Inl x)
    then show ?thesis using Cons.prems(2) m one by auto
  next
    case (Inr st')
    then have "consolidate_candidates w e cs st' s1 = (r, s')" using Cons.prems(2) m by simp
    note ih = Cons.IH[OF stays_reachable[OF one(1) Cons.prems(1)] this]
    show ?thesis
      using ih one stays_trans[OF one(1)] quiet_trans[of w s s1 s'] by (auto simp: ball_Un) 
  qed
qed

end
