(* ===== verification/CompletionFacts.thy ===== *)
theory CompletionFacts
  imports SettlementSurface AuthorityProps
begin

text \<open>
  What the detection of completions rests on: admitted entries, the events that may show a
  completion, and what the first of them shows.
\<close>

section \<open>Evidence\<close>

text \<open>What an event shows about an entry.\<close>

definition shows_completion :: "string \<Rightarrow> string \<Rightarrow> string \<Rightarrow> event \<Rightarrow> bool" where
  "shows_completion entry kind detail e \<longleftrightarrow>
     kind = ''file'' \<and> re_found CREATE_VERBS entry \<and> detail \<in> set (map fst (re_findall PATH entry))
       \<and> event_tool_name e \<in> set WRITE_TOOLS \<and> (\<exists>f \<in> set (ev_files e). path_matches detail f)
     \<or> kind = ''command'' \<and> detail \<in> set (entry_commands entry) \<and> command_matches detail (event_command e)"

lemma evidence_of_shows:
  assumes "evidence_of (entry_paths entry) (entry_commands entry) e = Some (kind, detail)"
  shows "shows_completion entry kind detail e \<and> jget (ev_payload e) ''hook_event_name'' \<noteq> JStr ''PostToolUseFailure''"
  using assms
  by (auto simp: evidence_of_def shows_completion_def entry_paths_def find_Some_iff find_None_iff
      split: if_splits option.splits)

lemma first_evidence_found:
  assumes "first_evidence paths commands n es = Some (e, k)"
  shows "e \<in> set es \<and> n < ev_seq e \<and> evidence_of paths commands e = Some k"
  using assms by (induction es) (auto split: if_splits option.splits)

lemma evidence_event:
  assumes "completion_evidence_events s b n = Inr es" "e \<in> set es"
  shows "\<exists>lin. lineage s b = Inr lin \<and> reaches lin (ev_branch e) (ev_seq e) \<and> e \<in> set (st_events s)
    \<and> ev_kind e = ''tool_output'' \<and> ev_channel e = HOST_HOOK"
  using assms by (fastforce simp: completion_evidence_events_def reaches_def)

lemma fold_setdefault:
  "dget (fold (\<lambda>r d. dsetdefault (f r) (g r) d) rs d) k =
     (case dget d k of Some v \<Rightarrow> Some v | None \<Rightarrow> map_option g (List.find (\<lambda>r. f r = k) rs))"
  by (induction rs arbitrary: d) (auto split: option.splits)

lemma listed_live_task:
  assumes "list_memories s b live_tasks = Inr rs" "r \<in> set rs" "lineage s b = Inr lin"
  shows "r \<in> set (st_memories s)" "me_type r = ''task''" "reaches lin (me_branch r) (me_cursor r)"
proof -
  have "r \<in> set (concat (map (\<lambda>(b, cutoff). filter (memory_matches live_tasks b cutoff) (st_memories s)) lin))"
    using assms by (auto simp: list_memories_def Let_def split: if_splits)
  then have "\<exists>(x, cutoff) \<in> set lin. r \<in> set (st_memories s) \<and> memory_matches live_tasks x cutoff r" by auto
  then show "r \<in> set (st_memories s)" "me_type r = ''task''" "reaches lin (me_branch r) (me_cursor r)"
    by (auto simp: memory_matches_def live_tasks_def all_memories_def reaches_def)
qed

lemma task_anchor_found:
  assumes "task_anchor_map s b = Inr anchors" "dget anchors (normalized entry) = Some (n, Some a, m)" "lineage s b = Inr lin"
  obtains r e where "r \<in> set (st_memories s)" "reaches lin (me_branch r) (me_cursor r)" "me_type r = ''task''" "me_id r = m" "normalized (me_content r) = normalized entry"
    "find_event s (hd (me_sources r)) = Some e" "me_sources r \<noteq> []" "ev_id e = a" "ev_seq e = n"
proof -
  obtain rs where rs: "list_memories s b live_tasks = Inr rs"
      "anchors = fold (\<lambda>r d. dsetdefault (normalized (me_content r)) (task_anchor s r) d) rs []"
    using assms(1) by (auto simp: task_anchor_map_def)
  obtain r where r: "List.find (\<lambda>r. normalized (me_content r) = normalized entry) rs = Some r" "task_anchor s r = (n, Some a, m)"
    using assms(2) unfolding rs(2) fold_setdefault by auto
  have mem: "r \<in> set rs" "normalized (me_content r) = normalized entry" using r(1) by (auto simp: find_Some_iff)
  note live = listed_live_task[OF rs(1) mem(1) assms(3)]
  show thesis
    using that[OF live(1,3,2)] r(2) mem(2) by (auto simp: task_anchor_def split: list.splits option.splits)
qed

lemma in_map_filter: "x \<in> set (List.map_filter f xs) \<longleftrightarrow> (\<exists>y \<in> set xs. f y = Some x)"
  by (force simp: List.map_filter_def)

lemma admitted_entry_cases:
  assumes "admitted_entry anchors entry = Some a"
  shows "\<exists>n i m. a = (entry, n, i, m) \<and> \<not> re_found DELETE_VERBS entry \<and> dget anchors (normalized entry) = Some (n, Some i, m)"
  using assms by (auto simp: admitted_entry_def split: if_splits option.splits prod.splits)

lemma detected_cases:
  assumes "detect_completions s b = Inr ds"
  shows "ds = [] \<or> (\<exists>blk anchors n es. open_tasks s b = Inr (Some blk) \<and> task_anchor_map s b = Inr anchors
    \<and> completion_evidence_events s b n = Inr es
    \<and> ds = List.map_filter (detection_of es) (List.map_filter (admitted_entry anchors) (entry_lines (bl_content blk))))"
proof -
  obtain block where block: "open_tasks s b = Inr block"
    using assms by (auto simp: detect_completions_def)
  show ?thesis
  proof (cases block)
    case None
    then show ?thesis using assms block by (simp add: detect_completions_def)
  next
    case (Some blk)
    show ?thesis
    proof (cases "strip (bl_content blk) = []")
      case True
      then show ?thesis using assms block Some by (simp add: detect_completions_def)
    next
      case False
      then obtain anchors where anchors: "task_anchor_map s b = Inr anchors"
        using assms block Some by (auto simp: detect_completions_def)
      let ?cs = "List.map_filter (admitted_entry anchors) (entry_lines (bl_content blk))"
      have eq: "(case ?cs of [] \<Rightarrow> Inr [] | c # cs \<Rightarrow>
          bindr (completion_evidence_events s b (Min (set (map (\<lambda>(_, n, _). n) (c # cs))))) (\<lambda>events.
            Inr (List.map_filter (detection_of events) (c # cs)))) = Inr ds"
        using assms by (simp only: detect_completions_def block Some bindr_Inr option.case False if_False anchors)
      show ?thesis
      proof (cases ?cs)
        case Nil
        then show ?thesis using eq by simp
      next
        case (Cons c cs)
        obtain es where "completion_evidence_events s b (Min (set (map (\<lambda>(_, n, _). n) (c # cs)))) = Inr es"
            "ds = List.map_filter (detection_of es) ?cs"
          using eq unfolding Cons list.case bindr_eq_Inr by blast
        then show ?thesis using block Some anchors by blast
      qed
    qed
  qed
qed

end
