(* ===== verification/SettlementProps.thy ===== *)
theory SettlementProps
  imports ConsolidationFacts CompletionFacts
begin

text \<open>
  The properties of the maintenance of tasks: what closes a task, what settles a candidate by
  hand, that closing and undoing are local and inverse, and what consolidation may write.
\<close>

section \<open>Closing on evidence\<close>


section \<open>Settling by hand\<close>

text \<open>
  Settling by hand takes standing.  A manual settlement succeeds only for the operator, or for
  an agent to whom the active policy delegates it; it needs a reason and a transition that the
  ledger's flow allows.  It appends one row, made in the requester's name, which cites an
  event that may settle, and of all protected blocks of all branches it changes at most one.
\<close>

theorem settle_needs_standing:
  assumes R: "reachable w s" and run: "settle w cid target reason by_whom b s = Inr (r, s')"
  shows "reachable w s' \<and> target \<in> {''applied'', ''contested'', ''reverted''} \<and> strip reason \<noteq> []
    \<and> candidate_status s' cid = Some target
    \<and> (if sm_already r then s' = s
       else (by_whom = ''operator'' \<or> by_whom = ''agent'' \<and> agent_delegation_enabled s)
         \<and> (\<exists>old. candidate_status s cid = Some old \<and> flow_allows SETTLEMENT_FLOW old target)
         \<and> (\<exists>k. \<forall>c \<in> branch_ids s. \<forall>n. (c, n) \<noteq> (b, k) \<longrightarrow> active_memory s' c n = active_memory s c n)
         \<and> (\<exists>m e. st_moves s' = st_moves s @ [m] \<and> mv_candidate m = cid \<and> mv_to m = target \<and> mv_actor m = by_whom
              \<and> find_event s' (mv_event m) = Some e
              \<and> origin_evidence_type e \<in> {HOST_LOGICAL_USER, LOCAL_OPERATOR, DELEGATED_AGENT, BOOTSTRAP_TOFU}))"
  using run
proof (cases rule: settle_cases)
  case already
  then show ?thesis using R by (auto simp: MANUAL_TRANSITIONS_def)
next
  case (settled c ev status ms es fresh s1 x)
  note m1 = maintains_event(1)[OF settled(9)]
  have R1: "reachable w s1" by (rule maintains_reachable[OF m1 R])
  have moves1: "st_moves s1 = st_moves s" using maintains_event(2)[OF settled(9)] by (simp add: only_log_def)
  note st1 = candidate_status_cong[OF moves1]
  note listed = listed_status[OF settled(5)]
  have once: "settled_once w b cid target (ev_id (hd es)) by_whom (''manual_settle_'' @ by_whom) s1 s'"
    using settled(10) closure_settled_once[OF R1] block_settled_once[OF R1] settled(2) listed(1)
    by (auto split: if_splits)
  then obtain k where k: "maintains w b k s1 s'" and target: "candidate_status s' cid = Some target"
    by (auto simp: settled_once_def)
  have R': "reachable w s'" by (rule maintains_reachable[OF k R1])
  have cur: "candidate_status s cid = Some status" "status \<noteq> []"
    using listed settled(5) store_okD(4)[OF reachable_ok[OF R]] by (auto dest: listed_settlement)
  have "candidate_status s1 cid \<noteq> Some target" using settled(7) cur st1 by simp
  then obtain m where m: "st_moves s' = st_moves s @ [m]" "settles cid target (mv_event m) by_whom (''manual_settle_'' @ by_whom) m"
    using once moves1 by (auto simp: settled_once_def)
  have fields: "mv_candidate m = cid" "mv_to m = target" "mv_actor m = by_whom" using m(2) by (simp_all add: settles_def)
  have "mv_from m \<noteq> None" by (rule settle_row_from[OF R' m(1) _ refl fields(1)]) (simp add: cur)
  moreover have "target \<in> {''confirmed'', ''rejected'', ''superseded'', ''applied'', ''reverted'', ''contested''}"
    using settled(2) by (auto simp: MANUAL_TRANSITIONS_def)
  ultimately obtain e where e: "find_event s' (mv_event m) = Some e"
      "origin_evidence_type e \<in> {HOST_LOGICAL_USER, LOCAL_OPERATOR, DELEGATED_AGENT, BOOTSTRAP_TOFU}"
    using settled_origin[OF R' m(1)] fields settled(3) by (auto simp: REQUESTORS_def)
  have frame: "\<forall>c \<in> branch_ids s. \<forall>n. (c, n) \<noteq> (b, k) \<longrightarrow> active_memory s' c n = active_memory s c n"
    using maintains_trans[OF m1 k] by (simp add: maintains_def)
  have "\<not> sm_already r" "strip reason \<noteq> []" "target \<in> {''applied'', ''contested'', ''reverted''}"
    "by_whom = ''operator'' \<or> by_whom = ''agent'' \<and> agent_delegation_enabled s"
    using settled(1,2,3,4,8) by (auto simp: MANUAL_TRANSITIONS_def REQUESTORS_def)
  moreover have "flow_allows SETTLEMENT_FLOW status target" using settled(6) cur(2) by simp
  ultimately show ?thesis using R' target cur(1) frame m(1) fields e by auto
qed

section \<open>Passes and closures\<close>

lemma terminal_kept:
  assumes R: "reachable w s'" and step: "stepwise w s s'" and "reachable w s"
    and t: "candidate_status s i = Some t" "t \<in> {''rejected'', ''superseded'', ''reverted'', ''contested''}"
  shows "candidate_status s' i = Some t"
proof -
  obtain ms where g: "st_moves s' = st_moves s @ ms"
    using evolves_fields(4)[OF stepwise_evolves[OF step assms(3)]] by (auto simp: prefix_def)
  have h: "history_ok mv_candidate mv_from mv_to candidate_move_legal (st_moves s @ ms)"
    using store_okD(4)[OF reachable_ok[OF R]] g(1) by (simp add: candidates_ok_def)
  show ?thesis
    using cand.terminal_stays[OF h, of i t] t g
    by (simp add: candidate_terminal_def cand.status_def candidate_status_def last_move_def)
qed

text \<open>
  A pass of the reconciler is local: whatever it finds and wherever it fails, it keeps the
  invariants of the store, changes no protected block but the task block of its branch, and
  never revives a reverted or contested closure.
\<close>

theorem reconcile_is_local:
  assumes R: "reachable w s" and run: "reconcile w h b s = (r, s')"
  shows "reachable w s' \<and> st_branches s' = st_branches s
    \<and> (\<forall>c \<in> branch_ids s. \<forall>n. (c, n) \<noteq> (b, ''open_tasks'') \<longrightarrow> active_memory s' c n = active_memory s c n)
    \<and> {(i, t). candidate_status s i = Some t \<and> t \<in> {''reverted'', ''contested''}} \<subseteq> {(i, t). candidate_status s' i = Some t}"
proof -
  note m = reconcile_step[OF R run]
  have R': "reachable w s'" by (rule maintains_reachable[OF m R])
  show ?thesis
    using m R' terminal_kept[OF R' maintains_stepwise[OF m] R] by (auto simp: maintains_def)
qed


lemma blockless:
  assumes "event_candidates to_float e = Inr cs" "\<not> is_host_logical_user e"
  shows "list_all (\<lambda>c. mc_block c = None) cs"
proof -
  have vals: "set (map snd (fold (\<lambda>c d. dset (k c) c d) xs d)) \<subseteq> set xs \<union> set (map snd d)" for xs d and k :: "memory_candidate \<Rightarrow> string \<times> string \<times> string option"
  proof (induction xs arbitrary: d)
    case (Cons x xs)
    have "set (map snd (dset (k x) x d)) \<subseteq> insert x (set (map snd d))" by (induction d) auto
    moreover have "set (map snd (fold (\<lambda>c d. dset (k c) c d) (x # xs) d)) \<subseteq> set xs \<union> set (map snd (dset (k x) x d))"
      using Cons[of "dset (k x) x d"] by (simp only: fold_simps)
    ultimately show ?case by (simp only: list.set) blast
  qed simp
  have "\<not> cp_blocks (consolidation_policy_of e)" using assms(2) by (simp add: consolidation_policy_of_def)
  then have "mc_block (allowed_candidate (consolidation_policy_of e) c) = None" for c by (simp add: allowed_candidate_def)
  moreover have "set cs \<subseteq> range (allowed_candidate (consolidation_policy_of e))"
  proof (cases "cp_records (consolidation_policy_of e)")
    case False
    then show ?thesis using assms(1) by (simp add: event_candidates_def)
  next
    case True
    obtain xs where "cs = map snd (fold (\<lambda>c d. dset (marker_key c) c d) (map (allowed_candidate (consolidation_policy_of e)) xs) [])"
      using assms(1) True by (auto simp: event_candidates_def Let_def simp del: map_append)
    then show ?thesis using vals[of marker_key "map (allowed_candidate (consolidation_policy_of e)) xs" "[]"] by auto
  qed
  ultimately show ?thesis by (auto simp: list_all_iff)
qed

lemma mark_step:
  assumes "mark_consolidated w i v s = Inr (u, s')"
  shows "quiet w s s'" "st_memories s' = st_memories s"
proof -
  have only: "only_log s s'" by (rule only_log_mark[OF assms])
  show "quiet w s s'"
    by (rule quiet_call[of w "LogCall (CallMarkConsolidated i v)" s "()"]) (use assms only in \<open>simp_all add: only_log_def\<close>)
  show "st_memories s' = st_memories s" using only by (simp add: only_log_def)
qed

lemma consolidate_event_step:
  assumes R: "reachable w s" and run: "consolidate_event to_float w e s = (r, s')"
  shows "s' = s \<or> (\<exists>cs st s1 x. event_candidates to_float e = Inr cs \<and> consolidate_candidates w e cs st s = (x, s1)
    \<and> (s' = s1 \<or> quiet w s1 s' \<and> st_memories s' = st_memories s1))"
proof (cases "consolidation_result s (ev_id e)")
  case (Some v)
  then show ?thesis using run by (simp add: consolidate_event_def)
next
  case None
  show ?thesis
  proof (cases "list_memories s (ev_branch e) all_memories")
    case (Inl x)
    then show ?thesis using run None by (simp add: consolidate_event_def)
  next
    case existing: (Inr existing)
    show ?thesis
    proof (cases "event_candidates to_float e")
      case (Inl x)
      then show ?thesis using run None existing by (simp add: consolidate_event_def)
    next
      case (Inr cs)
      let ?st = "\<lparr>co_memories = [], co_blocks = [], co_skipped = [], co_existing = existing\<rparr>"
      obtain x s1 where x: "consolidate_candidates w e cs ?st s = (x, s1)" by fastforce
      note rest = run[unfolded consolidate_event_def None existing Inr x option.case sum.case prod.case]
      have "s' = s1 \<or> (\<exists>v. mark_consolidated w (ev_id e) v s1 = Inr ((), s'))"
        using rest by (auto simp: committing_def Let_def split: sum.splits)
      then show ?thesis using mark_step Inr x by blast
    qed
  qed
qed

text \<open>
  C37: consolidation respects authority.  Whatever an event holds, and even when the step fails
  half-way, consolidating it keeps the invariants of the store and leaves the protected memory
  of every other branch alone.  If the event is not from the logged user it changes no
  protected block at all, and the memory records it adds cite that event alone, on its branch,
  and supersede nothing.  Nor does a block change when all markers for blocks are questions.
\<close>

theorem consolidation_respects_authority:
  assumes R: "reachable w s" and run: "consolidate_event to_float w e s = (r, s')"
  shows "reachable w s'
    \<and> (\<forall>b \<in> branch_ids s. b \<noteq> ev_branch e \<longrightarrow> active_memory s' b = active_memory s b)
    \<and> (\<not> is_host_logical_user e \<longrightarrow> active_memory s' = active_memory s
         \<and> (\<exists>rs. st_memories s' = st_memories s @ rs
              \<and> (\<forall>r \<in> set rs. me_sources r = [ev_id e] \<and> me_supersedes r = None \<and> me_branch r = ev_branch e)))
    \<and> (\<forall>cs. event_candidates to_float e = Inr cs \<longrightarrow> (\<forall>c \<in> set cs. mc_block c \<noteq> None \<longrightarrow> is_question (mc_content c))
         \<longrightarrow> active_memory s' = active_memory s)"
  using consolidate_event_step[OF R run]
proof
  assume "s' = s"
  then show ?thesis using R by simp
next
  assume "\<exists>cs st s1 x. event_candidates to_float e = Inr cs \<and> consolidate_candidates w e cs st s = (x, s1)
    \<and> (s' = s1 \<or> quiet w s1 s' \<and> st_memories s' = st_memories s1)"
  then obtain cs st s1 x where cs: "event_candidates to_float e = Inr cs" and loop: "consolidate_candidates w e cs st s = (x, s1)"
    and mark: "s' = s1 \<or> quiet w s1 s' \<and> st_memories s' = st_memories s1"
    by blast
  note c = consolidate_candidates_step[OF R loop]
  have q: "quiet w s1 s'" "st_memories s' = st_memories s1" using mark by auto
  have stays: "stays_on w (ev_branch e) s s'" using c quiet_stays[OF q(1)] stays_trans by blast
  have still: "active_memory s' = active_memory s" if "list_all leaves_blocks cs"
    using that c quiet_trans[OF _ q(1)] by (auto simp: quiet_def)
  have none: "list_all (\<lambda>c. mc_block c = None) cs" if "\<not> is_host_logical_user e"
    by (rule blockless[OF cs that])
  have quiet_event: "list_all leaves_blocks cs" if "\<not> is_host_logical_user e"
    using none[OF that] by (auto simp: list_all_iff leaves_blocks_def)
  have rows: "\<exists>rs. st_memories s' = st_memories s @ rs
      \<and> (\<forall>r \<in> set rs. me_sources r = [ev_id e] \<and> me_supersedes r = None \<and> me_branch r = ev_branch e)" if "\<not> is_host_logical_user e"
    using c none[OF that] that q(2) by (simp add: record_of_event_def)
  have asked: "active_memory s' = active_memory s"
    if "\<forall>c \<in> set cs. mc_block c \<noteq> None \<longrightarrow> is_question (mc_content c)"
    by (rule still) (use that in \<open>auto simp: list_all_iff leaves_blocks_def\<close>)
  have "\<forall>b \<in> branch_ids s. b \<noteq> ev_branch e \<longrightarrow> active_memory s' b = active_memory s b"
    using stays by (simp add: stays_on_def)
  moreover have "\<not> is_host_logical_user e \<longrightarrow> active_memory s' = active_memory s"
    using still[OF quiet_event] by blast
  moreover have "\<forall>cs'. event_candidates to_float e = Inr cs' \<longrightarrow> (\<forall>c \<in> set cs'. mc_block c \<noteq> None \<longrightarrow> is_question (mc_content c))
      \<longrightarrow> active_memory s' = active_memory s"
    using asked by (simp add: cs)
  ultimately show ?thesis using stays_reachable[OF stays R] rows by simp
qed

section \<open>A task that an edit closes\<close>


definition short_world :: world where
  "short_world = demo_world\<lparr>w_sha256 := (\<lambda>x. case x of [] \<Rightarrow> [] | c # _ \<Rightarrow> if c = CHR ''{'' then ''d'' else x)\<rparr>"







section \<open>A marker from an untrusted message\<close>

definition marker_calls :: "store_call list" where
  "marker_calls = [LogCall (CallAppend ''message'' ''Goal: win'' ''main'' None (Some ''user'') [] [])]"

definition any_float :: "json \<Rightarrow> pyfloat result" where
  "any_float v = Inr \<lparr>fl_value = 1, fl_repr = ''1.0''\<rparr>"

lemma marker_facts:
  "let s = system_store short_world marker_calls; e = hd (st_events s)
   in \<not> is_host_logical_user e
    \<and> (case consolidate_event any_float short_world e s of
         (Inr r, s') \<Rightarrow> length (cn_memories r) = 1 \<and> cn_blocks r = [] | (Inl x, s') \<Rightarrow> False)"
  by code_simp

theorem consolidation_respects_authority_witness:
  "\<exists>r s'. consolidate_event any_float short_world (hd (st_events (system_store short_world marker_calls)))
        (system_store short_world marker_calls) = (Inr r, s')
     \<and> length (cn_memories r) = 1 \<and> active_memory s' = active_memory (system_store short_world marker_calls)"
proof -
  let ?s = "system_store short_world marker_calls"
  obtain r s' where r: "consolidate_event any_float short_world (hd (st_events ?s)) ?s = (Inr r, s')" "length (cn_memories r) = 1"
    "\<not> is_host_logical_user (hd (st_events ?s))"
    using marker_facts by (auto simp: Let_def split: prod.splits sum.splits)
  then show ?thesis using consolidation_respects_authority[OF system_store_reachable r(1)] by blast
qed

end
