(* ===== verification/Spec2Isabelle.thy ===== *)
theory Spec2Isabelle
  imports LogProps Normalize AuthorityProps WorkerLease Transactions FinalizationProps TranscriptFacts SnapshotProps PromptProps SettlementProps
begin

text \<open>
  A verification development of Joiny-Mnemonic, a durable memory for coding agents (the
  package under \<open>src/src/joiny_mnemonic\<close>).

  \<^bold>\<open>The program.\<close>  An SQLite store keeps one append-only, hash-chained log of events on
  branches.  Everything else is derived from it and cites it: protected blocks of active
  memory, typed memory records with their provenance and valid time, workstreams, the ledgers
  of policies, findings and candidates, the audit of finalizations, extraction runs, snapshots
  and usage.  Hosts and the agent write through public calls whose provenance decides what a
  row may settle.  A session resumes from a snapshot, the events after it, and a prompt packet
  within a token budget.

  \<^bold>\<open>The parts.\<close>  Each theory names the file it models; the definitions keep the names of the
  functions.
  \<^item> Python: Prelude (exceptions, results, dictionaries, stable sorting), PyText (\<open>str\<close>), PyRegex
    (\<open>re\<close>), PyJson (\<open>json\<close>), Floats, Calendar and IsoFormat (\<open>datetime\<close>).
  \<^item> Data: Tables (schema of \<open>storage.py\<close>, \<open>models.py\<close>, \<open>provenance.py\<close>'s origins), Authority
    (\<open>provenance.py\<close>, \<open>transition_rules.py\<close>), Security (\<open>security.py\<close>), Temporal and Normalize
    (\<open>temporal.py\<close>).
  \<^item> The log: Store (\<open>storage.py\<close>: branches, lineage, sessions, appending, batches with receipts,
    queries, \<open>verify_chain\<close>); LogFacts has its invariant \<open>log_ok\<close> and the locale \<open>log_writer\<close> that
    every writer interprets; LogProps its properties.
  \<^item> Derived rows: Views (the locale \<open>branch_rows\<close>: what a branch sees of a table), Blocks,
    Memories and MemoryFacts, Tasks (\<open>task_storage.py\<close>), Ledger, Settlement
    (\<open>candidate_confirmation.py\<close>) with Histories (the locale \<open>ledger\<close>), LedgerFacts, PolicyFacts.
  \<^item> Extraction: Evidence (\<open>extraction.py\<close>: zones, evidence, the parser), ExtractionRuns and
    ExtractionFacts (attempts, commits, the backlog), WorkerLease.
  \<^item> Finalization, FinalizationFacts, FinalizationProps (\<open>finalization*.py\<close>).
  \<^item> The store as a whole: Growth (nothing is rewritten), System (\<open>store_call\<close>, \<open>reachable\<close>, the
    invariant \<open>store_ok\<close>), ActiveMemory, SystemProps, AuthorityProps; Transactions
    (\<open>transactions.py\<close>).
  \<^item> Around it: Transcript and TranscriptFacts (\<open>transcript.py\<close>), Vault, Replay and Usage
    (snapshots, \<open>snapshots.py\<close>, \<open>usage.py\<close>, \<open>governor.py\<close>, \<open>context_limits.py\<close>), VaultSystem and
    VaultProps.
  \<^item> Tool outputs and prompts: Artifacts (\<open>storage.py\<close>: artifacts, views of tool outputs), Reducers and
    ReducerProps (\<open>reducers.py\<close>), Prompt and PromptProps (\<open>prompt.py\<close>); ReplayFacts and
    SnapshotProps relate a replayed state to the tables.
  \<^item> Maintenance: Reconciler (\<open>reconciler.py\<close>: completed tasks, closures, undoing, hygiene),
    SettlementSurface (\<open>settlement.py\<close>), Consolidation (\<open>consolidation.py\<close>: markers, blocks,
    summaries); ReconcilerFacts, CompletionFacts, SettleFacts and ConsolidationFacts say what their
    steps may touch, SettlementProps has their properties.

  \<^bold>\<open>How it is modelled.\<close>  A table is a list of records in the order of insertion; SQL queries are
  filters, stable sorts and folds over it, constraints and triggers are checks that return the
  exception.  An operation maps the store to a result, \<open>Inl\<close> the exception or \<open>Inr\<close> the value
  and the new store; a failed call leaves the store as it was, which is the roll-back that
  theory Transactions proves of the nested transactions.  Dictionaries are association lists in
  the order of insertion.  What the process reads from outside is the record \<open>world\<close> (the stream
  of UUIDs, the clocks, SHA-256, custom redaction rules) or an argument: the extractor plugin,
  \<open>zlib\<close>, the text of a float, the fingerprint of a project, the search engine, the token
  counter.  None of them is assumed to be injective or fresh; where a theorem needs a law of
  one, the law is its hypothesis.

  \<^bold>\<open>What the lemmas show.\<close>  Every operation has a \<open>_cases\<close> or \<open>_step\<close> lemma that says what a
  success has read and written, and its preservation of the invariant of its table
  (\<open>log_ok\<close>, \<open>blocks_ok\<close>, \<open>memories_ok\<close>, \<open>candidates_ok\<close>, \<open>policies_ok\<close>, \<open>findings_ok\<close>, \<open>tasks_ok\<close>,
  \<open>finalizations_ok\<close>, \<open>counters_ok\<close>).  System composes them: \<open>store_ok\<close> holds in every reachable
  store, whatever was called and whatever failed.  The properties C1 to C40 rest on these
  facts; each is named where it stands.

  \<^bold>\<open>Bounds and fuel.\<close>  No definition takes fuel.  Loops over tables are structural; the regex
  matcher and the JSON parser recurse on a shrinking rest of the text; the lineage walk ends
  because a parent stands before its child and a cycle is the code's own error; snapshots of
  snapshots end by the set of seen ids; the union-find loop of the transcript is a partial
  function, proved to return.

  \<^bold>\<open>Restrictions.\<close>  Texts are over the code points U+0000 to U+00FF.  Floats are the rationals
  they denote, without overflow.  Full-text index rows, the check of the database file before
  a read (\<open>integrity_checked\<close>), the mirror of the head hash outside the file, connections, locks
  and threads are not modelled: calls are atomic and follow each other.  Integers have no
  64-bit limit (SQLite's counters do).

  \<^bold>\<open>Not modelled.\<close>
  \<^item> Projections of the log and their failures (\<open>projection_storage.py\<close>, \<open>projection_failures.py\<close>),
    matching of free text (\<open>tasks.py\<close>, \<open>staleness.py\<close>, \<open>precheck.py\<close>): they write through the
    calls that are modelled.
  \<^item> Retrieval and the code index: ranking by SQLite's full-text search and by plugins.
  \<^item> Exported evidence, signatures and data flow traces (\<open>witness.py\<close>, \<open>report_signing.py\<close>,
    \<open>dataflow.py\<close>, \<open>dataflow_storage.py\<close>); context windows for reading (\<open>context.py\<close>).
  \<^item> Hooks, the MCP and HTTP servers, the command line, the installer and the explorer: input and
    output around the store.  Downloads, processes, benchmarks.
\<close>

end
